(* ===== verification/Prelude.thy ===== *)
theory Prelude
  imports Complex_Main "HOL-Library.Char_ord" "HOL-Library.List_Lexorder"
begin

text \<open>
  Shared vocabulary of the development: the result type of code that may throw, the list
  representation of a database table with the four Prisma operations the sources use
  (\<^verbatim>\<open>findUnique\<close>, \<^verbatim>\<open>create\<close>, \<^verbatim>\<open>update\<close>, \<^verbatim>\<open>updateMany\<close>), column sums, and the lemma
  collections the component theories rely on. The locale \<open>row_store\<close> is the interface
  between the tables and the money components: what a look-up returns after a write and how
  a write changes a column sum.
\<close>

section \<open>Lemma collections\<close>

named_theorems result_simps \<open>inversion of successful computations\<close>
named_theorems row_simps \<open>how table operations change look-ups and sums\<close>
named_theorems tx_defs \<open>definitions of the transaction steps\<close>

section \<open>Results\<close>

text \<open>
  Everything a function under \<^verbatim>\<open>src/lib\<close> can throw: an \<open>HttpError\<close> with its
  status and message (\<^verbatim>\<open>lib/rbac.ts\<close>), a \<open>RangeError\<close>, a plain \<open>Error\<close>, a zod
  validation error, a Prisma client error with its code, or a PostgreSQL error with its
  SQLSTATE.
\<close>

datatype err =
    HttpError int string
  | RangeError string
  | JsError string
  | ZodError string
  | PrismaError string
  | PgError string

type_synonym 'a result = "err + 'a"

definition rbind :: "'a result \<Rightarrow> ('a \<Rightarrow> 'b result) \<Rightarrow> 'b result" where
  "rbind m k = (case m of Inl e \<Rightarrow> Inl e | Inr x \<Rightarrow> k x)"

lemma rbind_simps [simp]:
  "rbind (Inl e) k = Inl e"
  "rbind (Inr x) k = k x"
  by (simp_all add: rbind_def)

lemma rbind_Inr_iff [result_simps]:
  "rbind m k = Inr y \<longleftrightarrow> (\<exists>x. m = Inr x \<and> k x = Inr y)"
  by (cases m) auto

lemma rbind_Inl_iff:
  "rbind m k = Inl e \<longleftrightarrow> m = Inl e \<or> (\<exists>x. m = Inr x \<and> k x = Inl e)"
  by (cases m) auto

lemma rbind_cong [fundef_cong, cong]:
  "m = m' \<Longrightarrow> (\<And>x. m' = Inr x \<Longrightarrow> k x = k' x) \<Longrightarrow> rbind m k = rbind m' k'"
  by (cases m') auto

lemma if_Inl_eq_Inr [result_simps]:
  "(if b then Inl e else x) = Inr y \<longleftrightarrow> \<not> b \<and> x = Inr y"
  by simp

lemma if_not_Inl_eq_Inr [result_simps]:
  "(if b then x else Inl e) = Inr y \<longleftrightarrow> b \<and> x = Inr y"
  by simp

lemma case_option_Inl_eq_Inr [result_simps]:
  "(case m of None \<Rightarrow> Inl e | Some x \<Rightarrow> k x) = Inr y \<longleftrightarrow> (\<exists>x. m = Some x \<and> k x = Inr y)"
  by (cases m) auto

lemma case_prod_eq_Inr [result_simps]:
  "(case p of (a, b) \<Rightarrow> k a b) = Inr y \<longleftrightarrow> (\<exists>a b. p = (a, b) \<and> k a b = Inr y)"
  by (cases p) auto

lemma Inr_pair_eq [result_simps]:
  "(Inr (a, b) = (Inr p :: 'e + _)) \<longleftrightarrow> p = (a, b)"
  by auto

section \<open>JavaScript helpers\<close>

type_synonym ident = string

text \<open>\<^verbatim>\<open>Number.isSafeInteger\<close> on an integral number, and the range of a PostgreSQL \<^verbatim>\<open>integer\<close>.\<close>

definition isSafeInteger :: "int \<Rightarrow> bool" where
  "isSafeInteger n \<longleftrightarrow> \<bar>n\<bar> \<le> 9007199254740991"

definition int4 :: "int \<Rightarrow> bool" where
  "int4 n \<longleftrightarrow> - 2147483648 \<le> n \<and> n \<le> 2147483647"

text \<open>\<^verbatim>\<open>String.prototype.trim\<close> on the white space an ASCII string can hold.\<close>

definition js_space :: "char \<Rightarrow> bool" where
  "js_space c \<longleftrightarrow> c = CHR '' '' \<or> c = CHR 0x09 \<or> c = CHR 0x0A \<or> c = CHR 0x0B \<or> c = CHR 0x0C
     \<or> c = CHR 0x0D"

definition js_trim :: "string \<Rightarrow> string" where
  "js_trim s = rev (dropWhile js_space (rev (dropWhile js_space s)))"

text \<open>\<^verbatim>\<open>toUpperCase\<close> and \<^verbatim>\<open>toLowerCase\<close> on ASCII letters.\<close>

definition char_upper :: "char \<Rightarrow> char" where
  "char_upper c = (let n = (of_char c :: nat) in if 97 \<le> n \<and> n \<le> 122 then char_of (n - 32) else c)"

definition char_lower :: "char \<Rightarrow> char" where
  "char_lower c = (let n = (of_char c :: nat) in if 65 \<le> n \<and> n \<le> 90 then char_of (n + 32) else c)"

abbreviation js_upper :: "string \<Rightarrow> string" where "js_upper \<equiv> map char_upper"
abbreviation js_lower :: "string \<Rightarrow> string" where "js_lower \<equiv> map char_lower"

text \<open>\<^verbatim>\<open>s.startsWith(p)\<close>.\<close>

fun startsWith :: "string \<Rightarrow> string \<Rightarrow> bool" where
  "startsWith s [] = True"
| "startsWith [] (p # ps) = False"
| "startsWith (c # s) (p # ps) = (c = p \<and> startsWith s ps)"

lemma startsWith_append: "startsWith s p \<longleftrightarrow> (\<exists>r. s = p @ r)"
  by (induction s p rule: startsWith.induct) auto

text \<open>\<open>value ?? fallback\<close>.\<close>

definition nullish :: "'a option \<Rightarrow> 'a \<Rightarrow> 'a" where
  "nullish v d = (case v of None \<Rightarrow> d | Some x \<Rightarrow> x)"

lemma nullish_simps [simp]:
  "nullish None d = d"
  "nullish (Some x) d = x"
  by (simp_all add: nullish_def)

section \<open>Tables\<close>

text \<open>
  A table is the list of its rows in insertion order. \<open>find_by key k t\<close> is
  \<^verbatim>\<open>findUnique\<close> on the column \<open>key\<close>, \<open>upd_by key k f t\<close> rewrites the rows that have the key.
\<close>

definition find_by :: "('r \<Rightarrow> 'k) \<Rightarrow> 'k \<Rightarrow> 'r list \<Rightarrow> 'r option" where
  "find_by key k t = List.find (\<lambda>r. key r = k) t"

definition upd_by :: "('r \<Rightarrow> 'k) \<Rightarrow> 'k \<Rightarrow> ('r \<Rightarrow> 'r) \<Rightarrow> 'r list \<Rightarrow> 'r list" where
  "upd_by key k f t = map (\<lambda>r. if key r = k then f r else r) t"

definition uniq :: "('r \<Rightarrow> 'k) \<Rightarrow> 'r list \<Rightarrow> bool" where
  "uniq key t \<longleftrightarrow> distinct (map key t)"

definition tsum :: "('r \<Rightarrow> int) \<Rightarrow> 'r list \<Rightarrow> int" where
  "tsum f t = sum_list (map f t)"

text \<open>
  \<open>create\<close> refuses a row that breaks a column range (SQLSTATE 22003, numeric value out of
  range) or a unique index (Prisma P2002); \<open>update\<close> of one row refuses a missing row
  (Prisma P2025) or a value out of range; \<^verbatim>\<open>findUniqueOrThrow\<close> refuses a missing row.
\<close>

definition create_row :: "('r \<Rightarrow> bool) \<Rightarrow> ('r \<Rightarrow> 'r \<Rightarrow> bool) \<Rightarrow> 'r \<Rightarrow> 'r list \<Rightarrow> 'r list result" where
  "create_row ok clash r t =
     (if \<not> ok r then Inl (PgError ''22003'')
      else if list_ex (clash r) t then Inl (PrismaError ''P2002'')
      else Inr (t @ [r]))"

definition find_or_throw :: "('r \<Rightarrow> 'k) \<Rightarrow> 'k \<Rightarrow> 'r list \<Rightarrow> 'r result" where
  "find_or_throw key k t =
     (case find_by key k t of None \<Rightarrow> Inl (PrismaError ''P2025'') | Some r \<Rightarrow> Inr r)"

definition update_row ::
  "('r \<Rightarrow> bool) \<Rightarrow> ('r \<Rightarrow> 'k) \<Rightarrow> 'k \<Rightarrow> ('r \<Rightarrow> 'r) \<Rightarrow> 'r list \<Rightarrow> 'r list result" where
  "update_row ok key k f t =
     (case find_by key k t of
        None \<Rightarrow> Inl (PrismaError ''P2025'')
      | Some r \<Rightarrow> if ok (f r) then Inr (upd_by key k f t) else Inl (PgError ''22003''))"

subsection \<open>Laws of look-up, update and sum\<close>

lemma find_by_Nil [simp]: "find_by key k [] = None"
  by (simp add: find_by_def)

lemma find_by_Cons [simp]:
  "find_by key k (r # t) = (if key r = k then Some r else find_by key k t)"
  by (simp add: find_by_def)

lemma find_by_append [row_simps]:
  "find_by key k (t @ u) = (case find_by key k t of None \<Rightarrow> find_by key k u | Some r \<Rightarrow> Some r)"
  by (induction t) auto

lemma find_by_SomeD: "find_by key k t = Some r \<Longrightarrow> r \<in> set t \<and> key r = k"
  by (induction t) (auto split: if_splits)

lemma find_by_None_iff: "find_by key k t = None \<longleftrightarrow> k \<notin> key ` set t"
  by (induction t) auto

lemma find_by_uniqI: "uniq key t \<Longrightarrow> r \<in> set t \<Longrightarrow> find_by key (key r) t = Some r"
  by (induction t) (auto simp: uniq_def)

lemma upd_by_Nil [simp]: "upd_by key k f [] = []"
  by (simp add: upd_by_def)

lemma upd_by_Cons [simp]:
  "upd_by key k f (r # t) = (if key r = k then f r else r) # upd_by key k f t"
  by (simp add: upd_by_def)

lemma length_upd_by [simp]: "length (upd_by key k f t) = length t"
  by (simp add: upd_by_def)

lemma upd_by_absent: "k \<notin> key ` set t \<Longrightarrow> upd_by key k f t = t"
  by (induction t) auto

lemma find_by_upd_by [row_simps]:
  assumes "\<And>r. key (f r) = key r"
  shows "find_by key k' (upd_by key k f t) =
    (if k' = k then map_option f (find_by key k t) else find_by key k' t)"
  using assms by (induction t) auto

lemma map_key_upd_by:
  assumes "\<And>r. g (f r) = g r"
  shows "map g (upd_by key k f t) = map g t"
  using assms by (induction t) auto

lemma uniq_upd_by [row_simps]:
  assumes "\<And>r. g (f r) = g r"
  shows "uniq g (upd_by key k f t) = uniq g t"
  using assms by (simp add: uniq_def map_key_upd_by)

lemma uniq_append [row_simps]:
  "uniq key (t @ [r]) \<longleftrightarrow> uniq key t \<and> key r \<notin> key ` set t"
  by (auto simp: uniq_def)

lemma tsum_Nil [simp]: "tsum f [] = 0"
  by (simp add: tsum_def)

lemma tsum_Cons [simp]: "tsum f (r # t) = f r + tsum f t"
  by (simp add: tsum_def)

lemma tsum_append [simp]: "tsum f (t @ u) = tsum f t + tsum f u"
  by (simp add: tsum_def)

lemma tsum_upd_by_absent:
  "k \<notin> key ` set t \<Longrightarrow> tsum f (upd_by key k g t) = tsum f t"
  by (simp add: upd_by_absent)

lemma tsum_upd_by [row_simps]:
  assumes "uniq key t" and "find_by key k t = Some r"
  shows "tsum f (upd_by key k g t) = tsum f t - f r + f (g r)"
  using assms
proof (induction t)
  case Nil
  then show ?case by simp
next
  case (Cons a t)
  show ?case
  proof (cases "key a = k")
    case True
    with Cons.prems have "k \<notin> key ` set t" by (auto simp: uniq_def)
    with True Cons.prems show ?thesis by (simp add: upd_by_absent)
  next
    case False
    with Cons.prems have "tsum f (upd_by key k g t) = tsum f t - f r + f (g r)"
      by (intro Cons.IH) (auto simp: uniq_def)
    with False show ?thesis by simp
  qed
qed

lemma tsum_upd_by_same:
  assumes "\<And>r. f (g r) = f r"
  shows "tsum f (upd_by key k g t) = tsum f t"
  using assms by (induction t) auto

lemma tsum_nonneg: "(\<And>r. r \<in> set t \<Longrightarrow> 0 \<le> f r) \<Longrightarrow> 0 \<le> tsum f t"
  by (induction t) (auto intro: add_nonneg_nonneg)

lemma tsum_mono: "(\<And>r. r \<in> set t \<Longrightarrow> f r \<le> g r) \<Longrightarrow> tsum f t \<le> tsum g t"
  by (induction t) (auto intro: add_mono)

lemma tsum_add: "tsum (\<lambda>r. f r + g r) t = tsum f t + tsum g t"
  by (induction t) auto

lemma tsum_diff: "tsum (\<lambda>r. f r - g r) t = tsum f t - tsum g t"
  by (induction t) auto

lemma tsum_cong: "(\<And>r. r \<in> set t \<Longrightarrow> f r = g r) \<Longrightarrow> tsum f t = tsum g t"
  by (induction t) auto

lemma tsum_zero: "\<forall>r \<in> set t. f r = 0 \<Longrightarrow> tsum f t = 0"
  by (induction t) auto

lemma upd_by_ident: "(\<And>r. f r = r) \<Longrightarrow> upd_by key k f t = t"
  by (induction t) auto

lemma tsum_member_le:
  assumes "\<And>r. r \<in> set t \<Longrightarrow> 0 \<le> f r" and "r \<in> set t"
  shows "f r \<le> tsum f t"
  using assms
proof (induction t)
  case Nil
  then show ?case by simp
next
  case (Cons a t)
  then have rest: "0 \<le> tsum f t" by (intro tsum_nonneg) simp
  show ?case
  proof (cases "r = a")
    case True
    with rest show ?thesis by simp
  next
    case False
    with Cons have "f r \<le> tsum f t" "0 \<le> f a" by auto
    then show ?thesis by simp
  qed
qed

lemma set_upd_by: "set (upd_by key k f t) = (\<lambda>r. if key r = k then f r else r) ` set t"
  by (simp add: upd_by_def)

lemma ball_upd_by:
  assumes "\<forall>r \<in> set t. P r" and "\<And>r. r \<in> set t \<Longrightarrow> key r = k \<Longrightarrow> P r \<Longrightarrow> P (f r)"
  shows "\<forall>r \<in> set (upd_by key k f t). P r"
  using assms by (auto simp: set_upd_by)

lemma create_row_Inr [result_simps]:
  "create_row ok clash r t = Inr t' \<longleftrightarrow> ok r \<and> \<not> list_ex (clash r) t \<and> t' = t @ [r]"
  by (auto simp: create_row_def)

lemma find_or_throw_Inr [result_simps]:
  "find_or_throw key k t = Inr r \<longleftrightarrow> find_by key k t = Some r"
  by (auto simp: find_or_throw_def split: option.splits)

lemma update_row_Inr [result_simps]:
  "update_row ok key k f t = Inr t' \<longleftrightarrow>
     (\<exists>r. find_by key k t = Some r \<and> ok (f r) \<and> t' = upd_by key k f t)"
  by (auto simp: update_row_def split: option.splits)

section \<open>The interface of a table\<close>

text \<open>
  What the money components rely on, stated once: writes change exactly one row, keep the
  keys unique, and move a column sum by the difference of the written row.
\<close>

locale row_store =
  fixes key :: "'r \<Rightarrow> 'k"
    and find_row :: "'k \<Rightarrow> 't \<Rightarrow> 'r option"
    and modify :: "'k \<Rightarrow> ('r \<Rightarrow> 'r) \<Rightarrow> 't \<Rightarrow> 't"
    and add :: "'r \<Rightarrow> 't \<Rightarrow> 't"
    and col_sum :: "('r \<Rightarrow> int) \<Rightarrow> 't \<Rightarrow> int"
    and wf :: "'t \<Rightarrow> bool"
  assumes find_add: "wf t \<Longrightarrow> find_row (key r) t = None \<Longrightarrow>
      find_row k (add r t) = (if k = key r then Some r else find_row k t)"
    and find_modify: "wf t \<Longrightarrow> (\<And>r. key (f r) = key r) \<Longrightarrow>
      find_row k' (modify k f t) = (if k' = k then map_option f (find_row k t) else find_row k' t)"
    and sum_add: "wf t \<Longrightarrow> col_sum w (add r t) = col_sum w t + w r"
    and sum_modify: "wf t \<Longrightarrow> find_row k t = Some r \<Longrightarrow>
      col_sum w (modify k f t) = col_sum w t - w r + w (f r)"
    and wf_add: "wf t \<Longrightarrow> find_row (key r) t = None \<Longrightarrow> wf (add r t)"
    and wf_modify: "wf t \<Longrightarrow> (\<And>r. key (f r) = key r) \<Longrightarrow> wf (modify k f t)"
begin

text \<open>A write that keeps the weight of its row keeps the sum.\<close>

lemma sum_modify_same:
  assumes "wf t" "find_row k t = Some r" "w (f r) = w r"
  shows "col_sum w (modify k f t) = col_sum w t"
  using sum_modify [OF assms(1,2), of w f] assms(3) by simp

text \<open>Raising the weight of one row by \<open>d\<close> raises the sum by \<open>d\<close>.\<close>

lemma sum_modify_shift:
  assumes "wf t" "find_row k t = Some r" "w (f r) = w r + d"
  shows "col_sum w (modify k f t) = col_sum w t + d"
  using sum_modify [OF assms(1,2), of w f] assms(3) by simp

text \<open>Two writes to the same row: only the composition counts.\<close>

lemma sum_modify_twice:
  assumes "wf t" "find_row k t = Some r" "\<And>r. key (f r) = key r"
  shows "col_sum w (modify k g (modify k f t)) = col_sum w t - w r + w (g (f r))"
proof -
  have "find_row k (modify k f t) = Some (f r)"
    using assms by (simp add: find_modify)
  moreover have "wf (modify k f t)"
    using assms by (simp add: wf_modify)
  ultimately show ?thesis
    using sum_modify [of "modify k f t" k "f r" w g] sum_modify [OF assms(1,2), of w f] by simp
qed

text \<open>A read after a write of another row is unchanged.\<close>

lemma find_modify_other:
  assumes "wf t" "\<And>r. key (f r) = key r" "k' \<noteq> k"
  shows "find_row k' (modify k f t) = find_row k' t"
  using assms by (simp add: find_modify)

end

lemma row_store_list:
  "row_store key (find_by key) (upd_by key) (\<lambda>r t. t @ [r]) tsum (uniq key)"
proof (unfold_locales, goal_cases)
  case (1 t r k)
  then show ?case by (cases "find_by key k t") (auto simp: find_by_append)
next
  case (2 t f k' k)
  then show ?case by (simp add: find_by_upd_by)
next
  case (3 t w r)
  then show ?case by simp
next
  case (4 t k r w f)
  then show ?case by (simp add: tsum_upd_by)
next
  case (5 t r)
  then show ?case by (auto simp: uniq_append find_by_None_iff)
next
  case (6 t f k)
  then show ?case by (simp add: uniq_upd_by)
qed

section \<open>The interface of a state machine\<close>

text \<open>
  A component with an initial state, a step relation and an invariant every step keeps: the
  invariant holds in every state the component can reach.
\<close>

locale invariant_system =
  fixes init :: "'s \<Rightarrow> bool" and step :: "'s \<Rightarrow> 's \<Rightarrow> bool" and inv :: "'s \<Rightarrow> bool"
  assumes init_inv: "init s \<Longrightarrow> inv s"
    and step_inv: "inv s \<Longrightarrow> step s s' \<Longrightarrow> inv s'"
begin

lemma steps_inv: "step\<^sup>*\<^sup>* s s' \<Longrightarrow> inv s \<Longrightarrow> inv s'"
  by (induction rule: rtranclp_induct) (auto intro: step_inv)

lemma reachable_inv: "init s \<Longrightarrow> step\<^sup>*\<^sup>* s s' \<Longrightarrow> inv s'"
  using steps_inv init_inv by blast

end

section \<open>The interface of a retried operation\<close>

text \<open>
  An operation with a durable idempotency key: a run that succeeds leaves its mark, and a run
  that finds the mark changes nothing of the view. Then any number of retries has the effect of
  one run.
\<close>

fun run_times :: "nat \<Rightarrow> ('s \<Rightarrow> ('r \<times> 's) result) \<Rightarrow> 's \<Rightarrow> 's result" where
  "run_times 0 run s = Inr s"
| "run_times (Suc n) run s = rbind (run s) (\<lambda>(_, s'). run_times n run s')"

locale retry_safe =
  fixes run :: "'s \<Rightarrow> ('r \<times> 's) result" and view :: "'s \<Rightarrow> 'v" and marked :: "'s \<Rightarrow> bool"
  assumes run_marks: "run s = Inr (r, s') \<Longrightarrow> marked s'"
    and marked_noop: "marked s \<Longrightarrow> run s = Inr (r, s') \<Longrightarrow> view s' = view s"
begin

lemma retry_changes_nothing:
  "run s = Inr (r, s1) \<Longrightarrow> run s1 = Inr (r', s2) \<Longrightarrow> view s2 = view s1"
  using run_marks marked_noop by blast

lemma retries_marked: "marked s \<Longrightarrow> run_times n run s = Inr s' \<Longrightarrow> view s' = view s"
proof (induction n arbitrary: s)
  case (Suc n)
  then obtain r s1 where "run s = Inr (r, s1)" "run_times n run s1 = Inr s'" by (auto simp: result_simps)
  with Suc run_marks marked_noop show ?case by metis
qed simp

lemma retries_once:
  assumes "run s = Inr (r, s1)" "run_times n run s1 = Inr s2"
  shows "view s2 = view s1"
  using retries_marked [OF run_marks [OF assms(1)] assms(2)] .

end

end
