(* ===== verification/Schema.thy ===== *)
theory Schema
  imports Prelude
begin

text \<open>
  The data model of \<^verbatim>\<open>src/prisma/schema.prisma\<close> as far as the modelled components read or
  write it: the enums, one record per table (the columns the code touches, prefixed by the
  table because record fields share one name space), the column ranges and unique indexes a
  write is checked against, and the state \<open>db\<close> of one transaction: the tables, the row locks
  the transaction holds in the order it took them, and the counter of generated ids.
  \<open>world\<close> collects what the sources take from outside the repository: the clock, the id
  generator (\<^verbatim>\<open>cuid()\<close>, \<^verbatim>\<open>randomUUID()\<close>), the process environment, and the functions of
  \<^verbatim>\<open>node:crypto\<close>. Times are milliseconds since the epoch; one transaction reads one instant.
\<close>

section \<open>Enums\<close>

datatype role = SUPERADMIN | ADMIN | PENGEPUL | USER
datatype user_status = US_ACTIVE | US_INACTIVE | US_SUSPENDED
datatype campaign_type = MACHINE_DEPOSIT | TRASH_BAG | EVENT | SCHOOL_PROGRAM | TOURISM_PROGRAM
datatype campaign_status = CS_DRAFT | CS_ACTIVE | CS_PAUSED | CS_ENDED
datatype reward_mode = MONEY_REWARD | COMPLIANCE_ONLY
datatype case_status = CASE_OPEN | CASE_RESOLVED
datatype funding_kind = CONFIRMED_TOPUP | PAYOUT | CORRECTION
datatype reservation_source = SESSION | TRIP
datatype reservation_status = RES_ACTIVE | RES_RELEASED
datatype session_status =
  SS_RESERVED | SS_ACTIVE | SS_PROCESSING_ITEM | SS_COMPLETED | SS_REVIEW | SS_CANCELLED | SS_EXPIRED
datatype item_status = IS_PENDING | IS_ACCEPTED | IS_REJECTED | IS_REVIEW
datatype entry_type = EARN | REDEEM | PENALTY | REVERSE | ADJUST
datatype ledger_status = LS_PENDING | LS_AVAILABLE | LS_REDEEMED | LS_REVERSED | LS_REJECTED
datatype provider = LINKAJA | GOPAY | OVO | DANA | SHOPEEPAY | BANK | OTHER
datatype payout_status = PA_UNVERIFIED | PA_VERIFIED | PA_DISABLED
datatype destination_source = REQUEST_SNAPSHOT | LEGACY_ACCOUNT_FALLBACK | LEGACY_UNAVAILABLE
datatype redemption_status =
  RS_REQUESTED | RS_APPROVED | RS_PROCESSING | RS_SUCCESS | RS_FAILED | RS_REVERSED
datatype trip_status = TS_PLANNED | TS_ACTIVE | TS_COMPLETED | TS_CANCELLED
datatype condition = GOOD | PARTIAL | POOR | NOT_RETURNED
datatype waste_unit = ITEM | KG
datatype org_status = OS_ACTIVE | OS_INACTIVE | OS_SUSPENDED
datatype visibility = VIS_PUBLIC | VIS_PRIVATE
datatype machine_status = MS_ONLINE | MS_OFFLINE | MS_FULL | MS_MAINTENANCE | MS_ERROR
datatype material_policy = AI_REQUIRED | BARCODE_WEIGHT | WEIGHT_ONLY
datatype compaction_status = CP_NOT_REQUIRED | CP_PENDING | CP_COMPACTED | CP_FAILED
datatype event_type =
    EV_HEARTBEAT | EV_QR_REFRESHED | EV_CHAMBER_OPENED | EV_CHAMBER_TIMEOUT | EV_ITEM_DETECTED | EV_WEIGHT_MEASURED
  | EV_IMAGE_CLASSIFIED | EV_BARCODE_READ | EV_SENSOR_SEQUENCE | EV_ITEM_ACCEPTED_POINT | EV_ITEM_REJECTED
  | EV_CONVEYOR_STARTED | EV_COMPACTION_STARTED | EV_COMPACTION_COMPLETED | EV_FRAUD_DETECTED | EV_VANDALISM_DETECTED
  | EV_SAFE_STATE_ENTERED | EV_STATUS_CHANGED | EV_FILL_LEVEL_UPDATED | EV_ERROR | EV_SESSION_CLOSE_WATERMARK
datatype pickup_status =
  PK_REQUESTED | PK_ASSIGNED | PK_ON_THE_WAY | PK_ARRIVED | PK_COLLECTED | PK_COMPLETED | PK_FAILED | PK_CANCELLED
datatype pickup_reason = PR_FULL | PR_SCHEDULED | PR_MANUAL | PR_ERROR
datatype erasure_step_name = ANONYMIZE_ACCOUNT | DELETE_PROOF_FILES

section \<open>Rows\<close>

record user =
  usr_id :: ident
  usr_status :: user_status
  usr_email :: string

text \<open>\<^verbatim>\<open>ErasureJobStep\<close> joined with the owner of its \<^verbatim>\<open>DeletionRequest\<close>.\<close>

record erasure_step =
  ers_id :: ident
  ers_userId :: ident
  ers_step :: erasure_step_name
  ers_completedAt :: "int option"

record organization =
  org_id :: ident
  org_name :: string
  org_machineRewardMode :: reward_mode
  org_status :: org_status

record campaign =
  cmp_id :: ident
  cmp_organizationId :: ident
  cmp_name :: string
  cmp_campaignType :: campaign_type
  cmp_rewardMode :: reward_mode
  cmp_supportsMachine :: bool
  cmp_status :: campaign_status
  cmp_rewardMultiplier :: "rat option"
  cmp_rewardBudgetRupiah :: "int option"
  cmp_heldRupiah :: int
  cmp_spentRupiah :: int
  cmp_maxRewardPerSessionRupiah :: "int option"
  cmp_visibility :: visibility
  cmp_allowedEmailDomains :: "string list option"
  cmp_startAt :: "int option"
  cmp_endAt :: "int option"

record machine =
  mac_id :: ident
  mac_organizationId :: ident
  mac_maxRewardPerSessionRupiah :: "int option"
  mac_machineCode :: string
  mac_qrToken :: "string option"
  mac_qrTokenExpiresAt :: "int option"
  mac_status :: machine_status
  mac_hasCompactor :: bool
  mac_materialVerification :: material_policy
  mac_sessionIdleTimeoutMinutes :: int
  mac_maxItemsPerSession :: "int option"
  mac_fillLevelPercent :: int
  mac_lastHeartbeatAt :: "int option"

record waste_type =
  wt_id :: ident
  wt_name :: string
  wt_unit :: waste_unit
  wt_minWeightGrams :: "int option"
  wt_maxWeightGrams :: "int option"
  wt_defaultRewardPerItem :: "int option"
  wt_active :: bool
  wt_aiAcceptedLabels :: "string list"
  wt_organizationId :: "ident option"

record machine_waste_type =
  mwt_machineId :: ident
  mwt_wasteTypeId :: ident
  mwt_active :: bool

record reward_rate =
  rr_id :: ident
  rr_organizationId :: "ident option"
  rr_campaignId :: "ident option"
  rr_wasteTypeId :: ident
  rr_unit :: waste_unit
  rr_pointsPerItem :: int
  rr_minWeightGrams :: "int option"
  rr_maxWeightGrams :: "int option"
  rr_effectiveFrom :: int
  rr_effectiveTo :: "int option"
  rr_active :: bool

text \<open>
  The stored session snapshot before \<^verbatim>\<open>parseSessionPolicy\<close> validated its values. A JSON column
  that does not even have this shape reads as no snapshot, which is what the parser makes of it.
\<close>

record policy_type =
  pt_id :: ident
  pt_unit :: waste_unit
  pt_rewardPerUnit :: int
  pt_maxRewardRupiah :: "int option"
  pt_rewardRateId :: "ident option"
  pt_minWeightGrams :: "int option"
  pt_maxWeightGrams :: "int option"

record policy_snapshot =
  ps_version :: int
  ps_mode :: reward_mode
  ps_multiplierBps :: int
  ps_ceilingRupiah :: "int option"
  ps_maxItems :: "int option"
  ps_capturedAt :: string
  ps_wasteTypes :: "policy_type list"

record session =
  ses_id :: ident
  ses_userId :: ident
  ses_machineId :: ident
  ses_campaignId :: "ident option"
  ses_status :: session_status
  ses_startedAt :: int
  ses_policySnapshot :: "policy_snapshot option"
  ses_closeWatermarkAt :: "int option"
  ses_closeWatermarkEventCount :: "int option"
  ses_completedAt :: "int option"
  ses_timeoutAt :: "int option"
  ses_anomalyCount :: int
  ses_policyVersion :: "string option"

text \<open>The sensor path a machine reported for an item.\<close>

record sensor_sequence =
  sq_steps :: "string list option"
  sq_reverseMotion :: bool
  sq_retrievalAttempt :: bool
  sq_impossibleSequence :: bool

record item =
  itm_id :: ident
  itm_sessionId :: ident
  itm_status :: item_status
  itm_acceptanceEventId :: "ident option"
  itm_wasteTypeId :: ident
  itm_quantity :: int
  itm_measuredWeightGrams :: "int option"
  itm_aiDetectedType :: "string option"
  itm_aiConfidence :: "rat option"
  itm_barcodeValue :: "string option"
  itm_rewardRateId :: "ident option"
  itm_baseRewardAmount :: int
  itm_complianceMultiplier :: rat
  itm_rewardAmount :: int
  itm_validationReasonCode :: "string option"
  itm_sensorSequence :: "sensor_sequence option"
  itm_acceptedAt :: "int option"
  itm_externalFraudFlag :: bool
  itm_compactionStatus :: compaction_status
  itm_createdAt :: int
  itm_updatedAt :: int

record trip =
  trp_id :: ident
  trp_campaignId :: ident
  trp_userId :: "ident option"
  trp_status :: trip_status
  trp_createdAt :: int

record bag =
  bag_id :: ident
  bag_tripId :: ident
  bag_qrCode :: string
  bag_status :: "condition option"

record machine_event =
  mev_id :: ident
  mev_machineId :: ident
  mev_sessionId :: "ident option"
  mev_localEventId :: string
  mev_eventType :: event_type
  mev_depositItemId :: "ident option"
  mev_occurredAt :: int

record pickup =
  pck_id :: ident
  pck_machineId :: "ident option"
  pck_organizationId :: ident
  pck_requestedById :: "ident option"
  pck_assignedCollectorId :: "ident option"
  pck_collectorPartnerId :: "ident option"
  pck_status :: pickup_status
  pck_priority :: int
  pck_reason :: pickup_reason
  pck_notes :: "string option"
  pck_version :: int
  pck_assignedAt :: "int option"
  pck_expectedStartAt :: "int option"
  pck_lastEscalatedAt :: "int option"
  pck_closedReason :: "string option"
  pck_replacesPickupId :: "ident option"
  pck_createdAt :: int

record account =
  acc_id :: ident
  acc_organizationId :: ident
  acc_confirmedRupiah :: int
  acc_heldRupiah :: int
  acc_version :: int

record funding_entry =
  fe_id :: ident
  fe_accountId :: ident
  fe_businessKey :: string
  fe_kind :: funding_kind
  fe_amount :: int
  fe_reference :: string
  fe_note :: "string option"
  fe_verifiedById :: "ident option"

record reservation =
  rsv_id :: ident
  rsv_businessKey :: string
  rsv_accountId :: ident
  rsv_campaignId :: "ident option"
  rsv_userId :: ident
  rsv_sourceType :: reservation_source
  rsv_sourceId :: ident
  rsv_ceilingRupiah :: int
  rsv_remainingRupiah :: int
  rsv_shortfallRupiah :: int
  rsv_campaignShortfallRupiah :: int
  rsv_lateReservation :: bool
  rsv_status :: reservation_status
  rsv_releasedAt :: "int option"
  rsv_releasedById :: "ident option"
  rsv_releaseReason :: "string option"
  rsv_createdAt :: int

record release =
  rel_id :: ident
  rel_reservationId :: ident
  rel_accountId :: ident
  rel_campaignId :: "ident option"
  rel_businessKey :: string
  rel_amount :: int
  rel_reason :: "string option"
  rel_releasedById :: "ident option"

record commit =
  com_id :: ident
  com_reservationId :: ident
  com_accountId :: ident
  com_campaignId :: "ident option"
  com_userId :: ident
  com_businessKey :: string
  com_heldRupiah :: int
  com_paidRupiah :: int
  com_uncoveredRupiah :: int
  com_reviewPending :: bool
  com_createdAt :: int

record ledger =
  led_id :: ident
  led_userId :: ident
  led_organizationId :: "ident option"
  led_sessionId :: "ident option"
  led_depositItemId :: "ident option"
  led_campaignId :: "ident option"
  led_entryType :: entry_type
  led_amount :: int
  led_status :: ledger_status
  led_reasonCode :: "string option"
  led_referenceType :: "string option"
  led_referenceId :: "ident option"
  led_actorId :: "ident option"
  led_businessKey :: "string option"
  led_createdAt :: int

record reward_case =
  rc_id :: ident
  rc_businessKey :: string
  rc_userId :: ident
  rc_depositItemId :: "ident option"
  rc_amount :: int
  rc_entryType :: entry_type
  rc_reasonCode :: string
  rc_referenceType :: "string option"
  rc_referenceId :: "ident option"
  rc_status :: case_status
  rc_note :: "string option"
  rc_resolvedAt :: "int option"
  rc_resolvedById :: "ident option"

record payout_account =
  pac_id :: ident
  pac_userId :: ident
  pac_provider :: provider
  pac_accountIdentifier :: string
  pac_accountName :: "string option"
  pac_status :: payout_status

text \<open>The five \<^verbatim>\<open>payoutDestination*\<close> columns of a redemption.\<close>

record destination =
  dst_source :: "destination_source option"
  dst_provider :: "provider option"
  dst_identifier :: "string option"
  dst_name :: "string option"
  dst_capturedAt :: "int option"

record redemption =
  red_id :: ident
  red_userId :: ident
  red_provider :: provider
  red_payoutAccountId :: "ident option"
  red_amount :: int
  red_status :: redemption_status
  red_providerReference :: "string option"
  red_manualTransferProofUrl :: "string option"
  red_note :: "string option"
  red_processedBySuperadminId :: "ident option"
  red_idempotencyKey :: string
  red_requestHash :: "string option"
  red_destination :: destination
  red_reconciliationRequired :: bool
  red_reconciliationNote :: "string option"
  red_reconciliationFlaggedAt :: "int option"

text \<open>\<^verbatim>\<open>CurrentUser\<close> of \<^verbatim>\<open>lib/rbac.ts\<close>, the fields the services use.\<close>

record actor =
  act_id :: ident
  act_role :: role
  act_organizationId :: "ident option"

section \<open>Column ranges and unique indexes\<close>

definition opt_int4 :: "int option \<Rightarrow> bool" where
  "opt_int4 v \<longleftrightarrow> (case v of None \<Rightarrow> True | Some n \<Rightarrow> int4 n)"

definition account_ok :: "account \<Rightarrow> bool" where
  "account_ok a \<longleftrightarrow> int4 (acc_confirmedRupiah a) \<and> int4 (acc_heldRupiah a) \<and> int4 (acc_version a)"

definition account_clash :: "account \<Rightarrow> account \<Rightarrow> bool" where
  "account_clash a b \<longleftrightarrow> acc_id a = acc_id b \<or> acc_organizationId a = acc_organizationId b"

definition campaign_ok :: "campaign \<Rightarrow> bool" where
  "campaign_ok c \<longleftrightarrow> int4 (cmp_heldRupiah c) \<and> int4 (cmp_spentRupiah c)"

definition entry_ok :: "funding_entry \<Rightarrow> bool" where
  "entry_ok e \<longleftrightarrow> int4 (fe_amount e)"

definition entry_clash :: "funding_entry \<Rightarrow> funding_entry \<Rightarrow> bool" where
  "entry_clash a b \<longleftrightarrow> fe_id a = fe_id b \<or> fe_businessKey a = fe_businessKey b"

definition reservation_ok :: "reservation \<Rightarrow> bool" where
  "reservation_ok r \<longleftrightarrow> int4 (rsv_ceilingRupiah r) \<and> int4 (rsv_remainingRupiah r)
     \<and> int4 (rsv_shortfallRupiah r) \<and> int4 (rsv_campaignShortfallRupiah r)"

definition reservation_clash :: "reservation \<Rightarrow> reservation \<Rightarrow> bool" where
  "reservation_clash a b \<longleftrightarrow> rsv_id a = rsv_id b \<or> rsv_businessKey a = rsv_businessKey b"

definition release_ok :: "release \<Rightarrow> bool" where
  "release_ok r \<longleftrightarrow> int4 (rel_amount r)"

definition release_clash :: "release \<Rightarrow> release \<Rightarrow> bool" where
  "release_clash a b \<longleftrightarrow> rel_id a = rel_id b \<or> rel_businessKey a = rel_businessKey b"

definition commit_ok :: "commit \<Rightarrow> bool" where
  "commit_ok c \<longleftrightarrow> int4 (com_heldRupiah c) \<and> int4 (com_paidRupiah c) \<and> int4 (com_uncoveredRupiah c)"

definition commit_clash :: "commit \<Rightarrow> commit \<Rightarrow> bool" where
  "commit_clash a b \<longleftrightarrow> com_id a = com_id b \<or> com_businessKey a = com_businessKey b"

definition ledger_ok :: "ledger \<Rightarrow> bool" where
  "ledger_ok r \<longleftrightarrow> int4 (led_amount r)"

text \<open>
  The unique indexes of \<^verbatim>\<open>RewardLedger\<close>: id, business key, and the partial indexes
  \<^verbatim>\<open>RewardLedger_one_earn_per_deposit_item\<close>, \<^verbatim>\<open>RewardLedger_one_reserve_per_redemption\<close> and
  \<^verbatim>\<open>RewardLedger_one_earn_per_trip\<close>.
\<close>

definition is_item_earn :: "ledger \<Rightarrow> bool" where
  "is_item_earn r \<longleftrightarrow> led_entryType r = EARN \<and> led_depositItemId r \<noteq> None \<and> led_status r \<noteq> LS_REVERSED"

definition is_reserve :: "ledger \<Rightarrow> bool" where
  "is_reserve r \<longleftrightarrow> led_entryType r = REDEEM \<and> led_referenceType r = Some ''Redemption''
     \<and> led_referenceId r \<noteq> None \<and> led_status r \<noteq> LS_REJECTED"

definition is_trip_earn :: "ledger \<Rightarrow> bool" where
  "is_trip_earn r \<longleftrightarrow> led_entryType r = EARN \<and> led_reasonCode r = Some ''TRASH_BAG_RETURN''
     \<and> led_referenceType r = Some ''Trip'' \<and> led_referenceId r \<noteq> None \<and> led_status r \<noteq> LS_REVERSED"

definition ledger_clash :: "ledger \<Rightarrow> ledger \<Rightarrow> bool" where
  "ledger_clash a b \<longleftrightarrow> led_id a = led_id b
     \<or> (led_businessKey a \<noteq> None \<and> led_businessKey a = led_businessKey b)
     \<or> (is_item_earn a \<and> is_item_earn b \<and> led_depositItemId a = led_depositItemId b)
     \<or> (is_reserve a \<and> is_reserve b \<and> led_referenceId a = led_referenceId b)
     \<or> (is_trip_earn a \<and> is_trip_earn b \<and> led_referenceId a = led_referenceId b)"

definition case_ok :: "reward_case \<Rightarrow> bool" where
  "case_ok c \<longleftrightarrow> int4 (rc_amount c)"

definition case_clash :: "reward_case \<Rightarrow> reward_case \<Rightarrow> bool" where
  "case_clash a b \<longleftrightarrow> rc_id a = rc_id b \<or> rc_businessKey a = rc_businessKey b"

definition redemption_ok :: "redemption \<Rightarrow> bool" where
  "redemption_ok r \<longleftrightarrow> int4 (red_amount r)"

definition redemption_clash :: "redemption \<Rightarrow> redemption \<Rightarrow> bool" where
  "redemption_clash a b \<longleftrightarrow> red_id a = red_id b
     \<or> (red_userId a = red_userId b \<and> red_idempotencyKey a = red_idempotencyKey b)"

section \<open>The state of a transaction and the world around it\<close>

text \<open>The row-lock classes of \<^verbatim>\<open>lib/db-locks.ts\<close>.\<close>

datatype lock =
    LUser ident
  | LPayoutAccount ident
  | LFundingAccount ident
  | LCampaign ident
  | LMachine ident
  | LTrip ident
  | LDepositSession ident
  | LDepositItem ident
  | LRedemption ident

record db =
  users :: "user list"
  erasureSteps :: "erasure_step list"
  organizations :: "organization list"
  campaigns :: "campaign list"
  machines :: "machine list"
  wasteTypes :: "waste_type list"
  machineWasteTypes :: "machine_waste_type list"
  rewardRates :: "reward_rate list"
  sessions :: "session list"
  items :: "item list"
  trips :: "trip list"
  bags :: "bag list"
  machineEvents :: "machine_event list"
  pickups :: "pickup list"
  accounts :: "account list"
  fundingEntries :: "funding_entry list"
  reservations :: "reservation list"
  releases :: "release list"
  commits :: "commit list"
  ledgers :: "ledger list"
  cases :: "reward_case list"
  payoutAccounts :: "payout_account list"
  redemptions :: "redemption list"
  config :: "string \<Rightarrow> string option"
  migrations :: "string \<Rightarrow> int option" \<comment> \<open>\<^verbatim>\<open>finished_at\<close> of an applied migration\<close>
  seq :: nat \<comment> \<open>ids generated so far\<close>
  held_locks :: "lock list" \<comment> \<open>locks of the running transaction, oldest first\<close>

record world =
  w_now :: int
  w_newId :: "nat \<Rightarrow> ident"
  w_env :: "string \<Rightarrow> string option"
  w_parseDate :: "string \<Rightarrow> int option" \<comment> \<open>\<^verbatim>\<open>new Date(s).getTime()\<close>, none for NaN\<close>
  w_isoDate :: "int \<Rightarrow> string" \<comment> \<open>\<^verbatim>\<open>toISOString\<close>\<close>
  w_encrypt :: "string \<Rightarrow> string"
  w_sha256 :: "string \<Rightarrow> string"

type_synonym 'a tx = "('a \<times> db) result"

text \<open>A generated id and the advanced counter.\<close>

definition newId :: "world \<Rightarrow> db \<Rightarrow> ident" where
  "newId w d = w_newId w (seq d)"

definition bump_seq :: "db \<Rightarrow> db" where
  "bump_seq d = d\<lparr>seq := Suc (seq d)\<rparr>"

text \<open>The tables without the bookkeeping of the running transaction.\<close>

definition committed :: "db \<Rightarrow> db" where
  "committed d = d\<lparr>held_locks := []\<rparr>"

lemma committed_idem [simp]: "committed (committed d) = committed d"
  by (simp add: committed_def)

section \<open>The tables as row stores\<close>

interpretation account_rows: row_store acc_id "find_by acc_id" "upd_by acc_id" "\<lambda>r t. t @ [r]" tsum "uniq acc_id"
  by (rule row_store_list)

interpretation campaign_rows: row_store cmp_id "find_by cmp_id" "upd_by cmp_id" "\<lambda>r t. t @ [r]" tsum "uniq cmp_id"
  by (rule row_store_list)

interpretation reservation_rows:
  row_store rsv_id "find_by rsv_id" "upd_by rsv_id" "\<lambda>r t. t @ [r]" tsum "uniq rsv_id"
  by (rule row_store_list)

interpretation commit_rows: row_store com_id "find_by com_id" "upd_by com_id" "\<lambda>r t. t @ [r]" tsum "uniq com_id"
  by (rule row_store_list)

interpretation ledger_rows: row_store led_id "find_by led_id" "upd_by led_id" "\<lambda>r t. t @ [r]" tsum "uniq led_id"
  by (rule row_store_list)

interpretation redemption_rows:
  row_store red_id "find_by red_id" "upd_by red_id" "\<lambda>r t. t @ [r]" tsum "uniq red_id"
  by (rule row_store_list)

end
