(* ===== verification/Locks.thy ===== *)
theory Locks
  imports Schema
begin

text \<open>
  Row locks (\<^verbatim>\<open>src/lib/db-locks.ts\<close>). A lock function refuses a missing row with a 404 and
  otherwise adds the row to the locks of the running transaction; taking a lock the
  transaction already holds adds nothing (PostgreSQL row locks are re-entrant within a
  transaction). The global order of the module's header comment is \<open>lock_before\<close>; a
  transaction respects it when its locks were taken in increasing order. Respecting the
  order rules out a circular wait between transactions.
\<close>

section \<open>Taking a lock\<close>

definition acquire :: "lock \<Rightarrow> db \<Rightarrow> db" where
  "acquire l d = (if l \<in> set (held_locks d) then d else d\<lparr>held_locks := held_locks d @ [l]\<rparr>)"

definition lockUser :: "ident \<Rightarrow> db \<Rightarrow> db result" where
  "lockUser u d = (if find_by usr_id u (users d) = None
     then Inl (HttpError 404 ''Pengguna tidak ditemukan'') else Inr (acquire (LUser u) d))"

definition lockRedemption :: "ident \<Rightarrow> db \<Rightarrow> db result" where
  "lockRedemption i d = (if find_by red_id i (redemptions d) = None
     then Inl (HttpError 404 ''Pengajuan pencairan tidak ditemukan'') else Inr (acquire (LRedemption i) d))"

definition lockFundingAccount :: "ident \<Rightarrow> db \<Rightarrow> db result" where
  "lockFundingAccount a d = (if find_by acc_id a (accounts d) = None
     then Inl (HttpError 404 ''Akun pendanaan reward tidak ditemukan'')
     else Inr (acquire (LFundingAccount a) d))"

definition lockCampaign :: "ident \<Rightarrow> db \<Rightarrow> db result" where
  "lockCampaign c d = (if find_by cmp_id c (campaigns d) = None
     then Inl (HttpError 404 ''Campaign tidak ditemukan'') else Inr (acquire (LCampaign c) d))"

definition lockTrip :: "ident \<Rightarrow> db \<Rightarrow> db result" where
  "lockTrip t d = (if find_by trp_id t (trips d) = None
     then Inl (HttpError 404 ''Trip tidak ditemukan'') else Inr (acquire (LTrip t) d))"

definition lockMachine :: "ident \<Rightarrow> db \<Rightarrow> db result" where
  "lockMachine m d = (if find_by mac_id m (machines d) = None
     then Inl (HttpError 404 ''Mesin tidak ditemukan'') else Inr (acquire (LMachine m) d))"

definition lockDepositSession :: "ident \<Rightarrow> db \<Rightarrow> db result" where
  "lockDepositSession s d = (if find_by ses_id s (sessions d) = None
     then Inl (HttpError 404 ''Sesi setoran tidak ditemukan'') else Inr (acquire (LDepositSession s) d))"

definition lockDepositItem :: "ident \<Rightarrow> db \<Rightarrow> db result" where
  "lockDepositItem i d = (if find_by itm_id i (items d) = None
     then Inl (HttpError 404 ''Item setoran tidak ditemukan'') else Inr (acquire (LDepositItem i) d))"

text \<open>\<^verbatim>\<open>if (campaignId) await lockCampaign(tx, campaignId)\<close>.\<close>

definition lockCampaignOpt :: "ident option \<Rightarrow> db \<Rightarrow> db result" where
  "lockCampaignOpt c d = (case c of None \<Rightarrow> Inr d | Some i \<Rightarrow> lockCampaign i d)"

fun lockFundingAccounts :: "ident list \<Rightarrow> db \<Rightarrow> db result" where
  "lockFundingAccounts [] d = Inr d"
| "lockFundingAccounts (a # as) d = rbind (lockFundingAccount a d) (lockFundingAccounts as)"

subsection \<open>Locks change nothing but the lock list\<close>

lemma acquire_cases: "acquire l d = d\<lparr>held_locks := held_locks d @ (if l \<in> set (held_locks d) then [] else [l])\<rparr>"
  by (simp add: acquire_def)

lemma acquire_committed [simp]: "committed (acquire l d) = committed d"
  by (simp add: acquire_def committed_def)

lemmas lock_defs = lockUser_def lockRedemption_def lockFundingAccount_def lockCampaign_def
  lockTrip_def lockMachine_def lockDepositSession_def lockDepositItem_def

lemma lock_Inr [result_simps]:
  "lockUser u d = Inr d' \<longleftrightarrow> find_by usr_id u (users d) \<noteq> None \<and> d' = acquire (LUser u) d"
  "lockRedemption u d = Inr d' \<longleftrightarrow> find_by red_id u (redemptions d) \<noteq> None \<and> d' = acquire (LRedemption u) d"
  "lockFundingAccount u d = Inr d' \<longleftrightarrow> find_by acc_id u (accounts d) \<noteq> None \<and> d' = acquire (LFundingAccount u) d"
  "lockCampaign u d = Inr d' \<longleftrightarrow> find_by cmp_id u (campaigns d) \<noteq> None \<and> d' = acquire (LCampaign u) d"
  "lockTrip u d = Inr d' \<longleftrightarrow> find_by trp_id u (trips d) \<noteq> None \<and> d' = acquire (LTrip u) d"
  "lockMachine u d = Inr d' \<longleftrightarrow> find_by mac_id u (machines d) \<noteq> None \<and> d' = acquire (LMachine u) d"
  "lockDepositSession u d = Inr d' \<longleftrightarrow> find_by ses_id u (sessions d) \<noteq> None \<and> d' = acquire (LDepositSession u) d"
  "lockDepositItem u d = Inr d' \<longleftrightarrow> find_by itm_id u (items d) \<noteq> None \<and> d' = acquire (LDepositItem u) d"
  by (auto simp: lock_defs)

lemma acquire_fields [simp]:
  "users (acquire l d) = users d" "erasureSteps (acquire l d) = erasureSteps d"
  "organizations (acquire l d) = organizations d" "campaigns (acquire l d) = campaigns d" "machines (acquire l d) = machines d"
  "sessions (acquire l d) = sessions d" "items (acquire l d) = items d"
  "trips (acquire l d) = trips d" "bags (acquire l d) = bags d"
  "machineEvents (acquire l d) = machineEvents d" "pickups (acquire l d) = pickups d" "wasteTypes (acquire l d) = wasteTypes d"
  "machineWasteTypes (acquire l d) = machineWasteTypes d" "rewardRates (acquire l d) = rewardRates d" "accounts (acquire l d) = accounts d"
  "fundingEntries (acquire l d) = fundingEntries d" "reservations (acquire l d) = reservations d"
  "releases (acquire l d) = releases d" "commits (acquire l d) = commits d"
  "ledgers (acquire l d) = ledgers d" "cases (acquire l d) = cases d"
  "payoutAccounts (acquire l d) = payoutAccounts d" "redemptions (acquire l d) = redemptions d"
  "config (acquire l d) = config d" "migrations (acquire l d) = migrations d" "seq (acquire l d) = seq d"
  by (simp_all add: acquire_def)

lemma lockCampaignOpt_Inr:
  "lockCampaignOpt c d = Inr d' \<Longrightarrow> committed d' = committed d"
  by (auto simp: lockCampaignOpt_def result_simps split: option.splits)

lemma lockFundingAccounts_committed:
  "lockFundingAccounts as d = Inr d' \<Longrightarrow> committed d' = committed d"
  by (induction as arbitrary: d) (auto simp: result_simps)

section \<open>The global lock order\<close>

text \<open>
  \<^verbatim>\<open>User -> PayoutAccount -> RewardFundingAccount -> Campaign -> Machine -> Trip ->
  DepositSession -> DepositItem -> Redemption\<close>, and within a class by id.
\<close>

fun lock_class :: "lock \<Rightarrow> nat" where
  "lock_class (LUser _) = 0"
| "lock_class (LPayoutAccount _) = 1"
| "lock_class (LFundingAccount _) = 2"
| "lock_class (LCampaign _) = 3"
| "lock_class (LMachine _) = 4"
| "lock_class (LTrip _) = 5"
| "lock_class (LDepositSession _) = 6"
| "lock_class (LDepositItem _) = 7"
| "lock_class (LRedemption _) = 8"

fun lock_id :: "lock \<Rightarrow> ident" where
  "lock_id (LUser i) = i"
| "lock_id (LPayoutAccount i) = i"
| "lock_id (LFundingAccount i) = i"
| "lock_id (LCampaign i) = i"
| "lock_id (LMachine i) = i"
| "lock_id (LTrip i) = i"
| "lock_id (LDepositSession i) = i"
| "lock_id (LDepositItem i) = i"
| "lock_id (LRedemption i) = i"

definition lock_before :: "lock \<Rightarrow> lock \<Rightarrow> bool" where
  "lock_before a b \<longleftrightarrow> lock_class a < lock_class b \<or> (lock_class a = lock_class b \<and> lock_id a < lock_id b)"

definition ordered_locks :: "lock list \<Rightarrow> bool" where
  "ordered_locks ls \<longleftrightarrow> sorted_wrt lock_before ls"

lemma lock_before_irrefl [simp]: "\<not> lock_before a a"
  by (simp add: lock_before_def)

lemma lock_before_trans: "lock_before a b \<Longrightarrow> lock_before b c \<Longrightarrow> lock_before a c"
  by (auto simp: lock_before_def)

lemma lock_eq_iff: "a = b \<longleftrightarrow> lock_class a = lock_class b \<and> lock_id a = lock_id b"
  by (cases a; cases b) auto

lemma lock_before_total: "a \<noteq> b \<Longrightarrow> lock_before a b \<or> lock_before b a"
  by (auto simp: lock_before_def lock_eq_iff)

lemma ordered_locks_simps [simp]:
  "ordered_locks []" "ordered_locks [a]"
  "ordered_locks (a # b # ls) \<longleftrightarrow> lock_before a b \<and> ordered_locks (b # ls)"
  by (auto simp: ordered_locks_def intro: lock_before_trans)

lemma ordered_locks_snoc:
  "ordered_locks ls \<Longrightarrow> (\<And>a. a \<in> set ls \<Longrightarrow> lock_before a l) \<Longrightarrow> ordered_locks (ls @ [l])"
  by (simp add: ordered_locks_def sorted_wrt_append)

lemma acquire_ordered:
  assumes "ordered_locks (held_locks d)" and "\<And>a. a \<in> set (held_locks d) \<Longrightarrow> a = l \<or> lock_before a l"
  shows "ordered_locks (held_locks (acquire l d))"
  using assms by (auto simp: acquire_def intro!: ordered_locks_snoc)

section \<open>Ordered acquisition excludes a circular wait\<close>

text \<open>
  A waiting transaction holds \<open>ls\<close> and waits for \<open>l\<close>; \<open>waits_for s t\<close> when what \<open>s\<close> waits for
  is held by \<open>t\<close>. A chain of waits that returns to its start is a deadlock.
\<close>

type_synonym waiter = "lock list \<times> lock"

definition waits_for :: "waiter \<Rightarrow> waiter \<Rightarrow> bool" where
  "waits_for s t \<longleftrightarrow> snd s \<in> set (fst t)"

text \<open>The transaction takes its next lock in order.\<close>

definition orderly :: "waiter \<Rightarrow> bool" where
  "orderly s \<longleftrightarrow> ordered_locks (fst s @ [snd s])"

lemma waits_for_increases:
  "orderly t \<Longrightarrow> waits_for s t \<Longrightarrow> lock_before (snd s) (snd t)"
  by (auto simp: orderly_def waits_for_def ordered_locks_def sorted_wrt_append)

fun wait_chain :: "waiter list \<Rightarrow> bool" where
  "wait_chain (s # t # ts) = (waits_for s t \<and> wait_chain (t # ts))"
| "wait_chain _ = True"

lemma wait_chain_increases:
  assumes "wait_chain (s # ts)" and "\<forall>t \<in> set ts. orderly t" and "t \<in> set ts"
  shows "lock_before (snd s) (snd t)"
  using assms
proof (induction ts arbitrary: s)
  case Nil
  then show ?case by simp
next
  case (Cons u us)
  have su: "lock_before (snd s) (snd u)"
    using Cons.prems by (intro waits_for_increases) auto
  show ?case
  proof (cases "t = u")
    case True
    with su show ?thesis by simp
  next
    case False
    with Cons.prems have "lock_before (snd u) (snd t)"
      by (intro Cons.IH) auto
    with su show ?thesis by (rule lock_before_trans)
  qed
qed

lemma no_circular_wait_aux:
  assumes "\<forall>t \<in> set (ts @ [s]). orderly t" and "wait_chain (s # ts @ [s])"
  shows False
  using wait_chain_increases [OF assms(2), of s] assms(1) by auto

end
