(* ===== verification/Ledger.thy ===== *)
theory Ledger
  imports Locks
begin

text \<open>
  The reward ledger (\<^verbatim>\<open>src/lib/ledger.ts\<close>): the balance reducer, the aggregate wallet balance,
  the business keys, the single reserve that backs a payout request and its settlement.
  \<open>getWalletBalance\<close> groups the rows by status and entry type as the SQL query does; the
  lemmas show that grouping is irrelevant, so a balance is a plain column sum and every
  ledger write moves it by a known amount.
\<close>

section \<open>Labels\<close>

definition ledgerReasonLabel :: "string option \<Rightarrow> string \<Rightarrow> string" where
  "ledgerReasonLabel reasonCode fallback =
     (case reasonCode of
        None \<Rightarrow> fallback
      | Some c \<Rightarrow>
         if c = ''TRASH_BAG_RETURN'' then ''Reward trash bag''
         else if c \<in> {''DEPOSIT_ACCEPTED'', ''ITEM_ACCEPTED''} then ''Setoran mesin''
         else if c \<in> {''ANOMALY_REVIEW'', ''TYPE_MISMATCH'', ''AI_TYPE_MISMATCH'', ''AI_LOW_CONFIDENCE'',
           ''AI_UNAVAILABLE'', ''AI_TAXONOMY_MISSING'', ''BARCODE_MISSING'', ''REWARD_OUT_OF_RANGE''}
           then ''Setoran ditinjau''
         else if c = ''ACCEPTED'' then ''Setoran mesin''
         else if c = ''REVIEW_APPROVED'' then ''Setoran disetujui''
         else if c = ''REVIEW_ADJUSTMENT'' then ''Penyesuaian setoran''
         else if c = ''REVIEW_REJECTED'' then ''Setoran ditolak''
         else if c = ''TOURISM_COMPLIANCE_BONUS'' then ''Bonus kepatuhan wisata''
         else if c \<in> {''REDEMPTION_SUCCESS'', ''REDEMPTION_PROCESSING'', ''REDEMPTION_RESERVE''}
           then ''Pencairan''
         else if c = ''REDEMPTION_REVERSED'' then ''Pencairan dibatalkan''
         else if c = [] then fallback
         else map (\<lambda>x. if x = CHR ''_'' then CHR '' '' else x) c)"

section \<open>Balance\<close>

record wallet_balance =
  wb_available :: int
  wb_pending :: int
  wb_redeemed :: int
  wb_reserved :: int
  wb_totalEarned :: int

record ledger_group =
  lg_entryType :: entry_type
  lg_status :: ledger_status
  lg_amount :: int

definition zero_balance :: wallet_balance where
  "zero_balance = \<lparr>wb_available = 0, wb_pending = 0, wb_redeemed = 0, wb_reserved = 0, wb_totalEarned = 0\<rparr>"

text \<open>One iteration of the loop of \<^verbatim>\<open>computeBalance\<close>.\<close>

definition balance_step :: "wallet_balance \<Rightarrow> ledger_group \<Rightarrow> wallet_balance" where
  "balance_step b g =
     (let s = lg_amount g in
      if lg_entryType g = EARN then
        (if lg_status g = LS_AVAILABLE then
           b\<lparr>wb_available := wb_available b + s, wb_totalEarned := wb_totalEarned b + s\<rparr>
         else if lg_status g = LS_PENDING then
           b\<lparr>wb_pending := wb_pending b + s, wb_totalEarned := wb_totalEarned b + s\<rparr>
         else b)
      else if lg_entryType g = REDEEM then
        (if lg_status g = LS_PENDING then
           b\<lparr>wb_available := wb_available b + s, wb_reserved := wb_reserved b + - s\<rparr>
         else if lg_status g = LS_REDEEMED then
           b\<lparr>wb_available := wb_available b + s, wb_redeemed := wb_redeemed b + - s\<rparr>
         else b)
      else if lg_entryType g = ADJUST \<or> lg_entryType g = REVERSE \<or> lg_entryType g = PENALTY then
        (if lg_status g = LS_AVAILABLE then b\<lparr>wb_available := wb_available b + s\<rparr>
         else if lg_status g = LS_PENDING then b\<lparr>wb_pending := wb_pending b + s\<rparr>
         else b)
      else b)"

definition computeBalance :: "ledger_group list \<Rightarrow> wallet_balance" where
  "computeBalance groups = foldl balance_step zero_balance groups"

text \<open>\<^verbatim>\<open>groupBy({ by: ["status", "entryType"], _sum: { amount: true } })\<close>.\<close>

definition group_key :: "ledger \<Rightarrow> ledger_status \<times> entry_type" where
  "group_key r = (led_status r, led_entryType r)"

definition groupBy_status_type :: "ledger list \<Rightarrow> ledger_group list" where
  "groupBy_status_type rows =
     map (\<lambda>k. \<lparr>lg_entryType = snd k, lg_status = fst k,
               lg_amount = tsum led_amount (filter (\<lambda>r. group_key r = k) rows)\<rparr>)
       (remdups (map group_key rows))"

definition getWalletBalance :: "ident \<Rightarrow> db \<Rightarrow> wallet_balance" where
  "getWalletBalance userId d =
     computeBalance (groupBy_status_type (filter (\<lambda>r. led_userId r = userId) (ledgers d)))"

subsection \<open>The balance as a column sum\<close>

text \<open>What one amount of a given type and status contributes to each figure.\<close>

fun avail_part :: "entry_type \<Rightarrow> ledger_status \<Rightarrow> int \<Rightarrow> int" where
  "avail_part REDEEM s a = (if s = LS_PENDING \<or> s = LS_REDEEMED then a else 0)"
| "avail_part _ s a = (if s = LS_AVAILABLE then a else 0)"

fun pending_part :: "entry_type \<Rightarrow> ledger_status \<Rightarrow> int \<Rightarrow> int" where
  "pending_part REDEEM s a = 0"
| "pending_part _ s a = (if s = LS_PENDING then a else 0)"

fun redeemed_part :: "entry_type \<Rightarrow> ledger_status \<Rightarrow> int \<Rightarrow> int" where
  "redeemed_part REDEEM s a = (if s = LS_REDEEMED then - a else 0)"
| "redeemed_part _ s a = 0"

fun reserved_part :: "entry_type \<Rightarrow> ledger_status \<Rightarrow> int \<Rightarrow> int" where
  "reserved_part REDEEM s a = (if s = LS_PENDING then - a else 0)"
| "reserved_part _ s a = 0"

fun earned_part :: "entry_type \<Rightarrow> ledger_status \<Rightarrow> int \<Rightarrow> int" where
  "earned_part EARN s a = (if s = LS_AVAILABLE \<or> s = LS_PENDING then a else 0)"
| "earned_part _ s a = 0"

lemma balance_step_parts:
  "balance_step b g = \<lparr>
     wb_available = wb_available b + avail_part (lg_entryType g) (lg_status g) (lg_amount g),
     wb_pending = wb_pending b + pending_part (lg_entryType g) (lg_status g) (lg_amount g),
     wb_redeemed = wb_redeemed b + redeemed_part (lg_entryType g) (lg_status g) (lg_amount g),
     wb_reserved = wb_reserved b + reserved_part (lg_entryType g) (lg_status g) (lg_amount g),
     wb_totalEarned = wb_totalEarned b + earned_part (lg_entryType g) (lg_status g) (lg_amount g)\<rparr>"
  by (cases "lg_entryType g"; cases "lg_status g") (simp_all add: balance_step_def Let_def)

lemma foldl_balance_step:
  "foldl balance_step b gs = \<lparr>
     wb_available = wb_available b + tsum (\<lambda>g. avail_part (lg_entryType g) (lg_status g) (lg_amount g)) gs,
     wb_pending = wb_pending b + tsum (\<lambda>g. pending_part (lg_entryType g) (lg_status g) (lg_amount g)) gs,
     wb_redeemed = wb_redeemed b + tsum (\<lambda>g. redeemed_part (lg_entryType g) (lg_status g) (lg_amount g)) gs,
     wb_reserved = wb_reserved b + tsum (\<lambda>g. reserved_part (lg_entryType g) (lg_status g) (lg_amount g)) gs,
     wb_totalEarned = wb_totalEarned b + tsum (\<lambda>g. earned_part (lg_entryType g) (lg_status g) (lg_amount g)) gs\<rparr>"
  by (induction gs arbitrary: b) (simp_all add: balance_step_parts)

text \<open>Grouping rows by a key and summing per group is summing the rows.\<close>

lemma sum_over_groups:
  assumes "finite K" and "key ` set rows \<subseteq> K"
  shows "(\<Sum>k\<in>K. tsum f (filter (\<lambda>r. key r = k) rows)) = tsum f rows"
  using assms(2)
proof (induction rows)
  case Nil
  then show ?case by simp
next
  case (Cons a rows)
  have "(\<Sum>k\<in>K. tsum f (filter (\<lambda>r. key r = k) (a # rows)))
      = (\<Sum>k\<in>K. (if key a = k then f a else 0) + tsum f (filter (\<lambda>r. key r = k) rows))"
    by (intro sum.cong) auto
  also have "\<dots> = f a + tsum f rows"
    using Cons assms(1) by (simp add: sum.distrib sum.delta)
  finally show ?case by simp
qed

lemma tsum_groups:
  assumes "\<And>e s a b. part e s (a + b) = part e s a + part e s b" and "\<And>e s. part e s 0 = (0::int)"
  shows "tsum (\<lambda>g. part (lg_entryType g) (lg_status g) (lg_amount g)) (groupBy_status_type rows)
       = tsum (\<lambda>r. part (led_entryType r) (led_status r) (led_amount r)) rows"
proof -
  have lin: "part (snd k) (fst k) (tsum led_amount rs)
      = tsum (\<lambda>r. part (led_entryType r) (led_status r) (led_amount r)) rs"
    if "\<forall>r \<in> set rs. group_key r = k" for rs k
    using that by (induction rs) (auto simp: assms group_key_def)
  have "tsum (\<lambda>g. part (lg_entryType g) (lg_status g) (lg_amount g)) (groupBy_status_type rows)
      = (\<Sum>k\<leftarrow>remdups (map group_key rows).
          tsum (\<lambda>r. part (led_entryType r) (led_status r) (led_amount r)) (filter (\<lambda>r. group_key r = k) rows))"
    by (simp add: groupBy_status_type_def tsum_def [of _ "map _ _"] comp_def lin)
  also have "\<dots> = (\<Sum>k\<in>set (map group_key rows).
          tsum (\<lambda>r. part (led_entryType r) (led_status r) (led_amount r)) (filter (\<lambda>r. group_key r = k) rows))"
    by (simp add: sum_list_distinct_conv_sum_set)
  also have "\<dots> = tsum (\<lambda>r. part (led_entryType r) (led_status r) (led_amount r)) rows"
    by (intro sum_over_groups) auto
  finally show ?thesis .
qed

lemma avail_part_add: "avail_part e s (a + b) = avail_part e s a + avail_part e s b"
  and pending_part_add: "pending_part e s (a + b) = pending_part e s a + pending_part e s b"
  and redeemed_part_add: "redeemed_part e s (a + b) = redeemed_part e s a + redeemed_part e s b"
  and reserved_part_add: "reserved_part e s (a + b) = reserved_part e s a + reserved_part e s b"
  and earned_part_add: "earned_part e s (a + b) = earned_part e s a + earned_part e s b"
  by (cases e; simp)+

lemma part_zero [simp]:
  "avail_part e s 0 = 0" "pending_part e s 0 = 0" "redeemed_part e s 0 = 0"
  "reserved_part e s 0 = 0" "earned_part e s 0 = 0"
  by (cases e; simp)+

text \<open>A row as a group of its own, and the figures of one user as sums over the whole table.\<close>

definition row_group :: "ledger \<Rightarrow> ledger_group" where
  "row_group r = \<lparr>lg_entryType = led_entryType r, lg_status = led_status r, lg_amount = led_amount r\<rparr>"

definition avail_of :: "ident \<Rightarrow> ledger \<Rightarrow> int" where
  "avail_of u r = (if led_userId r = u then avail_part (led_entryType r) (led_status r) (led_amount r) else 0)"

definition pending_of :: "ident \<Rightarrow> ledger \<Rightarrow> int" where
  "pending_of u r = (if led_userId r = u then pending_part (led_entryType r) (led_status r) (led_amount r) else 0)"

definition redeemed_of :: "ident \<Rightarrow> ledger \<Rightarrow> int" where
  "redeemed_of u r = (if led_userId r = u then redeemed_part (led_entryType r) (led_status r) (led_amount r) else 0)"

definition reserved_of :: "ident \<Rightarrow> ledger \<Rightarrow> int" where
  "reserved_of u r = (if led_userId r = u then reserved_part (led_entryType r) (led_status r) (led_amount r) else 0)"

lemma tsum_filter: "tsum f (filter P t) = tsum (\<lambda>r. if P r then f r else 0) t"
  by (induction t) auto

lemma computeBalance_groupBy:
  "computeBalance (groupBy_status_type rows) = computeBalance (map row_group rows)"
proof -
  have rows: "tsum (\<lambda>g. part (lg_entryType g) (lg_status g) (lg_amount g)) (map row_group rows)
      = tsum (\<lambda>r. part (led_entryType r) (led_status r) (led_amount r)) rows" for part
    by (induction rows) (auto simp: row_group_def)
  show ?thesis
    by (simp only: computeBalance_def foldl_balance_step rows
      tsum_groups [of avail_part, OF avail_part_add part_zero(1)]
      tsum_groups [of pending_part, OF pending_part_add part_zero(2)]
      tsum_groups [of redeemed_part, OF redeemed_part_add part_zero(3)]
      tsum_groups [of reserved_part, OF reserved_part_add part_zero(4)]
      tsum_groups [of earned_part, OF earned_part_add part_zero(5)])
qed

lemma getWalletBalance_available: "wb_available (getWalletBalance u d) = tsum (avail_of u) (ledgers d)"
  and getWalletBalance_pending: "wb_pending (getWalletBalance u d) = tsum (pending_of u) (ledgers d)"
  and getWalletBalance_redeemed: "wb_redeemed (getWalletBalance u d) = tsum (redeemed_of u) (ledgers d)"
  and getWalletBalance_reserved: "wb_reserved (getWalletBalance u d) = tsum (reserved_of u) (ledgers d)"
  by (simp_all add: getWalletBalance_def computeBalance_def foldl_balance_step zero_balance_def
      avail_of_def [abs_def] pending_of_def [abs_def] redeemed_of_def [abs_def] reserved_of_def [abs_def] tsum_filter
      tsum_groups [of avail_part, OF avail_part_add part_zero(1)]
      tsum_groups [of pending_part, OF pending_part_add part_zero(2)]
      tsum_groups [of redeemed_part, OF redeemed_part_add part_zero(3)]
      tsum_groups [of reserved_part, OF reserved_part_add part_zero(4)] cong: if_cong)

lemmas wallet_sums = getWalletBalance_available getWalletBalance_pending
  getWalletBalance_redeemed getWalletBalance_reserved

section \<open>Writes\<close>

text \<open>One insert into \<^verbatim>\<open>RewardLedger\<close>.\<close>

definition insert_ledger :: "ledger \<Rightarrow> db \<Rightarrow> ledger tx" where
  "insert_ledger r d =
     rbind (create_row ledger_ok ledger_clash r (ledgers d))
       (\<lambda>t. Inr (r, bump_seq (d\<lparr>ledgers := t\<rparr>)))"

definition depositItemEarnKey :: "ident \<Rightarrow> string" where
  "depositItemEarnKey depositItemId = ''deposit-item:'' @ depositItemId @ '':earn''"

definition redemptionReserveKey :: "ident \<Rightarrow> string" where
  "redemptionReserveKey redemptionId = ''redemption:'' @ redemptionId @ '':reserve''"

record create_earn_params =
  ce_userId :: ident
  ce_organizationId :: "ident option"
  ce_sessionId :: "ident option"
  ce_depositItemId :: ident
  ce_campaignId :: "ident option"
  ce_amount :: int
  ce_status :: ledger_status
  ce_reasonCode :: "string option"

definition createEarnEntry :: "world \<Rightarrow> create_earn_params \<Rightarrow> db \<Rightarrow> ledger tx" where
  "createEarnEntry w p d =
     (case List.find (\<lambda>r. led_depositItemId r = Some (ce_depositItemId p) \<and> led_entryType r = EARN) (ledgers d) of
        Some existing \<Rightarrow> Inr (existing, d)
      | None \<Rightarrow> insert_ledger
          \<lparr>led_id = newId w d, led_userId = ce_userId p, led_organizationId = ce_organizationId p,
           led_sessionId = ce_sessionId p, led_depositItemId = Some (ce_depositItemId p),
           led_campaignId = ce_campaignId p, led_entryType = EARN, led_amount = ce_amount p,
           led_status = ce_status p, led_reasonCode = Some (nullish (ce_reasonCode p) ''ITEM_ACCEPTED''),
           led_referenceType = Some ''DepositItem'', led_referenceId = Some (ce_depositItemId p),
           led_actorId = None, led_businessKey = Some (depositItemEarnKey (ce_depositItemId p)),
           led_createdAt = w_now w\<rparr> d)"

text \<open>The row that backs a payout request; the amount is stored negative.\<close>

definition reserve_row :: "world \<Rightarrow> db \<Rightarrow> ident \<Rightarrow> int \<Rightarrow> ident \<Rightarrow> ledger" where
  "reserve_row w d userId amount redemptionId =
     \<lparr>led_id = newId w d, led_userId = userId, led_organizationId = None, led_sessionId = None,
      led_depositItemId = None, led_campaignId = None, led_entryType = REDEEM,
      led_amount = - \<bar>amount\<bar>, led_status = LS_PENDING, led_reasonCode = Some ''REDEMPTION_RESERVE'',
      led_referenceType = Some ''Redemption'', led_referenceId = Some redemptionId, led_actorId = None,
      led_businessKey = Some (redemptionReserveKey redemptionId), led_createdAt = w_now w\<rparr>"

definition reserve_for :: "ident \<Rightarrow> ledger \<Rightarrow> bool" where
  "reserve_for redemptionId r \<longleftrightarrow> led_entryType r = REDEEM \<and> led_referenceType r = Some ''Redemption''
     \<and> led_referenceId r = Some redemptionId"

definition createRedeemReserve :: "world \<Rightarrow> ident \<Rightarrow> int \<Rightarrow> ident \<Rightarrow> db \<Rightarrow> ledger tx" where
  "createRedeemReserve w userId amount redemptionId d =
     (case List.find (reserve_for redemptionId) (ledgers d) of
        Some existing \<Rightarrow> Inr (existing, d)
      | None \<Rightarrow> insert_ledger (reserve_row w d userId amount redemptionId) d)"

datatype redeem_outcome = success | failed

definition RESERVE_MISSING :: string where
  "RESERVE_MISSING = ''Saldo yang ditahan untuk pencairan ini tidak ditemukan. Hubungi tim keuangan untuk rekonsiliasi.''"

definition RESERVE_MISMATCH :: string where
  "RESERVE_MISMATCH = ''Saldo yang ditahan tidak sesuai dengan pengajuan pencairan. Hubungi tim keuangan untuk rekonsiliasi.''"

fun expectedReserveStatus :: "redemption_status \<Rightarrow> ledger_status" where
  "expectedReserveStatus RS_SUCCESS = LS_REDEEMED"
| "expectedReserveStatus RS_FAILED = LS_REVERSED"
| "expectedReserveStatus RS_REVERSED = LS_REVERSED"
| "expectedReserveStatus _ = LS_PENDING"

text \<open>The live reserve rows of a request (REJECTED rows are neutralized duplicates), at most two, by id.\<close>

definition live_reserves :: "ident \<Rightarrow> db \<Rightarrow> ledger list" where
  "live_reserves redemptionId d =
     take 2 (sort_key led_id
       (filter (\<lambda>r. reserve_for redemptionId r \<and> led_status r \<noteq> LS_REJECTED) (ledgers d)))"

definition loadRedeemReserve :: "redemption \<Rightarrow> db \<Rightarrow> ledger result" where
  "loadRedeemReserve red d =
     (case live_reserves (red_id red) d of
        [] \<Rightarrow> Inl (HttpError 409 RESERVE_MISSING)
      | reserve # rest \<Rightarrow>
          if rest \<noteq> [] \<or> led_userId reserve \<noteq> red_userId red \<or> led_amount reserve \<noteq> - red_amount red
          then Inl (HttpError 409 RESERVE_MISMATCH)
          else Inr reserve)"

definition settle_target :: "redeem_outcome \<Rightarrow> ledger_status" where
  "settle_target outcome = (if outcome = success then LS_REDEEMED else LS_REVERSED)"

definition settleRedeemLedger :: "ident \<Rightarrow> redeem_outcome \<Rightarrow> db \<Rightarrow> (ledger \<times> bool) tx" where
  "settleRedeemLedger redemptionId outcome d =
     (case find_by red_id redemptionId (redemptions d) of
        None \<Rightarrow> Inl (HttpError 404 ''Pengajuan pencairan tidak ditemukan'')
      | Some red \<Rightarrow>
          rbind (loadRedeemReserve red d) (\<lambda>reserve.
            let target = settle_target outcome in
            if led_status reserve = target then Inr ((reserve, False), d)
            else if led_status reserve \<noteq> LS_PENDING then Inl (HttpError 409 RESERVE_MISMATCH)
            else
              let hit = (\<lambda>r. led_id r = led_id reserve \<and> led_status r = LS_PENDING);
                  changed = length (filter hit (ledgers d));
                  d' = d\<lparr>ledgers := map (\<lambda>r. if hit r then r\<lparr>led_status := target\<rparr> else r) (ledgers d)\<rparr>
              in if changed \<noteq> 1 then
                   (case find_by led_id (led_id reserve) (ledgers d') of
                      Some current \<Rightarrow>
                        if led_status current = target then Inr ((current, False), d')
                        else Inl (HttpError 409 RESERVE_MISMATCH)
                    | None \<Rightarrow> Inl (HttpError 409 RESERVE_MISMATCH))
                 else Inr ((reserve\<lparr>led_status := target\<rparr>, True), d')))"

definition getLedgerHistory :: "ident \<Rightarrow> nat \<Rightarrow> nat option \<Rightarrow> db \<Rightarrow> ledger list" where
  "getLedgerHistory userId skip takeN d =
     take (nullish takeN 50) (drop skip
       (rev (sort_key led_createdAt (filter (\<lambda>r. led_userId r = userId) (ledgers d)))))"

definition countLedgerHistory :: "ident \<Rightarrow> db \<Rightarrow> nat" where
  "countLedgerHistory userId d = length (filter (\<lambda>r. led_userId r = userId) (ledgers d))"

section \<open>Well-formed ledgers\<close>

text \<open>Pairwise absence of a unique-index clash, and every amount in its column range.\<close>

definition ledger_wf :: "ledger list \<Rightarrow> bool" where
  "ledger_wf t \<longleftrightarrow> sorted_wrt (\<lambda>a b. \<not> ledger_clash a b) t \<and> (\<forall>r \<in> set t. ledger_ok r)"

lemma ledger_clash_sym: "ledger_clash a b = ledger_clash b a"
  by (auto simp: ledger_clash_def)

lemma ledger_wf_uniq: "ledger_wf t \<Longrightarrow> uniq led_id t"
  unfolding ledger_wf_def uniq_def
  by (induction t) (auto simp: ledger_clash_def)

lemma ledger_wf_append:
  "ledger_wf t \<Longrightarrow> create_row ledger_ok ledger_clash r t = Inr t' \<Longrightarrow> ledger_wf t'"
  by (auto simp: ledger_wf_def result_simps sorted_wrt_append list_ex_iff ledger_clash_sym)

text \<open>Changing a status is harmless unless it re-activates a neutralized row.\<close>

definition softens :: "ledger \<Rightarrow> ledger \<Rightarrow> bool" where
  "softens r r' \<longleftrightarrow> (\<exists>s. r' = r\<lparr>led_status := s\<rparr> \<and> (led_status r = LS_REVERSED \<longrightarrow> s = LS_REVERSED)
     \<and> (led_status r = LS_REJECTED \<longrightarrow> s = LS_REJECTED))"

lemma softens_same:
  assumes "softens r r'"
  shows "led_id r' = led_id r" "led_businessKey r' = led_businessKey r"
    "led_depositItemId r' = led_depositItemId r" "led_referenceId r' = led_referenceId r"
    "led_amount r' = led_amount r"
  using assms by (auto simp: softens_def)

lemma softens_index:
  assumes "softens r r'"
  shows "is_item_earn r' \<Longrightarrow> is_item_earn r" "is_reserve r' \<Longrightarrow> is_reserve r" "is_trip_earn r' \<Longrightarrow> is_trip_earn r"
  using assms by (auto simp: softens_def is_item_earn_def is_reserve_def is_trip_earn_def)

lemma softens_clash:
  assumes "softens a a'" "softens b b'" "ledger_clash a' b'"
  shows "ledger_clash a b"
  using assms(3) softens_index [OF assms(1)] softens_index [OF assms(2)]
  unfolding ledger_clash_def softens_same [OF assms(1)] softens_same [OF assms(2)] by blast

lemma ledger_wf_map:
  assumes "ledger_wf t" and soft: "\<And>r. r \<in> set t \<Longrightarrow> softens r (f r)"
  shows "ledger_wf (map f t)"
proof -
  have "sorted_wrt (\<lambda>a b. \<not> ledger_clash (f a) (f b)) t"
  proof (rule sorted_wrt_mono_rel [rotated])
    show "sorted_wrt (\<lambda>a b. \<not> ledger_clash a b) t"
      using assms(1) by (simp add: ledger_wf_def)
    show "\<not> ledger_clash (f a) (f b)" if "a \<in> set t" "b \<in> set t" "\<not> ledger_clash a b" for a b
      using softens_clash [OF soft [OF that(1)] soft [OF that(2)]] that(3) by blast
  qed
  moreover have "\<forall>r \<in> set t. ledger_ok (f r)"
    using assms(1) by (simp add: ledger_wf_def ledger_ok_def softens_same(5) [OF soft])
  ultimately show ?thesis
    by (simp add: ledger_wf_def sorted_wrt_map)
qed

lemma distinct_set_singleton: "distinct xs \<Longrightarrow> set xs = {x} \<Longrightarrow> xs = [x]"
proof (cases xs)
  case (Cons a l)
  moreover assume "distinct xs" "set xs = {x}"
  ultimately have "a = x" and "set l \<subseteq> {x}" and "x \<notin> set l" by auto
  then have "l = []" by (cases l) auto
  with Cons \<open>a = x\<close> show ?thesis by simp
qed simp

text \<open>In a well-formed ledger a request has at most one live reserve.\<close>

lemma wf_one_reserve:
  assumes wf: "ledger_wf t" and "a \<in> set t" "b \<in> set t"
    and "reserve_for i a" "reserve_for i b" "led_status a \<noteq> LS_REJECTED" "led_status b \<noteq> LS_REJECTED"
  shows "a = b"
proof (rule ccontr)
  assume "a \<noteq> b"
  have clash: "ledger_clash a b"
    using assms(4-7) by (auto simp: ledger_clash_def is_reserve_def reserve_for_def)
  from \<open>a \<in> set t\<close> \<open>b \<in> set t\<close> \<open>a \<noteq> b\<close> wf have "\<not> ledger_clash a b"
    unfolding ledger_wf_def by (induction t) (auto simp: ledger_clash_sym)
  with clash show False by blast
qed

lemma set_live_reserves:
  "r \<in> set (live_reserves i d) \<Longrightarrow> r \<in> set (ledgers d) \<and> reserve_for i r \<and> led_status r \<noteq> LS_REJECTED"
  using set_take_subset [of 2 "sort_key led_id (filter (\<lambda>r. reserve_for i r \<and> led_status r \<noteq> LS_REJECTED) (ledgers d))"]
  by (auto simp: live_reserves_def)

lemma loadRedeemReserve_Inr:
  assumes "loadRedeemReserve red d = Inr r"
  shows "r \<in> set (ledgers d) \<and> reserve_for (red_id red) r \<and> led_status r \<noteq> LS_REJECTED
    \<and> led_userId r = red_userId red \<and> led_amount r = - red_amount red"
proof -
  have "r \<in> set (live_reserves (red_id red) d)"
    using assms by (auto simp: loadRedeemReserve_def split: list.splits if_splits)
  moreover have "led_userId r = red_userId red \<and> led_amount r = - red_amount red"
    using assms by (auto simp: loadRedeemReserve_def split: list.splits if_splits)
  ultimately show ?thesis using set_live_reserves by blast
qed

text \<open>\<open>loadRedeemReserve\<close> finds the reserve whenever the table holds exactly one that fits.\<close>

lemma live_reserves_singleton:
  assumes wf: "ledger_wf (ledgers d)" and r: "r \<in> set (ledgers d)"
    and "reserve_for i r" "led_status r \<noteq> LS_REJECTED"
  shows "live_reserves i d = [r]"
proof -
  let ?P = "\<lambda>x. reserve_for i x \<and> led_status x \<noteq> LS_REJECTED"
  have dist: "distinct (filter ?P (ledgers d))"
    using ledger_wf_uniq [OF wf] by (auto simp: uniq_def distinct_map intro: distinct_filter)
  have "set (filter ?P (ledgers d)) = {r}"
    using assms by (auto intro: wf_one_reserve)
  with dist have "filter ?P (ledgers d) = [r]"
    by (rule distinct_set_singleton)
  then show ?thesis by (simp add: live_reserves_def)
qed

section \<open>Settlement of a reserve\<close>

definition set_status :: "ledger_status \<Rightarrow> ledger \<Rightarrow> ledger" where
  "set_status s r = r\<lparr>led_status := s\<rparr>"

lemma set_status_fields [simp]:
  "led_id (set_status s r) = led_id r" "led_userId (set_status s r) = led_userId r"
  "led_entryType (set_status s r) = led_entryType r" "led_amount (set_status s r) = led_amount r"
  "led_status (set_status s r) = s" "led_businessKey (set_status s r) = led_businessKey r"
  "led_referenceType (set_status s r) = led_referenceType r" "led_referenceId (set_status s r) = led_referenceId r"
  "reserve_for i (set_status s r) = reserve_for i r"
  by (simp_all add: set_status_def reserve_for_def)

text \<open>The state after exactly one status change of row \<open>res\<close>.\<close>

definition settled_db :: "ledger \<Rightarrow> ledger_status \<Rightarrow> db \<Rightarrow> db" where
  "settled_db res s d = d\<lparr>ledgers := upd_by led_id (led_id res) (set_status s) (ledgers d)\<rparr>"

lemma conditional_update_hits:
  assumes "uniq led_id t" "res \<in> set t" "led_status res = s"
  shows "map (\<lambda>r. if led_id r = led_id res \<and> led_status r = s then f r else r) t = upd_by led_id (led_id res) f t"
    and "length (filter (\<lambda>r. led_id r = led_id res \<and> led_status r = s) t) = 1"
proof -
  have eq: "led_id r = led_id res \<Longrightarrow> r \<in> set t \<Longrightarrow> r = res" for r
    using find_by_uniqI [OF assms(1,2)] find_by_uniqI [OF assms(1), of r] by simp
  show "map (\<lambda>r. if led_id r = led_id res \<and> led_status r = s then f r else r) t = upd_by led_id (led_id res) f t"
    unfolding upd_by_def using eq assms(3) by (intro map_cong) auto
  have "distinct (filter (\<lambda>r. led_id r = led_id res \<and> led_status r = s) t)"
    using assms(1) by (simp add: uniq_def distinct_map)
  moreover have "set (filter (\<lambda>r. led_id r = led_id res \<and> led_status r = s) t) = {res}"
    using eq assms(2,3) by auto
  ultimately have "filter (\<lambda>r. led_id r = led_id res \<and> led_status r = s) t = [res]"
    by (rule distinct_set_singleton)
  then show "length (filter (\<lambda>r. led_id r = led_id res \<and> led_status r = s) t) = 1" by simp
qed

text \<open>
  The three outcomes of a settlement on a well-formed ledger: proof of a settlement that is
  already there, refusal of anything that is neither pending nor already settled this way,
  and exactly one conditional update.
\<close>

lemma settleRedeemLedger_eq:
  assumes wf: "ledger_wf (ledgers d)" and red: "find_by red_id i (redemptions d) = Some red"
    and res: "loadRedeemReserve red d = Inr res"
  shows "settleRedeemLedger i oc d =
    (if led_status res = settle_target oc then Inr ((res, False), d)
     else if led_status res \<noteq> LS_PENDING then Inl (HttpError 409 RESERVE_MISMATCH)
     else Inr ((set_status (settle_target oc) res, True), settled_db res (settle_target oc) d))"
proof -
  have mem: "res \<in> set (ledgers d)"
    using loadRedeemReserve_Inr [OF res] by blast
  show ?thesis
  proof (cases "led_status res = LS_PENDING")
    case True
    note hits = conditional_update_hits [OF ledger_wf_uniq [OF wf] mem True]
    show ?thesis
      using True by (simp add: settleRedeemLedger_def red res Let_def hits settled_db_def set_status_def
          settle_target_def set_status_def [abs_def])
  next
    case False
    then show ?thesis by (simp add: settleRedeemLedger_def red res Let_def)
  qed
qed

lemma settled_wf:
  assumes "ledger_wf (ledgers d)" "res \<in> set (ledgers d)" "led_status res = LS_PENDING"
  shows "ledger_wf (ledgers (settled_db res s d))"
proof -
  have "led_id r = led_id res \<Longrightarrow> r \<in> set (ledgers d) \<Longrightarrow> r = res" for r
    using find_by_uniqI [OF ledger_wf_uniq [OF assms(1)]] assms(2) by (metis option.inject)
  then have "softens r (if led_id r = led_id res then set_status s r else r)" if "r \<in> set (ledgers d)" for r
    using that assms(3) by (force simp: softens_def set_status_def)
  then show ?thesis
    using ledger_wf_map [OF assms(1), of "\<lambda>r. if led_id r = led_id res then set_status s r else r"]
    by (simp add: settled_db_def upd_by_def)
qed

lemma settled_sums:
  assumes "ledger_wf (ledgers d)" "res \<in> set (ledgers d)"
  shows "tsum f (ledgers (settled_db res s d)) = tsum f (ledgers d) - f res + f (set_status s res)"
  using ledger_rows.sum_modify [OF ledger_wf_uniq [OF assms(1)] find_by_uniqI [OF ledger_wf_uniq [OF assms(1)] assms(2)]]
  by (simp add: settled_db_def)

end
