(* ===== verification/Cutover.thy ===== *)
theory Cutover
  imports Locks
begin

text \<open>
  The instant that separates legacy rows from rows that follow the current contract
  (\<^verbatim>\<open>src/lib/reward-legacy-cutover.ts\<close>): an operator setting, the applied time of a migration,
  or none. \<open>earliest\<close> is the funding variant, which never lets a setting widen the legacy
  window.
\<close>

record legacy_cutover =
  lc_at :: "int option"
  lc_source :: string

definition resolveMigrationCutover :: "world \<Rightarrow> string \<Rightarrow> string \<Rightarrow> bool \<Rightarrow> db \<Rightarrow> legacy_cutover" where
  "resolveMigrationCutover w migration envName earliest d =
     (let configured = map_option js_trim (w_env w envName);
          fromMigration = migrations d migration;
          later = (\<lambda>fromEnv. case (fromEnv, fromMigration) of
              (Some e, Some m) \<Rightarrow> if e \<le> m then \<lparr>lc_at = Some e, lc_source = ''env''\<rparr>
                                  else \<lparr>lc_at = Some m, lc_source = ''migration''\<rparr>
            | (Some e, None) \<Rightarrow> \<lparr>lc_at = Some e, lc_source = ''env''\<rparr>
            | (None, Some m) \<Rightarrow> \<lparr>lc_at = Some m, lc_source = ''migration''\<rparr>
            | (None, None) \<Rightarrow> \<lparr>lc_at = None, lc_source = ''migration-missing''\<rparr>)
      in case configured of
           None \<Rightarrow> later None
         | Some s \<Rightarrow>
             if s = [] then later None
             else (case w_parseDate w s of
                     None \<Rightarrow> \<lparr>lc_at = None, lc_source = ''env-invalid''\<rparr>
                   | Some instant \<Rightarrow> if \<not> earliest then \<lparr>lc_at = Some instant, lc_source = ''env''\<rparr> else later (Some instant)))"

definition resolveLegacyCutover :: "world \<Rightarrow> db \<Rightarrow> legacy_cutover" where
  "resolveLegacyCutover w d =
     resolveMigrationCutover w ''20261014013000_reward_policy'' ''REWARD_LEGACY_CUTOVER_AT'' False d"

definition resolveFundingCutover :: "world \<Rightarrow> db \<Rightarrow> legacy_cutover" where
  "resolveFundingCutover w d =
     resolveMigrationCutover w ''20261014150000_reward_funding'' ''REWARD_FUNDING_CUTOVER_AT'' True d"

lemma earliest_never_widens:
  "lc_at (resolveMigrationCutover w mig env True d) = Some t \<Longrightarrow> migrations d mig = Some m \<Longrightarrow> t \<le> m"
  by (auto simp: resolveMigrationCutover_def Let_def split: option.splits if_splits)

lemma unparsable_setting_fails_closed:
  "w_env w env = Some s \<Longrightarrow> js_trim s \<noteq> [] \<Longrightarrow> w_parseDate w (js_trim s) = None \<Longrightarrow>
   lc_at (resolveMigrationCutover w mig env e d) = None"
  by (simp add: resolveMigrationCutover_def Let_def)

end
