(* ===== verification/Funding.thy ===== *)
theory Funding
  imports Ledger Cutover
begin

text \<open>
  Reward funding and budget reservations (\<^verbatim>\<open>src/lib/reward-funding.ts\<close>): the capacity check,
  admission reservations, commits of earnings, settlements after a review, releases of
  residue, confirmed cash and the attribution of payouts. Every function runs in the caller's
  transaction: it takes the state and returns the new one, or the error that rolls the
  transaction back. The theory \<open>Funding_Books\<close> proves what these operations keep.
\<close>

section \<open>Flag, messages and keys\<close>

definition isRewardFundingEnforced :: "(string \<Rightarrow> string option) \<Rightarrow> bool" where
  "isRewardFundingEnforced env =
     (case env ''REWARD_FUNDING_ENFORCED'' of
        None \<Rightarrow> False
      | Some raw \<Rightarrow> js_lower (js_trim raw) = ''true'')"

definition FUNDING_INSUFFICIENT :: string where
  "FUNDING_INSUFFICIENT = ''Program sementara tidak menerima setoran berhadiah''"
definition CAMPAIGN_BUDGET_INSUFFICIENT :: string where
  "CAMPAIGN_BUDGET_INSUFFICIENT = ''Kuota reward program tidak mencukupi''"
definition FUNDING_KEY_CONFLICT :: string where
  "FUNDING_KEY_CONFLICT = ''Kunci pendanaan ini sudah tercatat dengan nilai berbeda. Hubungi tim keuangan untuk rekonsiliasi.''"
definition FUNDING_REFERENCE_CONFLICT :: string where
  "FUNDING_REFERENCE_CONFLICT = ''Referensi ini sudah tercatat untuk organisasi lain atau dengan nominal/jenis berbeda. Periksa bukti pendanaan sebelum mencatat ulang.''"
definition FUNDING_REFERENCE_REQUIRED :: string where
  "FUNDING_REFERENCE_REQUIRED = ''Referensi bukti pendanaan wajib diisi (minimal 6 karakter)''"
definition FUNDING_NOTE_REQUIRED :: string where
  "FUNDING_NOTE_REQUIRED = ''Catatan bukti pendanaan wajib diisi (minimal 10 karakter: sumber dana, tanggal, dan rekening)''"
definition FUNDING_AMOUNT_INVALID :: string where
  "FUNDING_AMOUNT_INVALID = ''Nominal harus bilangan bulat rupiah dalam batas yang diizinkan''"
definition RESERVATION_NOT_FOUND :: string where
  "RESERVATION_NOT_FOUND = ''Reservasi dana reward tidak ditemukan''"
definition RESERVATION_SOURCE_STILL_OPEN :: string where
  "RESERVATION_SOURCE_STILL_OPEN = ''Sisa dana hanya dapat dilepas setelah sesi atau trip sumbernya berakhir.''"
definition RESERVATION_RELEASE_REASON_REQUIRED :: string where
  "RESERVATION_RELEASE_REASON_REQUIRED = ''Alasan pelepasan sisa dana wajib diisi''"
definition CAMPAIGN_BUDGET_NOT_CONFIGURED :: string where
  "CAMPAIGN_BUDGET_NOT_CONFIGURED = ''Kuota reward program belum diatur. Program berhadiah wajib memiliki kuota sebelum menerima setoran.''"

definition sessionAdmissionKey :: "ident \<Rightarrow> string" where
  "sessionAdmissionKey sessionId = ''session:'' @ sessionId @ '':admission''"
definition tripIssuanceKey :: "ident \<Rightarrow> string" where
  "tripIssuanceKey tripId = ''trip:'' @ tripId @ '':issuance''"
definition sessionCloseWatermarkKey :: "ident \<Rightarrow> string" where
  "sessionCloseWatermarkKey sessionId = ''session:'' @ sessionId @ '':close-watermark''"
definition sessionReviewCloseKey :: "ident \<Rightarrow> string" where
  "sessionReviewCloseKey sessionId = ''session:'' @ sessionId @ '':review-close''"
definition normalizeFundingReference :: "string \<Rightarrow> string" where
  "normalizeFundingReference reference = js_upper (js_trim reference)"
definition fundingCashKey :: "string \<Rightarrow> string" where
  "fundingCashKey reference = ''cash:'' @ normalizeFundingReference reference"
definition fundingCorrectionKey :: "string \<Rightarrow> string" where
  "fundingCorrectionKey reference = ''correction:'' @ normalizeFundingReference reference"
definition payoutFundingKey :: "ident \<Rightarrow> ident \<Rightarrow> string" where
  "payoutFundingKey redemptionId accountId = ''redemption:'' @ redemptionId @ '':payout:'' @ accountId"

definition MAX_FUNDING_RUPIAH :: int where
  "MAX_FUNDING_RUPIAH = 2147483647"

definition assertRupiah :: "int \<Rightarrow> string \<Rightarrow> int \<Rightarrow> unit result" where
  "assertRupiah value what lo =
     (if \<not> isSafeInteger value \<or> value < lo \<or> value > MAX_FUNDING_RUPIAH
      then Inl (HttpError 422 (FUNDING_AMOUNT_INVALID @ '' ('' @ what @ '')''))
      else Inr ())"

definition configuredCap :: "int option \<Rightarrow> int option" where
  "configuredCap value =
     (case value of None \<Rightarrow> None | Some v \<Rightarrow> if isSafeInteger v \<and> v > 0 then Some v else None)"

section \<open>Account and campaign counters\<close>

text \<open>
  \<^verbatim>\<open>INSERT ... ON CONFLICT DO NOTHING\<close> on the organization's account (a missing organization
  breaks the foreign key), then the row lock and the row as read under it.
\<close>

definition lockFundingAccountForOrganization :: "world \<Rightarrow> ident \<Rightarrow> db \<Rightarrow> account tx" where
  "lockFundingAccountForOrganization w organizationId d =
     rbind
       (case find_by acc_organizationId organizationId (accounts d) of
          Some _ \<Rightarrow> Inr d
        | None \<Rightarrow>
            if find_by org_id organizationId (organizations d) = None then Inl (PgError ''23503'')
            else rbind (create_row account_ok account_clash
                   \<lparr>acc_id = newId w d, acc_organizationId = organizationId, acc_confirmedRupiah = 0,
                    acc_heldRupiah = 0, acc_version = 0\<rparr> (accounts d))
                 (\<lambda>t. Inr (bump_seq (d\<lparr>accounts := t\<rparr>))))
       (\<lambda>d1. case find_by acc_organizationId organizationId (accounts d1) of
          None \<Rightarrow> Inl (HttpError 404 ''Organisasi tidak ditemukan'')
        | Some a \<Rightarrow> Inr (a, acquire (LFundingAccount (acc_id a)) d1))"

definition lockAndReadCampaign :: "ident \<Rightarrow> db \<Rightarrow> campaign tx" where
  "lockAndReadCampaign campaignId d =
     rbind (lockCampaign campaignId d) (\<lambda>d1.
       rbind (find_or_throw cmp_id campaignId (campaigns d1)) (\<lambda>c. Inr (c, d1)))"

definition add_account :: "int \<Rightarrow> int \<Rightarrow> account \<Rightarrow> account" where
  "add_account dc dh a = a\<lparr>acc_confirmedRupiah := acc_confirmedRupiah a + dc,
     acc_heldRupiah := acc_heldRupiah a + dh, acc_version := acc_version a + 1\<rparr>"

definition bumpAccount :: "ident \<Rightarrow> int \<Rightarrow> int \<Rightarrow> db \<Rightarrow> account tx" where
  "bumpAccount accountId dc dh d =
     rbind (find_or_throw acc_id accountId (accounts d)) (\<lambda>current.
       let confirmed = acc_confirmedRupiah current + dc; held = acc_heldRupiah current + dh in
       if \<not> isSafeInteger confirmed \<or> \<bar>confirmed\<bar> > MAX_FUNDING_RUPIAH
       then Inl (HttpError 422 (FUNDING_AMOUNT_INVALID @ '' (dana terkonfirmasi)''))
       else if \<not> isSafeInteger held \<or> \<bar>held\<bar> > MAX_FUNDING_RUPIAH
       then Inl (HttpError 422 (FUNDING_AMOUNT_INVALID @ '' (dana tertahan)''))
       else rbind (update_row account_ok acc_id accountId (add_account dc dh) (accounts d))
         (\<lambda>t. Inr (add_account dc dh current, d\<lparr>accounts := t\<rparr>)))"

definition add_campaign :: "int \<Rightarrow> int \<Rightarrow> campaign \<Rightarrow> campaign" where
  "add_campaign dh ds c = c\<lparr>cmp_heldRupiah := cmp_heldRupiah c + dh, cmp_spentRupiah := cmp_spentRupiah c + ds\<rparr>"

definition bumpCampaign :: "ident option \<Rightarrow> int \<Rightarrow> int \<Rightarrow> db \<Rightarrow> db result" where
  "bumpCampaign campaignId dh ds d =
     (case campaignId of
        None \<Rightarrow> Inr d
      | Some c \<Rightarrow>
          if dh = 0 \<and> ds = 0 then Inr d
          else rbind (update_row campaign_ok cmp_id c (add_campaign dh ds) (campaigns d))
            (\<lambda>t. Inr (d\<lparr>campaigns := t\<rparr>)))"

section \<open>Capacity\<close>

record capacity_check =
  cc_accountShortfall :: int
  cc_campaignShortfall :: int

definition checkCapacity :: "account \<Rightarrow> campaign option \<Rightarrow> int \<Rightarrow> capacity_check" where
  "checkCapacity account campaign ceilingRupiah =
     (let accountCapacity = acc_confirmedRupiah account - acc_heldRupiah account in
      \<lparr>cc_accountShortfall = (if accountCapacity < ceilingRupiah then ceilingRupiah - accountCapacity else 0),
       cc_campaignShortfall =
         (case campaign of
            None \<Rightarrow> 0
          | Some c \<Rightarrow>
              (case cmp_rewardBudgetRupiah c of
                 None \<Rightarrow> 0
               | Some budget \<Rightarrow>
                   let budgetCapacity = budget - cmp_heldRupiah c - cmp_spentRupiah c in
                   if budgetCapacity < ceilingRupiah then ceilingRupiah - budgetCapacity else 0))\<rparr>)"

section \<open>Reservations\<close>

record reserve_input =
  ri_businessKey :: string
  ri_organizationId :: ident
  ri_campaignId :: "ident option"
  ri_userId :: ident
  ri_ceilingRupiah :: int
  ri_sourceType :: reservation_source
  ri_sourceId :: ident

text \<open>The hold a reservation adds: the whole ceiling, the difference of an extension, or what a
  re-activated reservation has to hold above its commits.\<close>

definition reserve_delta :: "reserve_input \<Rightarrow> reservation option \<Rightarrow> db \<Rightarrow> int" where
  "reserve_delta inp existing d =
     (case existing of
        None \<Rightarrow> ri_ceilingRupiah inp
      | Some e \<Rightarrow>
          if rsv_status e = RES_RELEASED
          then max 0 (ri_ceilingRupiah inp -
                 tsum com_heldRupiah (filter (\<lambda>c. com_reservationId c = rsv_id e) (commits d)))
          else ri_ceilingRupiah inp - rsv_ceilingRupiah e)"

text \<open>The refusals of enforced mode, in their order.\<close>

definition reserve_refusal :: "bool \<Rightarrow> reserve_input \<Rightarrow> campaign option \<Rightarrow> capacity_check \<Rightarrow> err option" where
  "reserve_refusal enforced inp campaign shortfall =
     (if \<not> enforced then None
      else if ri_ceilingRupiah inp \<le> 0 then Some (HttpError 409 FUNDING_INSUFFICIENT)
      else if campaign \<noteq> None \<and> configuredCap (cmp_rewardBudgetRupiah (the campaign)) = None
        then Some (HttpError 409 CAMPAIGN_BUDGET_NOT_CONFIGURED)
      else if cc_accountShortfall shortfall > 0 then Some (HttpError 409 FUNDING_INSUFFICIENT)
      else if cc_campaignShortfall shortfall > 0 then Some (HttpError 409 CAMPAIGN_BUDGET_INSUFFICIENT)
      else None)"

definition new_reservation :: "world \<Rightarrow> db \<Rightarrow> reserve_input \<Rightarrow> account \<Rightarrow> capacity_check \<Rightarrow> reservation" where
  "new_reservation w d inp account shortfall =
     \<lparr>rsv_id = newId w d, rsv_businessKey = ri_businessKey inp, rsv_accountId = acc_id account,
      rsv_campaignId = ri_campaignId inp, rsv_userId = ri_userId inp, rsv_sourceType = ri_sourceType inp,
      rsv_sourceId = ri_sourceId inp, rsv_ceilingRupiah = ri_ceilingRupiah inp,
      rsv_remainingRupiah = ri_ceilingRupiah inp, rsv_shortfallRupiah = cc_accountShortfall shortfall,
      rsv_campaignShortfallRupiah = cc_campaignShortfall shortfall, rsv_lateReservation = False,
      rsv_status = RES_ACTIVE, rsv_releasedAt = None, rsv_releasedById = None, rsv_releaseReason = None,
      rsv_createdAt = w_now w\<rparr>"

definition extend_reservation :: "int \<Rightarrow> int \<Rightarrow> capacity_check \<Rightarrow> reservation \<Rightarrow> reservation" where
  "extend_reservation newCeiling delta shortfall e =
     (let e' = e\<lparr>rsv_ceilingRupiah := newCeiling,
                 rsv_remainingRupiah :=
                   (if rsv_status e = RES_RELEASED then delta else rsv_remainingRupiah e + delta),
                 rsv_shortfallRupiah := rsv_shortfallRupiah e + cc_accountShortfall shortfall,
                 rsv_campaignShortfallRupiah := rsv_campaignShortfallRupiah e + cc_campaignShortfall shortfall\<rparr>
      in if rsv_status e = RES_RELEASED
         then e'\<lparr>rsv_status := RES_ACTIVE, rsv_releasedAt := None, rsv_releasedById := None,
                 rsv_releaseReason := None\<rparr>
         else e')"

text \<open>The writes of \<^verbatim>\<open>reserveRewardBudget\<close> once nothing was refused.\<close>

definition reserve_write ::
  "world \<Rightarrow> reserve_input \<Rightarrow> account \<Rightarrow> reservation option \<Rightarrow> int \<Rightarrow> capacity_check \<Rightarrow> db \<Rightarrow> ident tx" where
  "reserve_write w inp account existing delta shortfall d =
     rbind (if delta > 0
            then rbind (bumpAccount (acc_id account) 0 delta d) (\<lambda>(_, d1). bumpCampaign (ri_campaignId inp) delta 0 d1)
            else Inr d)
       (\<lambda>d1. case existing of
          Some e \<Rightarrow>
            rbind (update_row reservation_ok rsv_id (rsv_id e)
                    (extend_reservation (ri_ceilingRupiah inp) delta shortfall) (reservations d1))
              (\<lambda>t. Inr (rsv_id e, d1\<lparr>reservations := t\<rparr>))
        | None \<Rightarrow>
            let r = new_reservation w d1 inp account shortfall in
            rbind (create_row reservation_ok reservation_clash r (reservations d1))
              (\<lambda>t. Inr (rsv_id r, bump_seq (d1\<lparr>reservations := t\<rparr>))))"

definition reserveRewardBudget :: "world \<Rightarrow> bool \<Rightarrow> reserve_input \<Rightarrow> db \<Rightarrow> ident tx" where
  "reserveRewardBudget w enforced inp d =
     rbind (assertRupiah (ri_ceilingRupiah inp) ''batas reward'' 0) (\<lambda>_.
     if ri_businessKey inp = [] \<or> length (ri_businessKey inp) > 191
     then Inl (RangeError ''businessKey is required'')
     else
     rbind (lockFundingAccountForOrganization w (ri_organizationId inp) d) (\<lambda>(account, d1).
     rbind (case ri_campaignId inp of
              None \<Rightarrow> Inr (None, d1)
            | Some c \<Rightarrow> rbind (lockAndReadCampaign c d1) (\<lambda>(row, d2). Inr (Some row, d2))) (\<lambda>(campaign, d2).
     if campaign \<noteq> None \<and> cmp_organizationId (the campaign) \<noteq> ri_organizationId inp
     then Inl (HttpError 422 ''Campaign tidak valid untuk organisasi ini'')
     else
     let existing = find_by rsv_businessKey (ri_businessKey inp) (reservations d2) in
     if existing \<noteq> None \<and> (rsv_accountId (the existing) \<noteq> acc_id account
          \<or> rsv_userId (the existing) \<noteq> ri_userId inp)
     then Inl (HttpError 409 FUNDING_KEY_CONFLICT)
     else if existing \<noteq> None \<and> rsv_status (the existing) = RES_ACTIVE
          \<and> rsv_ceilingRupiah (the existing) \<ge> ri_ceilingRupiah inp
     then Inr (rsv_id (the existing), d2)
     else
     let delta = reserve_delta inp existing d2;
         shortfall = checkCapacity account campaign delta in
     case reserve_refusal enforced inp campaign shortfall of
       Some e \<Rightarrow> Inl e
     | None \<Rightarrow> reserve_write w inp account existing delta shortfall d2)))"

definition findReservationByKey :: "string \<Rightarrow> db \<Rightarrow> reservation option" where
  "findReservationByKey businessKey d = find_by rsv_businessKey businessKey (reservations d)"

section \<open>The reservation of a source\<close>

datatype source_reservation =
    Reservation reservation bool
  | LegacySource legacy_cutover
  | NoSource

text \<open>Creation instant, owner, campaign and organization of an admitted session or trip.\<close>

definition admitted_source :: "reservation_source \<Rightarrow> ident \<Rightarrow> db \<Rightarrow> (int \<times> ident \<times> ident option \<times> ident) option" where
  "admitted_source sourceType sourceId d =
     (case sourceType of
        SESSION \<Rightarrow>
          (case find_by ses_id sourceId (sessions d) of
             None \<Rightarrow> None
           | Some s \<Rightarrow>
               (case find_by mac_id (ses_machineId s) (machines d) of
                  None \<Rightarrow> None
                | Some m \<Rightarrow> Some (ses_startedAt s, ses_userId s, ses_campaignId s, mac_organizationId m)))
      | TRIP \<Rightarrow>
          (case find_by trp_id sourceId (trips d) of
             None \<Rightarrow> None
           | Some t \<Rightarrow>
               (case (trp_userId t, find_by cmp_id (trp_campaignId t) (campaigns d)) of
                  (Some u, Some c) \<Rightarrow> Some (trp_createdAt t, u, Some (trp_campaignId t), cmp_organizationId c)
                | _ \<Rightarrow> None)))"

definition source_key :: "reservation_source \<Rightarrow> ident \<Rightarrow> string" where
  "source_key sourceType sourceId =
     (if sourceType = SESSION then sessionAdmissionKey sourceId else tripIssuanceKey sourceId)"

definition late_reservation ::
  "world \<Rightarrow> db \<Rightarrow> reservation_source \<Rightarrow> ident \<Rightarrow> account \<Rightarrow> ident \<Rightarrow> ident option \<Rightarrow> reservation" where
  "late_reservation w d sourceType sourceId account userId campaignId =
     \<lparr>rsv_id = newId w d, rsv_businessKey = source_key sourceType sourceId, rsv_accountId = acc_id account,
      rsv_campaignId = campaignId, rsv_userId = userId, rsv_sourceType = sourceType, rsv_sourceId = sourceId,
      rsv_ceilingRupiah = 0, rsv_remainingRupiah = 0, rsv_shortfallRupiah = 0, rsv_campaignShortfallRupiah = 0,
      rsv_lateReservation = True, rsv_status = RES_ACTIVE, rsv_releasedAt = None, rsv_releasedById = None,
      rsv_releaseReason = None, rsv_createdAt = w_now w\<rparr>"

definition resolveSourceReservation ::
  "world \<Rightarrow> reservation_source \<Rightarrow> ident \<Rightarrow> db \<Rightarrow> source_reservation tx" where
  "resolveSourceReservation w sourceType sourceId d =
     (case findReservationByKey (source_key sourceType sourceId) d of
        Some existing \<Rightarrow> Inr (Reservation existing (rsv_lateReservation existing), d)
      | None \<Rightarrow>
        (case admitted_source sourceType sourceId d of
           None \<Rightarrow> Inr (NoSource, d)
         | Some (createdAt, userId, campaignId, organizationId) \<Rightarrow>
             let cutover = resolveFundingCutover w d in
             if (case lc_at cutover of None \<Rightarrow> False | Some instant \<Rightarrow> createdAt < instant)
             then Inr (LegacySource cutover, d)
             else
               rbind (lockFundingAccountForOrganization w organizationId d) (\<lambda>(_, d1).
               rbind (find_or_throw acc_organizationId organizationId (accounts d1)) (\<lambda>account.
               rbind (lockCampaignOpt campaignId d1) (\<lambda>d2.
               let r = late_reservation w d2 sourceType sourceId account userId campaignId in
               rbind (create_row reservation_ok reservation_clash r (reservations d2))
                 (\<lambda>t. Inr (Reservation r True, bump_seq (d2\<lparr>reservations := t\<rparr>))))))))"

section \<open>Commits\<close>

text \<open>\<^verbatim>\<open>lockFundingAccount\<close>, then \<^verbatim>\<open>if (campaignId) lockCampaign\<close>, then the body.\<close>

definition with_funding_locks :: "ident \<Rightarrow> ident option \<Rightarrow> db \<Rightarrow> (db \<Rightarrow> 'a result) \<Rightarrow> 'a result" where
  "with_funding_locks accountId campaignId d body =
     rbind (lockFundingAccount accountId d) (\<lambda>d1. rbind (lockCampaignOpt campaignId d1) body)"

record commit_result =
  cr_commitId :: ident
  cr_covered :: int
  cr_uncovered :: int
  cr_existing :: bool

definition draw_reservation :: "int \<Rightarrow> reservation \<Rightarrow> reservation" where
  "draw_reservation n r = r\<lparr>rsv_remainingRupiah := rsv_remainingRupiah r - n\<rparr>"

text \<open>The part of \<open>amount\<close> a reservation still covers.\<close>

definition coverable :: "reservation \<Rightarrow> int \<Rightarrow> int" where
  "coverable r amount = (if rsv_status r = RES_ACTIVE then min amount (rsv_remainingRupiah r) else 0)"

text \<open>Draws the covered part from the reservation and holds the rest on the account.\<close>

definition draw_and_hold :: "reservation \<Rightarrow> ident \<Rightarrow> int \<Rightarrow> int \<Rightarrow> db \<Rightarrow> db result" where
  "draw_and_hold r accountId covered uncovered d =
     rbind (if covered > 0
            then rbind (update_row reservation_ok rsv_id (rsv_id r) (draw_reservation covered) (reservations d))
                   (\<lambda>t. Inr (d\<lparr>reservations := t\<rparr>))
            else Inr d)
       (\<lambda>d1. if uncovered > 0
             then rbind (bumpAccount accountId 0 uncovered d1) (\<lambda>(_, d2). Inr d2)
             else Inr d1)"

definition new_commit ::
  "world \<Rightarrow> db \<Rightarrow> reservation \<Rightarrow> string \<Rightarrow> int \<Rightarrow> int \<Rightarrow> bool \<Rightarrow> commit" where
  "new_commit w d ref businessKey amount uncovered reviewPending =
     \<lparr>com_id = newId w d, com_reservationId = rsv_id ref, com_accountId = rsv_accountId ref,
      com_campaignId = rsv_campaignId ref, com_userId = rsv_userId ref, com_businessKey = businessKey,
      com_heldRupiah = amount, com_paidRupiah = 0, com_uncoveredRupiah = uncovered,
      com_reviewPending = reviewPending, com_createdAt = w_now w\<rparr>"

text \<open>The body under the locks; \<open>ref\<close> is the reservation read before them.\<close>

definition commit_locked ::
  "world \<Rightarrow> reservation \<Rightarrow> string \<Rightarrow> int \<Rightarrow> bool \<Rightarrow> db \<Rightarrow> commit_result tx" where
  "commit_locked w ref businessKey amount reviewPending d =
     (case find_by com_businessKey businessKey (commits d) of
         Some e \<Rightarrow>
           if com_reservationId e \<noteq> rsv_id ref then Inl (HttpError 409 FUNDING_KEY_CONFLICT)
           else Inr (\<lparr>cr_commitId = com_id e, cr_covered = com_heldRupiah e - com_uncoveredRupiah e,
                      cr_uncovered = com_uncoveredRupiah e, cr_existing = True\<rparr>, d)
       | None \<Rightarrow>
           rbind (find_or_throw rsv_id (rsv_id ref) (reservations d)) (\<lambda>reservation.
           let covered = coverable reservation amount; uncovered = amount - covered in
           rbind (draw_and_hold reservation (rsv_accountId ref) covered uncovered d) (\<lambda>d3.
           rbind (bumpCampaign (rsv_campaignId ref) (- covered) amount d3) (\<lambda>d4.
           let c = new_commit w d4 ref businessKey amount uncovered reviewPending in
           rbind (create_row commit_ok commit_clash c (commits d4)) (\<lambda>t.
             Inr (\<lparr>cr_commitId = com_id c, cr_covered = covered, cr_uncovered = uncovered, cr_existing = False\<rparr>,
                  bump_seq (d4\<lparr>commits := t\<rparr>)))))))"

definition commitRewardAgainstBudget ::
  "world \<Rightarrow> ident \<Rightarrow> string \<Rightarrow> int \<Rightarrow> bool \<Rightarrow> db \<Rightarrow> commit_result tx" where
  "commitRewardAgainstBudget w reservationId businessKey amount reviewPending d =
     rbind (assertRupiah amount ''nilai reward'' 0) (\<lambda>_.
     case find_by rsv_id reservationId (reservations d) of
       None \<Rightarrow> Inl (HttpError 404 RESERVATION_NOT_FOUND)
     | Some ref \<Rightarrow>
       with_funding_locks (rsv_accountId ref) (rsv_campaignId ref) d
         (commit_locked w ref businessKey amount reviewPending))"

definition settle_commit :: "int \<Rightarrow> bool \<Rightarrow> int \<Rightarrow> commit \<Rightarrow> commit" where
  "settle_commit newHeld reviewPending uncovered c =
     c\<lparr>com_heldRupiah := newHeld, com_reviewPending := reviewPending,
       com_uncoveredRupiah := com_uncoveredRupiah c + uncovered\<rparr>"

text \<open>The counters and the reservation for a change of the held amount by \<open>delta\<close>; returns the
  uncovered part.\<close>

definition settle_delta :: "commit \<Rightarrow> int \<Rightarrow> db \<Rightarrow> int tx" where
  "settle_delta ref delta d =
     (if delta > 0 then
        rbind (find_or_throw rsv_id (com_reservationId ref) (reservations d)) (\<lambda>reservation.
        let covered = coverable reservation delta; uncovered = delta - covered in
        rbind (draw_and_hold reservation (com_accountId ref) covered uncovered d) (\<lambda>d1.
        rbind (bumpCampaign (com_campaignId ref) (- covered) delta d1) (\<lambda>d2. Inr (uncovered, d2))))
      else if delta < 0 then
        rbind (bumpAccount (com_accountId ref) 0 delta d) (\<lambda>(_, d1).
        rbind (bumpCampaign (com_campaignId ref) 0 delta d1) (\<lambda>d2. Inr (0, d2)))
      else Inr (0, d))"

definition settle_locked :: "commit \<Rightarrow> int \<Rightarrow> bool \<Rightarrow> db \<Rightarrow> commit option tx" where
  "settle_locked ref targetRupiah reviewPending d =
     rbind (find_or_throw com_id (com_id ref) (commits d)) (\<lambda>c.
     let newHeld = max targetRupiah (com_paidRupiah c) in
     rbind (settle_delta ref (newHeld - com_heldRupiah c) d) (\<lambda>(uncovered, d1).
     rbind (update_row commit_ok com_id (com_id ref)
             (settle_commit newHeld reviewPending (if uncovered > 0 then uncovered else 0)) (commits d1))
       (\<lambda>t. Inr (find_by com_id (com_id ref) t, d1\<lparr>commits := t\<rparr>))))"

definition settleCommittedReward :: "string \<Rightarrow> int \<Rightarrow> bool \<Rightarrow> db \<Rightarrow> commit option tx" where
  "settleCommittedReward businessKey targetRupiah reviewPending d =
     rbind (assertRupiah targetRupiah ''nilai reward'' 0) (\<lambda>_.
     case find_by com_businessKey businessKey (commits d) of
       None \<Rightarrow> Inr (None, d)
     | Some ref \<Rightarrow>
       with_funding_locks (com_accountId ref) (com_campaignId ref) d
         (settle_locked ref targetRupiah reviewPending))"

definition settleOrCommitReward ::
  "world \<Rightarrow> string \<Rightarrow> reservation_source \<Rightarrow> ident \<Rightarrow> int option \<Rightarrow> bool \<Rightarrow> db \<Rightarrow> commit option tx" where
  "settleOrCommitReward w businessKey sourceType sourceId targetRupiah reviewPending d =
     (case find_by com_businessKey businessKey (commits d) of
        Some existing \<Rightarrow>
          settleCommittedReward businessKey (nullish targetRupiah (com_heldRupiah existing)) reviewPending d
      | None \<Rightarrow>
          (case targetRupiah of
             None \<Rightarrow> Inr (None, d)
           | Some target \<Rightarrow>
               if target \<le> 0 then Inr (None, d)
               else rbind (resolveSourceReservation w sourceType sourceId d) (\<lambda>(resolved, d1).
                 case resolved of
                   Reservation r _ \<Rightarrow>
                     rbind (commitRewardAgainstBudget w (rsv_id r) businessKey target reviewPending d1)
                       (\<lambda>(res, d2). rbind (find_or_throw com_id (cr_commitId res) (commits d2))
                          (\<lambda>c. Inr (Some c, d2)))
                 | _ \<Rightarrow> Inr (None, d1))))"

definition markCommitReviewPending :: "string \<Rightarrow> db \<Rightarrow> db" where
  "markCommitReviewPending businessKey d =
     d\<lparr>commits := upd_by com_businessKey businessKey (\<lambda>c. c\<lparr>com_reviewPending := True\<rparr>) (commits d)\<rparr>"

section \<open>Releases\<close>

record release_options =
  ro_close :: bool
  ro_releasedById :: "ident option"
  ro_reason :: "string option"
  ro_businessKey :: "string option"

definition release_reservation :: "world \<Rightarrow> int \<Rightarrow> release_options \<Rightarrow> reservation \<Rightarrow> reservation" where
  "release_reservation w released opts r =
     (let r' = draw_reservation released r in
      if ro_close opts
      then r'\<lparr>rsv_status := RES_RELEASED, rsv_releasedAt := Some (w_now w),
              rsv_releasedById := ro_releasedById opts, rsv_releaseReason := ro_reason opts\<rparr>
      else r')"

text \<open>The counters and the reservation row of a release that is not a retry.\<close>

definition apply_release :: "world \<Rightarrow> reservation \<Rightarrow> int \<Rightarrow> release_options \<Rightarrow> db \<Rightarrow> db result" where
  "apply_release w r released opts d =
     (if rsv_status r = RES_RELEASED then Inr d
      else
        rbind (if released > 0
               then rbind (bumpAccount (rsv_accountId r) 0 (- released) d)
                      (\<lambda>(_, d1). bumpCampaign (rsv_campaignId r) (- released) 0 d1)
               else Inr d) (\<lambda>d2.
        rbind (update_row reservation_ok rsv_id (rsv_id r) (release_reservation w released opts) (reservations d2))
          (\<lambda>t. Inr (d2\<lparr>reservations := t\<rparr>))))"

definition new_release :: "world \<Rightarrow> db \<Rightarrow> reservation \<Rightarrow> int \<Rightarrow> release_options \<Rightarrow> string \<Rightarrow> release" where
  "new_release w d ref released opts businessKey =
     \<lparr>rel_id = newId w d, rel_reservationId = rsv_id ref, rel_accountId = rsv_accountId ref,
      rel_campaignId = rsv_campaignId ref, rel_businessKey = businessKey, rel_amount = released,
      rel_reason = ro_reason opts, rel_releasedById = ro_releasedById opts\<rparr>"

definition release_locked :: "world \<Rightarrow> reservation \<Rightarrow> int \<Rightarrow> release_options \<Rightarrow> db \<Rightarrow> (int \<times> bool) tx" where
  "release_locked w ref amount opts d =
     (case (case ro_businessKey opts of
              None \<Rightarrow> None | Some k \<Rightarrow> find_by rel_businessKey k (releases d)) of
         Some rel \<Rightarrow>
           if rel_reservationId rel \<noteq> rsv_id ref then Inl (HttpError 409 FUNDING_KEY_CONFLICT)
           else Inr ((rel_amount rel, True), d)
       | None \<Rightarrow>
           rbind (find_or_throw rsv_id (rsv_id ref) (reservations d)) (\<lambda>reservation.
           let released = (if rsv_status reservation = RES_RELEASED then 0
                           else min amount (rsv_remainingRupiah reservation)) in
           rbind (apply_release w reservation released opts d) (\<lambda>d1.
           case ro_businessKey opts of
             None \<Rightarrow> Inr ((released, False), d1)
           | Some k \<Rightarrow>
               rbind (create_row release_ok release_clash (new_release w d1 ref released opts k) (releases d1))
                 (\<lambda>t. Inr ((released, False), bump_seq (d1\<lparr>releases := t\<rparr>))))))"

definition releaseUnusedRewardBudget ::
  "world \<Rightarrow> ident \<Rightarrow> int \<Rightarrow> release_options \<Rightarrow> db \<Rightarrow> (int \<times> bool) tx" where
  "releaseUnusedRewardBudget w reservationId amount opts d =
     rbind (assertRupiah amount ''nilai pelepasan'' 0) (\<lambda>_.
     if \<not> ro_close opts \<and> ro_businessKey opts = None
     then Inl (RangeError ''businessKey is required for a partial release'')
     else if ro_businessKey opts \<noteq> None
        \<and> (the (ro_businessKey opts) = [] \<or> length (the (ro_businessKey opts)) > 191)
     then Inl (RangeError ''businessKey is required'')
     else
     case find_by rsv_id reservationId (reservations d) of
       None \<Rightarrow> Inl (HttpError 404 RESERVATION_NOT_FOUND)
     | Some ref \<Rightarrow>
       with_funding_locks (rsv_accountId ref) (rsv_campaignId ref) d (release_locked w ref amount opts))"

definition closeReservation ::
  "world \<Rightarrow> ident \<Rightarrow> ident option \<Rightarrow> string option \<Rightarrow> db \<Rightarrow> (int \<times> bool) tx" where
  "closeReservation w reservationId releasedById reason d =
     (case find_by rsv_id reservationId (reservations d) of
        None \<Rightarrow> Inl (HttpError 404 RESERVATION_NOT_FOUND)
      | Some ref \<Rightarrow>
          with_funding_locks (rsv_accountId ref) (rsv_campaignId ref) d (\<lambda>d1.
          rbind (find_or_throw rsv_id reservationId (reservations d1)) (\<lambda>reservation.
          releaseUnusedRewardBudget w reservationId (rsv_remainingRupiah reservation)
            \<lparr>ro_close = True, ro_releasedById = releasedById, ro_reason = reason, ro_businessKey = None\<rparr> d1)))"

definition source_ended :: "reservation \<Rightarrow> db \<Rightarrow> bool" where
  "source_ended ref d =
     (case rsv_sourceType ref of
        SESSION \<Rightarrow>
          (case find_by ses_id (rsv_sourceId ref) (sessions d) of
             None \<Rightarrow> False
           | Some s \<Rightarrow> ses_status s \<in> {SS_COMPLETED, SS_CANCELLED, SS_EXPIRED})
      | TRIP \<Rightarrow>
          (case find_by trp_id (rsv_sourceId ref) (trips d) of
             None \<Rightarrow> False
           | Some t \<Rightarrow> trp_status t \<in> {TS_COMPLETED, TS_CANCELLED}))"

definition releaseResidualReservation ::
  "world \<Rightarrow> ident \<Rightarrow> ident \<Rightarrow> ident \<Rightarrow> string \<Rightarrow> db \<Rightarrow> (reservation \<times> int \<times> bool) tx" where
  "releaseResidualReservation w organizationId reservationId releasedById rawReason d =
     (let reason = js_trim rawReason in
      if reason = [] then Inl (HttpError 422 RESERVATION_RELEASE_REASON_REQUIRED)
      else case find_by rsv_id reservationId (reservations d) of
        None \<Rightarrow> Inl (HttpError 404 RESERVATION_NOT_FOUND)
      | Some ref \<Rightarrow>
        if map_option acc_organizationId (find_by acc_id (rsv_accountId ref) (accounts d)) \<noteq> Some organizationId
        then Inl (HttpError 404 RESERVATION_NOT_FOUND)
        else
        with_funding_locks (rsv_accountId ref) (rsv_campaignId ref) d (\<lambda>d2.
        rbind (find_or_throw rsv_id reservationId (reservations d2)) (\<lambda>current.
        if rsv_status current = RES_RELEASED then Inr ((current, 0, True), d2)
        else if \<not> source_ended ref d2 then Inl (HttpError 409 RESERVATION_SOURCE_STILL_OPEN)
        else
          rbind (releaseUnusedRewardBudget w reservationId (rsv_remainingRupiah current)
                  \<lparr>ro_close = True, ro_releasedById = Some releasedById, ro_reason = Some reason,
                   ro_businessKey = None\<rparr> d2) (\<lambda>((released, _), d3).
          rbind (find_or_throw rsv_id reservationId (reservations d3)) (\<lambda>r. Inr ((r, released, False), d3))))))"

section \<open>Cash entries and payouts\<close>

record funding_input =
  fi_organizationId :: ident
  fi_kind :: funding_kind \<comment> \<open>\<^verbatim>\<open>CONFIRMED_TOPUP\<close> or \<^verbatim>\<open>CORRECTION\<close>\<close>
  fi_amount :: int
  fi_reference :: string
  fi_note :: string
  fi_verifiedById :: ident

text \<open>The body under the account lock: the recorded entry of the reference, or a new one.\<close>

definition record_entry_locked ::
  "world \<Rightarrow> funding_input \<Rightarrow> string \<Rightarrow> string \<Rightarrow> account \<Rightarrow> db \<Rightarrow> (funding_entry \<times> account \<times> bool) tx" where
  "record_entry_locked w inp reference note account d =
     (let businessKey = (if fi_amount inp > 0 then fundingCashKey reference else fundingCorrectionKey reference) in
      case find_by fe_businessKey businessKey (fundingEntries d) of
        Some e \<Rightarrow>
          if fe_accountId e \<noteq> acc_id account \<or> fe_amount e \<noteq> fi_amount inp \<or> fe_kind e \<noteq> fi_kind inp
          then Inl (HttpError 409 FUNDING_REFERENCE_CONFLICT)
          else Inr ((e, account, True), d)
      | None \<Rightarrow>
          let e = \<lparr>fe_id = newId w d, fe_accountId = acc_id account, fe_businessKey = businessKey,
                   fe_kind = fi_kind inp, fe_amount = fi_amount inp, fe_reference = reference,
                   fe_note = Some note, fe_verifiedById = Some (fi_verifiedById inp)\<rparr> in
          rbind (create_row entry_ok entry_clash e (fundingEntries d)) (\<lambda>t.
          rbind (bumpAccount (acc_id account) (fi_amount inp) 0 (bump_seq (d\<lparr>fundingEntries := t\<rparr>))) (\<lambda>(updated, d2).
            Inr ((e, updated, False), d2))))"

definition recordFundingEntry :: "world \<Rightarrow> funding_input \<Rightarrow> db \<Rightarrow> (funding_entry \<times> account \<times> bool) tx" where
  "recordFundingEntry w inp d =
     (let reference = js_trim (fi_reference inp); note = js_trim (fi_note inp) in
      if length reference < 6 \<or> length reference > 120 then Inl (HttpError 422 FUNDING_REFERENCE_REQUIRED)
      else if length note < 10 \<or> length note > 500 then Inl (HttpError 422 FUNDING_NOTE_REQUIRED)
      else
      rbind (if fi_kind inp = CONFIRMED_TOPUP then assertRupiah (fi_amount inp) ''nominal topup'' 1
             else assertRupiah \<bar>fi_amount inp\<bar> ''nominal koreksi'' 1) (\<lambda>_.
      rbind (lockFundingAccountForOrganization w (fi_organizationId inp) d) (\<lambda>(account, d1).
        record_entry_locked w inp reference note account d1)))"

text \<open>An obligation a payout may draw from: decided, and not fully paid.\<close>

definition payable :: "ident \<Rightarrow> commit \<Rightarrow> bool" where
  "payable userId c \<longleftrightarrow> com_userId c = userId \<and> \<not> com_reviewPending c \<and> com_heldRupiah c > com_paidRupiah c"

definition fundingAccountsForPayout :: "ident \<Rightarrow> db \<Rightarrow> ident list" where
  "fundingAccountsForPayout userId d =
     sort (remdups (map com_accountId (filter (payable userId) (commits d))))"

text \<open>Oldest first: \<^verbatim>\<open>orderBy: [{ createdAt: "asc" }, { id: "asc" }]\<close>.\<close>

definition commits_oldest_first :: "ident \<Rightarrow> db \<Rightarrow> commit list" where
  "commits_oldest_first userId d =
     sort_key com_createdAt (sort_key com_id
       (filter (\<lambda>c. com_userId c = userId \<and> \<not> com_reviewPending c) (commits d)))"

text \<open>The loop over the commits: what is taken from which commit, and what is left of the gross.\<close>

fun attribute_payout :: "int \<Rightarrow> commit list \<Rightarrow> (commit \<times> int) list \<times> int" where
  "attribute_payout remaining [] = ([], remaining)"
| "attribute_payout remaining (c # cs) =
     (if remaining \<le> 0 then ([], remaining)
      else let amt = min remaining (com_heldRupiah c - com_paidRupiah c) in
        if amt \<le> 0 then attribute_payout remaining cs
        else let (takes, left) = attribute_payout (remaining - amt) cs in ((c, amt) # takes, left))"

fun pay_commits :: "(commit \<times> int) list \<Rightarrow> db \<Rightarrow> db result" where
  "pay_commits [] d = Inr d"
| "pay_commits ((c, amt) # takes) d =
     rbind (update_row commit_ok com_id (com_id c) (\<lambda>x. x\<lparr>com_paidRupiah := com_paidRupiah x + amt\<rparr>) (commits d))
       (\<lambda>t. pay_commits takes (d\<lparr>commits := t\<rparr>))"

text \<open>\<^verbatim>\<open>perAccount\<close>: the sum taken per account, in id order.\<close>

definition per_account :: "(commit \<times> int) list \<Rightarrow> (ident \<times> int) list" where
  "per_account takes =
     map (\<lambda>a. (a, tsum snd (filter (\<lambda>p. com_accountId (fst p) = a) takes)))
       (sort (remdups (map (com_accountId \<circ> fst) takes)))"

definition payout_entry :: "world \<Rightarrow> db \<Rightarrow> ident \<Rightarrow> ident option \<Rightarrow> ident \<Rightarrow> int \<Rightarrow> funding_entry" where
  "payout_entry w d redemptionId actorId accountId amount =
     \<lparr>fe_id = newId w d, fe_accountId = accountId, fe_businessKey = payoutFundingKey redemptionId accountId,
      fe_kind = PAYOUT, fe_amount = - amount, fe_reference = redemptionId, fe_note = None,
      fe_verifiedById = actorId\<rparr>"

fun debit_accounts ::
  "world \<Rightarrow> ident \<Rightarrow> ident option \<Rightarrow> (ident \<times> int) list \<Rightarrow> db \<Rightarrow> funding_entry list tx" where
  "debit_accounts w redemptionId actorId [] d = Inr ([], d)"
| "debit_accounts w redemptionId actorId ((a, amount) # rest) d =
     rbind (lockFundingAccount a d) (\<lambda>d1.
     rbind (bumpAccount a (- amount) (- amount) d1) (\<lambda>(_, d2).
     let e = payout_entry w d2 redemptionId actorId a amount in
     rbind (create_row entry_ok entry_clash e (fundingEntries d2)) (\<lambda>t.
     rbind (debit_accounts w redemptionId actorId rest (bump_seq (d2\<lparr>fundingEntries := t\<rparr>))) (\<lambda>(es, d3).
       Inr (e # es, d3)))))"

record payout_attribution =
  pa_entries :: "funding_entry list"
  pa_attributedRupiah :: int
  pa_legacyRupiah :: int

definition settlePayoutFunding ::
  "world \<Rightarrow> ident \<Rightarrow> ident \<Rightarrow> int \<Rightarrow> ident option \<Rightarrow> db \<Rightarrow> payout_attribution tx" where
  "settlePayoutFunding w redemptionId userId grossRupiah actorId d =
     rbind (assertRupiah grossRupiah ''nominal pencairan'' 1) (\<lambda>_.
     let recorded = sort_key fe_businessKey
           (filter (\<lambda>e. fe_kind e = PAYOUT \<and> fe_reference e = redemptionId) (fundingEntries d)) in
     if recorded \<noteq> []
     then let attributed = - tsum fe_amount recorded in
       Inr (\<lparr>pa_entries = recorded, pa_attributedRupiah = attributed,
             pa_legacyRupiah = grossRupiah - attributed\<rparr>, d)
     else
       let (takes, remaining) = attribute_payout grossRupiah (commits_oldest_first userId d) in
       rbind (pay_commits takes d) (\<lambda>d1.
       rbind (debit_accounts w redemptionId actorId (per_account takes) d1) (\<lambda>(es, d2).
         Inr (\<lparr>pa_entries = es, pa_attributedRupiah = grossRupiah - remaining,
               pa_legacyRupiah = remaining\<rparr>, d2))))"

end
