(* ===== verification/Funding_Books.thy ===== *)
theory Funding_Books
  imports Funding
begin

text \<open>
  The books of reward funding balance. An account's \<^verbatim>\<open>heldRupiah\<close> is the sum of what its
  reservations still hold and of what its commits owe (\<^verbatim>\<open>held - paid\<close>); its
  \<^verbatim>\<open>confirmedRupiah\<close> is the sum of its funding entries; a campaign's \<^verbatim>\<open>heldRupiah\<close> and
  \<^verbatim>\<open>spentRupiah\<close> are the sums of the remaining reservations and of the commits made under
  it. \<open>funding_inv\<close> states this together with the row invariants that make it inductive, and
  every operation of the theory \<open>Funding\<close> preserves it.
\<close>

section \<open>The invariant\<close>

definition due_res :: "ident \<Rightarrow> reservation \<Rightarrow> int" where
  "due_res a r = (if rsv_accountId r = a then rsv_remainingRupiah r else 0)"

definition due_com :: "ident \<Rightarrow> commit \<Rightarrow> int" where
  "due_com a c = (if com_accountId c = a then com_heldRupiah c - com_paidRupiah c else 0)"

definition cash_of :: "ident \<Rightarrow> funding_entry \<Rightarrow> int" where
  "cash_of a e = (if fe_accountId e = a then fe_amount e else 0)"

definition camp_res :: "ident \<Rightarrow> reservation \<Rightarrow> int" where
  "camp_res c r = (if rsv_campaignId r = Some c then rsv_remainingRupiah r else 0)"

definition camp_com :: "ident \<Rightarrow> commit \<Rightarrow> int" where
  "camp_com c x = (if com_campaignId x = Some c then com_heldRupiah x else 0)"

definition held_due :: "db \<Rightarrow> ident \<Rightarrow> int" where
  "held_due d a = tsum (due_res a) (reservations d) + tsum (due_com a) (commits d)"

definition cash_due :: "db \<Rightarrow> ident \<Rightarrow> int" where
  "cash_due d a = tsum (cash_of a) (fundingEntries d)"

definition funding_books :: "db \<Rightarrow> bool" where
  "funding_books d \<longleftrightarrow>
     (\<forall>a \<in> set (accounts d). acc_heldRupiah a = held_due d (acc_id a)
        \<and> acc_confirmedRupiah a = cash_due d (acc_id a))
     \<and> (\<forall>c \<in> set (campaigns d). cmp_heldRupiah c = tsum (camp_res (cmp_id c)) (reservations d)
        \<and> cmp_spentRupiah c = tsum (camp_com (cmp_id c)) (commits d))"

text \<open>Row invariants: a released reservation holds nothing, a commit never owes less than it paid.\<close>

definition reservation_inv :: "reservation \<Rightarrow> bool" where
  "reservation_inv r \<longleftrightarrow> 0 \<le> rsv_remainingRupiah r \<and> rsv_remainingRupiah r \<le> rsv_ceilingRupiah r
     \<and> (rsv_status r = RES_RELEASED \<longrightarrow> rsv_remainingRupiah r = 0)"

definition commit_inv :: "commit \<Rightarrow> bool" where
  "commit_inv c \<longleftrightarrow> 0 \<le> com_paidRupiah c \<and> com_paidRupiah c \<le> com_heldRupiah c \<and> 0 \<le> com_uncoveredRupiah c"

text \<open>A commit carries the account, campaign and owner of its reservation.\<close>

definition commit_of :: "commit \<Rightarrow> reservation \<Rightarrow> bool" where
  "commit_of c r \<longleftrightarrow> rsv_id r = com_reservationId c \<and> rsv_accountId r = com_accountId c
     \<and> rsv_campaignId r = com_campaignId c \<and> rsv_userId r = com_userId c"

definition keys_unique :: "db \<Rightarrow> bool" where
  "keys_unique d \<longleftrightarrow> uniq acc_id (accounts d) \<and> uniq acc_organizationId (accounts d) \<and> uniq cmp_id (campaigns d)
     \<and> uniq rsv_id (reservations d) \<and> uniq rsv_businessKey (reservations d)
     \<and> uniq com_id (commits d) \<and> uniq com_businessKey (commits d)
     \<and> uniq fe_id (fundingEntries d) \<and> uniq fe_businessKey (fundingEntries d)"

definition funding_rows :: "db \<Rightarrow> bool" where
  "funding_rows d \<longleftrightarrow>
     (\<forall>r \<in> set (reservations d). reservation_inv r \<and> rsv_accountId r \<in> acc_id ` set (accounts d))
     \<and> (\<forall>c \<in> set (commits d). commit_inv c \<and> (\<exists>r \<in> set (reservations d). commit_of c r))
     \<and> (\<forall>e \<in> set (fundingEntries d). fe_accountId e \<in> acc_id ` set (accounts d))"

definition funding_inv :: "db \<Rightarrow> bool" where
  "funding_inv d \<longleftrightarrow> keys_unique d \<and> funding_rows d \<and> funding_books d"

section \<open>Counter changes\<close>

text \<open>Account \<open>a\<close> moved by \<open>fc a\<close> confirmed and \<open>fh a\<close> held rupiah.\<close>

definition acct_moved :: "(ident \<Rightarrow> int) \<Rightarrow> (ident \<Rightarrow> int) \<Rightarrow> account list \<Rightarrow> account list \<Rightarrow> bool" where
  "acct_moved fc fh = list_all2 (\<lambda>a a'. acc_id a' = acc_id a \<and> acc_organizationId a' = acc_organizationId a
     \<and> acc_confirmedRupiah a' = acc_confirmedRupiah a + fc (acc_id a)
     \<and> acc_heldRupiah a' = acc_heldRupiah a + fh (acc_id a))"

text \<open>Only account \<open>A\<close> moved.\<close>

definition acct_shift :: "ident \<Rightarrow> int \<Rightarrow> int \<Rightarrow> account list \<Rightarrow> account list \<Rightarrow> bool" where
  "acct_shift A dc dh = acct_moved (\<lambda>a. if a = A then dc else 0) (\<lambda>a. if a = A then dh else 0)"

definition camp_shift :: "ident option \<Rightarrow> int \<Rightarrow> int \<Rightarrow> campaign list \<Rightarrow> campaign list \<Rightarrow> bool" where
  "camp_shift C dh ds = list_all2 (\<lambda>c c'. cmp_id c' = cmp_id c \<and> cmp_organizationId c' = cmp_organizationId c
     \<and> cmp_rewardBudgetRupiah c' = cmp_rewardBudgetRupiah c
     \<and> cmp_heldRupiah c' = cmp_heldRupiah c + (if C = Some (cmp_id c) then dh else 0)
     \<and> cmp_spentRupiah c' = cmp_spentRupiah c + (if C = Some (cmp_id c) then ds else 0))"

lemma acct_moved_refl [simp]: "acct_moved (\<lambda>a. 0) (\<lambda>a. 0) t t"
  by (auto simp: acct_moved_def intro: list.rel_refl)

lemma acct_shift_refl [simp]: "acct_shift A 0 0 t t"
  by (simp add: acct_shift_def)

lemma camp_shift_refl [simp]: "camp_shift C 0 0 t t" "camp_shift None dh ds t t"
  by (auto simp: camp_shift_def intro: list.rel_refl)

lemma acct_shift_upd: "acct_shift A dc dh t (upd_by acc_id A (add_account dc dh) t)"
  by (induction t) (auto simp: acct_shift_def acct_moved_def add_account_def)

lemma camp_shift_upd: "camp_shift (Some C) dh ds t (upd_by cmp_id C (add_campaign dh ds) t)"
  by (induction t) (auto simp: camp_shift_def add_campaign_def)

lemma acct_moved_trans:
  assumes "acct_moved fc fh t u" "acct_moved gc gh u v"
  shows "acct_moved (\<lambda>a. fc a + gc a) (\<lambda>a. fh a + gh a) t v"
  using assms unfolding acct_moved_def
  by (induction t u arbitrary: v rule: list_all2_induct) (auto simp: list_all2_Cons1)

lemma acct_moved_keys:
  "acct_moved fc fh t u \<Longrightarrow> map acc_id u = map acc_id t"
  "acct_moved fc fh t u \<Longrightarrow> map acc_organizationId u = map acc_organizationId t"
  unfolding acct_moved_def by (induction rule: list_all2_induct) auto

lemma camp_shift_keys: "camp_shift C dh ds t u \<Longrightarrow> map cmp_id u = map cmp_id t"
  unfolding camp_shift_def by (induction rule: list_all2_induct) auto

lemma acct_moved_ids: "acct_moved fc fh t u \<Longrightarrow> acc_id ` set u = acc_id ` set t"
  using acct_moved_keys(1) by (metis list.set_map)

lemma bumpAccount_Inr:
  assumes "bumpAccount A dc dh d = Inr (a, d')"
  shows "\<exists>X. d' = d\<lparr>accounts := X\<rparr> \<and> acct_shift A dc dh (accounts d) X"
  using assms acct_shift_upd by (auto simp: bumpAccount_def Let_def result_simps)

lemma bumpCampaign_Inr:
  assumes "bumpCampaign C dh ds d = Inr d'"
  shows "\<exists>Y. d' = d\<lparr>campaigns := Y\<rparr> \<and> camp_shift C dh ds (campaigns d) Y"
proof (cases "C = None \<or> dh = 0 \<and> ds = 0")
  case True
  with assms have "d' = d\<lparr>campaigns := campaigns d\<rparr>" "camp_shift C dh ds (campaigns d) (campaigns d)"
    by (auto simp: bumpCampaign_def split: option.splits)
  then show ?thesis by blast
next
  case False
  with assms camp_shift_upd show ?thesis
    by (auto simp: bumpCampaign_def result_simps split: option.splits)
qed

lemma lockCampaignOpt_fields:
  assumes "lockCampaignOpt C d = Inr d'"
  shows "\<exists>ls. d' = d\<lparr>held_locks := ls\<rparr>"
  using assms acquire_cases exI [of "\<lambda>ls. d = d\<lparr>held_locks := ls\<rparr>" "held_locks d"]
  by (fastforce simp: lockCampaignOpt_def result_simps split: option.splits)

lemma acquire_eq: "\<exists>ls. acquire l d = d\<lparr>held_locks := ls\<rparr>"
  using acquire_cases by blast

lemma with_funding_locks_Inr:
  assumes "with_funding_locks A C d k = Inr y"
  obtains ls where "k (d\<lparr>held_locks := ls\<rparr>) = Inr y" "find_by acc_id A (accounts d) \<noteq> None"
proof -
  from assms obtain d2 where d2: "lockCampaignOpt C (acquire (LFundingAccount A) d) = Inr d2" "k d2 = Inr y"
    "find_by acc_id A (accounts d) \<noteq> None"
    by (auto simp: with_funding_locks_def result_simps)
  obtain ls0 where "acquire (LFundingAccount A) d = d\<lparr>held_locks := ls0\<rparr>"
    using acquire_eq by blast
  with lockCampaignOpt_fields [OF d2(1)] obtain ls where "d2 = d\<lparr>held_locks := ls\<rparr>" by auto
  with d2 that show ?thesis by blast
qed

text \<open>The invariant reads neither the locks nor the id counter.\<close>

lemma funding_inv_bookkeeping [simp]:
  "funding_inv (d\<lparr>held_locks := ls\<rparr>) = funding_inv d"
  "funding_inv (bump_seq d) = funding_inv d"
  by (simp_all add: funding_inv_def keys_unique_def funding_rows_def funding_books_def held_due_def cash_due_def bump_seq_def)

lemma funding_inv_acquire [simp]: "funding_inv (acquire l d) = funding_inv d"
  by (auto simp: acquire_def)

section \<open>One lemma for all operations\<close>

text \<open>
  If the counters move by the same amounts as the sums they stand for, the books stay
  balanced. Each operation below only has to say which amounts it moves.
\<close>

lemma books_step:
  assumes "funding_books d"
    and "acct_moved fc fh (accounts d) (accounts d')"
    and "camp_shift C eh es (campaigns d) (campaigns d')"
    and "\<And>a. held_due d' a = held_due d a + fh a"
    and "\<And>a. cash_due d' a = cash_due d a + fc a"
    and "\<And>c. tsum (camp_res c) (reservations d') = tsum (camp_res c) (reservations d) + (if C = Some c then eh else 0)"
    and "\<And>c. tsum (camp_com c) (commits d') = tsum (camp_com c) (commits d) + (if C = Some c then es else 0)"
  shows "funding_books d'"
proof -
  have acct: "acc_heldRupiah a' = held_due d' (acc_id a') \<and> acc_confirmedRupiah a' = cash_due d' (acc_id a')"
    if a': "a' \<in> set (accounts d')" for a'
  proof -
    obtain a where "a \<in> set (accounts d)"
      "acc_id a' = acc_id a"
      "acc_confirmedRupiah a' = acc_confirmedRupiah a + fc (acc_id a)"
      "acc_heldRupiah a' = acc_heldRupiah a + fh (acc_id a)"
      using assms(2) a' unfolding acct_moved_def list_all2_conv_all_nth in_set_conv_nth by metis
    then show ?thesis using assms(1,4,5) by (auto simp: funding_books_def)
  qed
  have camp: "cmp_heldRupiah c' = tsum (camp_res (cmp_id c')) (reservations d')
      \<and> cmp_spentRupiah c' = tsum (camp_com (cmp_id c')) (commits d')"
    if c': "c' \<in> set (campaigns d')" for c'
  proof -
    obtain c where "c \<in> set (campaigns d)"
      "cmp_id c' = cmp_id c"
      "cmp_heldRupiah c' = cmp_heldRupiah c + (if C = Some (cmp_id c) then eh else 0)"
      "cmp_spentRupiah c' = cmp_spentRupiah c + (if C = Some (cmp_id c) then es else 0)"
      using assms(3) c' unfolding camp_shift_def list_all2_conv_all_nth in_set_conv_nth by metis
    then show ?thesis using assms(1,6,7) by (auto simp: funding_books_def)
  qed
  show ?thesis using acct camp by (auto simp: funding_books_def)
qed

lemma keys_step:
  assumes "keys_unique d"
    and "acct_moved fc fh (accounts d) (accounts d')"
    and "camp_shift C eh es (campaigns d) (campaigns d')"
    and "uniq rsv_id (reservations d')" "uniq rsv_businessKey (reservations d')"
    and "uniq com_id (commits d')" "uniq com_businessKey (commits d')"
    and "uniq fe_id (fundingEntries d')" "uniq fe_businessKey (fundingEntries d')"
  shows "keys_unique d'"
  using assms acct_moved_keys [OF assms(2)] camp_shift_keys [OF assms(3)]
  by (simp add: keys_unique_def uniq_def)

subsection \<open>Creating the account of an organization\<close>

lemma lockFundingAccountForOrganization_Inr:
  assumes "lockFundingAccountForOrganization w org d = Inr (a, d')"
  shows "a \<in> set (accounts d') \<and> acc_organizationId a = org \<and> find_by acc_organizationId org (accounts d') = Some a
    \<and> reservations d' = reservations d \<and> commits d' = commits d \<and> fundingEntries d' = fundingEntries d
    \<and> campaigns d' = campaigns d \<and> releases d' = releases d \<and> ledgers d' = ledgers d \<and> cases d' = cases d
    \<and> redemptions d' = redemptions d \<and> users d' = users d \<and> sessions d' = sessions d \<and> trips d' = trips d"
  using assms find_by_SomeD
  by (fastforce simp: lockFundingAccountForOrganization_def result_simps bump_seq_def split: option.splits)

lemma new_account_inv:
  assumes inv: "funding_inv d" and new: "create_row account_ok account_clash a (accounts d) = Inr t"
    and "acc_heldRupiah a = 0" "acc_confirmedRupiah a = 0"
  shows "funding_inv (d\<lparr>accounts := t\<rparr>)"
proof -
  from new have t: "t = accounts d @ [a]"
    and fresh: "acc_id a \<notin> acc_id ` set (accounts d)" "acc_organizationId a \<notin> acc_organizationId ` set (accounts d)"
    by (auto simp: result_simps list_ex_iff account_clash_def)
  from inv have rows: "funding_rows d" and keys: "keys_unique d" and books: "funding_books d"
    by (auto simp: funding_inv_def)
  have none: "tsum (due_res (acc_id a)) (reservations d) = 0" "tsum (due_com (acc_id a)) (commits d) = 0"
    "tsum (cash_of (acc_id a)) (fundingEntries d) = 0"
  proof -
    have "\<forall>r \<in> set (reservations d). due_res (acc_id a) r = 0"
      using rows fresh(1) unfolding funding_rows_def due_res_def by metis
    then show "tsum (due_res (acc_id a)) (reservations d) = 0" by (rule tsum_zero)
    have "\<forall>c \<in> set (commits d). com_accountId c \<in> acc_id ` set (accounts d)"
      using rows unfolding funding_rows_def commit_of_def by metis
    then have "\<forall>c \<in> set (commits d). due_com (acc_id a) c = 0"
      using fresh(1) unfolding due_com_def by metis
    then show "tsum (due_com (acc_id a)) (commits d) = 0" by (rule tsum_zero)
    have "\<forall>e \<in> set (fundingEntries d). cash_of (acc_id a) e = 0"
      using rows fresh(1) unfolding funding_rows_def cash_of_def by metis
    then show "tsum (cash_of (acc_id a)) (fundingEntries d) = 0" by (rule tsum_zero)
  qed
  have "funding_books (d\<lparr>accounts := t\<rparr>)"
    using books none assms(3,4) by (auto simp: funding_books_def held_due_def cash_due_def t)
  moreover have "keys_unique (d\<lparr>accounts := t\<rparr>)"
    using keys fresh by (simp add: keys_unique_def t uniq_append)
  moreover have "funding_rows (d\<lparr>accounts := t\<rparr>)"
    using rows by (auto simp: funding_rows_def t)
  ultimately show ?thesis by (simp add: funding_inv_def)
qed

lemma lockFundingAccountForOrganization_inv:
  assumes "lockFundingAccountForOrganization w org d = Inr (a, d')" "funding_inv d"
  shows "funding_inv d'"
  using assms new_account_inv [OF assms(2)]
  by (fastforce simp: lockFundingAccountForOrganization_def result_simps split: option.splits)

section \<open>Draws, commits and settlements\<close>

lemma draw_reservation_fields [simp]:
  "rsv_id (draw_reservation n r) = rsv_id r" "rsv_businessKey (draw_reservation n r) = rsv_businessKey r"
  "rsv_accountId (draw_reservation n r) = rsv_accountId r" "rsv_campaignId (draw_reservation n r) = rsv_campaignId r"
  "rsv_userId (draw_reservation n r) = rsv_userId r" "rsv_ceilingRupiah (draw_reservation n r) = rsv_ceilingRupiah r"
  "rsv_status (draw_reservation n r) = rsv_status r"
  "rsv_remainingRupiah (draw_reservation n r) = rsv_remainingRupiah r - n"
  "draw_reservation 0 r = r"
  by (simp_all add: draw_reservation_def)

lemma draw_and_hold_Inr:
  assumes "draw_and_hold r A cov unc d = Inr d'" "0 \<le> cov" "0 \<le> unc"
  shows "\<exists>X. d' = d\<lparr>reservations := upd_by rsv_id (rsv_id r) (draw_reservation cov) (reservations d), accounts := X\<rparr>
    \<and> acct_shift A 0 unc (accounts d) X"
proof -
  obtain d1 where
    d1: "d1 = d\<lparr>reservations := upd_by rsv_id (rsv_id r) (draw_reservation cov) (reservations d)\<rparr>"
    and rest: "(if unc > 0 then rbind (bumpAccount A 0 unc d1) (\<lambda>(_, d2). Inr d2) else Inr d1) = Inr d'"
  proof (cases "cov > 0")
    case True
    with assms(1) show ?thesis
      by (auto simp: draw_and_hold_def result_simps intro!: that)
  next
    case False
    with assms(2) have "cov = 0" by simp
    with assms(1) show ?thesis
      by (auto simp: draw_and_hold_def upd_by_ident intro!: that)
  qed
  have "\<exists>X. d' = d1\<lparr>accounts := X\<rparr> \<and> acct_shift A 0 unc (accounts d1) X"
  proof (cases "unc > 0")
    case True
    with rest show ?thesis using bumpAccount_Inr by (auto simp: result_simps)
  next
    case False
    with rest assms(3) have "d' = d1\<lparr>accounts := accounts d1\<rparr>" "unc = 0" by auto
    then show ?thesis using acct_shift_refl by blast
  qed
  then show ?thesis unfolding d1 by auto
qed

text \<open>The rows and sums after a draw of \<open>n\<close> from the reservation \<open>ref\<close>.\<close>

lemma draw_sums:
  assumes "uniq rsv_id R" "find_by rsv_id i R = Some ref"
  shows "tsum (due_res a) (upd_by rsv_id i (draw_reservation n) R) =
      tsum (due_res a) R - (if a = rsv_accountId ref then n else 0)"
    and "tsum (camp_res c) (upd_by rsv_id i (draw_reservation n) R) =
      tsum (camp_res c) R - (if rsv_campaignId ref = Some c then n else 0)"
  using reservation_rows.sum_modify [OF assms]
  by (auto simp: due_res_def camp_res_def)

lemma coverable_bounds:
  assumes "reservation_inv r" "0 \<le> amount"
  shows "0 \<le> coverable r amount" "coverable r amount \<le> amount" "coverable r amount \<le> rsv_remainingRupiah r"
  using assms by (auto simp: coverable_def reservation_inv_def)

lemma reservation_rows_upd:
  assumes "funding_rows d" "find_by rsv_id i (reservations d) = Some ref" "uniq rsv_id (reservations d)"
    and "reservation_inv (f ref)"
    and "\<And>r. rsv_id (f r) = rsv_id r" "\<And>r. rsv_accountId (f r) = rsv_accountId r"
      "\<And>r. rsv_campaignId (f r) = rsv_campaignId r" "\<And>r. rsv_userId (f r) = rsv_userId r"
    and "r' \<in> set (upd_by rsv_id i f (reservations d))"
  shows "reservation_inv r' \<and> (\<exists>r \<in> set (reservations d). rsv_id r' = rsv_id r \<and> rsv_accountId r' = rsv_accountId r
     \<and> rsv_campaignId r' = rsv_campaignId r \<and> rsv_userId r' = rsv_userId r)"
proof -
  obtain r where r: "r \<in> set (reservations d)" "r' = (if rsv_id r = i then f r else r)"
    using assms(9) by (auto simp: set_upd_by)
  have "r = ref" if "rsv_id r = i"
    using find_by_uniqI [OF assms(3) r(1)] assms(2) that by simp
  then show ?thesis
    using r assms(1,4-8) by (auto simp: funding_rows_def)
qed

text \<open>Rewriting one reservation keeps the row invariants.\<close>

lemma rows_upd_reservation:
  assumes rows: "funding_rows d" and ref: "find_by rsv_id i (reservations d) = Some ref" "uniq rsv_id (reservations d)"
    and f: "reservation_inv (f ref)"
      "\<And>r. rsv_id (f r) = rsv_id r" "\<And>r. rsv_accountId (f r) = rsv_accountId r"
      "\<And>r. rsv_campaignId (f r) = rsv_campaignId r" "\<And>r. rsv_userId (f r) = rsv_userId r"
    and R': "reservations d' = upd_by rsv_id i f (reservations d)"
    and ids: "acc_id ` set (accounts d') = acc_id ` set (accounts d)"
  shows "\<forall>r \<in> set (reservations d'). reservation_inv r \<and> rsv_accountId r \<in> acc_id ` set (accounts d')"
    and "\<And>c. c \<in> set (commits d) \<Longrightarrow> \<exists>r \<in> set (reservations d'). commit_of c r"
proof -
  note upd = reservation_rows_upd [OF rows ref f]
  show "\<forall>r \<in> set (reservations d'). reservation_inv r \<and> rsv_accountId r \<in> acc_id ` set (accounts d')"
    using upd rows unfolding R' ids funding_rows_def by metis
  fix c assume "c \<in> set (commits d)"
  then obtain r where r: "r \<in> set (reservations d)" "commit_of c r"
    using rows by (auto simp: funding_rows_def)
  let ?r = "if rsv_id r = i then f r else r"
  have "?r \<in> set (reservations d')" using r(1) by (auto simp: R' set_upd_by)
  moreover have "commit_of c ?r" using r(2) f(2-5) by (auto simp: commit_of_def)
  ultimately show "\<exists>r \<in> set (reservations d'). commit_of c r" by blast
qed

text \<open>What a commit that is not a retry writes.\<close>

lemma commit_new_effect:
  assumes run: "commitRewardAgainstBudget w i key amt rp d = Inr (res, d')" and new: "\<not> cr_existing res"
    and inv: "funding_inv d"
  obtains ref c where "find_by rsv_id i (reservations d) = Some ref"
    and "find_by com_businessKey key (commits d) = None"
    and "cr_covered res = coverable ref amt" "cr_uncovered res = amt - coverable ref amt" "0 \<le> amt"
    and "acct_shift (rsv_accountId ref) 0 (amt - coverable ref amt) (accounts d) (accounts d')"
    and "camp_shift (rsv_campaignId ref) (- coverable ref amt) amt (campaigns d) (campaigns d')"
    and "reservations d' = upd_by rsv_id i (draw_reservation (coverable ref amt)) (reservations d)"
    and "commits d' = commits d @ [c]" "commit_ok c" "\<not> list_ex (commit_clash c) (commits d)"
    and "commit_of c ref" "com_businessKey c = key" "com_heldRupiah c = amt" "com_paidRupiah c = 0"
      "com_uncoveredRupiah c = amt - coverable ref amt" "com_reviewPending c = rp" "com_id c = cr_commitId res"
    and "fundingEntries d' = fundingEntries d" "ledgers d' = ledgers d" "redemptions d' = redemptions d"
      "cases d' = cases d" "users d' = users d"
proof -
  from run obtain ref where amt: "0 \<le> amt" and ref: "find_by rsv_id i (reservations d) = Some ref"
    and body: "with_funding_locks (rsv_accountId ref) (rsv_campaignId ref) d (commit_locked w ref key amt rp) = Inr (res, d')"
    by (auto simp: commitRewardAgainstBudget_def assertRupiah_def result_simps)
  from body obtain ls where locked: "commit_locked w ref key amt rp (d\<lparr>held_locks := ls\<rparr>) = Inr (res, d')"
    by (rule with_funding_locks_Inr)
  have i: "rsv_id ref = i" using find_by_SomeD [OF ref] by blast
  from locked new have none: "find_by com_businessKey key (commits d) = None"
    by (auto simp: commit_locked_def split: option.splits if_splits)
  let ?cov = "coverable ref amt"
  from locked none ref i obtain d3 d4 t c where
    d3: "draw_and_hold ref (rsv_accountId ref) ?cov (amt - ?cov) (d\<lparr>held_locks := ls\<rparr>) = Inr d3"
    and d4: "bumpCampaign (rsv_campaignId ref) (- ?cov) amt d3 = Inr d4"
    and c: "c = new_commit w d4 ref key amt (amt - ?cov) rp"
    and t: "create_row commit_ok commit_clash c (commits d4) = Inr t"
    and res: "res = \<lparr>cr_commitId = com_id c, cr_covered = ?cov, cr_uncovered = amt - ?cov, cr_existing = False\<rparr>"
    and d': "d' = bump_seq (d4\<lparr>commits := t\<rparr>)"
    by (simp add: commit_locked_def find_or_throw_def Let_def) (auto simp: rbind_Inr_iff)
  have "reservation_inv ref"
    using inv find_by_SomeD [OF ref] by (auto simp: funding_inv_def funding_rows_def)
  note cov = coverable_bounds [OF this amt]
  have "0 \<le> amt - ?cov" using cov by simp
  from draw_and_hold_Inr [OF d3 cov(1) this] find_by_SomeD [OF ref] obtain X where
    d3_eq: "d3 = d\<lparr>held_locks := ls,
        reservations := upd_by rsv_id i (draw_reservation ?cov) (reservations d), accounts := X\<rparr>"
    and X: "acct_shift (rsv_accountId ref) 0 (amt - ?cov) (accounts d) X"
    by auto
  from bumpCampaign_Inr [OF d4] obtain Y where
    d4_eq: "d4 = d3\<lparr>campaigns := Y\<rparr>" and Y: "camp_shift (rsv_campaignId ref) (- ?cov) amt (campaigns d) Y"
    by (auto simp: d3_eq)
  from t have t_eq: "t = commits d @ [c]" "commit_ok c" "\<not> list_ex (commit_clash c) (commits d)"
    by (auto simp: result_simps d4_eq d3_eq)
  show ?thesis
    by (rule that [OF ref none])
      (use amt X Y t_eq in \<open>auto simp: res d' bump_seq_def d4_eq d3_eq c new_commit_def commit_of_def\<close>)
qed

lemma commit_append_fresh:
  "\<not> list_ex (commit_clash c) C \<Longrightarrow> uniq com_id C \<Longrightarrow> uniq com_businessKey C \<Longrightarrow>
   uniq com_id (C @ [c]) \<and> uniq com_businessKey (C @ [c])"
  by (auto simp: list_ex_iff commit_clash_def uniq_append)

lemma commitRewardAgainstBudget_inv:
  assumes run: "commitRewardAgainstBudget w i key amt rp d = Inr (res, d')" and inv: "funding_inv d"
  shows "funding_inv d'"
proof (cases "cr_existing res")
  case True
  from run obtain ref ls where "commit_locked w ref key amt rp (d\<lparr>held_locks := ls\<rparr>) = Inr (res, d')"
    by (auto simp: commitRewardAgainstBudget_def result_simps elim: with_funding_locks_Inr)
  with True have "d' = d\<lparr>held_locks := ls\<rparr>"
    by (auto simp: commit_locked_def Let_def result_simps split: option.splits if_splits)
  with inv show ?thesis by simp
next
  case False
  from inv have keys: "keys_unique d" and rows: "funding_rows d" and books: "funding_books d"
    by (auto simp: funding_inv_def)
  from commit_new_effect [OF run False inv] obtain ref c where
    ref: "find_by rsv_id i (reservations d) = Some ref" and amt: "0 \<le> amt"
    and acct: "acct_shift (rsv_accountId ref) 0 (amt - coverable ref amt) (accounts d) (accounts d')"
    and camp: "camp_shift (rsv_campaignId ref) (- coverable ref amt) amt (campaigns d) (campaigns d')"
    and R: "reservations d' = upd_by rsv_id i (draw_reservation (coverable ref amt)) (reservations d)"
    and C: "commits d' = commits d @ [c]" "\<not> list_ex (commit_clash c) (commits d)"
    and c: "commit_of c ref" "com_heldRupiah c = amt" "com_paidRupiah c = 0"
      "com_uncoveredRupiah c = amt - coverable ref amt"
    and F: "fundingEntries d' = fundingEntries d" by metis
  have ref_inv: "reservation_inv ref" and ref_in: "ref \<in> set (reservations d)"
    using rows find_by_SomeD [OF ref] by (auto simp: funding_rows_def)
  have uniq: "uniq rsv_id (reservations d)" using keys by (simp add: keys_unique_def)
  note cov = coverable_bounds [OF ref_inv amt]
  have drawn: "reservation_inv (draw_reservation (coverable ref amt) ref)"
    using ref_inv cov by (auto simp: reservation_inv_def coverable_def)
  note sums = draw_sums [OF uniq ref]
  have "funding_books d'"
    using c by (intro books_step [OF books acct [unfolded acct_shift_def] camp])
      (auto simp: held_due_def cash_due_def R C F sums due_com_def camp_com_def commit_of_def)
  moreover have "keys_unique d'"
    using commit_append_fresh [OF C(2)] keys
    by (intro keys_step [OF keys acct [unfolded acct_shift_def] camp])
      (auto simp: keys_unique_def R C F uniq_upd_by)
  moreover have "funding_rows d'"
  proof -
    have ids: "acc_id ` set (accounts d') = acc_id ` set (accounts d)"
      using acct unfolding acct_shift_def by (rule acct_moved_ids)
    note upd = rows_upd_reservation [OF rows ref uniq drawn _ _ _ _ R ids]
    have "draw_reservation (coverable ref amt) ref \<in> set (reservations d')"
      using ref_in find_by_SomeD [OF ref] by (force simp: R set_upd_by)
    moreover have "commit_of c (draw_reservation (coverable ref amt) ref)"
      using c(1) by (simp add: commit_of_def)
    moreover have "commit_inv c" using c amt cov by (simp add: commit_inv_def)
    ultimately show ?thesis
      using upd rows unfolding funding_rows_def C(1) F ids by (auto simp: funding_rows_def)
  qed
  ultimately show ?thesis by (simp add: funding_inv_def)
qed

end
