(* ===== verification/Funding_Steps.thy ===== *)
theory Funding_Steps
  imports Funding_Books
begin

text \<open>
  The remaining operations of \<^verbatim>\<open>src/lib/reward-funding.ts\<close> keep the books of the theory
  \<open>Funding_Books\<close>: settlements after a review, releases and closings, admission reservations,
  late reservations, cash entries and the attribution of payouts.
\<close>

section \<open>Settlements\<close>

lemma settle_delta_Inr:
  assumes run: "settle_delta ref delta d = Inr (unc, d')"
    and r: "find_by rsv_id (com_reservationId ref) (reservations d) = Some r" and inv: "reservation_inv r"
  obtains cov X Y where
    "d' = d\<lparr>reservations := upd_by rsv_id (com_reservationId ref) (draw_reservation cov) (reservations d),
            accounts := X, campaigns := Y\<rparr>"
    "acct_shift (com_accountId ref) 0 (delta - cov) (accounts d) X"
    "camp_shift (com_campaignId ref) (- cov) delta (campaigns d) Y"
    "cov = (if delta > 0 then coverable r delta else 0)" "unc = (if delta > 0 then delta - cov else 0)"
proof (cases "delta > 0")
  case True
  let ?cov = "coverable r delta"
  have id: "rsv_id r = com_reservationId ref" using find_by_SomeD [OF r] by blast
  note cov = coverable_bounds [OF inv less_imp_le [OF True]]
  from run True r obtain d1 where
    d1: "draw_and_hold r (com_accountId ref) ?cov (delta - ?cov) d = Inr d1"
    and d2: "bumpCampaign (com_campaignId ref) (- ?cov) delta d1 = Inr d'" and unc: "unc = delta - ?cov"
    by (simp add: settle_delta_def find_or_throw_def Let_def) (auto simp: rbind_Inr_iff)
  from cov have "0 \<le> delta - ?cov" by simp
  from draw_and_hold_Inr [OF d1 cov(1) this] obtain X where
    d1_eq: "d1 = d\<lparr>reservations := upd_by rsv_id (com_reservationId ref) (draw_reservation ?cov) (reservations d), accounts := X\<rparr>"
    and X: "acct_shift (com_accountId ref) 0 (delta - ?cov) (accounts d) X"
    by (auto simp: id)
  from bumpCampaign_Inr [OF d2] obtain Y where "d' = d1\<lparr>campaigns := Y\<rparr>"
    and "camp_shift (com_campaignId ref) (- ?cov) delta (campaigns d) Y"
    by (auto simp: d1_eq)
  with X True unc show ?thesis by (intro that [where cov = ?cov and X = X and Y = Y]) (auto simp: d1_eq)
next
  case False
  have same: "d\<lparr>reservations := upd_by rsv_id (com_reservationId ref) (draw_reservation 0) (reservations d)\<rparr> = d"
    by (simp add: upd_by_ident)
  show ?thesis
  proof (cases "delta < 0")
    case True
    with run obtain a d1 where d1: "bumpAccount (com_accountId ref) 0 delta d = Inr (a, d1)"
      and d2: "bumpCampaign (com_campaignId ref) 0 delta d1 = Inr d'" and unc: "unc = 0"
      by (auto simp: settle_delta_def result_simps)
    from bumpAccount_Inr [OF d1] bumpCampaign_Inr [OF d2] obtain X Y where
      "d' = d\<lparr>accounts := X, campaigns := Y\<rparr>" "acct_shift (com_accountId ref) 0 delta (accounts d) X"
      "camp_shift (com_campaignId ref) 0 delta (campaigns d) Y"
      by auto
    with False unc show ?thesis by (intro that [where cov = 0 and X = X and Y = Y]) (auto simp: upd_by_ident)
  next
    case False
    with \<open>\<not> 0 < delta\<close> run have "d' = d" "unc = 0" "delta = 0" by (auto simp: settle_delta_def)
    then show ?thesis by (intro that [where cov = 0 and X = "accounts d" and Y = "campaigns d"]) (auto simp: upd_by_ident)
  qed
qed

lemma settle_commit_fields [simp]:
  "com_id (settle_commit h rp u c) = com_id c" "com_reservationId (settle_commit h rp u c) = com_reservationId c"
  "com_accountId (settle_commit h rp u c) = com_accountId c" "com_campaignId (settle_commit h rp u c) = com_campaignId c"
  "com_userId (settle_commit h rp u c) = com_userId c" "com_businessKey (settle_commit h rp u c) = com_businessKey c"
  "com_heldRupiah (settle_commit h rp u c) = h" "com_paidRupiah (settle_commit h rp u c) = com_paidRupiah c"
  "com_uncoveredRupiah (settle_commit h rp u c) = com_uncoveredRupiah c + u"
  "com_reviewPending (settle_commit h rp u c) = rp" "com_createdAt (settle_commit h rp u c) = com_createdAt c"
  by (simp_all add: settle_commit_def)

text \<open>What a settlement of an existing commit writes.\<close>

lemma settle_effect:
  assumes run: "settleCommittedReward key target rp d = Inr (res, d')" and inv: "funding_inv d"
    and c: "find_by com_businessKey key (commits d) = Some c"
  obtains r cov u X Y ls where
    "find_by rsv_id (com_reservationId c) (reservations d) = Some r" "commit_of c r"
    "cov = (if max target (com_paidRupiah c) > com_heldRupiah c
            then coverable r (max target (com_paidRupiah c) - com_heldRupiah c) else 0)" "0 \<le> u"
    "d' = d\<lparr>reservations := upd_by rsv_id (com_reservationId c) (draw_reservation cov) (reservations d),
            accounts := X, campaigns := Y, held_locks := ls,
            commits := upd_by com_id (com_id c) (settle_commit (max target (com_paidRupiah c)) rp u) (commits d)\<rparr>"
    "acct_shift (com_accountId c) 0 (max target (com_paidRupiah c) - com_heldRupiah c - cov) (accounts d) X"
    "camp_shift (com_campaignId c) (- cov) (max target (com_paidRupiah c) - com_heldRupiah c) (campaigns d) Y"
    "res = Some (settle_commit (max target (com_paidRupiah c)) rp u c)" "0 \<le> target"
proof -
  let ?h = "max target (com_paidRupiah c)"
  let ?delta = "?h - com_heldRupiah c"
  from inv have keys: "keys_unique d" and rows: "funding_rows d" by (auto simp: funding_inv_def)
  have c_in: "c \<in> set (commits d)" using find_by_SomeD [OF c] by blast
  have c_id: "find_by com_id (com_id c) (commits d) = Some c"
    using keys c_in by (auto simp: keys_unique_def intro: find_by_uniqI)
  from rows c_in obtain r where r_in: "r \<in> set (reservations d)" and cr: "commit_of c r" and "reservation_inv r"
    unfolding funding_rows_def by metis
  have r: "find_by rsv_id (com_reservationId c) (reservations d) = Some r"
    using keys r_in cr find_by_uniqI [of rsv_id _ r] by (auto simp: keys_unique_def commit_of_def)
  from run c obtain ls where "settle_locked c target rp (d\<lparr>held_locks := ls\<rparr>) = Inr (res, d')" and t: "0 \<le> target"
    by (auto simp: settleCommittedReward_def assertRupiah_def result_simps elim: with_funding_locks_Inr)
  with c_id obtain unc d1 t where
    d1: "settle_delta c ?delta (d\<lparr>held_locks := ls\<rparr>) = Inr (unc, d1)"
    and t': "t = upd_by com_id (com_id c) (settle_commit ?h rp (if unc > 0 then unc else 0)) (commits d1)"
    and d': "d' = d1\<lparr>commits := t\<rparr>" and res: "res = find_by com_id (com_id c) t"
    by (auto simp: settle_locked_def find_or_throw_def Let_def result_simps)
  from r have "find_by rsv_id (com_reservationId c) (reservations (d\<lparr>held_locks := ls\<rparr>)) = Some r" by simp
  then obtain cov X Y where
    "d1 = d\<lparr>held_locks := ls\<rparr>\<lparr>reservations := upd_by rsv_id (com_reservationId c) (draw_reservation cov)
        (reservations (d\<lparr>held_locks := ls\<rparr>)), accounts := X, campaigns := Y\<rparr>"
    and "acct_shift (com_accountId c) 0 (?delta - cov) (accounts (d\<lparr>held_locks := ls\<rparr>)) X"
    and "camp_shift (com_campaignId c) (- cov) ?delta (campaigns (d\<lparr>held_locks := ls\<rparr>)) Y"
    and cov: "cov = (if ?delta > 0 then coverable r ?delta else 0)"
    by (rule settle_delta_Inr [OF d1 _ \<open>reservation_inv r\<close>])
  then have d1_eq: "d1 = d\<lparr>held_locks := ls,
      reservations := upd_by rsv_id (com_reservationId c) (draw_reservation cov) (reservations d),
      accounts := X, campaigns := Y\<rparr>"
    and X: "acct_shift (com_accountId c) 0 (?delta - cov) (accounts d) X"
    and Y: "camp_shift (com_campaignId c) (- cov) ?delta (campaigns d) Y"
    by simp_all
  have "res = Some (settle_commit ?h rp (if unc > 0 then unc else 0) c)"
    using c_id by (simp add: res t' d1_eq find_by_upd_by)
  with r cr X Y t cov show ?thesis
    by (intro that [where r = r and cov = cov and u = "if unc > 0 then unc else 0" and X = X and Y = Y and ls = ls]) (auto simp: d' t' d1_eq)
qed

lemma settle_sums:
  assumes "uniq com_id C" "find_by com_id i C = Some c"
  shows "tsum (due_com a) (upd_by com_id i (settle_commit h rp u) C) =
      tsum (due_com a) C + (if a = com_accountId c then h - com_heldRupiah c else 0)"
    and "tsum (camp_com k) (upd_by com_id i (settle_commit h rp u) C) =
      tsum (camp_com k) C + (if com_campaignId c = Some k then h - com_heldRupiah c else 0)"
  using commit_rows.sum_modify [OF assms]
  by (auto simp: due_com_def camp_com_def)

lemma settleCommittedReward_inv:
  assumes run: "settleCommittedReward key target rp d = Inr (res, d')" and inv: "funding_inv d"
  shows "funding_inv d'"
proof (cases "find_by com_businessKey key (commits d)")
  case None
  with run inv show ?thesis by (auto simp: settleCommittedReward_def result_simps)
next
  case (Some c)
  from inv have keys: "keys_unique d" and rows: "funding_rows d" and books: "funding_books d"
    by (auto simp: funding_inv_def)
  from settle_effect [OF run inv Some] obtain r cov u X Y ls where
    r: "find_by rsv_id (com_reservationId c) (reservations d) = Some r" "commit_of c r"
    and cov: "cov = (if max target (com_paidRupiah c) > com_heldRupiah c
            then coverable r (max target (com_paidRupiah c) - com_heldRupiah c) else 0)" and u: "0 \<le> u"
    and d': "d' = d\<lparr>reservations := upd_by rsv_id (com_reservationId c) (draw_reservation cov) (reservations d),
            accounts := X, campaigns := Y, held_locks := ls,
            commits := upd_by com_id (com_id c) (settle_commit (max target (com_paidRupiah c)) rp u) (commits d)\<rparr>"
    and X: "acct_shift (com_accountId c) 0 (max target (com_paidRupiah c) - com_heldRupiah c - cov) (accounts d) X"
    and Y: "camp_shift (com_campaignId c) (- cov) (max target (com_paidRupiah c) - com_heldRupiah c) (campaigns d) Y"
    and t: "0 \<le> target" by metis
  have c_in: "c \<in> set (commits d)" using find_by_SomeD [OF Some] by blast
  have ur: "uniq rsv_id (reservations d)" and uc: "uniq com_id (commits d)" using keys by (auto simp: keys_unique_def)
  note c_id = find_by_uniqI [OF uc c_in]
  have r_inv: "reservation_inv r" using rows find_by_SomeD [OF r(1)] by (auto simp: funding_rows_def)
  then have drawn: "reservation_inv (draw_reservation cov r)"
    by (auto simp: cov reservation_inv_def coverable_def)
  note sums = draw_sums [OF ur r(1)] settle_sums [OF uc c_id]
  from X Y have XY: "acct_shift (com_accountId c) 0 (max target (com_paidRupiah c) - com_heldRupiah c - cov)
      (accounts d) (accounts d')"
    "camp_shift (com_campaignId c) (- cov) (max target (com_paidRupiah c) - com_heldRupiah c) (campaigns d) (campaigns d')"
    by (simp_all add: d')
  have "funding_books d'"
    using r(2) by (intro books_step [OF books XY(1) [unfolded acct_shift_def] XY(2)])
      (auto simp: d' held_due_def cash_due_def sums commit_of_def)
  moreover have "keys_unique d'"
    using keys by (intro keys_step [OF keys XY(1) [unfolded acct_shift_def] XY(2)])
      (auto simp: d' keys_unique_def uniq_upd_by)
  moreover have "funding_rows d'"
  proof -
    have ids: "acc_id ` set (accounts d') = acc_id ` set (accounts d)"
      using X acct_moved_ids unfolding acct_shift_def d' by force
    have R: "reservations d' = upd_by rsv_id (com_reservationId c) (draw_reservation cov) (reservations d)"
      by (simp add: d')
    note upd = rows_upd_reservation [OF rows r(1) ur drawn draw_reservation_fields(1,3-5) R ids]
    have "commit_inv x \<and> (\<exists>r \<in> set (reservations d'). commit_of x r)" if "x \<in> set (commits d')" for x
    proof -
      obtain y where y: "y \<in> set (commits d)"
        "x = (if com_id y = com_id c then settle_commit (max target (com_paidRupiah c)) rp u y else y)"
        using \<open>x \<in> set (commits d')\<close> by (auto simp: d' set_upd_by)
      have yc: "com_id y = com_id c \<Longrightarrow> y = c" using find_by_uniqI [OF uc y(1)] c_id by (metis option.inject)
      have "commit_inv y" "commit_inv c" using rows y(1) c_in unfolding funding_rows_def by blast+
      then have "commit_inv x" using y(2) yc u by (auto simp: commit_inv_def)
      moreover have "commit_of x r' = commit_of y r'" for r' using y(2) by (auto simp: commit_of_def)
      ultimately show ?thesis using upd(2) [OF y(1)] by blast
    qed
    moreover have "fundingEntries d' = fundingEntries d" by (simp add: d')
    ultimately show ?thesis using upd(1) rows unfolding funding_rows_def by (metis ids)
  qed
  ultimately show ?thesis by (simp add: funding_inv_def)
qed

lemma markCommitReviewPending_inv:
  assumes "funding_inv d"
  shows "funding_inv (markCommitReviewPending key d)"
proof -
  let ?f = "\<lambda>c. c\<lparr>com_reviewPending := True\<rparr>"
  have same: "tsum (due_com a) (upd_by com_businessKey key ?f C) = tsum (due_com a) C"
    "tsum (camp_com k) (upd_by com_businessKey key ?f C) = tsum (camp_com k) C" for a k C
    by (auto intro!: tsum_upd_by_same simp: due_com_def camp_com_def)
  have "funding_rows (markCommitReviewPending key d)"
    using assms by (auto simp: funding_inv_def funding_rows_def markCommitReviewPending_def set_upd_by
        commit_inv_def commit_of_def)
  then show ?thesis
    using assms by (auto simp: funding_inv_def keys_unique_def funding_books_def markCommitReviewPending_def
        held_due_def cash_due_def same uniq_upd_by)
qed

section \<open>Reservations\<close>

text \<open>Rewriting one reservation so that it holds \<open>n\<close> more, with the counters moved alike.\<close>

lemma rewrite_reservation_inv:
  assumes inv: "funding_inv d" and r: "find_by rsv_id i (reservations d) = Some r"
    and acct: "acct_shift (rsv_accountId r) 0 n (accounts d) (accounts d')"
    and camp: "camp_shift (rsv_campaignId r) n 0 (campaigns d) (campaigns d')"
    and R: "reservations d' = upd_by rsv_id i f (reservations d)"
    and f: "\<And>x. rsv_id (f x) = rsv_id x" "\<And>x. rsv_accountId (f x) = rsv_accountId x"
      "\<And>x. rsv_campaignId (f x) = rsv_campaignId x" "\<And>x. rsv_userId (f x) = rsv_userId x"
      "\<And>x. rsv_businessKey (f x) = rsv_businessKey x"
    and rem: "rsv_remainingRupiah (f r) = rsv_remainingRupiah r + n" and r_inv: "reservation_inv (f r)"
    and C: "commits d' = commits d" and F: "fundingEntries d' = fundingEntries d"
  shows "funding_inv d'"
proof -
  from inv have keys: "keys_unique d" and rows: "funding_rows d" and books: "funding_books d"
    by (auto simp: funding_inv_def)
  have ur: "uniq rsv_id (reservations d)" using keys by (simp add: keys_unique_def)
  have ids: "acc_id ` set (accounts d') = acc_id ` set (accounts d)"
    using acct unfolding acct_shift_def by (rule acct_moved_ids)
  note upd = rows_upd_reservation [OF rows r ur r_inv f(1-4) R ids]
  have sums: "tsum (due_res a) (reservations d') = tsum (due_res a) (reservations d) + (if a = rsv_accountId r then n else 0)"
    "tsum (camp_res c) (reservations d') = tsum (camp_res c) (reservations d) + (if rsv_campaignId r = Some c then n else 0)" for a c
    using reservation_rows.sum_modify [OF ur r] rem by (auto simp: R due_res_def camp_res_def f)
  have "funding_books d'"
    by (rule books_step [OF books acct [unfolded acct_shift_def] camp])
      (simp_all add: held_due_def cash_due_def C F sums)
  moreover have "keys_unique d'"
    using keys by (intro keys_step [OF keys acct [unfolded acct_shift_def] camp])
      (simp_all add: keys_unique_def R C F uniq_upd_by f)
  moreover have "funding_rows d'"
    unfolding funding_rows_def C F ids using upd rows unfolding funding_rows_def ids by blast
  ultimately show ?thesis by (simp add: funding_inv_def)
qed

text \<open>A new reservation that holds \<open>n\<close>, with the counters moved alike.\<close>

lemma add_reservation_inv:
  assumes inv: "funding_inv d"
    and acct: "acct_shift (rsv_accountId r) 0 (rsv_remainingRupiah r) (accounts d) (accounts d')"
    and camp: "camp_shift (rsv_campaignId r) (rsv_remainingRupiah r) 0 (campaigns d) (campaigns d')"
    and R: "reservations d' = reservations d @ [r]" and fresh: "\<not> list_ex (reservation_clash r) (reservations d)"
    and r_inv: "reservation_inv r" and r_acc: "rsv_accountId r \<in> acc_id ` set (accounts d)"
    and C: "commits d' = commits d" and F: "fundingEntries d' = fundingEntries d"
  shows "funding_inv d'"
proof -
  from inv have keys: "keys_unique d" and rows: "funding_rows d" and books: "funding_books d"
    by (auto simp: funding_inv_def)
  have ids: "acc_id ` set (accounts d') = acc_id ` set (accounts d)"
    using acct unfolding acct_shift_def by (rule acct_moved_ids)
  have "funding_books d'"
    by (rule books_step [OF books acct [unfolded acct_shift_def] camp])
      (auto simp: held_due_def cash_due_def R C F due_res_def camp_res_def)
  moreover have "keys_unique d'"
    using keys fresh by (intro keys_step [OF keys acct [unfolded acct_shift_def] camp])
      (auto simp: keys_unique_def R C F uniq_append list_ex_iff reservation_clash_def)
  moreover have "funding_rows d'"
    unfolding funding_rows_def R C F ids using rows r_inv r_acc unfolding funding_rows_def by auto
  ultimately show ?thesis by (simp add: funding_inv_def)
qed

subsection \<open>Release\<close>

lemma release_reservation_fields [simp]:
  "rsv_id (release_reservation w n opts r) = rsv_id r"
  "rsv_businessKey (release_reservation w n opts r) = rsv_businessKey r"
  "rsv_accountId (release_reservation w n opts r) = rsv_accountId r"
  "rsv_campaignId (release_reservation w n opts r) = rsv_campaignId r"
  "rsv_userId (release_reservation w n opts r) = rsv_userId r"
  "rsv_ceilingRupiah (release_reservation w n opts r) = rsv_ceilingRupiah r"
  "rsv_remainingRupiah (release_reservation w n opts r) = rsv_remainingRupiah r - n"
  "rsv_status (release_reservation w n opts r) = (if ro_close opts then RES_RELEASED else rsv_status r)"
  by (simp_all add: release_reservation_def Let_def)

text \<open>The counters follow a change of \<open>n\<close>: \<^verbatim>\<open>bumpAccount\<close> then \<^verbatim>\<open>bumpCampaign\<close>.\<close>

lemma bump_both:
  assumes "rbind (bumpAccount A dc dh d) (\<lambda>(_, d1). bumpCampaign C eh es d1) = Inr d'"
  shows "\<exists>X Y. d' = d\<lparr>accounts := X, campaigns := Y\<rparr> \<and> acct_shift A dc dh (accounts d) X
    \<and> camp_shift C eh es (campaigns d) Y"
proof -
  from assms obtain a d1 where "bumpAccount A dc dh d = Inr (a, d1)" and d': "bumpCampaign C eh es d1 = Inr d'"
    by (auto simp: result_simps)
  from bumpAccount_Inr [OF this(1)] obtain X where X: "d1 = d\<lparr>accounts := X\<rparr>" "acct_shift A dc dh (accounts d) X" by blast
  from bumpCampaign_Inr [OF d'] obtain Y where "d' = d1\<lparr>campaigns := Y\<rparr>" "camp_shift C eh es (campaigns d) Y"
    by (auto simp: X(1))
  with X show ?thesis by blast
qed

lemma apply_release_Inr:
  assumes run: "apply_release w r n opts d = Inr d'" and n: "0 \<le> n" and open_r: "rsv_status r \<noteq> RES_RELEASED"
  shows "\<exists>X Y. d' = d\<lparr>accounts := X, campaigns := Y,
      reservations := upd_by rsv_id (rsv_id r) (release_reservation w n opts) (reservations d)\<rparr>
    \<and> acct_shift (rsv_accountId r) 0 (- n) (accounts d) X \<and> camp_shift (rsv_campaignId r) (- n) 0 (campaigns d) Y"
proof -
  obtain d2 where
    d2: "(if n > 0 then rbind (bumpAccount (rsv_accountId r) 0 (- n) d)
           (\<lambda>(_, d1). bumpCampaign (rsv_campaignId r) (- n) 0 d1) else Inr d) = Inr d2"
    and d': "d' = d2\<lparr>reservations := upd_by rsv_id (rsv_id r) (release_reservation w n opts) (reservations d2)\<rparr>"
    using run open_r by (auto simp: apply_release_def result_simps)
  have "\<exists>X Y. d2 = d\<lparr>accounts := X, campaigns := Y\<rparr> \<and> acct_shift (rsv_accountId r) 0 (- n) (accounts d) X
    \<and> camp_shift (rsv_campaignId r) (- n) 0 (campaigns d) Y"
  proof (cases "n > 0")
    case True
    with d2 bump_both show ?thesis by auto
  next
    case False
    with n d2 have "n = 0" "d2 = d\<lparr>accounts := accounts d, campaigns := campaigns d\<rparr>" by auto
    then show ?thesis by (metis acct_shift_refl camp_shift_refl(1) minus_zero)
  qed
  then obtain X Y where d2_eq: "d2 = d\<lparr>accounts := X, campaigns := Y\<rparr>"
    and XY: "acct_shift (rsv_accountId r) 0 (- n) (accounts d) X" "camp_shift (rsv_campaignId r) (- n) 0 (campaigns d) Y"
    by blast
  show ?thesis by (rule exI [of _ X], rule exI [of _ Y]) (simp add: d' d2_eq XY)
qed

lemma apply_release_inv:
  assumes run: "apply_release w r n opts d = Inr d'" and inv: "funding_inv d"
    and r: "find_by rsv_id (rsv_id r) (reservations d) = Some r"
    and n: "rsv_status r \<noteq> RES_RELEASED \<Longrightarrow> 0 \<le> n \<and> n \<le> rsv_remainingRupiah r"
    and all: "rsv_status r \<noteq> RES_RELEASED \<Longrightarrow> ro_close opts \<Longrightarrow> n = rsv_remainingRupiah r"
  shows "funding_inv d'"
proof (cases "rsv_status r = RES_RELEASED")
  case True
  with run inv show ?thesis by (simp add: apply_release_def)
next
  case False
  from apply_release_Inr [OF run conjunct1 [OF n] False] False obtain X Y where
    d': "d' = d\<lparr>accounts := X, campaigns := Y,
      reservations := upd_by rsv_id (rsv_id r) (release_reservation w n opts) (reservations d)\<rparr>"
    and XY: "acct_shift (rsv_accountId r) 0 (- n) (accounts d) X" "camp_shift (rsv_campaignId r) (- n) 0 (campaigns d) Y"
    by auto
  have "reservation_inv r"
    using inv find_by_SomeD [OF r] by (auto simp: funding_inv_def funding_rows_def)
  then have "reservation_inv (release_reservation w n opts r)"
    using n [OF False] all [OF False] False by (auto simp: reservation_inv_def)
  then show ?thesis
    by (intro rewrite_reservation_inv [OF inv r, of "- n" d' "release_reservation w n opts"])
      (simp_all add: d' XY)
qed

lemma funding_inv_releases [simp]: "funding_inv (d\<lparr>releases := t\<rparr>) = funding_inv d"
  by (simp add: funding_inv_def keys_unique_def funding_rows_def funding_books_def held_due_def cash_due_def)

text \<open>
  A release keeps the books as long as a closing release covers everything that remains (a
  close of less would leave a RELEASED reservation that still holds money).
\<close>

lemma releaseUnusedRewardBudget_inv:
  assumes run: "releaseUnusedRewardBudget w i amount opts d = Inr (res, d')" and inv: "funding_inv d"
    and close: "\<And>r. ro_close opts \<Longrightarrow> find_by rsv_id i (reservations d) = Some r \<Longrightarrow> rsv_remainingRupiah r \<le> amount"
  shows "funding_inv d'"
proof -
  from run obtain ref ls where amount: "0 \<le> amount" and ref: "find_by rsv_id i (reservations d) = Some ref"
    and locked: "release_locked w ref amount opts (d\<lparr>held_locks := ls\<rparr>) = Inr (res, d')"
    by (auto simp: releaseUnusedRewardBudget_def assertRupiah_def result_simps elim: with_funding_locks_Inr)
  have i: "rsv_id ref = i" and ref_inv: "reservation_inv ref"
    using find_by_SomeD [OF ref] inv by (auto simp: funding_inv_def funding_rows_def)
  let ?n = "if rsv_status ref = RES_RELEASED then 0 else min amount (rsv_remainingRupiah ref)"
  have applied: "funding_inv d1" if "apply_release w ref ?n opts (d\<lparr>held_locks := ls\<rparr>) = Inr d1" for d1
    using that
    by (rule apply_release_inv) (use inv ref i ref_inv amount close [OF _ ref] in \<open>auto simp: reservation_inv_def\<close>)
  show ?thesis
  proof (cases "case ro_businessKey opts of None \<Rightarrow> None | Some k \<Rightarrow> find_by rel_businessKey k (releases d)")
    case (Some rel)
    with locked inv show ?thesis by (auto simp: release_locked_def split: if_splits option.splits)
  next
    case None
    with locked ref i obtain d1 where "apply_release w ref ?n opts (d\<lparr>held_locks := ls\<rparr>) = Inr d1"
      and "d' = d1 \<or> (\<exists>t. d' = bump_seq (d1\<lparr>releases := t\<rparr>))"
      by (auto simp: release_locked_def find_or_throw_def Let_def result_simps split: option.splits)
    with applied show ?thesis by auto
  qed
qed

lemma closeReservation_inv:
  assumes run: "closeReservation w i by reason d = Inr (res, d')" and inv: "funding_inv d"
  shows "funding_inv d'"
proof -
  from run obtain r ls where "find_by rsv_id i (reservations d) = Some r"
    and "releaseUnusedRewardBudget w i (rsv_remainingRupiah r)
      \<lparr>ro_close = True, ro_releasedById = by, ro_reason = reason, ro_businessKey = None\<rparr> (d\<lparr>held_locks := ls\<rparr>) = Inr (res, d')"
    by (auto simp: closeReservation_def result_simps elim!: with_funding_locks_Inr)
  then show ?thesis using inv by (auto intro: releaseUnusedRewardBudget_inv)
qed

lemma releaseResidualReservation_inv:
  assumes run: "releaseResidualReservation w org i by reason d = Inr (res, d')" and inv: "funding_inv d"
  shows "funding_inv d'"
proof -
  from run obtain r ls where r: "find_by rsv_id i (reservations d) = Some r"
    and cases: "d' = d\<lparr>held_locks := ls\<rparr> \<or> (\<exists>opts res'. releaseUnusedRewardBudget w i (rsv_remainingRupiah r) opts
       (d\<lparr>held_locks := ls\<rparr>) = Inr (res', d'))"
    by (force simp: releaseResidualReservation_def Let_def result_simps split: if_splits elim!: with_funding_locks_Inr)
  then show ?thesis
  proof (elim disjE exE)
    fix opts res' assume "releaseUnusedRewardBudget w i (rsv_remainingRupiah r) opts (d\<lparr>held_locks := ls\<rparr>) = Inr (res', d')"
    then show ?thesis by (rule releaseUnusedRewardBudget_inv) (use r inv in auto)
  qed (use inv in simp)
qed

subsection \<open>Admission\<close>

lemma extend_reservation_fields [simp]:
  "rsv_id (extend_reservation n dl sf r) = rsv_id r"
  "rsv_businessKey (extend_reservation n dl sf r) = rsv_businessKey r"
  "rsv_accountId (extend_reservation n dl sf r) = rsv_accountId r"
  "rsv_campaignId (extend_reservation n dl sf r) = rsv_campaignId r"
  "rsv_userId (extend_reservation n dl sf r) = rsv_userId r"
  "rsv_ceilingRupiah (extend_reservation n dl sf r) = n"
  "rsv_remainingRupiah (extend_reservation n dl sf r) =
     (if rsv_status r = RES_RELEASED then dl else rsv_remainingRupiah r + dl)"
  "rsv_status (extend_reservation n dl sf r) = RES_ACTIVE"
  by (cases "rsv_status r"; simp add: extend_reservation_def Let_def)+

text \<open>What an admission that is neither refused nor already covered writes.\<close>

lemma reserve_write_Inr:
  assumes run: "reserve_write w inp a existing n sf d = Inr (i, d')" and n: "0 \<le> n"
  obtains X Y where
    "acct_shift (acc_id a) 0 n (accounts d) X" "camp_shift (ri_campaignId inp) n 0 (campaigns d) Y"
    "accounts d' = X" "campaigns d' = Y" "commits d' = commits d" "fundingEntries d' = fundingEntries d"
    "case existing of
       Some e \<Rightarrow> i = rsv_id e \<and>
         reservations d' = upd_by rsv_id (rsv_id e) (extend_reservation (ri_ceilingRupiah inp) n sf) (reservations d)
     | None \<Rightarrow> (let r = new_reservation w d inp a sf in
         i = rsv_id r \<and> reservations d' = reservations d @ [r] \<and> \<not> list_ex (reservation_clash r) (reservations d))"
proof -
  from run obtain d1 where
    d1: "(if n > 0 then rbind (bumpAccount (acc_id a) 0 n d) (\<lambda>(_, d1). bumpCampaign (ri_campaignId inp) n 0 d1)
          else Inr d) = Inr d1"
    and w: "(case existing of
          Some e \<Rightarrow>
            rbind (update_row reservation_ok rsv_id (rsv_id e)
                    (extend_reservation (ri_ceilingRupiah inp) n sf) (reservations d1))
              (\<lambda>t. Inr (rsv_id e, d1\<lparr>reservations := t\<rparr>))
        | None \<Rightarrow>
            let r = new_reservation w d1 inp a sf in
            rbind (create_row reservation_ok reservation_clash r (reservations d1))
              (\<lambda>t. Inr (rsv_id r, bump_seq (d1\<lparr>reservations := t\<rparr>)))) = Inr (i, d')"
    unfolding reserve_write_def rbind_Inr_iff by blast
  have "\<exists>X Y. d1 = d\<lparr>accounts := X, campaigns := Y\<rparr> \<and> acct_shift (acc_id a) 0 n (accounts d) X
      \<and> camp_shift (ri_campaignId inp) n 0 (campaigns d) Y"
  proof (cases "n > 0")
    case True
    with d1 bump_both show ?thesis by auto
  next
    case False
    with n d1 have "n = 0" "d1 = d\<lparr>accounts := accounts d, campaigns := campaigns d\<rparr>" by auto
    then show ?thesis by (metis acct_shift_refl camp_shift_refl(1))
  qed
  then obtain X Y where d1_eq: "d1 = d\<lparr>accounts := X, campaigns := Y\<rparr>"
    and XY: "acct_shift (acc_id a) 0 n (accounts d) X" "camp_shift (ri_campaignId inp) n 0 (campaigns d) Y" by blast
  have new: "new_reservation w d1 inp a sf = new_reservation w d inp a sf"
    by (simp add: new_reservation_def newId_def d1_eq)
  show ?thesis
    by (rule that [OF XY])
      (use w in \<open>auto simp: d1_eq new [unfolded d1_eq] result_simps Let_def bump_seq_def split: option.splits\<close>)
qed

text \<open>The path of an admission that writes.\<close>

lemma reserveRewardBudget_Inr:
  assumes run: "reserveRewardBudget w enf inp d = Inr (i, d')"
  obtains (same) a d1 ls e where "lockFundingAccountForOrganization w (ri_organizationId inp) d = Inr (a, d1)"
      "d' = d1\<lparr>held_locks := ls\<rparr>" "find_by rsv_businessKey (ri_businessKey inp) (reservations d) = Some e"
      "i = rsv_id e" "rsv_status e = RES_ACTIVE" "ri_ceilingRupiah inp \<le> rsv_ceilingRupiah e"
  | (writes) a d1 ls cmp existing n sf where "lockFundingAccountForOrganization w (ri_organizationId inp) d = Inr (a, d1)"
      "existing = find_by rsv_businessKey (ri_businessKey inp) (reservations d)"
      "cmp = Option.bind (ri_campaignId inp) (\<lambda>c. find_by cmp_id c (campaigns d))"
      "cmp = None \<longleftrightarrow> ri_campaignId inp = None"
      "n = reserve_delta inp existing (d1\<lparr>held_locks := ls\<rparr>)" "sf = checkCapacity a cmp n"
      "reserve_refusal enf inp cmp sf = None"
      "\<And>e. existing = Some e \<Longrightarrow> rsv_accountId e = acc_id a \<and> rsv_userId e = ri_userId inp
          \<and> (rsv_status e = RES_ACTIVE \<longrightarrow> rsv_ceilingRupiah e < ri_ceilingRupiah inp)"
      "reserve_write w inp a existing n sf (d1\<lparr>held_locks := ls\<rparr>) = Inr (i, d')" "0 \<le> ri_ceilingRupiah inp"
proof -
  from run obtain a d1 cmp d2 where
    ceil: "0 \<le> ri_ceilingRupiah inp"
    and d1: "lockFundingAccountForOrganization w (ri_organizationId inp) d = Inr (a, d1)"
    and d2: "(case ri_campaignId inp of
              None \<Rightarrow> Inr (None, d1)
            | Some c \<Rightarrow> rbind (lockAndReadCampaign c d1) (\<lambda>(row, d2). Inr (Some row, d2))) = Inr (cmp, d2)"
    and body: "(let existing = find_by rsv_businessKey (ri_businessKey inp) (reservations d2) in
     if existing \<noteq> None \<and> (rsv_accountId (the existing) \<noteq> acc_id a
          \<or> rsv_userId (the existing) \<noteq> ri_userId inp)
     then Inl (HttpError 409 FUNDING_KEY_CONFLICT)
     else if existing \<noteq> None \<and> rsv_status (the existing) = RES_ACTIVE
          \<and> rsv_ceilingRupiah (the existing) \<ge> ri_ceilingRupiah inp
     then Inr (rsv_id (the existing), d2)
     else
     let delta = reserve_delta inp existing d2;
         shortfall = checkCapacity a cmp delta in
     case reserve_refusal enf inp cmp shortfall of
       Some e \<Rightarrow> Inl e
     | None \<Rightarrow> reserve_write w inp a existing delta shortfall d2) = Inr (i, d')"
    unfolding reserveRewardBudget_def by (auto simp: result_simps assertRupiah_def)
  note frame = lockFundingAccountForOrganization_Inr [OF d1]
  have "\<exists>ls. d2 = d1\<lparr>held_locks := ls\<rparr>"
    using d2 acquire_eq by (fastforce simp: lockAndReadCampaign_def result_simps split: option.splits
        intro: exI [of _ "held_locks d1"])
  then obtain ls where d2_eq: "d2 = d1\<lparr>held_locks := ls\<rparr>" by blast
  have cmp: "cmp = Option.bind (ri_campaignId inp) (\<lambda>c. find_by cmp_id c (campaigns d))"
    "cmp = None \<longleftrightarrow> ri_campaignId inp = None"
    using d2 frame by (auto simp: lockAndReadCampaign_def result_simps split: option.splits)
  let ?ex = "find_by rsv_businessKey (ri_businessKey inp) (reservations d)"
  have R: "reservations d2 = reservations d" using frame by (simp add: d2_eq)
  note body = body [unfolded Let_def, unfolded R, unfolded d2_eq]
  show ?thesis
  proof (cases "\<exists>e. ?ex = Some e \<and> rsv_status e = RES_ACTIVE \<and> rsv_ceilingRupiah e \<ge> ri_ceilingRupiah inp")
    case True
    then obtain e where "?ex = Some e" "rsv_status e = RES_ACTIVE" "rsv_ceilingRupiah e \<ge> ri_ceilingRupiah inp" by blast
    with body show ?thesis by (intro same [OF d1 _ \<open>?ex = Some e\<close>]) (auto split: if_splits)
  next
    case False
    with body have refusal: "reserve_refusal enf inp cmp (checkCapacity a cmp (reserve_delta inp ?ex (d1\<lparr>held_locks := ls\<rparr>))) = None"
      "reserve_write w inp a ?ex (reserve_delta inp ?ex (d1\<lparr>held_locks := ls\<rparr>))
         (checkCapacity a cmp (reserve_delta inp ?ex (d1\<lparr>held_locks := ls\<rparr>))) (d1\<lparr>held_locks := ls\<rparr>) = Inr (i, d')"
      "\<And>e. ?ex = Some e \<Longrightarrow> rsv_accountId e = acc_id a \<and> rsv_userId e = ri_userId inp"
      by (auto split: option.splits if_splits)
    show ?thesis
      by (rule writes [OF d1 refl cmp refl refl refusal(1) _ refusal(2) ceil]) (use False refusal(3) in force)
  qed
qed

lemma reserve_delta_bounds:
  assumes "funding_inv d" "0 \<le> ri_ceilingRupiah inp"
    and "\<And>e. existing = Some e \<Longrightarrow> e \<in> set (reservations d)
          \<and> (rsv_status e = RES_ACTIVE \<longrightarrow> rsv_ceilingRupiah e < ri_ceilingRupiah inp)"
  shows "0 \<le> reserve_delta inp existing d" "reserve_delta inp existing d \<le> ri_ceilingRupiah inp"
proof -
  have "0 \<le> tsum com_heldRupiah (filter P (commits d))" for P
    using assms(1) by (intro tsum_nonneg) (auto simp: funding_inv_def funding_rows_def commit_inv_def)
  moreover have "0 \<le> rsv_ceilingRupiah e" if "existing = Some e" for e
    using assms(1,3) that by (force simp: funding_inv_def funding_rows_def reservation_inv_def)
  ultimately show "0 \<le> reserve_delta inp existing d" "reserve_delta inp existing d \<le> ri_ceilingRupiah inp"
    using assms(2,3) by (cases existing; force simp: reserve_delta_def intro: reservation_status.exhaust)+
qed

text \<open>
  An admission keeps the books, provided a reservation that already exists under the key was
  made for the same campaign (the code compares account and user, but not the campaign).
\<close>

lemma reserveRewardBudget_inv:
  assumes run: "reserveRewardBudget w enf inp d = Inr (i, d')" and inv: "funding_inv d"
    and same_campaign: "\<And>e. find_by rsv_businessKey (ri_businessKey inp) (reservations d) = Some e \<Longrightarrow>
      rsv_campaignId e = ri_campaignId inp"
  shows "funding_inv d'"
  using run
proof (cases rule: reserveRewardBudget_Inr)
  case (same a d1 ls e)
  then show ?thesis using lockFundingAccountForOrganization_inv inv by simp
next
  case (writes a d1 ls cmp existing n sf)
  let ?d = "d1\<lparr>held_locks := ls\<rparr>"
  note frame = lockFundingAccountForOrganization_Inr [OF writes(1)]
  have inv1: "funding_inv ?d" using lockFundingAccountForOrganization_inv [OF writes(1) inv] by simp
  have ex: "e \<in> set (reservations ?d) \<and> find_by rsv_id (rsv_id e) (reservations ?d) = Some e" if "existing = Some e" for e
    using that writes(2) frame inv find_by_SomeD [of rsv_businessKey "ri_businessKey inp" "reservations d" e]
    by (auto simp: funding_inv_def keys_unique_def intro: find_by_uniqI)
  have n: "0 \<le> n" "n \<le> ri_ceilingRupiah inp"
    using reserve_delta_bounds [OF inv1 writes(10), of existing] ex writes(8) unfolding writes(5) by blast+
  from writes(9) n(1) obtain X Y where
    XY: "acct_shift (acc_id a) 0 n (accounts ?d) X" "camp_shift (ri_campaignId inp) n 0 (campaigns ?d) Y"
    and d': "accounts d' = X" "campaigns d' = Y" "commits d' = commits ?d" "fundingEntries d' = fundingEntries ?d"
    and R: "case existing of
       Some e \<Rightarrow> i = rsv_id e \<and>
         reservations d' = upd_by rsv_id (rsv_id e) (extend_reservation (ri_ceilingRupiah inp) n sf) (reservations ?d)
     | None \<Rightarrow> (let r = new_reservation w ?d inp a sf in
         i = rsv_id r \<and> reservations d' = reservations ?d @ [r] \<and> \<not> list_ex (reservation_clash r) (reservations ?d))"
    by (rule reserve_write_Inr)
  show ?thesis
  proof (cases existing)
    case None
    with R obtain r where r: "reservations d' = reservations ?d @ [r]" "\<not> list_ex (reservation_clash r) (reservations ?d)"
      "rsv_accountId r = acc_id a" "rsv_campaignId r = ri_campaignId inp" "rsv_remainingRupiah r = n"
      "rsv_ceilingRupiah r = n" "rsv_status r = RES_ACTIVE"
      using writes(5) by (auto simp: Let_def new_reservation_def reserve_delta_def)
    show ?thesis
      using XY r frame n by (intro add_reservation_inv [OF inv1, of r d']) (auto simp: d' reservation_inv_def)
  next
    case (Some e)
    with R have R': "reservations d' = upd_by rsv_id (rsv_id e) (extend_reservation (ri_ceilingRupiah inp) n sf) (reservations ?d)"
      by simp
    have e: "rsv_accountId e = acc_id a" "rsv_campaignId e = ri_campaignId inp" "reservation_inv e"
      using writes(2,8) same_campaign Some ex inv1 by (auto simp: funding_inv_def funding_rows_def)
    have "n = ri_ceilingRupiah inp - rsv_ceilingRupiah e" if "rsv_status e \<noteq> RES_RELEASED"
      unfolding writes(5) Some using that by (simp add: reserve_delta_def)
    then have "reservation_inv (extend_reservation (ri_ceilingRupiah inp) n sf e)"
      using e(3) n by (cases "rsv_status e = RES_RELEASED") (simp_all add: reservation_inv_def)
    moreover have "rsv_remainingRupiah (extend_reservation (ri_ceilingRupiah inp) n sf e) = rsv_remainingRupiah e + n"
      using e(3) by (simp add: reservation_inv_def)
    ultimately show ?thesis
      using XY e by (intro rewrite_reservation_inv [OF inv1 conjunct2 [OF ex [OF Some]] _ _ R']) (simp_all add: d')
  qed
qed

end
