(* ===== verification/Funding_Payout.thy ===== *)
theory Funding_Payout
  imports Funding_Steps
begin

text \<open>
  Late reservations, cash entries and payouts of \<^verbatim>\<open>src/lib/reward-funding.ts\<close>: each keeps the
  books, and the attribution of a payout is the oldest-first greedy assignment that conserves
  the gross amount and leaves a legacy remainder only when every decided obligation of the
  recipient is paid.
\<close>

section \<open>The reservation of a source\<close>

lemma resolveSourceReservation_inv:
  assumes run: "resolveSourceReservation w st si d = Inr (res, d')" and inv: "funding_inv d"
  shows "funding_inv d'"
proof (cases "findReservationByKey (source_key st si) d")
  case (Some e)
  with run inv show ?thesis by (simp add: resolveSourceReservation_def)
next
  case None
  show ?thesis
  proof (cases "admitted_source st si d")
    case src_none: None
    with None run inv show ?thesis by (simp add: resolveSourceReservation_def)
  next
    case (Some src)
    obtain at0 u c org where src: "src = (at0, u, c, org)" by (cases src)
    show ?thesis
    proof (cases "case lc_at (resolveFundingCutover w d) of None \<Rightarrow> False | Some t \<Rightarrow> at0 < t")
      case True
      with None Some run inv show ?thesis by (simp add: resolveSourceReservation_def src Let_def)
    next
      case False
      from False None Some run obtain a0 d1 a d2 where
        d1: "lockFundingAccountForOrganization w org d = Inr (a0, d1)"
        and a: "find_by acc_organizationId org (accounts d1) = Some a"
        and d2: "lockCampaignOpt c d1 = Inr d2"
        and fresh: "\<not> list_ex (reservation_clash (late_reservation w d2 st si a u c)) (reservations d2)"
        and d': "d' = bump_seq (d2\<lparr>reservations := reservations d2 @ [late_reservation w d2 st si a u c]\<rparr>)"
        unfolding resolveSourceReservation_def src
        by (simp add: Let_def split del: option.splits) (auto simp: result_simps)
      obtain ls where d2_eq: "d2 = d1\<lparr>held_locks := ls\<rparr>" using lockCampaignOpt_fields [OF d2] by blast
      have inv2: "funding_inv d2"
        using lockFundingAccountForOrganization_inv [OF d1 inv] by (simp add: d2_eq)
      have "acc_id a \<in> acc_id ` set (accounts d2)"
        using find_by_SomeD [OF a] by (auto simp: d2_eq)
      then show ?thesis
        by (intro add_reservation_inv [OF inv2 _ _ _ fresh])
          (simp_all add: d' bump_seq_def late_reservation_def reservation_inv_def)
    qed
  qed
qed

lemma settleOrCommitReward_inv:
  assumes run: "settleOrCommitReward w key st si target rp d = Inr (res, d')" and inv: "funding_inv d"
  shows "funding_inv d'"
proof (cases "find_by com_businessKey key (commits d)")
  case (Some e)
  with run settleCommittedReward_inv inv show ?thesis by (auto simp: settleOrCommitReward_def)
next
  case None
  show ?thesis
  proof (cases "target = None \<or> the target \<le> 0")
    case True
    with None run inv show ?thesis by (auto simp: settleOrCommitReward_def split: option.splits)
  next
    case False
    then obtain n where n: "target = Some n" "\<not> n \<le> 0" by auto
    with None run obtain resolved d1 where d1: "resolveSourceReservation w st si d = Inr (resolved, d1)"
      and body: "(case resolved of
                   Reservation r _ \<Rightarrow>
                     rbind (commitRewardAgainstBudget w (rsv_id r) key n rp d1)
                       (\<lambda>(res, d2). rbind (find_or_throw com_id (cr_commitId res) (commits d2))
                          (\<lambda>c. Inr (Some c, d2)))
                 | _ \<Rightarrow> Inr (None, d1)) = Inr (res, d')"
      unfolding settleOrCommitReward_def by (simp add: rbind_Inr_iff case_prod_eq_Inr) blast
    have "d' = d1 \<or> (\<exists>i cr. commitRewardAgainstBudget w i key n rp d1 = Inr (cr, d'))"
      using body by (cases resolved) (auto simp: result_simps)
    with resolveSourceReservation_inv [OF d1 inv] commitRewardAgainstBudget_inv show ?thesis by blast
  qed
qed

section \<open>Cash entries\<close>

text \<open>Entry \<open>e\<close> is appended and its account moves by its amount.\<close>

lemma add_entry_books:
  assumes keys: "keys_unique d" and rows: "funding_rows d"
    and E: "fundingEntries d' = fundingEntries d @ [e]" and fresh: "\<not> list_ex (entry_clash e) (fundingEntries d)"
  shows "cash_due d' a = cash_due d a + cash_of a e" "uniq fe_id (fundingEntries d')" "uniq fe_businessKey (fundingEntries d')"
  using assms by (auto simp: cash_due_def E keys_unique_def uniq_append list_ex_iff entry_clash_def)

lemma recordFundingEntry_Inr:
  assumes run: "recordFundingEntry w inp d = Inr ((e, a', ex), d')"
  obtains a d1 where "lockFundingAccountForOrganization w (fi_organizationId inp) d = Inr (a, d1)"
    "fe_accountId e = acc_id a" "fe_amount e = fi_amount inp" "fe_kind e = fi_kind inp"
    "if ex then d' = d1 \<and> a' = a \<and> e \<in> set (fundingEntries d)
     else \<exists>X s. d' = d1\<lparr>fundingEntries := fundingEntries d1 @ [e], accounts := X, seq := s\<rparr>
       \<and> acct_shift (acc_id a) (fi_amount inp) 0 (accounts d1) X \<and> \<not> list_ex (entry_clash e) (fundingEntries d1)"
proof -
  from run obtain a d1 where d1: "lockFundingAccountForOrganization w (fi_organizationId inp) d = Inr (a, d1)"
    and body: "record_entry_locked w inp (js_trim (fi_reference inp)) (js_trim (fi_note inp)) a d1 = Inr ((e, a', ex), d')"
    unfolding recordFundingEntry_def Let_def by (auto simp: result_simps)
  note frame = lockFundingAccountForOrganization_Inr [OF d1]
  show ?thesis
  proof (cases "find_by fe_businessKey (if fi_amount inp > 0 then fundingCashKey (js_trim (fi_reference inp))
        else fundingCorrectionKey (js_trim (fi_reference inp))) (fundingEntries d1)")
    case (Some f)
    with body find_by_SomeD [OF Some] frame show ?thesis
      by (intro that [OF d1]) (auto simp: record_entry_locked_def Let_def split: if_splits)
  next
    case None
    from body obtain d0 where e: "fe_accountId e = acc_id a" "fe_amount e = fi_amount inp" "fe_kind e = fi_kind inp" "\<not> ex"
      "\<not> list_ex (entry_clash e) (fundingEntries d1)"
      and d0: "d0 = d1\<lparr>fundingEntries := fundingEntries d1 @ [e], seq := Suc (seq d1)\<rparr>"
        "bumpAccount (acc_id a) (fi_amount inp) 0 d0 = Inr (a', d')"
      unfolding record_entry_locked_def Let_def None by (auto simp: result_simps bump_seq_def)
    from bumpAccount_Inr [OF d0(2)] obtain X where
      "d' = d0\<lparr>accounts := X\<rparr>" "acct_shift (acc_id a) (fi_amount inp) 0 (accounts d1) X" by (auto simp: d0(1))
    then have "\<exists>X s. d' = d1\<lparr>fundingEntries := fundingEntries d1 @ [e], accounts := X, seq := s\<rparr>
       \<and> acct_shift (acc_id a) (fi_amount inp) 0 (accounts d1) X \<and> \<not> list_ex (entry_clash e) (fundingEntries d1)"
      using e(5) by (intro exI [of _ X] exI [of _ "Suc (seq d1)"]) (simp add: d0(1))
    with e(4) show ?thesis by (intro that [OF d1 e(1-3)]) simp
  qed
qed

lemma recordFundingEntry_inv:
  assumes run: "recordFundingEntry w inp d = Inr ((e, a', ex), d')" and inv: "funding_inv d"
  shows "funding_inv d'"
  using run
proof (rule recordFundingEntry_Inr)
  fix a d1
  assume d1: "lockFundingAccountForOrganization w (fi_organizationId inp) d = Inr (a, d1)"
    and e: "fe_accountId e = acc_id a" "fe_amount e = fi_amount inp"
    and d': "if ex then d' = d1 \<and> a' = a \<and> e \<in> set (fundingEntries d)
     else \<exists>X s. d' = d1\<lparr>fundingEntries := fundingEntries d1 @ [e], accounts := X, seq := s\<rparr>
       \<and> acct_shift (acc_id a) (fi_amount inp) 0 (accounts d1) X \<and> \<not> list_ex (entry_clash e) (fundingEntries d1)"
  note inv1 = lockFundingAccountForOrganization_inv [OF d1 inv]
  from inv1 have keys: "keys_unique d1" and rows: "funding_rows d1" and books: "funding_books d1"
    by (auto simp: funding_inv_def)
  show ?thesis
  proof (cases ex)
    case True
    with d' inv1 show ?thesis by simp
  next
    case False
    with d' obtain X s where d'_eq: "d' = d1\<lparr>fundingEntries := fundingEntries d1 @ [e], accounts := X, seq := s\<rparr>"
      and X: "acct_moved (\<lambda>x. if x = acc_id a then fi_amount inp else 0) (\<lambda>_. 0) (accounts d1) (accounts d')"
      and fresh: "\<not> list_ex (entry_clash e) (fundingEntries d1)"
      by (auto simp: acct_shift_def)
    have E: "fundingEntries d' = fundingEntries d1 @ [e]" and camp: "camp_shift None 0 0 (campaigns d1) (campaigns d')"
      by (simp_all add: d'_eq)
    note entry = add_entry_books [OF keys rows E fresh]
    have "funding_books d'"
      by (rule books_step [OF books X camp])
        (simp_all add: entry(1), auto simp: cash_of_def e held_due_def d'_eq)
    moreover have "keys_unique d'"
      using entry(2,3) keys by (intro keys_step [OF keys X camp]) (simp_all add: keys_unique_def d'_eq)
    moreover have "funding_rows d'"
    proof -
      have "acc_id ` set (accounts d') = acc_id ` set (accounts d1)" using X by (rule acct_moved_ids)
      moreover have "acc_id a \<in> acc_id ` set (accounts d1)" using lockFundingAccountForOrganization_Inr [OF d1] by blast
      ultimately show ?thesis using rows e(1) unfolding funding_rows_def by (simp add: d'_eq)
    qed
    ultimately show ?thesis by (simp add: funding_inv_def)
  qed
qed

section \<open>Attribution of a payout\<close>

definition due_of :: "commit \<Rightarrow> int" where
  "due_of c = com_heldRupiah c - com_paidRupiah c"

text \<open>The three things the loop can do with the next obligation.\<close>

lemma attribute_payout_Cons:
  assumes "attribute_payout g (c # cs) = (takes, left)"
  obtains (stop) "g \<le> 0" "takes = []" "left = g"
  | (skip) "0 < g" "due_of c \<le> 0" "attribute_payout g cs = (takes, left)"
  | (draw) ts where "0 < g" "0 < due_of c" "takes = (c, min g (due_of c)) # ts"
      "attribute_payout (g - min g (due_of c)) cs = (ts, left)"
proof (cases "g \<le> 0")
  case True
  with assms show ?thesis by (intro stop) auto
next
  case False
  show ?thesis
  proof (cases "due_of c \<le> 0")
    case True
    with assms False show ?thesis by (intro skip) (auto simp: due_of_def Let_def split: if_splits)
  next
    case nz: False
    obtain ts l where ts: "attribute_payout (g - min g (due_of c)) cs = (ts, l)" by force
    moreover have "\<not> min g (due_of c) \<le> 0" using False nz by (simp add: min_def)
    ultimately show ?thesis using assms False nz
      by (intro draw [of ts]) (auto simp: due_of_def Let_def)
  qed
qed

lemma attribute_payout_sum:
  "attribute_payout g cs = (takes, left) \<Longrightarrow> tsum snd takes + left = g"
proof (induction cs arbitrary: g takes)
  case (Cons c cs)
  from Cons.prems show ?case by (cases rule: attribute_payout_Cons) (auto dest: Cons.IH)
qed simp

lemma attribute_payout_takes:
  "attribute_payout g cs = (takes, left) \<Longrightarrow> p \<in> set takes \<Longrightarrow>
   fst p \<in> set cs \<and> 0 < snd p \<and> snd p \<le> due_of (fst p)"
proof (induction cs arbitrary: g takes)
  case (Cons c cs)
  from Cons.prems(1) show ?case
    by (cases rule: attribute_payout_Cons) (use Cons.IH Cons.prems(2) in auto)
qed simp

lemma attribute_payout_distinct:
  "attribute_payout g cs = (takes, left) \<Longrightarrow> distinct (map com_id cs) \<Longrightarrow> distinct (map (com_id \<circ> fst) takes)"
proof (induction cs arbitrary: g takes)
  case (Cons c cs)
  from Cons.prems(1) show ?case
  proof (cases rule: attribute_payout_Cons)
    case (draw ts)
    then have "com_id c \<notin> (com_id \<circ> fst) ` set ts"
      using attribute_payout_takes [OF draw(4)] Cons.prems(2) by force
    with draw Cons show ?thesis by auto
  qed (use Cons in auto)
qed simp

text \<open>Greedy and oldest first: what is left is what the obligations in the list cannot absorb.\<close>

lemma attribute_payout_left:
  "attribute_payout g cs = (takes, left) \<Longrightarrow> 0 \<le> g \<Longrightarrow> \<forall>c \<in> set cs. 0 \<le> due_of c \<Longrightarrow>
   left = max 0 (g - tsum due_of cs)"
proof (induction cs arbitrary: g takes)
  case (Cons c cs)
  have rest: "0 \<le> tsum due_of cs" using Cons.prems(3) by (intro tsum_nonneg) simp
  from Cons.prems(1) show ?case
  proof (cases rule: attribute_payout_Cons)
    case stop
    with Cons.prems rest show ?thesis by simp
  next
    case skip
    with Cons show ?thesis by auto
  next
    case (draw ts)
    have "left = max 0 (g - min g (due_of c) - tsum due_of cs)"
      using draw Cons by (intro Cons.IH) auto
    then show ?thesis using rest by (auto simp: min_def)
  qed
qed simp

text \<open>An older obligation is exhausted before a younger one is touched.\<close>

lemma attribute_payout_oldest_first:
  assumes "attribute_payout g (xs @ c # ys) = (takes, left)" and "p \<in> set takes" "fst p \<in> set ys"
    and "distinct (map com_id (xs @ c # ys))" "0 < due_of c"
  shows "(c, due_of c) \<in> set takes"
  using assms
proof (induction xs arbitrary: g takes)
  case Nil
  from Nil.prems(1) [unfolded append_Nil] show ?case
  proof (cases rule: attribute_payout_Cons)
    case (draw ts)
    have "fst p \<noteq> c" using Nil.prems(3,4) by auto
    with Nil.prems(2) draw have "ts \<noteq> []" by auto
    then have "\<not> g - min g (due_of c) \<le> 0" using draw(4) by (cases ys) auto
    then have "min g (due_of c) = due_of c" by auto
    then show ?thesis by (simp add: draw)
  qed (use Nil.prems in auto)
next
  case (Cons x xs)
  from Cons.prems(1) [unfolded append_Cons] show ?case
  proof (cases rule: attribute_payout_Cons)
    case skip
    with Cons.prems show ?thesis by (intro Cons.IH) auto
  next
    case (draw ts)
    have "fst p \<noteq> x" using Cons.prems(3,4) by auto
    with Cons.prems(2) draw have "p \<in> set ts" by auto
    with Cons.prems draw have "(c, due_of c) \<in> set ts" by (intro Cons.IH) auto
    then show ?thesis by (simp add: draw)
  qed (use Cons.prems in auto)
qed

subsection \<open>Paying the commits\<close>

definition pay :: "int \<Rightarrow> commit \<Rightarrow> commit" where
  "pay n c = c\<lparr>com_paidRupiah := com_paidRupiah c + n\<rparr>"

lemma pay_fields [simp]:
  "com_id (pay n c) = com_id c" "com_reservationId (pay n c) = com_reservationId c"
  "com_accountId (pay n c) = com_accountId c" "com_campaignId (pay n c) = com_campaignId c"
  "com_userId (pay n c) = com_userId c" "com_businessKey (pay n c) = com_businessKey c"
  "com_heldRupiah (pay n c) = com_heldRupiah c" "com_paidRupiah (pay n c) = com_paidRupiah c + n"
  "com_uncoveredRupiah (pay n c) = com_uncoveredRupiah c"
  by (simp_all add: pay_def)

lemma pay_pay: "\<exists>k. pay m (pay n c) = pay k c"
  by (rule exI [of _ "n + m"]) (simp add: pay_def)

text \<open>What a list of takes draws from account \<open>a\<close>.\<close>

definition taken :: "(commit \<times> int) list \<Rightarrow> ident \<Rightarrow> int" where
  "taken takes a = tsum (\<lambda>p. if com_accountId (fst p) = a then snd p else 0) takes"

text \<open>The takes are against rows of the table, at most what each still owes, one per row.\<close>

definition takes_ok :: "(commit \<times> int) list \<Rightarrow> commit list \<Rightarrow> bool" where
  "takes_ok takes C \<longleftrightarrow> distinct (map (com_id \<circ> fst) takes)
     \<and> (\<forall>p \<in> set takes. find_by com_id (com_id (fst p)) C = Some (fst p) \<and> 0 < snd p \<and> snd p \<le> due_of (fst p))"

lemma pay_commits_Inr:
  assumes "pay_commits takes d = Inr d'" and "takes_ok takes (commits d)" and "uniq com_id (commits d)"
    and "\<forall>c \<in> set (commits d). commit_inv c"
  shows "\<exists>C. d' = d\<lparr>commits := C\<rparr>
    \<and> list_all2 (\<lambda>c c'. \<exists>n. c' = pay n c) (commits d) C
    \<and> (\<forall>c \<in> set C. commit_inv c)
    \<and> (\<forall>a. tsum (due_com a) C = tsum (due_com a) (commits d) - taken takes a)"
  using assms
proof (induction takes arbitrary: d)
  case Nil
  have "list_all2 (\<lambda>c c'. \<exists>n. c' = pay n c) (commits d) (commits d)"
    by (rule list.rel_refl) (auto simp: pay_def intro: exI [of _ 0])
  with Nil show ?case by (intro exI [of _ "commits d"]) (auto simp: taken_def)
next
  case (Cons p takes)
  obtain c n where p: "p = (c, n)" by (cases p)
  from Cons.prems(2) have c: "find_by com_id (com_id c) (commits d) = Some c" "0 < n" "n \<le> due_of c"
    and ok: "distinct (map (com_id \<circ> fst) takes)" "com_id c \<notin> (com_id \<circ> fst) ` set takes"
    by (auto simp: takes_ok_def p)
  let ?C = "upd_by com_id (com_id c) (pay n) (commits d)"
  have run: "pay_commits takes (d\<lparr>commits := ?C\<rparr>) = Inr d'"
    using Cons.prems(1) by (auto simp: p result_simps pay_def [abs_def])
  have "takes_ok takes ?C"
    unfolding takes_ok_def
  proof (intro conjI ballI ok(1))
    fix q assume q: "q \<in> set takes"
    then have "com_id (fst q) \<noteq> com_id c" using ok(2) by force
    with q Cons.prems(2) show "find_by com_id (com_id (fst q)) ?C = Some (fst q)"
      by (simp add: find_by_upd_by takes_ok_def)
    show "0 < snd q" "snd q \<le> due_of (fst q)" using q Cons.prems(2) by (simp_all add: takes_ok_def)
  qed
  moreover have "uniq com_id ?C" using Cons.prems(3) by (simp add: uniq_upd_by)
  moreover have "\<forall>x \<in> set ?C. commit_inv x"
  proof (rule ball_upd_by [OF Cons.prems(4)])
    fix x assume "x \<in> set (commits d)" "com_id x = com_id c" "commit_inv x"
    moreover from this have "x = c" using find_by_uniqI [OF Cons.prems(3)] c(1) by (metis option.inject)
    ultimately show "commit_inv (pay n x)" using c(2,3) by (auto simp: commit_inv_def due_of_def)
  qed
  ultimately obtain C where C: "d' = d\<lparr>commits := C\<rparr>" "list_all2 (\<lambda>c c'. \<exists>n. c' = pay n c) ?C C"
    "\<forall>c \<in> set C. commit_inv c" "\<forall>a. tsum (due_com a) C = tsum (due_com a) ?C - taken takes a"
    using Cons.IH [OF run] by auto
  have "list_all2 (\<lambda>c c'. \<exists>n. c' = pay n c) (commits d) ?C"
    by (auto simp: upd_by_def list_all2_map2 pay_def intro!: list.rel_refl intro: exI [of _ 0])
  then have "list_all2 (\<lambda>c c'. \<exists>n. c' = pay n c) (commits d) C"
    using C(2) by (rule list_all2_trans [rotated]) (auto simp: pay_pay)
  moreover have "tsum (due_com a) ?C = tsum (due_com a) (commits d) - (if com_accountId c = a then n else 0)" for a
    using commit_rows.sum_modify [OF Cons.prems(3) c(1)] by (auto simp: due_com_def)
  ultimately show ?case using C by (intro exI [of _ C]) (auto simp: p taken_def)
qed

subsection \<open>Debiting the accounts\<close>

text \<open>What a list of (account, amount) pairs debits from account \<open>a\<close>.\<close>

definition debited :: "(ident \<times> int) list \<Rightarrow> ident \<Rightarrow> int" where
  "debited ps a = tsum (\<lambda>p. if fst p = a then snd p else 0) ps"

lemma payout_entry_fields [simp]:
  "fe_accountId (payout_entry w d i act a n) = a" "fe_amount (payout_entry w d i act a n) = - n"
  "fe_kind (payout_entry w d i act a n) = PAYOUT" "fe_reference (payout_entry w d i act a n) = i"
  by (simp_all add: payout_entry_def)

lemma debit_accounts_Inr:
  assumes "debit_accounts w i act ps d = Inr (es, d')" and "uniq fe_id (fundingEntries d)" "uniq fe_businessKey (fundingEntries d)"
  shows "\<exists>X s ls. d' = d\<lparr>accounts := X, fundingEntries := fundingEntries d @ es, seq := s, held_locks := ls\<rparr>
    \<and> acct_moved (\<lambda>a. - debited ps a) (\<lambda>a. - debited ps a) (accounts d) X
    \<and> uniq fe_id (fundingEntries d @ es) \<and> uniq fe_businessKey (fundingEntries d @ es)
    \<and> (\<forall>a. tsum (cash_of a) es = - debited ps a) \<and> fst ` set ps \<subseteq> acc_id ` set (accounts d)
    \<and> map fe_accountId es = map fst ps \<and> map fe_amount es = map (uminus \<circ> snd) ps
    \<and> (\<forall>e \<in> set es. fe_kind e = PAYOUT \<and> fe_reference e = i)"
  using assms
proof (induction ps arbitrary: d es)
  case Nil
  then show ?case
    by (intro exI [of _ "accounts d"] exI [of _ "seq d"] exI [of _ "held_locks d"]) (auto simp: debited_def)
next
  case (Cons p ps)
  obtain a n where p: "p = (a, n)" by (cases p)
  from Cons.prems(1) obtain b d2 es2 where mem: "find_by acc_id a (accounts d) \<noteq> None"
    and d2: "bumpAccount a (- n) (- n) (acquire (LFundingAccount a) d) = Inr (b, d2)"
    and fresh: "\<not> list_ex (entry_clash (payout_entry w d2 i act a n)) (fundingEntries d2)"
    and rest: "debit_accounts w i act ps
      (bump_seq (d2\<lparr>fundingEntries := fundingEntries d2 @ [payout_entry w d2 i act a n]\<rparr>)) = Inr (es2, d')"
    and es: "es = payout_entry w d2 i act a n # es2"
    by (auto simp: p result_simps Let_def)
  from bumpAccount_Inr [OF d2] obtain X0 where d2_eq: "d2 = (acquire (LFundingAccount a) d)\<lparr>accounts := X0\<rparr>"
    and X0: "acct_shift a (- n) (- n) (accounts d) X0" by auto
  let ?e = "payout_entry w d2 i act a n"
  have E: "fundingEntries d2 = fundingEntries d" by (simp add: d2_eq)
  have u: "uniq fe_id (fundingEntries d @ [?e])" "uniq fe_businessKey (fundingEntries d @ [?e])"
    using fresh Cons.prems(2,3) by (auto simp: E uniq_append list_ex_iff entry_clash_def)
  define d3 where "d3 = bump_seq (d2\<lparr>fundingEntries := fundingEntries d2 @ [?e]\<rparr>)"
  have d3: "fundingEntries d3 = fundingEntries d @ [?e]" "accounts d3 = X0"
    by (simp_all add: d3_def bump_seq_def d2_eq)
  from Cons.IH [OF rest [folded d3_def], unfolded d3, OF u] obtain X s ls where
    d': "d' = d3\<lparr>accounts := X, fundingEntries := (fundingEntries d @ [?e]) @ es2, seq := s, held_locks := ls\<rparr>"
    and X: "acct_moved (\<lambda>a. - debited ps a) (\<lambda>a. - debited ps a) X0 X"
    and tail: "uniq fe_id ((fundingEntries d @ [?e]) @ es2)" "uniq fe_businessKey ((fundingEntries d @ [?e]) @ es2)"
      "\<forall>a. tsum (cash_of a) es2 = - debited ps a" "fst ` set ps \<subseteq> acc_id ` set X0"
      "map fe_accountId es2 = map fst ps" "map fe_amount es2 = map (uminus \<circ> snd) ps"
      "\<forall>e \<in> set es2. fe_kind e = PAYOUT \<and> fe_reference e = i"
    by blast
  have ids: "acc_id ` set X0 = acc_id ` set (accounts d)" using X0 unfolding acct_shift_def by (rule acct_moved_ids)
  have moved: "acct_moved (\<lambda>x. - debited (p # ps) x) (\<lambda>x. - debited (p # ps) x) (accounts d) X"
  proof -
    have "(\<lambda>x. (if x = a then - n else 0) + - debited ps x) = (\<lambda>x. - debited (p # ps) x)"
      by (auto simp: debited_def p)
    then show ?thesis using acct_moved_trans [OF X0 [unfolded acct_shift_def] X] by simp
  qed
  have "d' = d\<lparr>accounts := X, fundingEntries := fundingEntries d @ es, seq := s, held_locks := ls\<rparr>"
    by (simp add: d' d3_def d2_eq bump_seq_def es acquire_cases)
  moreover have "a \<in> acc_id ` set (accounts d)" using mem by (auto dest: find_by_SomeD)
  moreover have "tsum (cash_of x) es = - debited (p # ps) x" for x
    using tail(3) by (simp add: es p debited_def cash_of_def [of _ ?e])
  ultimately show ?case
    using moved tail ids by (intro exI [of _ X] exI [of _ s] exI [of _ ls]) (simp add: es p)
qed

subsection \<open>The whole payout\<close>

lemma per_account_debited: "debited (per_account takes) a = taken takes a"
proof -
  let ?as = "sort (remdups (map (com_accountId \<circ> fst) takes))"
  let ?n = "\<lambda>x. tsum snd (filter (\<lambda>p. com_accountId (fst p) = x) takes)"
  have "debited (per_account takes) a = (\<Sum>x\<leftarrow>?as. if x = a then ?n x else 0)"
    by (simp add: debited_def per_account_def tsum_def [of _ "map _ _"] comp_def cong: if_cong)
  also have "\<dots> = (\<Sum>x\<in>set ?as. if x = a then ?n x else 0)"
    by (rule sum_list_distinct_conv_sum_set) simp
  also have "\<dots> = (if a \<in> set ?as then ?n a else 0)"
    by (simp add: sum.delta)
  also have "\<dots> = taken takes a"
  proof (cases "a \<in> set ?as")
    case True
    then show ?thesis by (simp add: taken_def tsum_filter)
  next
    case False
    then have "\<forall>p \<in> set takes. (if com_accountId (fst p) = a then snd p else 0) = 0" by force
    then have "taken takes a = 0" unfolding taken_def by (rule tsum_zero)
    with False show ?thesis by simp
  qed
  finally show ?thesis .
qed

lemma per_account_sum: "tsum snd (per_account takes) = tsum snd takes"
proof -
  let ?as = "sort (remdups (map (com_accountId \<circ> fst) takes))"
  have "tsum snd (per_account takes)
      = (\<Sum>x\<leftarrow>?as. tsum snd (filter (\<lambda>p. com_accountId (fst p) = x) takes))"
    by (simp add: per_account_def tsum_def [of _ "map _ _"] comp_def)
  also have "\<dots> = (\<Sum>x\<in>set ?as. tsum snd (filter (\<lambda>p. (com_accountId \<circ> fst) p = x) takes))"
    by (simp add: sum_list_distinct_conv_sum_set)
  also have "\<dots> = tsum snd takes"
    by (rule sum_over_groups) auto
  finally show ?thesis .
qed

lemma set_commits_oldest_first:
  "set (commits_oldest_first u d) = {c \<in> set (commits d). com_userId c = u \<and> \<not> com_reviewPending c}"
  by (simp add: commits_oldest_first_def)

lemma distinct_commits_oldest_first:
  "uniq com_id (commits d) \<Longrightarrow> distinct (map com_id (commits_oldest_first u d))"
proof -
  assume "uniq com_id (commits d)"
  then have "distinct (map com_id (filter P (commits d)))" for P
    by (simp add: uniq_def distinct_map_filter)
  then show ?thesis
    by (auto simp: commits_oldest_first_def distinct_map intro: inj_on_subset)
qed

lemma attributed_takes_ok:
  assumes "funding_inv d" "attribute_payout g (commits_oldest_first u d) = (takes, left)"
  shows "takes_ok takes (commits d)"
proof -
  have u: "uniq com_id (commits d)" using assms(1) by (auto simp: funding_inv_def keys_unique_def)
  show ?thesis
    using attribute_payout_takes [OF assms(2)] attribute_payout_distinct [OF assms(2) distinct_commits_oldest_first [OF u]]
    unfolding takes_ok_def set_commits_oldest_first
    by (auto intro!: find_by_uniqI [OF u])
qed

text \<open>What a payout that is not a retry writes.\<close>

lemma settlePayoutFunding_Inr:
  assumes run: "settlePayoutFunding w i u g act d = Inr (res, d')" and inv: "funding_inv d"
    and new: "filter (\<lambda>e. fe_kind e = PAYOUT \<and> fe_reference e = i) (fundingEntries d) = []"
  obtains takes left C X s ls where
    "attribute_payout g (commits_oldest_first u d) = (takes, left)" "0 < g"
    "res = \<lparr>pa_entries = pa_entries res, pa_attributedRupiah = g - left, pa_legacyRupiah = left\<rparr>"
    "d' = d\<lparr>commits := C, accounts := X, fundingEntries := fundingEntries d @ pa_entries res, seq := s, held_locks := ls\<rparr>"
    "list_all2 (\<lambda>c c'. \<exists>n. c' = pay n c) (commits d) C" "\<forall>c \<in> set C. commit_inv c"
    "\<forall>a. tsum (due_com a) C = tsum (due_com a) (commits d) - taken takes a"
    "acct_moved (\<lambda>a. - taken takes a) (\<lambda>a. - taken takes a) (accounts d) X"
    "uniq fe_id (fundingEntries d @ pa_entries res)" "uniq fe_businessKey (fundingEntries d @ pa_entries res)"
    "\<forall>a. tsum (cash_of a) (pa_entries res) = - taken takes a"
    "fe_accountId ` set (pa_entries res) \<subseteq> acc_id ` set (accounts d)"
    "tsum fe_amount (pa_entries res) = - tsum snd takes"
    "\<forall>e \<in> set (pa_entries res). fe_kind e = PAYOUT \<and> fe_reference e = i"
proof -
  from inv have keys: "keys_unique d" and rows: "funding_rows d" by (auto simp: funding_inv_def)
  obtain takes left where t: "attribute_payout g (commits_oldest_first u d) = (takes, left)" by force
  from run new t obtain d1 es where g: "0 < g" and d1: "pay_commits takes d = Inr d1"
    and d2: "debit_accounts w i act (per_account takes) d1 = Inr (es, d')"
    and res: "res = \<lparr>pa_entries = es, pa_attributedRupiah = g - left, pa_legacyRupiah = left\<rparr>"
    by (auto simp: settlePayoutFunding_def assertRupiah_def Let_def result_simps split: if_splits)
  have "uniq com_id (commits d)" using keys by (simp add: keys_unique_def)
  moreover have "\<forall>c \<in> set (commits d). commit_inv c" using rows by (simp add: funding_rows_def)
  ultimately obtain C where C: "d1 = d\<lparr>commits := C\<rparr>" "list_all2 (\<lambda>c c'. \<exists>n. c' = pay n c) (commits d) C"
    "\<forall>c \<in> set C. commit_inv c" "\<forall>a. tsum (due_com a) C = tsum (due_com a) (commits d) - taken takes a"
    using pay_commits_Inr [OF d1 attributed_takes_ok [OF inv t]] by blast
  have "uniq fe_id (fundingEntries d1)" "uniq fe_businessKey (fundingEntries d1)"
    using keys by (simp_all add: C(1) keys_unique_def)
  from debit_accounts_Inr [OF d2 this, unfolded per_account_debited] obtain X s ls where
    d': "d' = d1\<lparr>accounts := X, fundingEntries := fundingEntries d1 @ es, seq := s, held_locks := ls\<rparr>"
    and X: "acct_moved (\<lambda>a. - taken takes a) (\<lambda>a. - taken takes a) (accounts d1) X"
    and es: "uniq fe_id (fundingEntries d1 @ es)" "uniq fe_businessKey (fundingEntries d1 @ es)"
      "\<forall>a. tsum (cash_of a) es = - taken takes a" "fst ` set (per_account takes) \<subseteq> acc_id ` set (accounts d1)"
      "map fe_accountId es = map fst (per_account takes)" "map fe_amount es = map (uminus \<circ> snd) (per_account takes)"
      "\<forall>e \<in> set es. fe_kind e = PAYOUT \<and> fe_reference e = i"
    by blast
  have ids: "fe_accountId ` set es \<subseteq> acc_id ` set (accounts d)"
    using es(4) arg_cong [OF es(5), of set] by (simp add: C(1))
  have amounts: "tsum fe_amount es = - tsum snd takes"
    using arg_cong [OF es(6), of sum_list] per_account_sum [of takes]
    by (simp add: tsum_def flip: uminus_sum_list_map)
  show ?thesis
    by (rule that [OF t g _ _ C(2-4)]) (use X es ids amounts in \<open>simp_all add: res d' C(1)\<close>)
qed

lemma settlePayoutFunding_inv:
  assumes run: "settlePayoutFunding w i u g act d = Inr (res, d')" and inv: "funding_inv d"
  shows "funding_inv d'"
proof (cases "filter (\<lambda>e. fe_kind e = PAYOUT \<and> fe_reference e = i) (fundingEntries d) = []")
  case False
  then have "sort_key fe_businessKey (filter (\<lambda>e. fe_kind e = PAYOUT \<and> fe_reference e = i) (fundingEntries d)) \<noteq> []"
    by (metis set_empty set_sort)
  with run inv show ?thesis by (auto simp: settlePayoutFunding_def Let_def result_simps)
next
  case True
  from inv have keys: "keys_unique d" and rows: "funding_rows d" and books: "funding_books d"
    by (auto simp: funding_inv_def)
  from run inv True obtain takes left C X s ls where
    d': "d' = d\<lparr>commits := C, accounts := X, fundingEntries := fundingEntries d @ pa_entries res, seq := s, held_locks := ls\<rparr>"
    and C: "list_all2 (\<lambda>c c'. \<exists>n. c' = pay n c) (commits d) C" "\<forall>c \<in> set C. commit_inv c"
      "\<forall>a. tsum (due_com a) C = tsum (due_com a) (commits d) - taken takes a"
    and X: "acct_moved (\<lambda>a. - taken takes a) (\<lambda>a. - taken takes a) (accounts d) X"
    and E: "uniq fe_id (fundingEntries d @ pa_entries res)" "uniq fe_businessKey (fundingEntries d @ pa_entries res)"
      "\<forall>a. tsum (cash_of a) (pa_entries res) = - taken takes a"
      "fe_accountId ` set (pa_entries res) \<subseteq> acc_id ` set (accounts d)"
    by (rule settlePayoutFunding_Inr)
  have X': "acct_moved (\<lambda>a. - taken takes a) (\<lambda>a. - taken takes a) (accounts d) (accounts d')"
    and camp: "camp_shift None 0 0 (campaigns d) (campaigns d')" using X by (simp_all add: d')
  have same: "map com_id C = map com_id (commits d)" "map com_businessKey C = map com_businessKey (commits d)"
    "tsum (camp_com k) C = tsum (camp_com k) (commits d)" for k
    using C(1) by (induction rule: list_all2_induct) (auto simp: camp_com_def)
  have "funding_books d'"
    by (rule books_step [OF books X' camp]) (simp_all add: d' held_due_def cash_due_def C(3) E(3) same)
  moreover have "keys_unique d'"
    using keys E by (intro keys_step [OF keys X' camp]) (simp_all add: keys_unique_def d' uniq_def same)
  moreover have "funding_rows d'"
  proof -
    have ids: "acc_id ` set X = acc_id ` set (accounts d)" using X by (rule acct_moved_ids)
    have "\<exists>r \<in> set (reservations d). commit_of c r" if "c \<in> set C" for c
    proof -
      from C(1) that obtain c0 n where "c0 \<in> set (commits d)" "c = pay n c0"
        unfolding list_all2_conv_all_nth in_set_conv_nth by metis
      then show ?thesis using rows by (auto simp: funding_rows_def commit_of_def)
    qed
    then show ?thesis using rows C(2) E(4) ids by (auto simp: funding_rows_def d')
  qed
  ultimately show ?thesis by (simp add: funding_inv_def)
qed

end
