(* ===== verification/Samples.thy ===== *)
theory Samples
  imports Locks
begin

text \<open>
  Concrete states the witnesses of the component theories evaluate: an installation with one
  organization, one campaign, one machine, one user and an open deposit session, and a world
  with a fixed clock and a unary id generator.
\<close>

definition sample_world :: world where
  "sample_world = \<lparr>w_now = 1000, w_newId = (\<lambda>n. ''id'' @ replicate n (CHR ''x'')), w_env = (\<lambda>_. None),
     w_parseDate = (\<lambda>_. None), w_isoDate = (\<lambda>n. replicate (nat n mod 7) (CHR ''t'')), w_encrypt = (\<lambda>s. ''enc:'' @ s), w_sha256 = (\<lambda>s. ''hash:'' @ s)\<rparr>"

definition empty_db :: db where
  "empty_db = \<lparr>users = [], erasureSteps = [], organizations = [], campaigns = [], machines = [], wasteTypes = [], machineWasteTypes = [], rewardRates = [], sessions = [],
     items = [], trips = [], bags = [], machineEvents = [], pickups = [], accounts = [], fundingEntries = [], reservations = [],
     releases = [], commits = [], ledgers = [], cases = [], payoutAccounts = [], redemptions = [],
     config = (\<lambda>_. None), migrations = (\<lambda>_. None), seq = 0, held_locks = []\<rparr>"

definition sample_campaign :: campaign where
  "sample_campaign = \<lparr>cmp_id = ''c1'', cmp_organizationId = ''o1'', cmp_name = ''Program'',
     cmp_campaignType = MACHINE_DEPOSIT, cmp_rewardMode = MONEY_REWARD, cmp_supportsMachine = True,
     cmp_status = CS_ACTIVE, cmp_rewardMultiplier = None, cmp_rewardBudgetRupiah = Some 50000,
     cmp_heldRupiah = 0, cmp_spentRupiah = 0, cmp_maxRewardPerSessionRupiah = Some 5000,
     cmp_visibility = VIS_PUBLIC, cmp_allowedEmailDomains = None, cmp_startAt = None, cmp_endAt = None\<rparr>"

definition sample_session :: session where
  "sample_session = \<lparr>ses_id = ''s1'', ses_userId = ''u1'', ses_machineId = ''m1'', ses_campaignId = Some ''c1'',
     ses_status = SS_ACTIVE, ses_startedAt = 900, ses_policySnapshot = None, ses_closeWatermarkAt = None,
     ses_closeWatermarkEventCount = None, ses_completedAt = None, ses_timeoutAt = Some 180900,
     ses_anomalyCount = 0, ses_policyVersion = None\<rparr>"

definition sample_machine :: machine where
  "sample_machine = \<lparr>mac_id = ''m1'', mac_organizationId = ''o1'', mac_maxRewardPerSessionRupiah = Some 5000,
     mac_machineCode = ''RVM-1'', mac_qrToken = Some ''tok'', mac_qrTokenExpiresAt = Some 5000,
     mac_status = MS_ONLINE, mac_hasCompactor = False, mac_materialVerification = WEIGHT_ONLY,
     mac_sessionIdleTimeoutMinutes = 3, mac_maxItemsPerSession = Some 20, mac_fillLevelPercent = 0,
     mac_lastHeartbeatAt = None\<rparr>"

definition sample_db :: db where
  "sample_db = empty_db\<lparr>
     users := [\<lparr>usr_id = ''u1'', usr_status = US_ACTIVE, usr_email = ''ani@kota.id''\<rparr>],
     organizations := [\<lparr>org_id = ''o1'', org_name = ''Kota'', org_machineRewardMode = MONEY_REWARD, org_status = OS_ACTIVE\<rparr>],
     campaigns := [sample_campaign],
     machines := [sample_machine],
     sessions := [sample_session]\<rparr>"

text \<open>The state of a successful run.\<close>

definition state_of :: "'a tx \<Rightarrow> db" where
  "state_of m = (case m of Inr (_, d) \<Rightarrow> d | Inl _ \<Rightarrow> empty_db)"

definition succeeds :: "'a result \<Rightarrow> bool" where
  "succeeds m = (case m of Inr _ \<Rightarrow> True | Inl _ \<Rightarrow> False)"

definition result_of :: "'a tx \<Rightarrow> 'a \<Rightarrow> 'a" where
  "result_of m x = (case m of Inr (r, _) \<Rightarrow> r | Inl _ \<Rightarrow> x)"

lemma succeeds_tx: "succeeds m \<Longrightarrow> \<exists>r. m = Inr (r, state_of m)"
  by (cases m) (auto simp: succeeds_def state_of_def)

end
