(* ===== verification/Funding_Props.thy ===== *)
theory Funding_Props
  imports Funding_Payout Samples "HOL-Library.Multiset"
begin

text \<open>
  What reward funding promises: the books balance in every reachable state, enforced admission
  never promises more than the confirmed cash and the campaign budget, an earning is always
  recorded and moves the counters by exactly the uncovered part, retries are harmless, and a
  payout conserves the gross amount and leaves the free capacity of every account alone.
\<close>

section \<open>Funding as a state machine\<close>

inductive funding_step :: "world \<Rightarrow> db \<Rightarrow> db \<Rightarrow> bool" for w where
  reserve: "reserveRewardBudget w enf inp d = Inr (i, d') \<Longrightarrow>
     (\<And>e. find_by rsv_businessKey (ri_businessKey inp) (reservations d) = Some e \<Longrightarrow> rsv_campaignId e = ri_campaignId inp)
     \<Longrightarrow> funding_step w d d'"
| commit: "commitRewardAgainstBudget w i key amt rp d = Inr (cr, d') \<Longrightarrow> funding_step w d d'"
| settle: "settleCommittedReward key target rp d = Inr (c, d') \<Longrightarrow> funding_step w d d'"
| settle_or_commit: "settleOrCommitReward w key st si target rp d = Inr (c, d') \<Longrightarrow> funding_step w d d'"
| mark_review: "funding_step w d (markCommitReviewPending key d)"
| release: "releaseUnusedRewardBudget w i amt opts d = Inr (x, d') \<Longrightarrow> \<not> ro_close opts \<Longrightarrow> funding_step w d d'"
| close: "closeReservation w i who reason d = Inr (x, d') \<Longrightarrow> funding_step w d d'"
| residual: "releaseResidualReservation w org i who reason d = Inr (x, d') \<Longrightarrow> funding_step w d d'"
| source: "resolveSourceReservation w st si d = Inr (s, d') \<Longrightarrow> funding_step w d d'"
| cash: "recordFundingEntry w inp d = Inr (x, d') \<Longrightarrow> funding_step w d d'"
| payout: "settlePayoutFunding w i u g act d = Inr (p, d') \<Longrightarrow> funding_step w d d'"
| elsewhere: "accounts d' = accounts d \<Longrightarrow> campaigns d' = campaigns d \<Longrightarrow> reservations d' = reservations d \<Longrightarrow>
     commits d' = commits d \<Longrightarrow> fundingEntries d' = fundingEntries d \<Longrightarrow> funding_step w d d'"

definition funding_start :: "db \<Rightarrow> bool" where
  "funding_start d \<longleftrightarrow> accounts d = [] \<and> reservations d = [] \<and> commits d = [] \<and> fundingEntries d = []
     \<and> uniq cmp_id (campaigns d) \<and> (\<forall>c \<in> set (campaigns d). cmp_heldRupiah c = 0 \<and> cmp_spentRupiah c = 0)"

lemma funding_start_inv: "funding_start d \<Longrightarrow> funding_inv d"
  by (simp add: funding_start_def funding_inv_def keys_unique_def funding_rows_def funding_books_def uniq_def)

lemma funding_inv_cong:
  "accounts d' = accounts d \<Longrightarrow> campaigns d' = campaigns d \<Longrightarrow> reservations d' = reservations d \<Longrightarrow>
   commits d' = commits d \<Longrightarrow> fundingEntries d' = fundingEntries d \<Longrightarrow> funding_inv d' = funding_inv d"
  by (simp add: funding_inv_def keys_unique_def funding_rows_def funding_books_def held_due_def cash_due_def)

lemmas funding_ops_inv = reserveRewardBudget_inv commitRewardAgainstBudget_inv settleCommittedReward_inv
  settleOrCommitReward_inv markCommitReviewPending_inv releaseUnusedRewardBudget_inv closeReservation_inv
  releaseResidualReservation_inv resolveSourceReservation_inv settlePayoutFunding_inv

lemma funding_step_inv:
  assumes "funding_step w d d'" "funding_inv d"
  shows "funding_inv d'"
  using assms
proof cases
  case (cash inp x)
  with assms(2) show ?thesis by (cases x) (auto intro: recordFundingEntry_inv)
next
  case elsewhere
  with assms(2) show ?thesis using funding_inv_cong [of d' d] by simp
qed (use assms(2) in \<open>auto intro: funding_ops_inv\<close>)

interpretation funding: invariant_system funding_start "funding_step w" funding_inv for w
  by unfold_locales (auto intro: funding_start_inv funding_step_inv)

section \<open>Properties\<close>

definition sample_topup :: funding_input where
  "sample_topup = \<lparr>fi_organizationId = ''o1'', fi_kind = CONFIRMED_TOPUP, fi_amount = 20000,
     fi_reference = ''REF-0001'', fi_note = ''transfer bank'', fi_verifiedById = ''admin''\<rparr>"

definition sample_reserve :: reserve_input where
  "sample_reserve = \<lparr>ri_businessKey = ''session:s1:admission'', ri_organizationId = ''o1'',
     ri_campaignId = Some ''c1'', ri_userId = ''u1'', ri_ceilingRupiah = 5000, ri_sourceType = SESSION,
     ri_sourceId = ''s1''\<rparr>"

definition funded_db :: db where
  "funded_db = state_of (recordFundingEntry sample_world sample_topup sample_db)"

definition reserved_db :: db where
  "reserved_db = state_of (reserveRewardBudget sample_world True sample_reserve funded_db)"

definition earned_db :: db where
  "earned_db = state_of (commitRewardAgainstBudget sample_world ''idxx'' ''k1'' 7000 False reserved_db)"

definition paid_db :: db where
  "paid_db = state_of (settlePayoutFunding sample_world ''r1'' ''u1'' 8000 None earned_db)"

lemma sample_steps:
  "funding_step sample_world sample_db funded_db"
  "funding_step sample_world funded_db reserved_db"
  "funding_step sample_world reserved_db earned_db"
  "funding_step sample_world earned_db paid_db"
proof -
  have "succeeds (recordFundingEntry sample_world sample_topup sample_db)" by code_simp
  from succeeds_tx [OF this] show "funding_step sample_world sample_db funded_db"
    unfolding funded_db_def by (auto intro: funding_step.cash)
  have "succeeds (reserveRewardBudget sample_world True sample_reserve funded_db)" by code_simp
  from succeeds_tx [OF this] obtain i where "reserveRewardBudget sample_world True sample_reserve funded_db = Inr (i, reserved_db)"
    unfolding reserved_db_def by blast
  moreover have "reservations funded_db = []" by code_simp
  ultimately show "funding_step sample_world funded_db reserved_db"
    by (auto intro: funding_step.reserve)
  have "succeeds (commitRewardAgainstBudget sample_world ''idxx'' ''k1'' 7000 False reserved_db)" by code_simp
  from succeeds_tx [OF this] show "funding_step sample_world reserved_db earned_db"
    unfolding earned_db_def by (auto intro: funding_step.commit)
  have "succeeds (settlePayoutFunding sample_world ''r1'' ''u1'' 8000 None earned_db)" by code_simp
  from succeeds_tx [OF this] show "funding_step sample_world earned_db paid_db"
    unfolding paid_db_def by (auto intro: funding_step.payout)
qed

lemma sample_inv: "funding_inv sample_db" "funding_inv funded_db" "funding_inv reserved_db" "funding_inv earned_db"
proof -
  show "funding_inv sample_db" by code_simp
  then show "funding_inv funded_db" using funding_step_inv sample_steps(1) by blast
  then show "funding_inv reserved_db" using funding_step_inv sample_steps(2) by blast
  then show "funding_inv earned_db" using funding_step_inv sample_steps(3) by blast
qed



subsection \<open>Admission\<close>

lemma shifted_account:
  assumes "acct_shift A dc dh t u" "a \<in> set t" "acc_id a = A"
  shows "\<exists>b \<in> set u. acc_id b = A \<and> acc_organizationId b = acc_organizationId a
    \<and> acc_confirmedRupiah b = acc_confirmedRupiah a + dc \<and> acc_heldRupiah b = acc_heldRupiah a + dh"
  using assms unfolding acct_shift_def acct_moved_def by (induction rule: list_all2_induct) auto

lemma shifted_campaign:
  assumes "camp_shift (Some C) dh ds t u" "c \<in> set t" "cmp_id c = C"
  shows "\<exists>b \<in> set u. cmp_id b = C \<and> cmp_rewardBudgetRupiah b = cmp_rewardBudgetRupiah c
    \<and> cmp_heldRupiah b = cmp_heldRupiah c + dh \<and> cmp_spentRupiah b = cmp_spentRupiah c + ds"
  using assms unfolding camp_shift_def by (induction rule: list_all2_induct) auto

text \<open>
  C5: enforced admission is solvent. When a reservation is made or extended with enforcement on,
  the organization's account afterwards holds at most its confirmed cash, and the campaign has a
  positive budget that covers everything it holds and spent.
\<close>

theorem enforced_admission_is_solvent:
  assumes inv: "funding_inv d" and run: "reserveRewardBudget w True inp d = Inr (i, d')"
    and adds: "\<And>e. find_by rsv_businessKey (ri_businessKey inp) (reservations d) = Some e \<Longrightarrow>
      rsv_status e = RES_RELEASED \<or> rsv_ceilingRupiah e < ri_ceilingRupiah inp"
  shows "(\<exists>a \<in> set (accounts d'). acc_organizationId a = ri_organizationId inp \<and> acc_heldRupiah a \<le> acc_confirmedRupiah a)
    \<and> (\<forall>c. ri_campaignId inp = Some c \<longrightarrow>
         (\<exists>k \<in> set (campaigns d'). cmp_id k = c
            \<and> (\<exists>b. cmp_rewardBudgetRupiah k = Some b \<and> 0 < b \<and> cmp_heldRupiah k + cmp_spentRupiah k \<le> b)))"
  using run
proof (cases rule: reserveRewardBudget_Inr)
  case (same a d1 ls e)
  with adds [OF same(3)] show ?thesis by auto
next
  case (writes a d1 ls cmp existing n sf)
  note frame = lockFundingAccountForOrganization_Inr [OF writes(1)]
  let ?d = "d1\<lparr>held_locks := ls\<rparr>"
  have inv1: "funding_inv ?d" using lockFundingAccountForOrganization_inv [OF writes(1) inv] by simp
  have ex: "e \<in> set (reservations ?d)" if "existing = Some e" for e
    using that writes(2) frame find_by_SomeD [of rsv_businessKey "ri_businessKey inp" "reservations d" e] by simp
  have n: "0 \<le> n"
    using reserve_delta_bounds(1) [OF inv1 writes(10), of existing] ex writes(8) unfolding writes(5) by blast
  obtain X Y where
    XY: "acct_shift (acc_id a) 0 n (accounts ?d) X" "camp_shift (ri_campaignId inp) n 0 (campaigns ?d) Y"
    and d': "accounts d' = X" "campaigns d' = Y"
    by (rule reserve_write_Inr [OF writes(9) n])
  from writes(7) have short: "cc_accountShortfall sf \<le> 0" "cc_campaignShortfall sf \<le> 0"
    and budget: "cmp \<noteq> None \<Longrightarrow> configuredCap (cmp_rewardBudgetRupiah (the cmp)) \<noteq> None"
    by (auto simp: reserve_refusal_def split: if_splits)
  have "n \<le> acc_confirmedRupiah a - acc_heldRupiah a"
    using short(1) unfolding writes(6) by (auto simp: checkCapacity_def Let_def split: if_splits)
  with shifted_account [OF XY(1), of a] frame
  have account: "\<exists>b \<in> set (accounts d'). acc_organizationId b = ri_organizationId inp \<and> acc_heldRupiah b \<le> acc_confirmedRupiah b"
    unfolding d' by fastforce
  have "\<exists>k \<in> set (campaigns d'). cmp_id k = c
      \<and> (\<exists>b. cmp_rewardBudgetRupiah k = Some b \<and> 0 < b \<and> cmp_heldRupiah k + cmp_spentRupiah k \<le> b)"
    if c: "ri_campaignId inp = Some c" for c
  proof -
    from c writes(3,4) obtain k where k: "cmp = Some k" "k \<in> set (campaigns ?d)" "cmp_id k = c"
      using find_by_SomeD frame by (cases cmp) fastforce+
    from budget k(1) obtain b where b: "cmp_rewardBudgetRupiah k = Some b" "0 < b"
      by (auto simp: configuredCap_def split: option.splits if_splits)
    have "n \<le> b - cmp_heldRupiah k - cmp_spentRupiah k"
      using short(2) unfolding writes(6) by (auto simp: checkCapacity_def Let_def k(1) b split: if_splits)
    with shifted_campaign [OF XY(2) [unfolded c] k(2,3)] b show ?thesis unfolding d' by fastforce
  qed
  with account show ?thesis by blast
qed

theorem enforced_admission_is_solvent_witness:
  "\<exists>a \<in> set (accounts reserved_db). acc_organizationId a = ''o1'' \<and> acc_heldRupiah a \<le> acc_confirmedRupiah a"
proof -
  have "succeeds (reserveRewardBudget sample_world True sample_reserve funded_db)" by code_simp
  from succeeds_tx [OF this] obtain i where "reserveRewardBudget sample_world True sample_reserve funded_db = Inr (i, reserved_db)"
    unfolding reserved_db_def by blast
  moreover have "reservations funded_db = []" by code_simp
  ultimately show ?thesis
    using enforced_admission_is_solvent [OF sample_inv(2)] by (force simp: sample_reserve_def)
qed

subsection \<open>Commits and settlements\<close>

lemma shift_held_map:
  "acct_shift A 0 n t u \<Longrightarrow> map acc_heldRupiah u = map (\<lambda>a. acc_heldRupiah a + (if acc_id a = A then n else 0)) t"
  "acct_shift A 0 n t u \<Longrightarrow> map acc_confirmedRupiah u = map acc_confirmedRupiah t"
  unfolding acct_shift_def acct_moved_def by (induction rule: list_all2_induct) auto

lemma shift_camp_map:
  "camp_shift C dh ds t u \<Longrightarrow> map cmp_heldRupiah u = map (\<lambda>c. cmp_heldRupiah c + (if C = Some (cmp_id c) then dh else 0)) t"
  "camp_shift C dh ds t u \<Longrightarrow> map cmp_spentRupiah u = map (\<lambda>c. cmp_spentRupiah c + (if C = Some (cmp_id c) then ds else 0)) t"
  unfolding camp_shift_def by (induction rule: list_all2_induct) auto

text \<open>
  C27: what committing an earning does. The reservation covers as much of the amount as it still
  holds (nothing once it is released), only the uncovered rest is added to the account's held
  rupiah, the campaign turns the covered part from held into spent and spends the whole amount,
  confirmed cash does not move, and the commit is found under its key with the full amount owed.
\<close>

theorem commit_moves_exactly_the_uncovered_part:
  assumes inv: "funding_inv d" and run: "commitRewardAgainstBudget w i key amt rp d = Inr (res, d')"
    and r: "find_by rsv_id i (reservations d) = Some r" and new: "find_by com_businessKey key (commits d) = None"
  shows "cr_covered res = (if rsv_status r = RES_ACTIVE then min amt (rsv_remainingRupiah r) else 0)
    \<and> cr_covered res + cr_uncovered res = amt \<and> 0 \<le> cr_uncovered res
    \<and> find_by rsv_id i (reservations d') = Some (r\<lparr>rsv_remainingRupiah := rsv_remainingRupiah r - cr_covered res\<rparr>)
    \<and> map acc_heldRupiah (accounts d') =
        map (\<lambda>a. acc_heldRupiah a + (if acc_id a = rsv_accountId r then cr_uncovered res else 0)) (accounts d)
    \<and> map acc_confirmedRupiah (accounts d') = map acc_confirmedRupiah (accounts d)
    \<and> map cmp_heldRupiah (campaigns d') =
        map (\<lambda>c. cmp_heldRupiah c + (if rsv_campaignId r = Some (cmp_id c) then - cr_covered res else 0)) (campaigns d)
    \<and> map cmp_spentRupiah (campaigns d') =
        map (\<lambda>c. cmp_spentRupiah c + (if rsv_campaignId r = Some (cmp_id c) then amt else 0)) (campaigns d)
    \<and> (\<exists>c. find_by com_businessKey key (commits d') = Some c \<and> com_heldRupiah c = amt \<and> com_paidRupiah c = 0
         \<and> com_uncoveredRupiah c = cr_uncovered res \<and> com_userId c = rsv_userId r \<and> com_reviewPending c = rp)"
proof -
  have "\<not> cr_existing res"
  proof -
    from run r obtain ls where "commit_locked w r key amt rp (d\<lparr>held_locks := ls\<rparr>) = Inr (res, d')"
      by (auto simp: commitRewardAgainstBudget_def result_simps elim: with_funding_locks_Inr)
    with new show ?thesis by (auto simp: commit_locked_def Let_def result_simps)
  qed
  with run obtain ref c where
    ref: "find_by rsv_id i (reservations d) = Some ref"
    and cov: "cr_covered res = coverable ref amt" "cr_uncovered res = amt - coverable ref amt" "0 \<le> amt"
    and acct: "acct_shift (rsv_accountId ref) 0 (amt - coverable ref amt) (accounts d) (accounts d')"
    and camp: "camp_shift (rsv_campaignId ref) (- coverable ref amt) amt (campaigns d) (campaigns d')"
    and R: "reservations d' = upd_by rsv_id i (draw_reservation (coverable ref amt)) (reservations d)"
    and c: "commits d' = commits d @ [c]" "commit_of c ref" "com_businessKey c = key" "com_heldRupiah c = amt"
      "com_paidRupiah c = 0" "com_uncoveredRupiah c = amt - coverable ref amt" "com_reviewPending c = rp"
    by (rule commit_new_effect [OF _ _ inv])
  from r ref have [simp]: "ref = r" by simp
  have "reservation_inv r" using inv find_by_SomeD [OF r] by (auto simp: funding_inv_def funding_rows_def)
  note bounds = coverable_bounds [OF this cov(3)]
  have "find_by com_businessKey key (commits d') = Some c" using new c by (simp add: find_by_append)
  moreover have "find_by rsv_id i (reservations d') = Some (draw_reservation (coverable r amt) r)"
    using r by (simp add: R find_by_upd_by)
  ultimately show ?thesis
    using cov bounds c shift_held_map [OF acct] shift_camp_map [OF camp]
    by (simp add: coverable_def draw_reservation_def commit_of_def)
qed

theorem commit_moves_exactly_the_uncovered_part_witness:
  "\<exists>res. commitRewardAgainstBudget sample_world ''idxx'' ''k1'' 7000 False reserved_db = Inr (res, earned_db)
     \<and> cr_covered res + cr_uncovered res = 7000"
proof -
  have "succeeds (commitRewardAgainstBudget sample_world ''idxx'' ''k1'' 7000 False reserved_db)" by code_simp
  from succeeds_tx [OF this] obtain res where
    run: "commitRewardAgainstBudget sample_world ''idxx'' ''k1'' 7000 False reserved_db = Inr (res, earned_db)"
    unfolding earned_db_def by blast
  have "find_by rsv_id ''idxx'' (reservations reserved_db) \<noteq> None" by code_simp
  then obtain r where "find_by rsv_id ''idxx'' (reservations reserved_db) = Some r" by blast
  moreover have "find_by com_businessKey ''k1'' (commits reserved_db) = None" by code_simp
  ultimately show ?thesis
    using commit_moves_exactly_the_uncovered_part [OF sample_inv(3) run] run by blast
qed

interpretation commit_retry:
  retry_safe "commitRewardAgainstBudget w i key amt rp" committed "\<lambda>d. find_by com_businessKey key (commits d) \<noteq> None"
  for w i key amt rp
proof
  fix d r d'
  assume run: "commitRewardAgainstBudget w i key amt rp d = Inr (r, d')"
  then obtain ref ls where ref: "find_by rsv_id i (reservations d) = Some ref"
    and locked: "commit_locked w ref key amt rp (d\<lparr>held_locks := ls\<rparr>) = Inr (r, d')"
    by (auto simp: commitRewardAgainstBudget_def result_simps elim: with_funding_locks_Inr)
  show "find_by com_businessKey key (commits d') \<noteq> None"
  proof (cases "find_by com_businessKey key (commits d)")
    case (Some e)
    with locked show ?thesis by (auto simp: commit_locked_def split: if_splits)
  next
    case None
    with locked obtain d4 c where "d' = bump_seq (d4\<lparr>commits := commits d4 @ [c]\<rparr>)" "com_businessKey c = key"
      by (auto simp: commit_locked_def Let_def result_simps new_commit_def)
    then show ?thesis by (auto simp: bump_seq_def find_by_append split: option.splits)
  qed
  assume "find_by com_businessKey key (commits d) \<noteq> None"
  with locked have "d' = d\<lparr>held_locks := ls\<rparr>" by (auto simp: commit_locked_def split: option.splits if_splits)
  then show "committed d' = committed d" by (simp add: committed_def)
qed

text \<open>
  Committing is retry safe. After a commit succeeded, running it again any number of times
  under the same business key changes no row of any table.
\<close>

theorem commit_retries_change_nothing:
  assumes "commitRewardAgainstBudget w i key amt rp d = Inr (res, d1)"
    and "run_times n (commitRewardAgainstBudget w i key amt rp) d1 = Inr d2"
  shows "committed d2 = committed d1"
  using assms by (rule commit_retry.retries_once)

theorem commit_retries_change_nothing_witness:
  "\<exists>d2. run_times 3 (commitRewardAgainstBudget sample_world ''idxx'' ''k1'' 7000 False) earned_db = Inr d2
     \<and> committed d2 = committed earned_db"
proof -
  have "succeeds (commitRewardAgainstBudget sample_world ''idxx'' ''k1'' 7000 False reserved_db)"
    "succeeds (run_times 3 (commitRewardAgainstBudget sample_world ''idxx'' ''k1'' 7000 False) earned_db)"
    by code_simp+
  with succeeds_tx obtain res d2 where
    "commitRewardAgainstBudget sample_world ''idxx'' ''k1'' 7000 False reserved_db = Inr (res, earned_db)"
    "run_times 3 (commitRewardAgainstBudget sample_world ''idxx'' ''k1'' 7000 False) earned_db = Inr d2"
    unfolding earned_db_def succeeds_def by (force split: sum.splits)
  then show ?thesis using commit_retries_change_nothing by blast
qed

text \<open>
  What a review's settlement does to a committed reward. The obligation becomes the target, but
  never less than what was already paid out; the part of a raise that the reservation still covers
  is drawn from it, the account's held rupiah moves by the rest, and the campaign's spent rupiah by
  the whole change. The paid amount and the confirmed cash do not move.
\<close>

theorem settlement_moves_the_difference:
  assumes inv: "funding_inv d" and run: "settleCommittedReward key target rp d = Inr (res, d')"
    and c: "find_by com_businessKey key (commits d) = Some c"
  shows "\<exists>r cov. find_by rsv_id (com_reservationId c) (reservations d) = Some r
    \<and> (let new = max target (com_paidRupiah c); delta = new - com_heldRupiah c in
       cov = (if delta > 0 \<and> rsv_status r = RES_ACTIVE then min delta (rsv_remainingRupiah r) else 0)
       \<and> (\<exists>c'. res = Some c' \<and> find_by com_businessKey key (commits d') = Some c'
            \<and> com_heldRupiah c' = new \<and> com_paidRupiah c' = com_paidRupiah c \<and> com_reviewPending c' = rp)
       \<and> find_by rsv_id (com_reservationId c) (reservations d') =
           Some (r\<lparr>rsv_remainingRupiah := rsv_remainingRupiah r - cov\<rparr>)
       \<and> map acc_heldRupiah (accounts d') =
           map (\<lambda>a. acc_heldRupiah a + (if acc_id a = com_accountId c then delta - cov else 0)) (accounts d)
       \<and> map acc_confirmedRupiah (accounts d') = map acc_confirmedRupiah (accounts d)
       \<and> map cmp_spentRupiah (campaigns d') =
           map (\<lambda>k. cmp_spentRupiah k + (if com_campaignId c = Some (cmp_id k) then delta else 0)) (campaigns d))"
proof -
  let ?new = "max target (com_paidRupiah c)"
  from run inv c obtain r cov u X Y ls where
    r: "find_by rsv_id (com_reservationId c) (reservations d) = Some r"
    and cov: "cov = (if ?new > com_heldRupiah c then coverable r (?new - com_heldRupiah c) else 0)"
    and d': "d' = d\<lparr>reservations := upd_by rsv_id (com_reservationId c) (draw_reservation cov) (reservations d),
            accounts := X, campaigns := Y, held_locks := ls,
            commits := upd_by com_id (com_id c) (settle_commit ?new rp u) (commits d)\<rparr>"
    and X: "acct_shift (com_accountId c) 0 (?new - com_heldRupiah c - cov) (accounts d) X"
    and Y: "camp_shift (com_campaignId c) (- cov) (?new - com_heldRupiah c) (campaigns d) Y"
    and res: "res = Some (settle_commit ?new rp u c)"
    by (rule settle_effect)
  have keys: "uniq com_id (commits d)" "uniq com_businessKey (commits d)"
    using inv by (simp_all add: funding_inv_def keys_unique_def)
  have c_in: "c \<in> set (commits d)" "com_businessKey c = key" using find_by_SomeD [OF c] by auto
  have "settle_commit ?new rp u c \<in> set (commits d')" using c_in(1) by (force simp: d' set_upd_by)
  moreover have "uniq com_businessKey (commits d')" using keys by (simp add: d' uniq_upd_by)
  ultimately have "find_by com_businessKey key (commits d') = Some (settle_commit ?new rp u c)"
    using find_by_uniqI [of com_businessKey "commits d'" "settle_commit ?new rp u c"] c_in(2) by simp
  moreover have "find_by rsv_id (com_reservationId c) (reservations d') = Some (draw_reservation cov r)"
    using r by (simp add: d' find_by_upd_by)
  ultimately show ?thesis
    using r res shift_held_map [OF X] shift_camp_map(2) [OF Y]
    by (intro exI [of _ r] exI [of _ cov]) (simp add: Let_def d' cov coverable_def draw_reservation_def)
qed

theorem settlement_moves_the_difference_witness:
  "\<exists>res d'. settleCommittedReward ''k1'' 4000 False earned_db = Inr (res, d')
     \<and> (\<exists>c'. res = Some c' \<and> com_heldRupiah c' = 4000)"
proof -
  have "succeeds (settleCommittedReward ''k1'' 4000 False earned_db)" by code_simp
  with succeeds_tx obtain res d' where run: "settleCommittedReward ''k1'' 4000 False earned_db = Inr (res, d')" by blast
  have "map_option com_paidRupiah (find_by com_businessKey ''k1'' (commits earned_db)) = Some 0" by code_simp
  then obtain c where c: "find_by com_businessKey ''k1'' (commits earned_db) = Some c" "com_paidRupiah c = 0" by auto
  show ?thesis
    using settlement_moves_the_difference [OF sample_inv(4) run c(1)] run c(2) by (auto simp: Let_def)
qed

subsection \<open>Payouts and cash\<close>

lemma tsum_mset: "mset xs = mset ys \<Longrightarrow> tsum f xs = tsum f ys"
  unfolding tsum_def by (metis mset_map sum_mset_sum_list)

lemma tsum_oldest_first:
  "tsum f (commits_oldest_first u d) = tsum f (filter (\<lambda>c. com_userId c = u \<and> \<not> com_reviewPending c) (commits d))"
  by (rule tsum_mset) (simp add: commits_oldest_first_def)

lemma moved_capacity:
  "acct_moved f f t u \<Longrightarrow>
   map (\<lambda>a. acc_confirmedRupiah a - acc_heldRupiah a) u = map (\<lambda>a. acc_confirmedRupiah a - acc_heldRupiah a) t"
  unfolding acct_moved_def by (induction rule: list_all2_induct) auto

text \<open>
  C28: a payout conserves money. The attributed and the legacy part add up to the gross amount; the
  legacy part is exactly what the recipient's decided obligations cannot absorb (nothing as long as
  they cover the gross); the new cash entries are all of kind PAYOUT and debit the attributed
  amount in total; and no account's free capacity (confirmed minus held) changes, because every
  account loses cash and obligation together.
\<close>

theorem payout_conserves_money:
  assumes inv: "funding_inv d" and run: "settlePayoutFunding w i u g act d = Inr (res, d')"
    and new: "\<forall>e \<in> set (fundingEntries d). \<not> (fe_kind e = PAYOUT \<and> fe_reference e = i)"
  shows "pa_attributedRupiah res + pa_legacyRupiah res = g
    \<and> pa_legacyRupiah res = max 0 (g - tsum (\<lambda>c. com_heldRupiah c - com_paidRupiah c)
         (filter (\<lambda>c. com_userId c = u \<and> \<not> com_reviewPending c) (commits d)))
    \<and> fundingEntries d' = fundingEntries d @ pa_entries res
    \<and> (\<forall>e \<in> set (pa_entries res). fe_kind e = PAYOUT \<and> fe_reference e = i)
    \<and> tsum fe_amount (pa_entries res) = - pa_attributedRupiah res
    \<and> map (\<lambda>a. acc_confirmedRupiah a - acc_heldRupiah a) (accounts d') =
        map (\<lambda>a. acc_confirmedRupiah a - acc_heldRupiah a) (accounts d)"
proof -
  from new have "filter (\<lambda>e. fe_kind e = PAYOUT \<and> fe_reference e = i) (fundingEntries d) = []"
    by (simp add: filter_empty_conv)
  with run inv obtain takes left C X s ls where
    t: "attribute_payout g (commits_oldest_first u d) = (takes, left)" and g: "0 < g"
    and res: "res = \<lparr>pa_entries = pa_entries res, pa_attributedRupiah = g - left, pa_legacyRupiah = left\<rparr>"
    and d': "d' = d\<lparr>commits := C, accounts := X, fundingEntries := fundingEntries d @ pa_entries res, seq := s, held_locks := ls\<rparr>"
    and X: "acct_moved (\<lambda>a. - taken takes a) (\<lambda>a. - taken takes a) (accounts d) X"
    and es: "tsum fe_amount (pa_entries res) = - tsum snd takes"
      "\<forall>e \<in> set (pa_entries res). fe_kind e = PAYOUT \<and> fe_reference e = i"
    by (rule settlePayoutFunding_Inr)
  have nonneg: "\<forall>c \<in> set (commits_oldest_first u d). 0 \<le> due_of c"
    using inv by (auto simp: set_commits_oldest_first due_of_def funding_inv_def funding_rows_def commit_inv_def)
  from res have parts: "pa_attributedRupiah res = g - left" "pa_legacyRupiah res = left"
    by (metis payout_attribution.select_convs(2), metis payout_attribution.select_convs(3))
  have "left = max 0 (g - tsum due_of (commits_oldest_first u d))"
    using attribute_payout_left [OF t _ nonneg] g by simp
  then show ?thesis
    using parts attribute_payout_sum [OF t] es moved_capacity [OF X]
    by (simp add: d' tsum_oldest_first due_of_def [abs_def])
qed

theorem payout_conserves_money_witness:
  "\<exists>res. settlePayoutFunding sample_world ''r1'' ''u1'' 8000 None earned_db = Inr (res, paid_db)
     \<and> pa_attributedRupiah res + pa_legacyRupiah res = 8000"
proof -
  have "succeeds (settlePayoutFunding sample_world ''r1'' ''u1'' 8000 None earned_db)" by code_simp
  from succeeds_tx [OF this] obtain res where
    run: "settlePayoutFunding sample_world ''r1'' ''u1'' 8000 None earned_db = Inr (res, paid_db)"
    unfolding paid_db_def by blast
  moreover have "\<forall>e \<in> set (fundingEntries earned_db). \<not> (fe_kind e = PAYOUT \<and> fe_reference e = ''r1'')" by code_simp
  ultimately show ?thesis using payout_conserves_money [OF sample_inv(4) run] by blast
qed

lemma oldest_first_split:
  assumes "a \<in> set (commits_oldest_first u d)" "b \<in> set (commits_oldest_first u d)" "com_createdAt a < com_createdAt b"
  shows "\<exists>xs ys. commits_oldest_first u d = xs @ a # ys \<and> b \<in> set ys"
proof -
  from assms(1) obtain xs ys where split: "commits_oldest_first u d = xs @ a # ys" by (metis split_list)
  have "sorted (map com_createdAt (commits_oldest_first u d))" by (simp add: commits_oldest_first_def)
  then have "b \<notin> set xs" using assms(3) unfolding split by (auto simp: sorted_append)
  with assms(2,3) split show ?thesis by auto
qed

text \<open>
  A payout is attributed oldest first. Whenever it takes anything from an obligation, every
  older decided obligation of the same recipient is taken in full.
\<close>

theorem payout_takes_oldest_first:
  assumes inv: "funding_inv d" and t: "attribute_payout g (commits_oldest_first u d) = (takes, left)"
    and c: "c \<in> set (commits d)" "payable u c" and young: "(c', n) \<in> set takes" "com_createdAt c < com_createdAt c'"
  shows "(c, com_heldRupiah c - com_paidRupiah c) \<in> set takes"
proof -
  have "c \<in> set (commits_oldest_first u d)" "c' \<in> set (commits_oldest_first u d)"
    using c attribute_payout_takes [OF t young(1)] by (auto simp: set_commits_oldest_first payable_def)
  with oldest_first_split young(2) obtain xs ys where split: "commits_oldest_first u d = xs @ c # ys" "c' \<in> set ys" by blast
  have "distinct (map com_id (xs @ c # ys))"
    using distinct_commits_oldest_first [of d u] inv by (simp add: split(1) funding_inv_def keys_unique_def)
  then show ?thesis
    using attribute_payout_oldest_first [OF t [unfolded split(1)] young(1)] split(2) c(2)
    by (simp add: payable_def due_of_def)
qed

definition two_commits_db :: db where
  "two_commits_db = state_of (commitRewardAgainstBudget (sample_world\<lparr>w_now := 2000\<rparr>) ''idxx'' ''k2'' 3000 False earned_db)"

definition commit_at :: "nat \<Rightarrow> commit" where
  "commit_at n = commits two_commits_db ! n"

theorem payout_takes_oldest_first_witness:
  "(commit_at 0, 7000) \<in> set (fst (attribute_payout 8000 (commits_oldest_first ''u1'' two_commits_db)))"
proof -
  have "succeeds (commitRewardAgainstBudget (sample_world\<lparr>w_now := 2000\<rparr>) ''idxx'' ''k2'' 3000 False earned_db)" by code_simp
  from succeeds_tx [OF this] have inv: "funding_inv two_commits_db"
    unfolding two_commits_db_def using commitRewardAgainstBudget_inv sample_inv(4) by blast
  have eval: "attribute_payout 8000 (commits_oldest_first ''u1'' two_commits_db) =
      ([(commit_at 0, 7000), (commit_at 1, 1000)], 0)"
    "commit_at 0 \<in> set (commits two_commits_db)" "payable ''u1'' (commit_at 0)"
    "com_createdAt (commit_at 0) < com_createdAt (commit_at 1)"
    "com_heldRupiah (commit_at 0) - com_paidRupiah (commit_at 0) = 7000"
    by code_simp+
  show ?thesis
    using payout_takes_oldest_first [OF inv eval(1-3), of "commit_at 1" 1000] eval by simp
qed

interpretation cash_retry:
  retry_safe "recordFundingEntry w inp" committed
    "\<lambda>d. find_by acc_organizationId (fi_organizationId inp) (accounts d) \<noteq> None
      \<and> find_by fe_businessKey (if fi_amount inp > 0 then fundingCashKey (js_trim (fi_reference inp))
          else fundingCorrectionKey (js_trim (fi_reference inp))) (fundingEntries d) \<noteq> None"
  for w inp
proof
  let ?key = "if fi_amount inp > 0 then fundingCashKey (js_trim (fi_reference inp))
          else fundingCorrectionKey (js_trim (fi_reference inp))"
  fix d r d'
  assume run: "recordFundingEntry w inp d = Inr (r, d')"
  obtain a d1 where d1: "lockFundingAccountForOrganization w (fi_organizationId inp) d = Inr (a, d1)"
    and locked: "record_entry_locked w inp (js_trim (fi_reference inp)) (js_trim (fi_note inp)) a d1 = Inr (r, d')"
    using run unfolding recordFundingEntry_def Let_def by (auto simp: result_simps)
  note frame = lockFundingAccountForOrganization_Inr [OF d1]
  show "find_by acc_organizationId (fi_organizationId inp) (accounts d') \<noteq> None
      \<and> find_by fe_businessKey ?key (fundingEntries d') \<noteq> None"
  proof (cases "find_by fe_businessKey ?key (fundingEntries d1)")
    case (Some e)
    with locked have "d' = d1" by (auto simp: record_entry_locked_def Let_def split: if_splits)
    with Some frame show ?thesis by simp
  next
    case None
    define e where "e = \<lparr>fe_id = newId w d1, fe_accountId = acc_id a, fe_businessKey = ?key,
       fe_kind = fi_kind inp, fe_amount = fi_amount inp, fe_reference = js_trim (fi_reference inp),
       fe_note = Some (js_trim (fi_note inp)), fe_verifiedById = Some (fi_verifiedById inp)\<rparr>"
    have e: "fe_businessKey e = ?key" by (simp add: e_def)
    obtain u where
      u: "bumpAccount (acc_id a) (fi_amount inp) 0 (bump_seq (d1\<lparr>fundingEntries := fundingEntries d1 @ [e]\<rparr>)) = Inr (u, d')"
      using locked unfolding record_entry_locked_def Let_def None e_def by (auto simp: result_simps)
    from bumpAccount_Inr [OF u] obtain X where
      d': "d' = (bump_seq (d1\<lparr>fundingEntries := fundingEntries d1 @ [e]\<rparr>))\<lparr>accounts := X\<rparr>"
      and X: "acct_shift (acc_id a) (fi_amount inp) 0 (accounts d1) X"
      by (auto simp: bump_seq_def)
    have "\<exists>b \<in> set X. acc_organizationId b = fi_organizationId inp"
      using shifted_account [OF X] frame by metis
    then have "find_by acc_organizationId (fi_organizationId inp) X \<noteq> None" unfolding find_by_None_iff by (metis image_eqI)
    then show ?thesis using e None by (simp add: d' bump_seq_def find_by_append)
  qed
  assume marked: "find_by acc_organizationId (fi_organizationId inp) (accounts d) \<noteq> None
      \<and> find_by fe_businessKey ?key (fundingEntries d) \<noteq> None"
  with d1 have "committed d1 = committed d"
    by (auto simp: lockFundingAccountForOrganization_def result_simps)
  moreover have "d' = d1"
    using locked marked frame by (auto simp: record_entry_locked_def Let_def split: if_splits)
  ultimately show "committed d' = committed d" by simp
qed

text \<open>
  Recording confirmed cash is retry safe. Once a top-up or correction with a reference was
  recorded, submitting the same request again any number of times never books it twice: no row of
  any table changes.
\<close>

theorem cash_entry_retries_change_nothing:
  assumes "recordFundingEntry w inp d = Inr (res, d1)"
    and "run_times n (recordFundingEntry w inp) d1 = Inr d2"
  shows "committed d2 = committed d1"
  using assms by (rule cash_retry.retries_once)

theorem cash_entry_retries_change_nothing_witness:
  "\<exists>d2. run_times 2 (recordFundingEntry sample_world sample_topup) funded_db = Inr d2
     \<and> committed d2 = committed funded_db"
proof -
  have "succeeds (recordFundingEntry sample_world sample_topup sample_db)"
    "succeeds (run_times 2 (recordFundingEntry sample_world sample_topup) funded_db)"
    by code_simp+
  with succeeds_tx obtain res d2 where
    "recordFundingEntry sample_world sample_topup sample_db = Inr (res, funded_db)"
    "run_times 2 (recordFundingEntry sample_world sample_topup) funded_db = Inr d2"
    unfolding funded_db_def succeeds_def by (force split: sum.splits)
  then show ?thesis using cash_entry_retries_change_nothing by blast
qed

text \<open>
  C32: the funding cutover fails closed and never widens the legacy window: an unparsable
  operator setting resolves to no cutover at all (every source is then held), and whenever the
  funding migration has been applied the resolved instant is at most its applied time,
  whatever the operator configured.
\<close>

theorem funding_cutover_fails_closed:
  "(\<forall>s. w_env w ''REWARD_FUNDING_CUTOVER_AT'' = Some s \<and> js_trim s \<noteq> [] \<and> w_parseDate w (js_trim s) = None
        \<longrightarrow> lc_at (resolveFundingCutover w d) = None)
   \<and> (\<forall>m. migrations d ''20261014150000_reward_funding'' = Some m
        \<longrightarrow> (case lc_at (resolveFundingCutover w d) of None \<Rightarrow> True | Some t \<Rightarrow> t \<le> m))"
  using earliest_never_widens [of w "''20261014150000_reward_funding''" "''REWARD_FUNDING_CUTOVER_AT''" d]
  by (auto simp: resolveFundingCutover_def unparsable_setting_fails_closed split: option.splits)

theorem funding_cutover_fails_closed_witness:
  "lc_at (resolveFundingCutover (sample_world\<lparr>w_env := (\<lambda>_. Some ''soon'')\<rparr>) sample_db) = None"
proof -
  have "w_env (sample_world\<lparr>w_env := (\<lambda>_. Some ''soon'')\<rparr>) ''REWARD_FUNDING_CUTOVER_AT'' = Some ''soon''"
    "js_trim ''soon'' \<noteq> []" "w_parseDate (sample_world\<lparr>w_env := (\<lambda>_. Some ''soon'')\<rparr>) (js_trim ''soon'') = None"
    by code_simp+
  with funding_cutover_fails_closed show ?thesis by blast
qed

end
