(* ===== verification/Frames.thy ===== *)
theory Frames
  imports Funding_Payout
begin

text \<open>
  What the funding operations leave alone: the wallet side of the database (users, ledger,
  cases, payout accounts, redemptions, settings) is the same before and after every one of
  them. The wallet and credit components use this as their frame.
\<close>

definition same_wallet :: "db \<Rightarrow> db \<Rightarrow> bool" where
  "same_wallet d d' \<longleftrightarrow> users d' = users d \<and> erasureSteps d' = erasureSteps d \<and> ledgers d' = ledgers d
     \<and> cases d' = cases d \<and> payoutAccounts d' = payoutAccounts d \<and> redemptions d' = redemptions d
     \<and> config d' = config d \<and> migrations d' = migrations d \<and> sessions d' = sessions d \<and> items d' = items d
     \<and> trips d' = trips d \<and> bags d' = bags d \<and> machines d' = machines d \<and> organizations d' = organizations d
     \<and> machineEvents d' = machineEvents d \<and> pickups d' = pickups d \<and> wasteTypes d' = wasteTypes d
     \<and> machineWasteTypes d' = machineWasteTypes d \<and> rewardRates d' = rewardRates d"

lemma same_wallet_refl [simp, intro]: "same_wallet d d"
  by (simp add: same_wallet_def)

lemma same_wallet_trans [trans]: "same_wallet a b \<Longrightarrow> same_wallet b c \<Longrightarrow> same_wallet a c"
  by (simp add: same_wallet_def)

lemma same_wallet_acquire [simp]: "same_wallet (acquire l d) d' = same_wallet d d'" "same_wallet d (acquire l d') = same_wallet d d'"
  by (simp_all add: same_wallet_def)

lemma same_wallet_update [simp]:
  "same_wallet d (d'\<lparr>accounts := X\<rparr>) = same_wallet d d'" "same_wallet d (d'\<lparr>campaigns := Y\<rparr>) = same_wallet d d'"
  "same_wallet d (d'\<lparr>reservations := R\<rparr>) = same_wallet d d'" "same_wallet d (d'\<lparr>commits := C\<rparr>) = same_wallet d d'"
  "same_wallet d (d'\<lparr>fundingEntries := E\<rparr>) = same_wallet d d'" "same_wallet d (d'\<lparr>releases := L\<rparr>) = same_wallet d d'"
  "same_wallet d (d'\<lparr>held_locks := ls\<rparr>) = same_wallet d d'" "same_wallet (d\<lparr>held_locks := ls\<rparr>) d' = same_wallet d d'"
  "same_wallet d (bump_seq d') = same_wallet d d'" "same_wallet d (d'\<lparr>seq := s\<rparr>) = same_wallet d d'"
  "same_wallet (d\<lparr>reservations := R\<rparr>) d' = same_wallet d d'" "same_wallet (d\<lparr>fundingEntries := E\<rparr>) d' = same_wallet d d'"
  "same_wallet (bump_seq d) d' = same_wallet d d'"
  by (simp_all add: same_wallet_def bump_seq_def)

lemma bumpAccount_frame: "bumpAccount A dc dh d = Inr (a, d') \<Longrightarrow> same_wallet d d'"
  using bumpAccount_Inr by fastforce

lemma bumpCampaign_frame: "bumpCampaign C dh ds d = Inr d' \<Longrightarrow> same_wallet d d'"
  using bumpCampaign_Inr by fastforce

lemma draw_and_hold_frame:
  assumes "draw_and_hold r A cov unc d = Inr d'"
  shows "same_wallet d d'"
  using assms by (auto simp: draw_and_hold_def result_simps split: if_splits dest!: bumpAccount_frame)

lemma commitRewardAgainstBudget_frame:
  assumes "commitRewardAgainstBudget w i key amt rp d = Inr (res, d')"
  shows "same_wallet d d'"
proof -
  from assms obtain ref ls where locked: "commit_locked w ref key amt rp (d\<lparr>held_locks := ls\<rparr>) = Inr (res, d')"
    by (auto simp: commitRewardAgainstBudget_def result_simps elim: with_funding_locks_Inr)
  show ?thesis
  proof (cases "find_by com_businessKey key (commits d)")
    case (Some e)
    with locked show ?thesis by (auto simp: commit_locked_def split: if_splits)
  next
    case None
    with locked show ?thesis
      by (auto simp: commit_locked_def Let_def result_simps dest!: draw_and_hold_frame bumpCampaign_frame
          intro: same_wallet_trans)
  qed
qed

lemma lockFundingAccountForOrganization_frame:
  "lockFundingAccountForOrganization w org d = Inr (a, d') \<Longrightarrow> same_wallet d d'"
  by (auto simp: lockFundingAccountForOrganization_def result_simps split: option.splits)

lemma resolveSourceReservation_frame:
  assumes "resolveSourceReservation w st si d = Inr (res, d')"
  shows "same_wallet d d'"
proof (cases "findReservationByKey (source_key st si) d = None \<and> admitted_source st si d \<noteq> None")
  case False
  with assms show ?thesis by (auto simp: resolveSourceReservation_def split: option.splits)
next
  case True
  then obtain at0 u c org where src: "admitted_source st si d = Some (at0, u, c, org)" by auto
  show ?thesis
  proof (cases "case lc_at (resolveFundingCutover w d) of None \<Rightarrow> False | Some t \<Rightarrow> at0 < t")
    case legacy: True
    with True src assms show ?thesis by (simp add: resolveSourceReservation_def Let_def)
  next
    case False
    with True src assms obtain a0 d1 d2 t where
      d1: "lockFundingAccountForOrganization w org d = Inr (a0, d1)" and d2: "lockCampaignOpt c d1 = Inr d2"
      and d': "d' = bump_seq (d2\<lparr>reservations := t\<rparr>)"
      unfolding resolveSourceReservation_def
      by (simp add: Let_def split del: option.splits) (auto simp: result_simps)
    from lockCampaignOpt_fields [OF d2] lockFundingAccountForOrganization_frame [OF d1] show ?thesis
      by (auto simp: d')
  qed
qed

lemma pay_commits_frame: "pay_commits takes d = Inr d' \<Longrightarrow> same_wallet d d'"
  by (induction takes d rule: pay_commits.induct) (auto simp: result_simps same_wallet_def)

lemma debit_accounts_frame: "debit_accounts w i act ps d = Inr (es, d') \<Longrightarrow> same_wallet d d'"
proof (induction ps arbitrary: d es)
  case (Cons p ps)
  obtain a n where p: "p = (a, n)" by (cases p)
  from Cons.prems obtain b d2 t es2 where
    "bumpAccount a (- n) (- n) (acquire (LFundingAccount a) d) = Inr (b, d2)"
    and "debit_accounts w i act ps (bump_seq (d2\<lparr>fundingEntries := t\<rparr>)) = Inr (es2, d')"
    by (auto simp: p result_simps Let_def)
  then have "same_wallet d d2" "same_wallet d2 d'"
    using Cons.IH bumpAccount_frame by fastforce+
  then show ?case by (rule same_wallet_trans)
qed simp

lemma settlePayoutFunding_frame:
  assumes "settlePayoutFunding w i u g act d = Inr (res, d')"
  shows "same_wallet d d'"
proof -
  from assms have "d' = d \<or> (\<exists>takes d1 es. pay_commits takes d = Inr d1
      \<and> debit_accounts w i act (per_account takes) d1 = Inr (es, d'))"
    by (auto simp: settlePayoutFunding_def Let_def result_simps split: if_splits prod.splits)
  then show ?thesis using pay_commits_frame debit_accounts_frame same_wallet_trans by blast
qed

lemma reserve_write_frame:
  assumes "reserve_write w inp a existing n sf d = Inr (i, d')"
  shows "same_wallet d d'"
proof -
  from assms obtain d1 where
    "(if n > 0 then rbind (bumpAccount (acc_id a) 0 n d) (\<lambda>(_, d1). bumpCampaign (ri_campaignId inp) n 0 d1) else Inr d) = Inr d1"
    and d': "same_wallet d1 d'"
    by (auto simp: reserve_write_def rbind_Inr_iff result_simps Let_def split: option.splits)
  then have "same_wallet d d1"
    using bump_both [of "acc_id a" 0 n d "ri_campaignId inp" n 0 d1] by (cases "n > 0") auto
  then show ?thesis using d' by (rule same_wallet_trans)
qed

lemma reserveRewardBudget_frame:
  assumes "reserveRewardBudget w enf inp d = Inr (i, d')"
  shows "same_wallet d d'"
  using assms
proof (cases rule: reserveRewardBudget_Inr)
  case (same a d1 ls e)
  then show ?thesis using lockFundingAccountForOrganization_frame by simp
next
  case (writes a d1 ls cmp existing n sf)
  from lockFundingAccountForOrganization_frame [OF writes(1)] reserve_write_frame [OF writes(9)] show ?thesis
    by (auto intro: same_wallet_trans)
qed

lemmas funding_frames = commitRewardAgainstBudget_frame resolveSourceReservation_frame settlePayoutFunding_frame
  lockFundingAccountForOrganization_frame reserveRewardBudget_frame

end
