(* ===== verification/Credit.thy ===== *)
theory Credit
  imports Funding_Props Frames "HOL-Library.AList"
begin

text \<open>
  The only writer of reward money effects (\<^verbatim>\<open>src/lib/reward-credit.ts\<close>). An effect is written once per
  business key, commits its funding obligation, and is refused into a reconciliation case when
  the recipient is erased or the balance no longer covers a debit. The lemmas show what each
  outcome writes and that no effect drives a balance below zero.
\<close>

section \<open>Inputs and outcomes\<close>

datatype funding_hint =
    SettledByCaller
  | Hint "int option" "bool option" \<comment> \<open>\<^verbatim>\<open>ceilingRupiah\<close>, \<^verbatim>\<open>reviewPending\<close>\<close>

record credit_input =
  ci_businessKey :: string
  ci_userId :: ident
  ci_organizationId :: ident
  ci_campaignId :: "ident option"
  ci_amount :: int
  ci_status :: ledger_status \<comment> \<open>\<^verbatim>\<open>AVAILABLE\<close> or \<^verbatim>\<open>PENDING\<close>\<close>
  ci_reasonCode :: string
  ci_referenceType :: string
  ci_referenceId :: ident
  ci_entryType :: "entry_type option"
  ci_depositItemId :: "ident option"
  ci_sessionId :: "ident option"
  ci_actorId :: "ident option"
  ci_funding :: "funding_hint option"

datatype effect_outcome = CREDITED | EXISTING | ZERO | CASE_OPENED

record effect_result =
  er_outcome :: effect_outcome
  er_entry :: "ledger option"
  er_case :: "reward_case option"

definition CASE_ALREADY_PAID_OUT :: string where
  "CASE_ALREADY_PAID_OUT = ''ANOMALY_ALREADY_PAID_OUT''"
definition CASE_RECIPIENT_ERASED :: string where
  "CASE_RECIPIENT_ERASED = ''RECIPIENT_ERASED''"
definition REWARD_KEY_CONFLICT :: string where
  "REWARD_KEY_CONFLICT = ''Efek reward dengan kunci ini sudah tercatat dengan nilai berbeda. Hubungi tim keuangan untuk rekonsiliasi.''"

definition effect_type :: "credit_input \<Rightarrow> entry_type" where
  "effect_type inp = nullish (ci_entryType inp) EARN"

definition assertEffect :: "credit_input \<Rightarrow> entry_type \<Rightarrow> unit result" where
  "assertEffect inp et =
     (if ci_businessKey inp = [] \<or> length (ci_businessKey inp) > 191
      then Inl (RangeError ''businessKey is required'')
      else if \<not> isSafeInteger (ci_amount inp) \<or> \<bar>ci_amount inp\<bar> > 2147483647
      then Inl (RangeError ''amount must be an integer rupiah value within the ledger range'')
      else if et = EARN \<and> ci_amount inp < 0 then Inl (RangeError ''an EARN cannot be negative'')
      else if et = REVERSE \<and> ci_amount inp > 0 then Inl (RangeError ''a REVERSE cannot be positive'')
      else Inr ())"

section \<open>Funding of an effect\<close>

datatype funding_check =
    COMMITTED ident commit_result bool \<comment> \<open>reservation, commit, late\<close>
  | SETTLED_BY_CALLER
  | NO_RESERVATION string
  | FUNDING_ZERO

definition fundingCeiling :: "credit_input \<Rightarrow> int" where
  "fundingCeiling inp =
     (case ci_funding inp of
        Some SettledByCaller \<Rightarrow> 0
      | Some (Hint c _) \<Rightarrow> nullish c (max (ci_amount inp) 0)
      | None \<Rightarrow> max (ci_amount inp) 0)"

text \<open>\<^verbatim>\<open>effect.sessionId ? SESSION : effect.referenceType === "Trip" ? TRIP : null\<close>.\<close>

definition effect_source :: "credit_input \<Rightarrow> (reservation_source \<times> ident) option" where
  "effect_source inp =
     (if ci_sessionId inp \<noteq> None \<and> the (ci_sessionId inp) \<noteq> [] then Some (SESSION, the (ci_sessionId inp))
      else if ci_referenceType inp = ''Trip'' then Some (TRIP, ci_referenceId inp)
      else None)"

definition effect_reviewPending :: "credit_input \<Rightarrow> bool" where
  "effect_reviewPending inp =
     (case ci_funding inp of
        Some (Hint _ (Some b)) \<Rightarrow> b
      | _ \<Rightarrow> ci_status inp = LS_PENDING)"

definition checkRewardFunding :: "world \<Rightarrow> credit_input \<Rightarrow> db \<Rightarrow> funding_check tx" where
  "checkRewardFunding w inp d =
     (if ci_funding inp = Some SettledByCaller then Inr (SETTLED_BY_CALLER, d)
      else if effect_type inp \<noteq> EARN then Inr (SETTLED_BY_CALLER, d)
      else if fundingCeiling inp \<le> 0 then Inr (FUNDING_ZERO, d)
      else case effect_source inp of
        None \<Rightarrow> Inr (NO_RESERVATION ''NO_SOURCE'', d)
      | Some (st, si) \<Rightarrow>
          rbind (resolveSourceReservation w st si d) (\<lambda>(resolved, d1).
          case resolved of
            NoSource \<Rightarrow> Inr (NO_RESERVATION ''NO_SOURCE'', d1)
          | LegacySource _ \<Rightarrow> Inr (NO_RESERVATION ''LEGACY_SOURCE'', d1)
          | Reservation r late \<Rightarrow>
              rbind (commitRewardAgainstBudget w (rsv_id r) (ci_businessKey inp) (fundingCeiling inp)
                      (effect_reviewPending inp) d1) (\<lambda>(c, d2).
              Inr (COMMITTED (rsv_id r) c late, d2))))"

section \<open>Refusals\<close>

definition isRecipientErased :: "ident \<Rightarrow> db \<Rightarrow> bool" where
  "isRecipientErased userId d =
     (case find_by usr_id userId (users d) of
        None \<Rightarrow> False
      | Some u \<Rightarrow>
          if usr_status u \<noteq> US_INACTIVE then False
          else list_ex (\<lambda>s. ers_step s = ANONYMIZE_ACCOUNT \<and> ers_completedAt s \<noteq> None \<and> ers_userId s = userId)
                 (erasureSteps d))"

record case_input =
  ki_businessKey :: string
  ki_userId :: ident
  ki_amount :: int
  ki_entryType :: entry_type
  ki_reasonCode :: string
  ki_depositItemId :: "ident option"
  ki_referenceType :: "string option"
  ki_referenceId :: "ident option"

definition new_case :: "world \<Rightarrow> db \<Rightarrow> case_input \<Rightarrow> reward_case" where
  "new_case w d inp =
     \<lparr>rc_id = newId w d, rc_businessKey = ki_businessKey inp, rc_userId = ki_userId inp,
      rc_depositItemId = ki_depositItemId inp, rc_amount = \<bar>ki_amount inp\<bar>, rc_entryType = ki_entryType inp,
      rc_reasonCode = ki_reasonCode inp, rc_referenceType = ki_referenceType inp,
      rc_referenceId = ki_referenceId inp, rc_status = CASE_OPEN, rc_note = None, rc_resolvedAt = None,
      rc_resolvedById = None\<rparr>"

definition openRewardReconciliationCase :: "world \<Rightarrow> case_input \<Rightarrow> db \<Rightarrow> reward_case tx" where
  "openRewardReconciliationCase w inp d =
     (case find_by rc_businessKey (ki_businessKey inp) (cases d) of
        Some existing \<Rightarrow> Inr (existing, d)
      | None \<Rightarrow>
          let c = new_case w d inp in
          rbind (create_row case_ok case_clash c (cases d)) (\<lambda>t. Inr (c, bump_seq (d\<lparr>cases := t\<rparr>))))"

text \<open>Rupiah held by a user's open debit cases: each deposit item once, at its largest case.\<close>

definition case_key :: "reward_case \<Rightarrow> string" where
  "case_key c = (case rc_depositItemId c of Some i \<Rightarrow> i | None \<Rightarrow> ''case:'' @ rc_id c)"

definition per_item_step :: "(string \<times> int) list \<Rightarrow> reward_case \<Rightarrow> (string \<times> int) list" where
  "per_item_step perItem c =
     AList.update (case_key c) (max (nullish (map_of perItem (case_key c)) 0) (rc_amount c)) perItem"

definition heldByCases :: "reward_case list \<Rightarrow> int" where
  "heldByCases cs = sum_list (map snd (foldl per_item_step [] cs))"

definition openDebitCases :: "ident \<Rightarrow> db \<Rightarrow> reward_case list" where
  "openDebitCases userId d =
     filter (\<lambda>c. rc_userId c = userId \<and> rc_status c = CASE_OPEN \<and> rc_reasonCode c = CASE_ALREADY_PAID_OUT) (cases d)"

definition heldByOpenDebitCases :: "ident \<Rightarrow> db \<Rightarrow> int" where
  "heldByOpenDebitCases userId d = heldByCases (openDebitCases userId d)"

definition releasedByResolving :: "ident \<Rightarrow> reward_case list \<Rightarrow> int \<Rightarrow> int" where
  "releasedByResolving caseId ownerCases available =
     (let spendable = max 0 available;
          before = min spendable (heldByCases ownerCases);
          after = min spendable (heldByCases (filter (\<lambda>c. rc_id c \<noteq> caseId) ownerCases))
      in before - after)"

definition resolveItemDebitCases :: "world \<Rightarrow> ident \<Rightarrow> ident \<Rightarrow> db \<Rightarrow> nat \<times> db" where
  "resolveItemDebitCases w depositItemId resolvedById d =
     (let hit = (\<lambda>c. rc_depositItemId c = Some depositItemId \<and> rc_status c = CASE_OPEN
                   \<and> rc_reasonCode c = CASE_ALREADY_PAID_OUT)
      in (length (filter hit (cases d)),
          d\<lparr>cases := map (\<lambda>c. if hit c
             then c\<lparr>rc_status := CASE_RESOLVED, rc_resolvedAt := Some (w_now w), rc_resolvedById := Some resolvedById,
                    rc_note := Some ''Diselesaikan oleh keputusan review item''\<rparr> else c) (cases d)\<rparr>))"

section \<open>The writer\<close>

definition effect_row :: "world \<Rightarrow> db \<Rightarrow> credit_input \<Rightarrow> ledger" where
  "effect_row w d inp =
     \<lparr>led_id = newId w d, led_userId = ci_userId inp, led_organizationId = Some (ci_organizationId inp),
      led_sessionId = ci_sessionId inp, led_depositItemId = ci_depositItemId inp, led_campaignId = ci_campaignId inp,
      led_entryType = effect_type inp, led_amount = ci_amount inp, led_status = ci_status inp,
      led_reasonCode = Some (ci_reasonCode inp), led_referenceType = Some (ci_referenceType inp),
      led_referenceId = Some (ci_referenceId inp), led_actorId = ci_actorId inp,
      led_businessKey = Some (ci_businessKey inp), led_createdAt = w_now w\<rparr>"

text \<open>The refusals of a new effect: an erased recipient, or a debit the balance does not cover.\<close>

definition effect_refusal :: "credit_input \<Rightarrow> db \<Rightarrow> string option" where
  "effect_refusal inp d =
     (if isRecipientErased (ci_userId inp) d then Some CASE_RECIPIENT_ERASED
      else if ci_amount inp < 0 \<and> ci_status inp = LS_AVAILABLE
           \<and> wb_available (getWalletBalance (ci_userId inp) d) + ci_amount inp < 0
      then Some CASE_ALREADY_PAID_OUT
      else None)"

text \<open>\<^verbatim>\<open>caseFor(reasonCode)\<close>.\<close>

definition case_for :: "credit_input \<Rightarrow> string \<Rightarrow> case_input" where
  "case_for inp reasonCode =
     \<lparr>ki_businessKey = ci_businessKey inp, ki_userId = ci_userId inp, ki_amount = ci_amount inp,
      ki_entryType = effect_type inp, ki_reasonCode = reasonCode, ki_depositItemId = ci_depositItemId inp,
      ki_referenceType = Some (ci_referenceType inp), ki_referenceId = Some (ci_referenceId inp)\<rparr>"

definition applyRewardEffect :: "world \<Rightarrow> credit_input \<Rightarrow> db \<Rightarrow> effect_result tx" where
  "applyRewardEffect w inp d =
     rbind (assertEffect inp (effect_type inp)) (\<lambda>_.
     if ci_amount inp = 0 then
       rbind (if fundingCeiling inp > 0
              then rbind (lockUser (ci_userId inp) d) (\<lambda>d1. rbind (checkRewardFunding w inp d1) (\<lambda>(_, d2). Inr d2))
              else Inr d)
         (\<lambda>d2. Inr (\<lparr>er_outcome = ZERO, er_entry = None, er_case = None\<rparr>, d2))
     else
     rbind (lockUser (ci_userId inp) d) (\<lambda>d1.
     case find_by led_businessKey (Some (ci_businessKey inp)) (ledgers d1) of
       Some existing \<Rightarrow>
         if led_userId existing = ci_userId inp \<and> led_entryType existing = effect_type inp
            \<and> led_amount existing = ci_amount inp
         then Inr (\<lparr>er_outcome = EXISTING, er_entry = Some existing, er_case = None\<rparr>, d1)
         else Inl (HttpError 409 REWARD_KEY_CONFLICT)
     | None \<Rightarrow>
       (case find_by rc_businessKey (ci_businessKey inp) (cases d1) of
          Some refused \<Rightarrow> Inr (\<lparr>er_outcome = CASE_OPENED, er_entry = None, er_case = Some refused\<rparr>, d1)
        | None \<Rightarrow>
          (case effect_refusal inp d1 of
             Some reason \<Rightarrow>
               rbind (openRewardReconciliationCase w (case_for inp reason) d1) (\<lambda>(c, d2).
               Inr (\<lparr>er_outcome = CASE_OPENED, er_entry = None, er_case = Some c\<rparr>, d2))
           | None \<Rightarrow>
               rbind (checkRewardFunding w inp d1) (\<lambda>(_, d2).
               rbind (insert_ledger (effect_row w d2 inp) d2) (\<lambda>(entry, d3).
               Inr (\<lparr>er_outcome = CREDITED, er_entry = Some entry, er_case = None\<rparr>, d3)))))))"

definition creditReward :: "world \<Rightarrow> credit_input \<Rightarrow> db \<Rightarrow> ledger option tx" where
  "creditReward w inp d = rbind (applyRewardEffect w inp d) (\<lambda>(r, d'). Inr (er_entry r, d'))"

end
