(* ===== verification/Json.thy ===== *)
theory Json
  imports Prelude
begin

text \<open>
  The text the sources hash or show: decimal numerals, JSON string literals as
  \<^verbatim>\<open>JSON.stringify\<close> writes them, and \<^verbatim>\<open>toLocaleString("id-ID")\<close>. Reading functions give the round
  trips that make the canonical forms injective.
\<close>

section \<open>Decimal numerals\<close>

definition digit_char :: "nat \<Rightarrow> char" where
  "digit_char n = char_of (48 + n)"

fun show_nat :: "nat \<Rightarrow> string" where
  "show_nat n = (if n < 10 then [digit_char n] else show_nat (n div 10) @ [digit_char (n mod 10)])"

declare show_nat.simps [simp del]

definition show_int :: "int \<Rightarrow> string" where
  "show_int i = (if i < 0 then CHR ''-'' # show_nat (nat (- i)) else show_nat (nat i))"

definition is_digit :: "char \<Rightarrow> bool" where
  "is_digit c \<longleftrightarrow> 48 \<le> (of_char c :: nat) \<and> (of_char c :: nat) \<le> 57"

definition digit_val :: "char \<Rightarrow> nat" where
  "digit_val c = (of_char c :: nat) - 48"

definition read_nat :: "string \<Rightarrow> nat" where
  "read_nat s = foldl (\<lambda>n c. 10 * n + digit_val c) 0 s"

definition read_int :: "string \<Rightarrow> int" where
  "read_int s = (case s of [] \<Rightarrow> 0 | c # r \<Rightarrow> if c = CHR ''-'' then - int (read_nat r) else int (read_nat s))"

lemma digit_char_val:
  assumes "n < 10"
  shows "digit_val (digit_char n) = n" "is_digit (digit_char n)" "digit_char n \<noteq> CHR ''-''"
proof -
  have code: "(of_char (digit_char n) :: nat) = 48 + n"
    using assms by (simp add: digit_char_def)
  show "digit_val (digit_char n) = n" "is_digit (digit_char n)"
    using assms by (simp_all add: digit_val_def is_digit_def code)
  show "digit_char n \<noteq> CHR ''-''"
  proof
    assume "digit_char n = CHR ''-''"
    then have "(48 + n :: nat) = of_char (CHR ''-'')" using code by simp
    then show False by simp
  qed
qed

lemma show_nat_digits: "show_nat n \<noteq> [] \<and> (\<forall>c \<in> set (show_nat n). is_digit c)"
proof (induction n rule: show_nat.induct)
  case (1 n)
  then show ?case by (cases "n < 10") (simp_all add: show_nat.simps [of n] digit_char_val ball_Un)
qed

lemma read_show_nat: "read_nat (show_nat n) = n"
proof (induction n rule: show_nat.induct)
  case (1 n)
  show ?case
  proof (cases "n < 10")
    case True
    then show ?thesis by (subst show_nat.simps) (simp add: read_nat_def digit_char_val)
  next
    case False
    with 1 have "read_nat (show_nat (n div 10)) = n div 10" by simp
    with False show ?thesis by (subst show_nat.simps) (simp add: read_nat_def digit_char_val)
  qed
qed

lemma read_show_int: "read_int (show_int i) = i"
proof (cases "i < 0")
  case True
  then show ?thesis by (simp add: show_int_def read_int_def read_show_nat)
next
  case False
  obtain c r where s: "show_nat (nat i) = c # r" using show_nat_digits [of "nat i"] by (cases "show_nat (nat i)") auto
  have "is_digit c" using show_nat_digits [of "nat i"] by (simp add: s)
  then have "c \<noteq> CHR ''-''" by (auto simp: is_digit_def)
  with False show ?thesis using read_show_nat [of "nat i"] by (simp add: show_int_def read_int_def s)
qed

lemma show_int_inj: "show_int i = show_int j \<longleftrightarrow> i = j"
  by (metis read_show_int)

lemma show_int_chars: "c \<in> set (show_int i) \<Longrightarrow> is_digit c \<or> c = CHR ''-''"
  using show_nat_digits by (auto simp: show_int_def split: if_splits)

text \<open>\<^verbatim>\<open>n.toLocaleString("id-ID")\<close> of an integer: groups of three digits separated by dots.\<close>

fun group3 :: "string \<Rightarrow> string" where
  "group3 (a # b # c # d # r) = a # b # c # CHR ''.'' # group3 (d # r)"
| "group3 s = s"

definition toLocaleString :: "int \<Rightarrow> string" where
  "toLocaleString n = (if n < 0 then CHR ''-'' # rev (group3 (rev (show_nat (nat (- n)))))
     else rev (group3 (rev (show_nat (nat n)))))"

section \<open>parseInt\<close>

text \<open>\<^verbatim>\<open>parseInt(s, 10)\<close>: white space, an optional sign, then the longest run of digits; none for NaN.\<close>

definition parse_digits :: "string \<Rightarrow> int option" where
  "parse_digits s = (let ds = takeWhile is_digit s in if ds = [] then None else Some (int (read_nat ds)))"

definition parseInt :: "string \<Rightarrow> int option" where
  "parseInt s =
     (case dropWhile js_space s of
        [] \<Rightarrow> None
      | c # r \<Rightarrow> if c = CHR ''-'' then map_option uminus (parse_digits r)
                 else if c = CHR ''+'' then parse_digits r
                 else parse_digits (c # r))"

lemma parseInt_show_int: "parseInt (show_int i) = Some i"
proof -
  have digits: "parse_digits (show_nat n) = Some (int n)" for n
    using show_nat_digits [of n] by (simp add: parse_digits_def Let_def read_show_nat takeWhile_eq_all_conv [THEN iffD2])
  have space: "is_digit c \<or> c = CHR ''-'' \<Longrightarrow> \<not> js_space c" for c
    by (auto simp: is_digit_def js_space_def)
  show ?thesis
  proof (cases "i < 0")
    case True
    then show ?thesis using space [of "CHR ''-''"] by (simp add: parseInt_def show_int_def digits)
  next
    case False
    obtain c r where s: "show_nat (nat i) = c # r" using show_nat_digits [of "nat i"] by (cases "show_nat (nat i)") auto
    then have c: "is_digit c" using show_nat_digits [of "nat i"] by simp
    then have "c \<noteq> CHR ''-''" "c \<noteq> CHR ''+''" by (auto simp: is_digit_def)
    with False c space show ?thesis using digits [of "nat i"] by (simp add: parseInt_def show_int_def s)
  qed
qed

section \<open>JSON strings\<close>

definition hex_digit :: "nat \<Rightarrow> char" where
  "hex_digit n = (if n < 10 then char_of (48 + n) else char_of (87 + n))"

text \<open>How \<^verbatim>\<open>JSON.stringify\<close> writes one character of a string.\<close>

definition json_char :: "char \<Rightarrow> string" where
  "json_char c =
     (let n = (of_char c :: nat) in
      if n = 34 then [CHR 0x5C, CHR 0x22]
      else if n = 92 then [CHR 0x5C, CHR 0x5C]
      else if n = 8 then [CHR 0x5C, CHR ''b'']
      else if n = 9 then [CHR 0x5C, CHR ''t'']
      else if n = 10 then [CHR 0x5C, CHR ''n'']
      else if n = 12 then [CHR 0x5C, CHR ''f'']
      else if n = 13 then [CHR 0x5C, CHR ''r'']
      else if n < 32 then [CHR 0x5C, CHR ''u'', CHR ''0'', CHR ''0'', hex_digit (n div 16), hex_digit (n mod 16)]
      else [c])"

definition json_string :: "string \<Rightarrow> string" where
  "json_string s = CHR 0x22 # concat (map json_char s) @ [CHR 0x22]"

text \<open>A reader for one escaped character, used to show that the text determines the string.\<close>

definition unhex :: "char \<Rightarrow> nat" where
  "unhex c = (let n = (of_char c :: nat) in if n < 58 then n - 48 else n - 87)"

definition read_escape :: "char \<Rightarrow> string \<Rightarrow> (char \<times> string) option" where
  "read_escape e r =
     (if e = CHR ''u'' then
        (case r of a # b # x # y # rest \<Rightarrow> Some (char_of (16 * unhex x + unhex y), rest) | _ \<Rightarrow> None)
      else if e = CHR ''b'' then Some (CHR 0x08, r)
      else if e = CHR ''t'' then Some (CHR 0x09, r)
      else if e = CHR ''n'' then Some (CHR 0x0A, r)
      else if e = CHR ''f'' then Some (CHR 0x0C, r)
      else if e = CHR ''r'' then Some (CHR 0x0D, r)
      else Some (e, r))"

definition read_char :: "string \<Rightarrow> (char \<times> string) option" where
  "read_char s =
     (case s of
        [] \<Rightarrow> None
      | c # r \<Rightarrow>
          if c = CHR 0x22 then None
          else if c = CHR 0x5C then (case r of [] \<Rightarrow> None | e # r' \<Rightarrow> read_escape e r')
          else Some (c, r))"

lemma char_codes:
  "char_of (8 :: nat) = CHR 0x08" "char_of (9 :: nat) = CHR 0x09" "char_of (10 :: nat) = CHR 0x0A"
  "char_of (12 :: nat) = CHR 0x0C" "char_of (13 :: nat) = CHR 0x0D" "char_of (34 :: nat) = CHR 0x22"
  "char_of (92 :: nat) = CHR 0x5C"
  by code_simp+

lemma read_json_control:
  assumes "(n :: nat) < 32"
  shows "read_char (json_char (char_of n) @ r) = Some (char_of n, r)"
proof -
  let ?simple = "n = 8 \<or> n = 9 \<or> n = 10 \<or> n = 12 \<or> n = 13"
  have of_n: "(of_char (char_of n :: char) :: nat) = n" using assms by simp
  show ?thesis
  proof (cases ?simple)
    case True
    then show ?thesis
      by (elim disjE) (simp_all add: json_char_def read_char_def read_escape_def char_codes)
  next
    case False
    have hex: "unhex (hex_digit k) = k" if "k < 16" for k
      using that by (auto simp: unhex_def hex_digit_def)
    from False assms show ?thesis
      by (simp add: json_char_def Let_def of_n read_char_def read_escape_def hex)
  qed
qed

lemma read_json_char: "read_char (json_char c @ r) = Some (c, r)"
proof (cases "(of_char c :: nat) < 32")
  case True
  from read_json_control [OF this, of r] show ?thesis by simp
next
  case False
  have code: "(of_char c :: nat) = k \<Longrightarrow> c = char_of k" for k
    using char_of_char [of c, where 'a = nat] by simp
  have special: "c = CHR 0x22 \<longleftrightarrow> (of_char c :: nat) = 34" "c = CHR 0x5C \<longleftrightarrow> (of_char c :: nat) = 92"
    using code [of 34] code [of 92] by (auto simp: char_codes)
  show ?thesis
    using False special by (auto simp: json_char_def Let_def read_char_def read_escape_def)
qed

text \<open>A JSON string literal determines its string, whatever text follows it.\<close>

lemma json_body_inj:
  "concat (map json_char s) @ CHR 0x22 # u = concat (map json_char t) @ CHR 0x22 # v \<Longrightarrow> s = t \<and> u = v"
proof (induction s arbitrary: t)
  case Nil
  show ?case
  proof (cases t)
    case (Cons c t')
    with Nil have "read_char (CHR 0x22 # u) = read_char (json_char c @ concat (map json_char t') @ CHR 0x22 # v)"
      by simp
    then show ?thesis by (simp only: read_json_char) (simp add: read_char_def)
  qed (use Nil in simp)
next
  case (Cons b s)
  show ?case
  proof (cases t)
    case Nil
    with Cons.prems have "read_char (json_char b @ concat (map json_char s) @ CHR 0x22 # u) = read_char (CHR 0x22 # v)"
      by simp
    then show ?thesis by (simp only: read_json_char) (simp add: read_char_def)
  next
    case t: (Cons c t')
    with Cons.prems have "read_char (json_char b @ concat (map json_char s) @ CHR 0x22 # u)
        = read_char (json_char c @ concat (map json_char t') @ CHR 0x22 # v)" by simp
    then have "b = c" "concat (map json_char s) @ CHR 0x22 # u = concat (map json_char t') @ CHR 0x22 # v"
      by (simp_all only: read_json_char option.inject prod.inject)
    with Cons.IH t show ?thesis by blast
  qed
qed

lemma json_string_inj: "json_string s @ u = json_string t @ v \<longleftrightarrow> s = t \<and> u = v"
proof
  assume "json_string s @ u = json_string t @ v"
  then have "concat (map json_char s) @ CHR 0x22 # u = concat (map json_char t) @ CHR 0x22 # v"
    by (simp add: json_string_def)
  then show "s = t \<and> u = v" by (rule json_body_inj)
qed simp

end
