(* ===== verification/Wallet.thy ===== *)
theory Wallet
  imports Credit Json
begin

text \<open>
  Payout requests (\<^verbatim>\<open>src/lib/wallet-service.ts\<close>, \<^verbatim>\<open>src/lib/payout-destination.ts\<close>,
  \<^verbatim>\<open>src/lib/config.ts\<close>): input validation, the request transaction, the transition table and its
  transaction, the reconciliation flag, the transfer proof and the operator's resolution of a
  reconciliation case (\<^verbatim>\<open>src/lib/reward-cases.ts\<close>). Each service function is one
  transaction: it starts without locks and an error rolls everything back. Audit and
  notifications run after the commit and cannot change it; they are not modelled. The backstop
  for a second writer of the same idempotency key is unreachable while the user row is locked,
  and the model runs one transaction at a time.
\<close>

section \<open>Settings\<close>

definition config_default :: "string \<Rightarrow> string option" where
  "config_default key =
     (if key = ''min_redemption'' then Some ''10000''
      else if key = ''default_qr_rotation_seconds'' then Some ''30''
      else if key = ''points_to_rupiah'' then Some ''1''
      else None)"

definition getConfig :: "string \<Rightarrow> db \<Rightarrow> string" where
  "getConfig key d = (case config d key of Some v \<Rightarrow> v | None \<Rightarrow> nullish (config_default key) [])"

definition getConfigInt :: "string \<Rightarrow> db \<Rightarrow> int" where
  "getConfigInt key d = nullish (parseInt (getConfig key d)) 0"

definition setConfig :: "string \<Rightarrow> string \<Rightarrow> db \<Rightarrow> db" where
  "setConfig key value d = d\<lparr>config := (config d)(key \<mapsto> value)\<rparr>"

definition getMinRedemption :: "db \<Rightarrow> int" where
  "getMinRedemption d = getConfigInt ''min_redemption'' d"

section \<open>Input validation\<close>

definition MAX_RUPIAH :: int where
  "MAX_RUPIAH = 2147483647"

text \<open>\<^verbatim>\<open>z.number().int().positive().max(MAX_RUPIAH)\<close> on a JSON number.\<close>

definition rupiahAmountSchema :: "rat \<Rightarrow> int result" where
  "rupiahAmountSchema x =
     (if of_int \<lfloor>x\<rfloor> \<noteq> x then Inl (ZodError ''Jumlah harus bilangan bulat rupiah'')
      else if \<lfloor>x\<rfloor> \<le> 0 then Inl (ZodError ''Jumlah harus lebih dari 0'')
      else if \<lfloor>x\<rfloor> > MAX_RUPIAH then Inl (ZodError ''Jumlah melebihi batas yang diizinkan'')
      else Inr \<lfloor>x\<rfloor>)"

text \<open>\<^verbatim>\<open>/^[\x21-\x7e]{1,80}$/\<close>.\<close>

definition idempotencyKeySchema :: "string \<Rightarrow> string result" where
  "idempotencyKeySchema s =
     (if 1 \<le> length s \<and> length s \<le> 80 \<and> list_all (\<lambda>c. 33 \<le> (of_char c :: nat) \<and> (of_char c :: nat) \<le> 126) s
      then Inr s else Inl (ZodError ''Kunci permintaan tidak valid''))"

record redemption_request =
  rq_amount :: rat
  rq_payoutAccountId :: ident
  rq_idempotencyKey :: string

definition requestRedemptionInputSchema :: "redemption_request \<Rightarrow> (int \<times> ident \<times> string) result" where
  "requestRedemptionInputSchema raw =
     rbind (rupiahAmountSchema (rq_amount raw)) (\<lambda>amount.
     if rq_payoutAccountId raw = [] then Inl (ZodError ''Akun pencairan wajib dipilih'')
     else if length (rq_payoutAccountId raw) > 191 then Inl (ZodError ''Akun pencairan tidak valid'')
     else rbind (idempotencyKeySchema (rq_idempotencyKey raw)) (\<lambda>key. Inr (amount, rq_payoutAccountId raw, key)))"

definition canonicalRequest :: "int \<Rightarrow> ident \<Rightarrow> string" where
  "canonicalRequest amount payoutAccountId =
     CHR 0x7B # json_string ''v'' @ '':1,'' @ json_string ''amount'' @ '':'' @ show_int amount @ '',''
       @ json_string ''payoutAccountId'' @ '':'' @ json_string payoutAccountId @ [CHR 0x7D]"

definition redemptionRequestHash :: "world \<Rightarrow> int \<Rightarrow> ident \<Rightarrow> string" where
  "redemptionRequestHash w amount payoutAccountId = w_sha256 w (canonicalRequest amount payoutAccountId)"

definition REDEMPTION_KEY_CONFLICT :: string where
  "REDEMPTION_KEY_CONFLICT = ''Permintaan ini sudah pernah diajukan dengan jumlah atau akun berbeda. Muat ulang halaman lalu ajukan permintaan baru.''"

definition assertSameRequest :: "redemption \<Rightarrow> int \<Rightarrow> ident \<Rightarrow> string \<Rightarrow> unit result" where
  "assertSameRequest existing amount payoutAccountId requestHash =
     (let same = (case red_requestHash existing of
            Some h \<Rightarrow> h = requestHash
          | None \<Rightarrow> red_amount existing = amount \<and> red_payoutAccountId existing = Some payoutAccountId)
      in if same then Inr () else Inl (HttpError 409 REDEMPTION_KEY_CONFLICT))"

section \<open>The transaction\<close>

definition WALLET_BUSY :: string where
  "WALLET_BUSY = ''Sistem sedang sibuk. Silakan coba lagi.''"

fun isContention :: "err \<Rightarrow> bool" where
  "isContention (PrismaError c) = (c = ''P2028'' \<or> c = ''P2034'')"
| "isContention (PgError c) = (c \<in> {''55P03'', ''40P01'', ''40001''})"
| "isContention _ = False"

text \<open>A fresh transaction: no locks at the start, none after the commit; contention is a 503.\<close>

definition runWalletTransaction :: "(db \<Rightarrow> 'a tx) \<Rightarrow> db \<Rightarrow> 'a tx" where
  "runWalletTransaction fn d =
     (case fn (committed d) of
        Inr (x, d') \<Rightarrow> Inr (x, committed d')
      | Inl e \<Rightarrow> if isContention e then Inl (HttpError 503 WALLET_BUSY) else Inl e)"

section \<open>Destinations\<close>

definition SETTLED_REDEMPTION_STATUSES :: "redemption_status list" where
  "SETTLED_REDEMPTION_STATUSES = [RS_SUCCESS, RS_FAILED, RS_REVERSED]"

definition ERASED_ACCOUNT_IDENTIFIER :: string where
  "ERASED_ACCOUNT_IDENTIFIER = []"

definition destinationSnapshotData :: "world \<Rightarrow> payout_account \<Rightarrow> destination_source \<Rightarrow> destination" where
  "destinationSnapshotData w account source =
     \<lparr>dst_source = Some source, dst_provider = Some (pac_provider account),
      dst_identifier = Some (w_encrypt w (pac_accountIdentifier account)),
      dst_name = (case pac_accountName account of
                    None \<Rightarrow> None | Some n \<Rightarrow> if n = [] then None else Some (w_encrypt w n)),
      dst_capturedAt = Some (w_now w)\<rparr>"

definition unavailableDestinationData :: "world \<Rightarrow> destination" where
  "unavailableDestinationData w =
     \<lparr>dst_source = Some LEGACY_UNAVAILABLE, dst_provider = None, dst_identifier = None, dst_name = None,
      dst_capturedAt = Some (w_now w)\<rparr>"

record destination_view =
  dv_source :: destination_source
  dv_provider :: "provider option"
  dv_accountIdentifier :: "string option"
  dv_accountName :: "string option"
  dv_capturedAt :: "int option"
  dv_erased :: bool

text \<open>\<^verbatim>\<open>decrypt\<close> (\<^verbatim>\<open>node:crypto\<close>) is a parameter; none stands for a thrown error.\<close>

definition reveal :: "(string \<Rightarrow> string option) \<Rightarrow> string option \<Rightarrow> string option" where
  "reveal decrypt ciphertext =
     (case ciphertext of None \<Rightarrow> None | Some c \<Rightarrow> if c = [] then None else decrypt c)"

definition describePayoutDestination ::
  "(string \<Rightarrow> string option) \<Rightarrow> destination \<Rightarrow> payout_account option \<Rightarrow> destination_view" where
  "describePayoutDestination decrypt dest currentAccount =
     (case dst_source dest of
        Some source \<Rightarrow>
          \<lparr>dv_source = source, dv_provider = dst_provider dest,
           dv_accountIdentifier = reveal decrypt (dst_identifier dest),
           dv_accountName = reveal decrypt (dst_name dest), dv_capturedAt = dst_capturedAt dest,
           dv_erased = (source \<noteq> LEGACY_UNAVAILABLE \<and> dst_identifier dest = None)\<rparr>
      | None \<Rightarrow>
          (case currentAccount of
             Some account \<Rightarrow>
               let erased = (pac_accountIdentifier account = ERASED_ACCOUNT_IDENTIFIER) in
               \<lparr>dv_source = LEGACY_ACCOUNT_FALLBACK, dv_provider = Some (pac_provider account),
                dv_accountIdentifier = (if erased then None else Some (pac_accountIdentifier account)),
                dv_accountName = (if erased then None else pac_accountName account),
                dv_capturedAt = None, dv_erased = erased\<rparr>
           | None \<Rightarrow>
               \<lparr>dv_source = LEGACY_UNAVAILABLE, dv_provider = None, dv_accountIdentifier = None,
                dv_accountName = None, dv_capturedAt = None, dv_erased = False\<rparr>))"

text \<open>\<^verbatim>\<open>publicRedemption\<close>: what a client sees never holds the hash or the ciphertext.\<close>

definition publicRedemption :: "redemption \<Rightarrow> redemption" where
  "publicRedemption r = r\<lparr>red_requestHash := None,
     red_destination := (red_destination r)\<lparr>dst_identifier := None, dst_name := None\<rparr>\<rparr>"

section \<open>Request\<close>

definition new_redemption ::
  "world \<Rightarrow> db \<Rightarrow> ident \<Rightarrow> int \<Rightarrow> string \<Rightarrow> payout_account \<Rightarrow> redemption" where
  "new_redemption w d userId amount idempotencyKey account =
     \<lparr>red_id = newId w d, red_userId = userId, red_provider = pac_provider account,
      red_payoutAccountId = Some (pac_id account), red_amount = amount, red_status = RS_REQUESTED,
      red_providerReference = None, red_manualTransferProofUrl = None, red_note = None,
      red_processedBySuperadminId = None, red_idempotencyKey = idempotencyKey,
      red_requestHash = Some (redemptionRequestHash w amount (pac_id account)),
      red_destination = destinationSnapshotData w account REQUEST_SNAPSHOT,
      red_reconciliationRequired = False, red_reconciliationNote = None, red_reconciliationFlaggedAt = None\<rparr>"

definition find_request :: "ident \<Rightarrow> string \<Rightarrow> db \<Rightarrow> redemption option" where
  "find_request userId key d = List.find (\<lambda>r. red_userId r = userId \<and> red_idempotencyKey r = key) (redemptions d)"

text \<open>The balance checks of a new request; the error message tells whether money is held.\<close>

definition request_refusal :: "ident \<Rightarrow> int \<Rightarrow> db \<Rightarrow> err option" where
  "request_refusal userId amount d =
     (let minRedemption = getMinRedemption d;
          available = wb_available (getWalletBalance userId d);
          held = heldByOpenDebitCases userId d
      in if amount < minRedemption
         then Some (HttpError 422 (''Minimum pencairan Rp'' @ toLocaleString minRedemption))
         else if available - held < amount
         then Some (HttpError 422
           (if held > 0
            then ''Saldo tersedia tidak mencukupi: Rp'' @ toLocaleString held @ '' sedang ditahan untuk pemeriksaan''
            else ''Saldo tersedia tidak mencukupi''))
         else None)"

definition insert_redemption :: "redemption \<Rightarrow> db \<Rightarrow> redemption tx" where
  "insert_redemption r d =
     rbind (create_row redemption_ok redemption_clash r (redemptions d))
       (\<lambda>t. Inr (r, bump_seq (d\<lparr>redemptions := t\<rparr>)))"

definition request_body ::
  "world \<Rightarrow> ident \<Rightarrow> int \<Rightarrow> ident \<Rightarrow> string \<Rightarrow> db \<Rightarrow> (redemption \<times> bool) tx" where
  "request_body w userId amount payoutAccountId key d =
     rbind (lockUser userId d) (\<lambda>d1.
     case find_request userId key d1 of
       Some existing \<Rightarrow>
         rbind (assertSameRequest existing amount payoutAccountId (redemptionRequestHash w amount payoutAccountId))
           (\<lambda>_. Inr ((existing, True), d1))
     | None \<Rightarrow>
       (case find_by pac_id payoutAccountId (payoutAccounts d1) of
          None \<Rightarrow> Inl (HttpError 404 ''Akun pencairan tidak ditemukan'')
        | Some account \<Rightarrow>
            if pac_userId account \<noteq> userId then Inl (HttpError 404 ''Akun pencairan tidak ditemukan'')
            else
            let d2 = acquire (LPayoutAccount payoutAccountId) d1 in
            if pac_status account = PA_DISABLED then Inl (HttpError 409 ''Akun pencairan dinonaktifkan'')
            else case request_refusal userId amount d2 of
              Some e \<Rightarrow> Inl e
            | None \<Rightarrow>
                rbind (insert_redemption (new_redemption w d2 userId amount key account) d2) (\<lambda>(red, d3).
                rbind (createRedeemReserve w userId amount (red_id red) d3) (\<lambda>(_, d4).
                Inr ((red, False), d4)))))"

definition requestRedemption :: "world \<Rightarrow> actor \<Rightarrow> redemption_request \<Rightarrow> db \<Rightarrow> (redemption \<times> bool) tx" where
  "requestRedemption w actr raw d =
     (if act_role actr \<noteq> USER then Inl (HttpError 403 ''Akses ditolak untuk peran ini'')
      else rbind (requestRedemptionInputSchema raw) (\<lambda>(amount, payoutAccountId, key).
        runWalletTransaction (request_body w (act_id actr) amount payoutAccountId key) d))"

section \<open>Transitions\<close>

datatype redemption_action = Approve | Process | Succeed | Fail | Cancel

datatype destination_mode = Required | Recorded | Untouched

record transition_rule =
  tr_from :: "redemption_status list"
  tr_to :: redemption_status
  tr_reserve :: "redeem_outcome option" \<comment> \<open>none: hold\<close>
  tr_destination :: destination_mode

fun TRANSITIONS :: "redemption_action \<Rightarrow> transition_rule" where
  "TRANSITIONS Approve = \<lparr>tr_from = [RS_REQUESTED], tr_to = RS_APPROVED, tr_reserve = None, tr_destination = Untouched\<rparr>"
| "TRANSITIONS Process = \<lparr>tr_from = [RS_APPROVED], tr_to = RS_PROCESSING, tr_reserve = None, tr_destination = Required\<rparr>"
| "TRANSITIONS Succeed = \<lparr>tr_from = [RS_PROCESSING], tr_to = RS_SUCCESS, tr_reserve = Some success, tr_destination = Recorded\<rparr>"
| "TRANSITIONS Fail = \<lparr>tr_from = [RS_REQUESTED, RS_APPROVED, RS_PROCESSING], tr_to = RS_FAILED, tr_reserve = Some failed, tr_destination = Untouched\<rparr>"
| "TRANSITIONS Cancel = \<lparr>tr_from = [RS_REQUESTED], tr_to = RS_REVERSED, tr_reserve = Some failed, tr_destination = Untouched\<rparr>"

definition REDEMPTION_NOT_FOUND :: string where
  "REDEMPTION_NOT_FOUND = ''Pengajuan pencairan tidak ditemukan''"
definition REDEMPTION_STATUS_CHANGED :: string where
  "REDEMPTION_STATUS_CHANGED = ''Status pencairan sudah berubah''"
definition REDEMPTION_INVALID_TRANSITION :: string where
  "REDEMPTION_INVALID_TRANSITION = ''Transisi status pencairan tidak valid''"
definition REDEMPTION_OWNER_CHANGED :: string where
  "REDEMPTION_OWNER_CHANGED = ''Data pemilik pencairan berubah. Muat ulang lalu coba lagi.''"
definition REDEMPTION_PROOF_REQUIRED :: string where
  "REDEMPTION_PROOF_REQUIRED = ''Isi nomor referensi transfer atau unggah bukti transfer sebelum menandai sukses''"
definition REDEMPTION_DESTINATION_UNAVAILABLE :: string where
  "REDEMPTION_DESTINATION_UNAVAILABLE = ''Tujuan pencairan tidak tersedia. Tandai gagal pengajuan ini atau hubungi pengguna.''"
definition REDEMPTION_RECONCILIATION_NOTE_REQUIRED :: string where
  "REDEMPTION_RECONCILIATION_NOTE_REQUIRED = ''Pengajuan ini sedang direkonsiliasi. Isi catatan hasil pengecekan transfer sebelum menandai gagal.''"
definition REDEMPTION_PROOF_CLOSED :: string where
  "REDEMPTION_PROOF_CLOSED = ''Pengajuan pencairan sudah selesai, bukti baru tidak dapat diunggah''"
definition REDEMPTION_REPLAY_REFERENCE_CONFLICT :: string where
  "REDEMPTION_REPLAY_REFERENCE_CONFLICT = ''Pencairan ini sudah dicatat dengan nomor referensi lain. Periksa kemungkinan transfer ganda sebelum melanjutkan.''"
definition REDEMPTION_REPLAY_NOTE_CONFLICT :: string where
  "REDEMPTION_REPLAY_NOTE_CONFLICT = ''Pencairan ini sudah dicatat dengan catatan berbeda. Muat ulang untuk melihat data terbaru.''"
definition REDEMPTION_RECONCILIATION_NOTE_CONFLICT :: string where
  "REDEMPTION_RECONCILIATION_NOTE_CONFLICT = ''Pengajuan ini sudah ditandai untuk rekonsiliasi dengan catatan lain. Muat ulang untuk melihat catatan yang tersimpan.''"

text \<open>\<^verbatim>\<open>optionalText(max, message)\<close>: trimmed, an empty text is absent.\<close>

definition optionalText :: "nat \<Rightarrow> string \<Rightarrow> string option \<Rightarrow> string option result" where
  "optionalText mx message value =
     (case value of
        None \<Rightarrow> Inr None
      | Some s \<Rightarrow> if length s > mx then Inl (ZodError message)
                  else Inr (if js_trim s = [] then None else Some (js_trim s)))"

record transition_input =
  ti_action :: redemption_action
  ti_note :: "string option"
  ti_providerReference :: "string option"

definition transitionInputSchema :: "transition_input \<Rightarrow> transition_input result" where
  "transitionInputSchema raw =
     rbind (optionalText 500 ''Catatan maksimal 500 karakter'' (ti_note raw)) (\<lambda>note.
     rbind (optionalText 120 ''Nomor referensi maksimal 120 karakter'' (ti_providerReference raw)) (\<lambda>ref.
     Inr \<lparr>ti_action = ti_action raw, ti_note = note, ti_providerReference = ref\<rparr>))"

definition assertMayTransition :: "actor \<Rightarrow> redemption_action \<Rightarrow> unit result" where
  "assertMayTransition actr action =
     (if act_role actr = SUPERADMIN then Inr ()
      else if act_role actr = USER \<and> action = Cancel then Inr ()
      else Inl (HttpError 403 (if act_role actr = USER then ''Aksi tidak diizinkan'' else ''Akses ditolak untuk peran ini'')))"

definition notFrom :: "redemption_status \<Rightarrow> err" where
  "notFrom status = HttpError 409
     (if status \<in> set SETTLED_REDEMPTION_STATUSES then REDEMPTION_STATUS_CHANGED else REDEMPTION_INVALID_TRANSITION)"

definition lockRedemptionForChange ::
  "actor \<Rightarrow> ident \<Rightarrow> ident option \<Rightarrow> bool \<Rightarrow> db \<Rightarrow> redemption tx" where
  "lockRedemptionForChange actr i expectedUserId lockFunding d =
     (case find_by red_id i (redemptions d) of
        None \<Rightarrow> Inl (HttpError 404 REDEMPTION_NOT_FOUND)
      | Some owner \<Rightarrow>
          if act_role actr = USER \<and> red_userId owner \<noteq> act_id actr
          then Inl (HttpError 403 ''Bukan pengajuan pencairan Anda'')
          else if expectedUserId \<noteq> None \<and> expectedUserId \<noteq> Some (red_userId owner)
          then Inl (HttpError 409 REDEMPTION_OWNER_CHANGED)
          else
          rbind (lockUser (red_userId owner) d) (\<lambda>d1.
          rbind (if lockFunding then lockFundingAccounts (fundingAccountsForPayout (red_userId owner) d1) d1 else Inr d1) (\<lambda>d2.
          rbind (lockRedemption i d2) (\<lambda>d3.
          case find_by red_id i (redemptions d3) of
            None \<Rightarrow> Inl (HttpError 404 REDEMPTION_NOT_FOUND)
          | Some r \<Rightarrow>
              if red_userId r \<noteq> red_userId owner then Inl (HttpError 409 REDEMPTION_OWNER_CHANGED)
              else Inr (r, d3)))))"

text \<open>The destination columns to write: none when the request already has a snapshot.\<close>

definition destinationForChange :: "world \<Rightarrow> redemption \<Rightarrow> destination_mode \<Rightarrow> db \<Rightarrow> destination option result" where
  "destinationForChange w r mode d =
     (if dst_source (red_destination r) \<noteq> None then Inr None
      else
      let account = (case red_payoutAccountId r of
            None \<Rightarrow> None
          | Some a \<Rightarrow> List.find (\<lambda>p. pac_id p = a \<and> pac_userId p = red_userId r) (payoutAccounts d)) in
      case account of
        Some p \<Rightarrow>
          if pac_accountIdentifier p \<noteq> ERASED_ACCOUNT_IDENTIFIER
          then Inr (Some (destinationSnapshotData w p LEGACY_ACCOUNT_FALLBACK))
          else if mode = Required then Inl (HttpError 409 REDEMPTION_DESTINATION_UNAVAILABLE)
          else Inr (Some (unavailableDestinationData w))
      | None \<Rightarrow>
          if mode = Required then Inl (HttpError 409 REDEMPTION_DESTINATION_UNAVAILABLE)
          else Inr (Some (unavailableDestinationData w)))"

definition assertIdenticalReplay :: "redemption \<Rightarrow> transition_input \<Rightarrow> unit result" where
  "assertIdenticalReplay current inp =
     (if ti_providerReference inp \<noteq> None \<and> ti_providerReference inp \<noteq> red_providerReference current
      then Inl (HttpError 409 REDEMPTION_REPLAY_REFERENCE_CONFLICT)
      else if ti_note inp \<noteq> None \<and> ti_note inp \<noteq> red_note current
      then Inl (HttpError 409 REDEMPTION_REPLAY_NOTE_CONFLICT)
      else Inr ())"

definition hasOwnProof :: "redemption \<Rightarrow> bool" where
  "hasOwnProof r = (case red_manualTransferProofUrl r of None \<Rightarrow> False | Some u \<Rightarrow> startsWith u (red_id r @ ''/''))"

definition compareAndSet :: "ident \<Rightarrow> (redemption \<Rightarrow> bool) \<Rightarrow> (redemption \<Rightarrow> redemption) \<Rightarrow> db \<Rightarrow> db result" where
  "compareAndSet i cond f d =
     (let hit = (\<lambda>r. red_id r = i \<and> cond r) in
      if length (filter hit (redemptions d)) \<noteq> 1 then Inl (HttpError 409 REDEMPTION_STATUS_CHANGED)
      else Inr (d\<lparr>redemptions := map (\<lambda>r. if hit r then f r else r) (redemptions d)\<rparr>))"

text \<open>The columns a transition writes; an absent note or reference leaves the column alone.\<close>

definition transition_row ::
  "actor \<Rightarrow> transition_input \<Rightarrow> transition_rule \<Rightarrow> redemption \<Rightarrow> destination option \<Rightarrow> redemption \<Rightarrow> redemption" where
  "transition_row actr inp rule current dest r =
     r\<lparr>red_status := tr_to rule,
       red_destination := nullish dest (red_destination r),
       red_note := (case ti_note inp of None \<Rightarrow> red_note r | Some n \<Rightarrow> Some n),
       red_providerReference := (case ti_providerReference inp of None \<Rightarrow> red_providerReference r | Some n \<Rightarrow> Some n),
       red_processedBySuperadminId :=
         (if act_role actr = SUPERADMIN then Some (act_id actr) else red_processedBySuperadminId r),
       red_reconciliationRequired :=
         (if tr_to rule \<in> set SETTLED_REDEMPTION_STATUSES \<and> red_reconciliationRequired current then False
          else red_reconciliationRequired r)\<rparr>"

record transition_outcome =
  to_redemption :: redemption
  to_idempotent :: bool
  to_from :: redemption_status
  to_resolvedReconciliation :: bool
  to_funding :: "(int \<times> int) option" \<comment> \<open>attributed, legacy\<close>

text \<open>The reserve and, for a success, the funded sources.\<close>

definition settle_reserve ::
  "world \<Rightarrow> actor \<Rightarrow> redemption \<Rightarrow> redemption_action \<Rightarrow> db \<Rightarrow> (int \<times> int) option tx" where
  "settle_reserve w actr current action d =
     (case tr_reserve (TRANSITIONS action) of
        None \<Rightarrow> Inr (None, d)
      | Some oc \<Rightarrow>
          rbind (settleRedeemLedger (red_id current) oc d) (\<lambda>((_, changed), d1).
          if \<not> changed then Inl (HttpError 409 RESERVE_MISMATCH)
          else if action = Succeed then
            rbind (settlePayoutFunding w (red_id current) (red_userId current) (red_amount current) (Some (act_id actr)) d1)
              (\<lambda>(att, d2). Inr (Some (pa_attributedRupiah att, pa_legacyRupiah att), d2))
          else Inr (None, d1)))"

definition transition_body :: "world \<Rightarrow> actor \<Rightarrow> ident \<Rightarrow> transition_input \<Rightarrow> db \<Rightarrow> transition_outcome tx" where
  "transition_body w actr i inp d =
     (let rule = TRANSITIONS (ti_action inp) in
      rbind (lockRedemptionForChange actr i None (ti_action inp = Succeed) d) (\<lambda>(current, d1).
      rbind (loadRedeemReserve current d1) (\<lambda>reserve.
      if red_status current = tr_to rule then
        (if led_status reserve \<noteq> expectedReserveStatus (red_status current) then Inl (HttpError 409 RESERVE_MISMATCH)
         else rbind (assertIdenticalReplay current inp) (\<lambda>_.
           Inr (\<lparr>to_redemption = current, to_idempotent = True, to_from = red_status current,
                 to_resolvedReconciliation = False, to_funding = None\<rparr>, d1)))
      else if red_status current \<notin> set (tr_from rule) then Inl (notFrom (red_status current))
      else if led_status reserve \<noteq> LS_PENDING then Inl (HttpError 409 RESERVE_MISMATCH)
      else if ti_action inp = Succeed \<and> ti_providerReference inp = None \<and> \<not> hasOwnProof current
      then Inl (HttpError 422 REDEMPTION_PROOF_REQUIRED)
      else if ti_action inp = Fail \<and> red_reconciliationRequired current \<and> ti_note inp = None
      then Inl (HttpError 422 REDEMPTION_RECONCILIATION_NOTE_REQUIRED)
      else
      rbind (if tr_destination rule = Untouched then Inr None else destinationForChange w current (tr_destination rule) d1) (\<lambda>dest.
      rbind (compareAndSet i (\<lambda>r. red_status r = red_status current) (transition_row actr inp rule current dest) d1) (\<lambda>d2.
      rbind (settle_reserve w actr current (ti_action inp) d2) (\<lambda>(funding, d3).
      case find_by red_id i (redemptions d3) of
        None \<Rightarrow> Inl (HttpError 404 REDEMPTION_NOT_FOUND)
      | Some r \<Rightarrow>
          Inr (\<lparr>to_redemption = r, to_idempotent = False, to_from = red_status current,
                to_resolvedReconciliation = (red_reconciliationRequired current \<and> \<not> red_reconciliationRequired r),
                to_funding = funding\<rparr>, d3)))))))"

definition transitionRedemption :: "world \<Rightarrow> actor \<Rightarrow> ident \<Rightarrow> transition_input \<Rightarrow> db \<Rightarrow> transition_outcome tx" where
  "transitionRedemption w actr i raw d =
     rbind (transitionInputSchema raw) (\<lambda>inp.
     rbind (assertMayTransition actr (ti_action inp)) (\<lambda>_.
     runWalletTransaction (transition_body w actr i inp) d))"

section \<open>Reconciliation flag and transfer proof\<close>

definition reconciliationNoteSchema :: "string \<Rightarrow> string result" where
  "reconciliationNoteSchema s =
     (let t = js_trim s in
      if t = [] then Inl (ZodError ''Catatan rekonsiliasi wajib diisi'')
      else if length t > 500 then Inl (ZodError ''Catatan maksimal 500 karakter'')
      else Inr t)"

definition flag_row :: "world \<Rightarrow> actor \<Rightarrow> string \<Rightarrow> destination option \<Rightarrow> redemption \<Rightarrow> redemption" where
  "flag_row w actr note dest r =
     r\<lparr>red_destination := nullish dest (red_destination r), red_reconciliationRequired := True,
       red_reconciliationNote := Some note, red_reconciliationFlaggedAt := Some (w_now w),
       red_processedBySuperadminId := Some (act_id actr)\<rparr>"

definition flag_body :: "world \<Rightarrow> actor \<Rightarrow> ident \<Rightarrow> string \<Rightarrow> db \<Rightarrow> (redemption \<times> bool) tx" where
  "flag_body w actr i note d =
     rbind (lockRedemptionForChange actr i None False d) (\<lambda>(current, d1).
     rbind (loadRedeemReserve current d1) (\<lambda>reserve.
     if red_status current \<noteq> RS_PROCESSING then Inl (notFrom (red_status current))
     else if led_status reserve \<noteq> LS_PENDING then Inl (HttpError 409 RESERVE_MISMATCH)
     else if red_reconciliationRequired current then
       (if red_reconciliationNote current \<noteq> Some note then Inl (HttpError 409 REDEMPTION_RECONCILIATION_NOTE_CONFLICT)
        else Inr ((current, True), d1))
     else
     rbind (destinationForChange w current Recorded d1) (\<lambda>dest.
     rbind (compareAndSet i (\<lambda>r. red_status r = RS_PROCESSING \<and> \<not> red_reconciliationRequired r)
              (flag_row w actr note dest) d1) (\<lambda>d2.
     case find_by red_id i (redemptions d2) of
       None \<Rightarrow> Inl (HttpError 404 REDEMPTION_NOT_FOUND)
     | Some r \<Rightarrow> Inr ((r, False), d2)))))"

definition flagRedemptionForReconciliation :: "world \<Rightarrow> actor \<Rightarrow> ident \<Rightarrow> string \<Rightarrow> db \<Rightarrow> (redemption \<times> bool) tx" where
  "flagRedemptionForReconciliation w actr i rawNote d =
     (if act_role actr \<noteq> SUPERADMIN then Inl (HttpError 403 ''Akses ditolak untuk peran ini'')
      else rbind (reconciliationNoteSchema rawNote) (\<lambda>note.
        runWalletTransaction (flag_body w actr i note) d))"

definition proof_row :: "string \<Rightarrow> destination option \<Rightarrow> redemption \<Rightarrow> redemption" where
  "proof_row path dest r =
     r\<lparr>red_destination := nullish dest (red_destination r), red_manualTransferProofUrl := Some path\<rparr>"

definition proof_body :: "world \<Rightarrow> actor \<Rightarrow> ident \<Rightarrow> string \<Rightarrow> ident \<Rightarrow> db \<Rightarrow> redemption tx" where
  "proof_body w actr i path expectedUserId d =
     rbind (lockRedemptionForChange actr i (Some expectedUserId) False d) (\<lambda>(current, d1).
     if red_status current \<in> set SETTLED_REDEMPTION_STATUSES then Inl (HttpError 409 REDEMPTION_PROOF_CLOSED)
     else
     rbind (destinationForChange w current Recorded d1) (\<lambda>dest.
     rbind (compareAndSet i (\<lambda>r. red_userId r = expectedUserId \<and> red_status r = red_status current)
              (proof_row path dest) d1) (\<lambda>d2.
     case find_by red_id i (redemptions d2) of
       None \<Rightarrow> Inl (HttpError 404 REDEMPTION_NOT_FOUND)
     | Some r \<Rightarrow> Inr (r, d2))))"

definition attachRedemptionProof :: "world \<Rightarrow> actor \<Rightarrow> ident \<Rightarrow> string \<Rightarrow> ident \<Rightarrow> db \<Rightarrow> redemption tx" where
  "attachRedemptionProof w actr i path expectedUserId d =
     (if act_role actr \<noteq> SUPERADMIN then Inl (HttpError 403 ''Akses ditolak untuk peran ini'')
      else if \<not> startsWith path (i @ ''/'') then Inl (JsError ''proof path must live under the redemption id'')
      else runWalletTransaction (proof_body w actr i path expectedUserId) d)"

section \<open>Resolution of a case\<close>

definition resolve_case_body :: "world \<Rightarrow> actor \<Rightarrow> ident \<Rightarrow> string \<Rightarrow> db \<Rightarrow> (reward_case \<times> bool) tx" where
  "resolve_case_body w actr caseId note d =
     (case find_by rc_id caseId (cases d) of
        None \<Rightarrow> Inl (HttpError 404 ''Kasus rekonsiliasi tidak ditemukan'')
      | Some owner \<Rightarrow>
          rbind (lockUser (rc_userId owner) d) (\<lambda>d1.
          rbind (find_or_throw rc_id caseId (cases d1)) (\<lambda>current.
          if rc_status current = CASE_RESOLVED then Inr ((current, True), d1)
          else
            let hit = (\<lambda>c. rc_id c = caseId \<and> rc_status c = CASE_OPEN);
                d2 = d1\<lparr>cases := map (\<lambda>c. if hit c
                  then c\<lparr>rc_status := CASE_RESOLVED, rc_resolvedAt := Some (w_now w),
                         rc_resolvedById := Some (act_id actr), rc_note := Some note\<rparr> else c) (cases d1)\<rparr>
            in if length (filter hit (cases d1)) \<noteq> 1
               then Inl (HttpError 409 ''Kasus rekonsiliasi sudah berubah. Muat ulang halaman.'')
               else rbind (find_or_throw rc_id caseId (cases d2)) (\<lambda>c. Inr ((c, False), d2)))))"

definition resolveRewardCase :: "world \<Rightarrow> actor \<Rightarrow> ident \<Rightarrow> string \<Rightarrow> db \<Rightarrow> (reward_case \<times> bool) tx" where
  "resolveRewardCase w actr caseId note d =
     (if act_role actr \<noteq> SUPERADMIN then Inl (HttpError 403 ''Akses ditolak untuk peran ini'')
      else runWalletTransaction (resolve_case_body w actr caseId note) d)"

end
