(* ===== verification/Doubles.thy ===== *)
theory Doubles
  imports Prelude "HOL-Library.Log_Nat"
begin

text \<open>
  JavaScript numbers. Rewards are computed with IEEE 754 doubles: a product of a rate, a
  quantity and a campaign multiplier is rounded after every operation before
  \<^verbatim>\<open>Math.round\<close>, \<^verbatim>\<open>Math.floor\<close> or \<^verbatim>\<open>Math.ceil\<close> turns it into rupiah. \<open>fl\<close> is that rounding
  (to 53 significant bits, ties to even) on rational numbers; the exponent is not bounded,
  because no rupiah amount comes near the overflow or the subnormal range of a double.
  The lemmas give what the bounds of the reward components need: rounding is monotone and
  leaves every number a double can hold, in particular every integer up to \<open>2 ^ 53\<close>, as it is.
\<close>

section \<open>Powers of two\<close>

definition two_pow :: "int \<Rightarrow> rat" where
  "two_pow e = (if 0 \<le> e then 2 ^ nat e else 1 / 2 ^ nat (- e))"

lemma two_pow_powi: "two_pow e = 2 powi e"
  by (simp add: two_pow_def power_int_def field_simps)

lemma two_pow_pos [simp]: "0 < two_pow e"
  by (simp add: two_pow_def)

lemma two_pow_nonzero [simp]: "two_pow e \<noteq> 0"
  using two_pow_pos [of e] by linarith

lemma two_pow_add: "two_pow (a + b) = two_pow a * two_pow b"
  by (simp add: two_pow_powi power_int_add)

lemma two_pow_Suc: "two_pow (e + 1) = 2 * two_pow e"
  by (simp add: two_pow_powi power_int_add)

lemma two_pow_mono: "a \<le> b \<Longrightarrow> two_pow a \<le> two_pow b"
  by (simp add: two_pow_powi power_int_increasing)

lemma two_pow_less_iff: "two_pow a < two_pow b \<longleftrightarrow> a < b"
  by (metis linorder_not_less order_less_le power_int_strict_increasing two_pow_mono two_pow_powi one_less_numeral_iff
      semiring_norm(76))

lemma two_pow_nat: "two_pow (int n) = 2 ^ n"
  by (simp add: two_pow_def)

section \<open>The binade of a positive number\<close>

definition bexp :: "rat \<Rightarrow> int" where
  "bexp x = (case quotient_of x of (p, q) \<Rightarrow>
     let n = bitlen p - bitlen q in if two_pow n \<le> x then n else n - 1)"

lemma bitlen_two:
  assumes "0 < p"
  shows "two_pow (bitlen p - 1) \<le> of_int p \<and> of_int p < two_pow (bitlen p)"
proof -
  have "0 < bitlen p" using assms bitlen_eq_zero_iff [of p] bitlen_nonneg [of p] by linarith
  then have "two_pow (bitlen p - 1) = of_int (2 ^ nat (bitlen p - 1))" "two_pow (bitlen p) = of_int (2 ^ nat (bitlen p))"
    by (simp_all add: two_pow_def)
  then show ?thesis using bitlen_bounds [OF assms] by (simp only: of_int_le_iff of_int_less_iff)
qed

lemma bexp_bounds:
  assumes "0 < x"
  shows "two_pow (bexp x) \<le> x \<and> x < two_pow (bexp x + 1)"
proof -
  obtain p q where pq: "quotient_of x = (p, q)" by fastforce
  then have q: "0 < q" and x: "x = of_int p / of_int q" using quotient_of_denom_pos quotient_of_div by auto
  with assms have p: "0 < p" by (simp add: zero_less_divide_iff)
  let ?a = "bitlen p" and ?b = "bitlen q"
  note P = bitlen_two [OF p] and Q = bitlen_two [OF q]
  have lower: "two_pow (?a - ?b - 1) \<le> x"
  proof -
    have "two_pow (?a - ?b - 1) * of_int q \<le> two_pow (?a - ?b - 1) * two_pow ?b"
      using Q by (intro mult_left_mono) (auto intro: less_imp_le)
    also have "\<dots> = two_pow (?a - 1)" by (simp flip: two_pow_add)
    also have "\<dots> \<le> of_int p" using P by simp
    finally show ?thesis using q by (simp add: x field_simps)
  qed
  have upper: "x < two_pow (?a - ?b + 1)"
  proof -
    have "of_int p < two_pow ?a" using P by simp
    also have "\<dots> = two_pow (?a - ?b + 1) * two_pow (?b - 1)" by (simp flip: two_pow_add)
    also have "\<dots> \<le> two_pow (?a - ?b + 1) * of_int q" using Q by (intro mult_left_mono) (auto intro: less_imp_le)
    finally show ?thesis using q by (simp add: x field_simps)
  qed
  show ?thesis using lower upper by (auto simp: bexp_def pq Let_def)
qed

lemma bexp_unique:
  assumes "two_pow e \<le> x" "x < two_pow (e + 1)"
  shows "bexp x = e"
proof -
  have "0 < x" using assms(1) two_pow_pos [of e] by linarith
  from bexp_bounds [OF this] assms have "two_pow e < two_pow (bexp x + 1)" "two_pow (bexp x) < two_pow (e + 1)" by linarith+
  then show ?thesis by (simp add: two_pow_less_iff)
qed

lemma bexp_mono: "0 < x \<Longrightarrow> x \<le> y \<Longrightarrow> bexp x \<le> bexp y"
proof -
  assume "0 < x" "x \<le> y"
  then have "two_pow (bexp x) < two_pow (bexp y + 1)"
    using bexp_bounds [of x] bexp_bounds [of y] by linarith
  then show ?thesis by (simp add: two_pow_less_iff)
qed

section \<open>Rounding to the nearest integer, ties to even\<close>

definition round_half_even :: "rat \<Rightarrow> int" where
  "round_half_even r =
     (let n = \<lfloor>r\<rfloor>; d = r - of_int n
      in if d < 1 / 2 then n else if d > 1 / 2 then n + 1 else if even n then n else n + 1)"

lemma round_half_even_of_int [simp]: "round_half_even (of_int n) = n"
  by (simp add: round_half_even_def)

lemma round_half_even_bounds: "\<lfloor>r\<rfloor> \<le> round_half_even r \<and> round_half_even r \<le> \<lceil>r\<rceil>"
proof -
  have "\<lceil>r\<rceil> = \<lfloor>r\<rfloor> + 1" if "r - of_int \<lfloor>r\<rfloor> \<noteq> 0" using that by (simp add: ceiling_altdef)
  then show ?thesis by (auto simp: round_half_even_def Let_def)
qed

lemma round_half_even_mono:
  assumes "r \<le> s" shows "round_half_even r \<le> round_half_even s"
proof (cases "\<lfloor>r\<rfloor> = \<lfloor>s\<rfloor>")
  case True
  then show ?thesis using assms by (auto simp: round_half_even_def Let_def)
next
  case False
  with assms have "\<lfloor>r\<rfloor> + 1 \<le> \<lfloor>s\<rfloor>" using floor_mono [of r s] by linarith
  moreover have "round_half_even r \<le> \<lfloor>r\<rfloor> + 1" by (auto simp: round_half_even_def Let_def)
  ultimately show ?thesis using round_half_even_bounds [of s] by linarith
qed

section \<open>Doubles\<close>

definition fl :: "rat \<Rightarrow> rat" where
  "fl x = (if x = 0 then 0
     else let u = two_pow (bexp \<bar>x\<bar> - 52) in sgn x * of_int (round_half_even (\<bar>x\<bar> / u)) * u)"

lemma fl_zero [simp]: "fl 0 = 0"
  by (simp add: fl_def)

lemma fl_pos: "0 < x \<Longrightarrow> fl x = of_int (round_half_even (x / two_pow (bexp x - 52))) * two_pow (bexp x - 52)"
  by (simp add: fl_def Let_def)

lemma significand:
  assumes "0 < x"
  shows "2 ^ 52 \<le> x / two_pow (bexp x - 52) \<and> x / two_pow (bexp x - 52) < 2 ^ 53"
proof -
  let ?u = "two_pow (bexp x - 52)"
  have "two_pow (bexp x) = 2 ^ 52 * ?u" "two_pow (bexp x + 1) = 2 ^ 53 * ?u"
    using two_pow_add [of 52 "bexp x - 52"] two_pow_add [of 53 "bexp x - 52"] by (simp_all add: two_pow_def algebra_simps)
  then show ?thesis using bexp_bounds [OF assms] by (simp add: pos_le_divide_eq pos_divide_less_eq)
qed

lemma rounded_significand:
  assumes "0 < x"
  shows "2 ^ 52 \<le> round_half_even (x / two_pow (bexp x - 52)) \<and> round_half_even (x / two_pow (bexp x - 52)) \<le> 2 ^ 53"
proof -
  have "round_half_even (of_int (2 ^ 52)) \<le> round_half_even (x / two_pow (bexp x - 52))"
    "round_half_even (x / two_pow (bexp x - 52)) \<le> round_half_even (of_int (2 ^ 53))"
    using significand [OF assms] by (intro round_half_even_mono; simp)+
  then show ?thesis by (simp only: round_half_even_of_int)
qed

lemma fl_binade:
  assumes "0 < x"
  shows "two_pow (bexp x) \<le> fl x \<and> fl x \<le> two_pow (bexp x + 1)"
proof -
  let ?u = "two_pow (bexp x - 52)"
  have "two_pow (bexp x) = of_int (2 ^ 52) * ?u" "two_pow (bexp x + 1) = of_int (2 ^ 53) * ?u"
    using two_pow_add [of 52 "bexp x - 52"] two_pow_add [of 53 "bexp x - 52"] by (simp_all add: two_pow_def algebra_simps)
  moreover have "of_int (2 ^ 52) \<le> (of_int (round_half_even (x / ?u)) :: rat)" "(of_int (round_half_even (x / ?u)) :: rat) \<le> of_int (2 ^ 53)"
    using rounded_significand [OF assms] by (simp_all only: of_int_le_iff)
  ultimately show ?thesis unfolding fl_pos [OF assms] by (auto intro!: mult_right_mono simp del: of_int_power of_int_numeral intro: less_imp_le)
qed

lemma fl_mono_pos:
  assumes "0 < x" "x \<le> y" shows "fl x \<le> fl y"
proof (cases "bexp x = bexp y")
  case True
  let ?u = "two_pow (bexp x - 52)"
  have "round_half_even (x / ?u) \<le> round_half_even (y / ?u)"
    using assms by (intro round_half_even_mono divide_right_mono) (auto intro: less_imp_le)
  then show ?thesis using assms True by (simp add: fl_pos)
next
  case False
  with bexp_mono assms have "bexp x + 1 \<le> bexp y" by fastforce
  then have "two_pow (bexp x + 1) \<le> two_pow (bexp y)" by (rule two_pow_mono)
  then show ?thesis using fl_binade [of x] fl_binade [of y] assms by linarith
qed

lemma fl_minus: "fl (- x) = - fl x"
  by (simp add: fl_def Let_def sgn_minus)

lemma fl_pos_pos: "0 < x \<Longrightarrow> 0 < fl x"
  using fl_binade [of x] two_pow_pos [of "bexp x"] by linarith

lemma fl_mono: "x \<le> y \<Longrightarrow> fl x \<le> fl y"
proof -
  assume le: "x \<le> y"
  consider "0 < x" | "x = 0" | "x < 0" "y < 0" | "x < 0" "y = 0" | "x < 0" "0 < y" by linarith
  then show ?thesis
  proof cases
    case 1 then show ?thesis using le by (rule fl_mono_pos)
  next
    case 2 then show ?thesis using le fl_pos_pos [of y] by (cases "y = 0") auto
  next
    case 3 then show ?thesis using le fl_mono_pos [of "- y" "- x"] by (simp add: fl_minus)
  next
    case 4 then show ?thesis using fl_pos_pos [of "- x"] by (simp add: fl_minus)
  next
    case 5 then show ?thesis using fl_pos_pos [of "- x"] fl_pos_pos [of y] by (simp add: fl_minus)
  qed
qed

lemma fl_nonneg: "0 \<le> x \<Longrightarrow> 0 \<le> fl x"
  using fl_mono [of 0 x] by simp

lemma fl_exact_pos:
  assumes "0 < m" "m \<le> 2 ^ 53"
  shows "fl (of_int m * two_pow k) = of_int m * two_pow k"
proof -
  let ?x = "of_int m * two_pow k" and ?k = "bexp (of_int m * two_pow k) - 52"
  have x: "0 < ?x" using assms by simp
  have "\<exists>n. ?x / two_pow ?k = of_int n"
  proof (cases "?k \<le> k")
    case True
    have "?x / two_pow ?k = of_int m * two_pow (k - ?k)"
      using two_pow_add [of ?k "k - ?k"] by (simp add: field_simps)
    also have "\<dots> = of_int (m * 2 ^ nat (k - ?k))" using True by (simp add: two_pow_def)
    finally show ?thesis by blast
  next
    case False
    have "(of_int m :: rat) \<le> of_int (2 ^ 53)" using assms(2) by (simp only: of_int_le_iff)
    then have "?x \<le> 2 ^ 53 * two_pow k" by (intro mult_right_mono) (simp_all add: less_imp_le)
    also have "\<dots> = 2 ^ 52 * two_pow (k + 1)" by (simp add: two_pow_Suc)
    also have "\<dots> \<le> 2 ^ 52 * two_pow ?k" using False by (intro mult_left_mono two_pow_mono) simp_all
    finally have "?x = 2 ^ 52 * two_pow ?k"
      using significand [OF x] by (intro antisym) (simp_all add: pos_le_divide_eq)
    then have "?x / two_pow ?k = of_int (2 ^ 52)" by (simp add: nonzero_divide_eq_eq)
    then show ?thesis by blast
  qed
  then obtain n where "?x / two_pow ?k = of_int n" by blast
  then show ?thesis using x by (simp only: fl_pos round_half_even_of_int) (simp add: nonzero_divide_eq_eq)
qed

lemma fl_idem [simp]: "fl (fl x) = fl x"
proof -
  have pos: "fl (fl y) = fl y" if "0 < y" for y
    using fl_exact_pos [of "round_half_even (y / two_pow (bexp y - 52))" "bexp y - 52"] rounded_significand [OF that]
    by (simp only: fl_pos [OF that]) auto
  consider "0 < x" | "x = 0" | "0 < - x" by linarith
  then show ?thesis by cases (use pos [of x] pos [of "- x"] in \<open>auto simp: fl_minus\<close>)
qed

lemma fl_of_int:
  assumes "\<bar>n\<bar> \<le> 2 ^ 53" shows "fl (of_int n) = of_int n"
proof -
  consider "0 < n" | "n = 0" | "n < 0" by linarith
  then show ?thesis
    by cases (use assms fl_exact_pos [of n 0] fl_exact_pos [of "- n" 0] fl_minus [of "of_int n"] in \<open>auto simp: two_pow_def\<close>)
qed

text \<open>The arithmetic of the sources, each operation rounded.\<close>

definition fmul :: "rat \<Rightarrow> rat \<Rightarrow> rat" where
  "fmul x y = fl (x * y)"

definition fdiv :: "rat \<Rightarrow> rat \<Rightarrow> rat" where
  "fdiv x y = fl (x / y)"

text \<open>\<^verbatim>\<open>Math.round\<close>: the nearest integer, ties towards positive infinity.\<close>

definition js_round :: "rat \<Rightarrow> int" where
  "js_round x = \<lfloor>x + 1 / 2\<rfloor>"

lemma fmul_mono: "0 \<le> x \<Longrightarrow> x \<le> x' \<Longrightarrow> 0 \<le> y \<Longrightarrow> y \<le> y' \<Longrightarrow> fmul x y \<le> fmul x' y'"
  unfolding fmul_def by (intro fl_mono mult_mono) auto

lemma fmul_nonneg [simp]: "0 \<le> x \<Longrightarrow> 0 \<le> y \<Longrightarrow> 0 \<le> fmul x y"
  by (simp add: fmul_def fl_nonneg)

lemma fl_fmul [simp]: "fl (fmul x y) = fmul x y"
  by (simp add: fmul_def)

lemma fdiv_mono: "0 \<le> x \<Longrightarrow> x \<le> x' \<Longrightarrow> 0 < y \<Longrightarrow> fdiv x y \<le> fdiv x' y"
  unfolding fdiv_def by (intro fl_mono divide_right_mono) auto

lemma fdiv_nonneg [simp]: "0 \<le> x \<Longrightarrow> 0 < y \<Longrightarrow> 0 \<le> fdiv x y"
  by (simp add: fdiv_def fl_nonneg)

lemma js_round_mono: "x \<le> y \<Longrightarrow> js_round x \<le> js_round y"
  unfolding js_round_def by (intro floor_mono) simp

lemma js_round_of_int [simp]: "js_round (of_int n) = n"
  by (simp add: js_round_def floor_unique)

lemma js_round_nonneg: "0 \<le> x \<Longrightarrow> 0 \<le> js_round x"
  by (simp add: js_round_def)

end
