(* ===== verification/Policy.thy ===== *)
theory Policy
  imports Schema Doubles Json "HOL-Library.Product_Lexorder"
begin

text \<open>
  The pure reward policy: \<^verbatim>\<open>src/lib/reward-policy.ts\<close> (what a deposit earns, how material is
  verified, which programs pay), \<^verbatim>\<open>src/lib/reward.ts\<close> (weight windows, which rate applies, the
  price of an item) and \<^verbatim>\<open>src/lib/session-policy.ts\<close> (the price list fixed when a session is
  admitted). Rupiah amounts are integers; prices are computed with the double arithmetic of
  theory \<open>Doubles\<close>.
\<close>

section \<open>What a deposit earns\<close>

datatype reward_status = R_ACCEPTED | R_REVIEW | R_REJECTED

record reward_decision =
  dec_status :: reward_status
  dec_amount :: int
  dec_ledgerStatus :: ledger_status
  dec_reason :: string

definition MAX_REWARD_RUPIAH :: int where
  "MAX_REWARD_RUPIAH = 2147483647"

definition REVIEW_HOLD_RATIO :: rat where
  "REVIEW_HOLD_RATIO = 1 / 2"

record reward_input =
  ri_mode :: reward_mode
  ri_baseAmount :: int
  ri_weightValid :: bool
  ri_typeMatch :: bool
  ri_hasAnomaly :: bool

definition decideReward :: "reward_input \<Rightarrow> reward_decision result" where
  "decideReward inp =
     (let base = ri_baseAmount inp in
      if \<not> isSafeInteger base \<or> base < 0 \<or> base > MAX_REWARD_RUPIAH
      then Inl (RangeError ''baseAmount must be a non-negative integer rupiah value'')
      else if \<not> ri_weightValid inp
      then Inr \<lparr>dec_status = R_REJECTED, dec_amount = 0, dec_ledgerStatus = LS_PENDING, dec_reason = ''WEIGHT_INVALID''\<rparr>
      else
        let review = ri_hasAnomaly inp \<or> \<not> ri_typeMatch inp;
            status = (if review then R_REVIEW else R_ACCEPTED);
            ledgerStatus = (if review then LS_PENDING else LS_AVAILABLE);
            reason = (if ri_hasAnomaly inp then ''ANOMALY_REVIEW''
                      else if \<not> ri_typeMatch inp then ''TYPE_MISMATCH'' else ''ACCEPTED'')
        in if ri_mode inp = COMPLIANCE_ONLY
           then Inr \<lparr>dec_status = status, dec_amount = 0, dec_ledgerStatus = ledgerStatus, dec_reason = reason\<rparr>
           else Inr \<lparr>dec_status = status,
                     dec_amount = (if review then \<lfloor>fmul (of_int base) REVIEW_HOLD_RATIO\<rfloor> else base),
                     dec_ledgerStatus = ledgerStatus, dec_reason = reason\<rparr>)"

section \<open>Material verification\<close>

definition AI_MIN_CONFIDENCE :: rat where
  "AI_MIN_CONFIDENCE = 1 / 2"

text \<open>\<^verbatim>\<open>replace(/[\s-]+/g, "_")\<close>: every run of white space and hyphens becomes one underscore.\<close>

fun underscore_runs :: "string \<Rightarrow> string" where
  "underscore_runs [] = []"
| "underscore_runs (c # s) =
     (if js_space c \<or> c = CHR ''-''
      then (case s of
              [] \<Rightarrow> [CHR ''_'']
            | e # _ \<Rightarrow> if js_space e \<or> e = CHR ''-'' then underscore_runs s else CHR ''_'' # underscore_runs s)
      else c # underscore_runs s)"

definition normalizeAiLabel :: "string \<Rightarrow> string" where
  "normalizeAiLabel label = underscore_runs (js_lower (js_trim label))"

text \<open>\<^verbatim>\<open>[...new Set(xs)]\<close>: the first occurrence of each element.\<close>

definition distinct_first :: "'a list \<Rightarrow> 'a list" where
  "distinct_first xs = rev (remdups (rev xs))"

definition normalizeAiLabels :: "string list \<Rightarrow> string list" where
  "normalizeAiLabels labels = distinct_first (filter (\<lambda>l. l \<noteq> []) (map normalizeAiLabel labels))"

record material_input =
  mi_policy :: "material_policy option" \<comment> \<open>none: missing or unknown\<close>
  mi_acceptedLabels :: "string list"
  mi_aiLabel :: "string option"
  mi_aiConfidence :: "rat option"
  mi_barcodeValue :: "string option"
  mi_minConfidence :: "rat option"

datatype material_reason =
    AI_MATCH | AI_TYPE_MISMATCH | AI_LOW_CONFIDENCE | AI_UNAVAILABLE | AI_TAXONOMY_MISSING
  | MR_BARCODE_WEIGHT | BARCODE_MISSING | MR_WEIGHT_ONLY

definition classifierReported :: "material_input \<Rightarrow> bool" where
  "classifierReported inp \<longleftrightarrow>
     (case (mi_aiLabel inp, mi_aiConfidence inp) of
        (Some l, Some c) \<Rightarrow> js_trim l \<noteq> [] \<and> c > 0
      | _ \<Rightarrow> False)"

text \<open>The requirement of the machine's own policy once the classifier raised no objection.\<close>

definition policy_requirement :: "material_policy \<Rightarrow> bool \<Rightarrow> string option \<Rightarrow> bool \<times> material_reason" where
  "policy_requirement policy aiConfirmed barcode =
     (if policy = BARCODE_WEIGHT
      then (case barcode of
              Some b \<Rightarrow> if js_trim b \<noteq> [] then (True, MR_BARCODE_WEIGHT) else (False, BARCODE_MISSING)
            | None \<Rightarrow> (False, BARCODE_MISSING))
      else if aiConfirmed then (True, AI_MATCH) else (True, MR_WEIGHT_ONLY))"

definition verifyMaterial :: "material_input \<Rightarrow> bool \<times> material_reason" where
  "verifyMaterial inp =
     (let policy = nullish (mi_policy inp) AI_REQUIRED;
          accepted = filter (\<lambda>l. l \<noteq> []) (map normalizeAiLabel (mi_acceptedLabels inp))
      in if classifierReported inp
         then if accepted \<noteq> []
              then if nullish (mi_aiConfidence inp) 0 < nullish (mi_minConfidence inp) AI_MIN_CONFIDENCE
                   then (False, AI_LOW_CONFIDENCE)
                   else if normalizeAiLabel (nullish (mi_aiLabel inp) []) \<notin> set accepted
                   then (False, AI_TYPE_MISMATCH)
                   else policy_requirement policy True (mi_barcodeValue inp)
              else if policy = AI_REQUIRED then (False, AI_TAXONOMY_MISSING)
              else policy_requirement policy False (mi_barcodeValue inp)
         else if policy = AI_REQUIRED then (False, AI_UNAVAILABLE)
         else policy_requirement policy False (mi_barcodeValue inp))"

section \<open>Which programs pay\<close>

definition campaignSupportsMachine :: "campaign_type \<Rightarrow> bool \<Rightarrow> bool" where
  "campaignSupportsMachine campaignType supportsMachine =
     (case campaignType of
        MACHINE_DEPOSIT \<Rightarrow> True
      | EVENT \<Rightarrow> supportsMachine
      | SCHOOL_PROGRAM \<Rightarrow> supportsMachine
      | _ \<Rightarrow> False)"

text \<open>The campaign of a session, if it has one, as type, mode and machine flag.\<close>

definition machineRewardMode :: "(campaign_type \<times> reward_mode \<times> bool) option \<Rightarrow> reward_mode \<Rightarrow> reward_mode" where
  "machineRewardMode campaign organizationMode =
     (case campaign of
        None \<Rightarrow> organizationMode
      | Some (t, mode, supports) \<Rightarrow>
          if \<not> campaignSupportsMachine t supports then COMPLIANCE_ONLY else mode)"

definition tripRewardMode :: "campaign_type \<Rightarrow> reward_mode \<Rightarrow> reward_mode" where
  "tripRewardMode campaignType mode =
     (if campaignType \<noteq> TRASH_BAG \<and> campaignType \<noteq> TOURISM_PROGRAM then COMPLIANCE_ONLY else mode)"

definition campaign_shape :: "campaign \<Rightarrow> campaign_type \<times> reward_mode \<times> bool" where
  "campaign_shape c = (cmp_campaignType c, cmp_rewardMode c, cmp_supportsMachine c)"

section \<open>Weights, rates and prices\<close>

text \<open>None: the weight is valid; otherwise the reason code.\<close>

definition validateWeight :: "int option \<Rightarrow> int option \<Rightarrow> int option \<Rightarrow> string option" where
  "validateWeight weightGrams minGrams maxGrams =
     (case weightGrams of
        None \<Rightarrow> Some ''WEIGHT_MISSING''
      | Some w \<Rightarrow>
          if (case minGrams of None \<Rightarrow> False | Some m \<Rightarrow> w < m) then Some ''WEIGHT_BELOW_MIN''
          else if (case maxGrams of None \<Rightarrow> False | Some m \<Rightarrow> w > m) then Some ''WEIGHT_ABOVE_MAX''
          else None)"

definition ratePriority :: "reward_rate \<Rightarrow> ident \<Rightarrow> ident option \<Rightarrow> int" where
  "ratePriority rate organizationId campaignId =
     (if campaignId \<noteq> None \<and> rr_campaignId rate = campaignId then 0
      else if rr_organizationId rate = Some organizationId \<and> rr_campaignId rate = None then 1
      else if rr_organizationId rate = None \<and> rr_campaignId rate = None then 2
      else 99)"

definition rateWindowContains :: "reward_rate \<Rightarrow> int \<Rightarrow> bool" where
  "rateWindowContains rate t \<longleftrightarrow>
     rr_effectiveFrom rate \<le> t \<and> (case rr_effectiveTo rate of None \<Rightarrow> True | Some e \<Rightarrow> e > t)"

definition inRateWindow :: "reward_rate \<Rightarrow> int \<Rightarrow> bool" where
  "inRateWindow rate now \<longleftrightarrow> rr_active rate \<and> rateWindowContains rate now"

text \<open>The scope condition of the query: the campaign's rates, the organization's own, the global ones.\<close>

definition rate_in_scope :: "ident \<Rightarrow> ident option \<Rightarrow> reward_rate \<Rightarrow> bool" where
  "rate_in_scope organizationId campaignId rate \<longleftrightarrow>
     (campaignId \<noteq> None \<and> rr_campaignId rate = campaignId)
     \<or> (rr_organizationId rate = Some organizationId \<and> rr_campaignId rate = None)
     \<or> (rr_organizationId rate = None \<and> rr_campaignId rate = None)"

definition selectRewardRate ::
  "ident \<Rightarrow> ident option \<Rightarrow> ident \<Rightarrow> int \<Rightarrow> bool \<Rightarrow> reward_rate list \<Rightarrow> reward_rate option" where
  "selectRewardRate organizationId campaignId wasteTypeId t requireActive rates =
     (let window = (\<lambda>r. if requireActive then inRateWindow r t else rateWindowContains r t);
          found = sort_key (\<lambda>r. - rr_effectiveFrom r)
                    (filter (\<lambda>r. rr_wasteTypeId r = wasteTypeId \<and> window r \<and> rate_in_scope organizationId campaignId r) rates);
          candidates = filter window found
      in case sort_key (\<lambda>r. (ratePriority r organizationId campaignId, - rr_effectiveFrom r)) candidates of
           [] \<Rightarrow> None
         | r # _ \<Rightarrow> Some r)"

definition resolveRewardRate :: "ident \<Rightarrow> ident option \<Rightarrow> ident \<Rightarrow> int \<Rightarrow> db \<Rightarrow> reward_rate option" where
  "resolveRewardRate organizationId campaignId wasteTypeId now d =
     selectRewardRate organizationId campaignId wasteTypeId now True (rewardRates d)"

definition resolveRewardRateAt :: "ident \<Rightarrow> ident option \<Rightarrow> ident \<Rightarrow> int \<Rightarrow> db \<Rightarrow> reward_rate option" where
  "resolveRewardRateAt organizationId campaignId wasteTypeId t d =
     selectRewardRate organizationId campaignId wasteTypeId t False (rewardRates d)"

definition computeRewardAmount :: "int \<Rightarrow> int \<Rightarrow> rat \<Rightarrow> int" where
  "computeRewardAmount pointsPerItem quantity multiplier =
     js_round (fmul (fmul (of_int pointsPerItem) (of_int quantity)) multiplier)"

definition computeWeightBasedRewardAmount :: "int \<Rightarrow> int option \<Rightarrow> rat \<Rightarrow> int" where
  "computeWeightBasedRewardAmount ratePerKg measuredWeightGrams multiplier =
     (let grams = nullish measuredWeightGrams 0
      in \<lfloor>fmul (fmul (fdiv (of_int grams) 1000) (of_int ratePerKg)) multiplier\<rfloor>)"

section \<open>The price list of a session\<close>

definition SESSION_POLICY_VERSION :: int where
  "SESSION_POLICY_VERSION = 1"

definition BPS :: int where
  "BPS = 10000"

definition multiplierToBps :: "rat option \<Rightarrow> int" where
  "multiplierToBps multiplier =
     (let value = (case multiplier of Some m \<Rightarrow> if m > 0 then m else 1 | None \<Rightarrow> 1)
      in js_round (fmul value (of_int BPS)))"

definition bpsToMultiplier :: "int \<Rightarrow> rat" where
  "bpsToMultiplier multiplierBps = fdiv (of_int multiplierBps) (of_int BPS)"

definition policyItemCap :: "policy_type \<Rightarrow> int \<Rightarrow> int option" where
  "policyItemCap type multiplierBps =
     (let multiplier = bpsToMultiplier multiplierBps
      in if pt_unit type = KG
         then (case pt_maxWeightGrams type of
                 None \<Rightarrow> None
               | Some g \<Rightarrow> Some (computeWeightBasedRewardAmount (pt_rewardPerUnit type) (Some g) multiplier))
         else Some (computeRewardAmount (pt_rewardPerUnit type) 1 multiplier))"

definition show_unit :: "waste_unit \<Rightarrow> string" where
  "show_unit u = (case u of ITEM \<Rightarrow> ''ITEM'' | KG \<Rightarrow> ''KG'')"

definition show_mode :: "reward_mode \<Rightarrow> string" where
  "show_mode m = (case m of MONEY_REWARD \<Rightarrow> ''MONEY_REWARD'' | COMPLIANCE_ONLY \<Rightarrow> ''COMPLIANCE_ONLY'')"

definition json_opt_int :: "int option \<Rightarrow> string" where
  "json_opt_int v = (case v of None \<Rightarrow> ''null'' | Some n \<Rightarrow> show_int n)"

definition json_array :: "string list \<Rightarrow> string" where
  "json_array xs = CHR ''['' # concat (case xs of [] \<Rightarrow> [] | x # r \<Rightarrow> x # map (\<lambda>y. CHR '','' # y) r) @ [CHR '']'']"

definition canonical_row :: "policy_type \<Rightarrow> string" where
  "canonical_row type = json_array
     [json_string (pt_id type), json_string (show_unit (pt_unit type)), show_int (pt_rewardPerUnit type),
      json_opt_int (pt_maxRewardRupiah type)]"

definition canonicalSessionPolicy :: "policy_snapshot \<Rightarrow> string" where
  "canonicalSessionPolicy policy = json_array
     [show_int SESSION_POLICY_VERSION, json_string (show_mode (ps_mode policy)), show_int (ps_multiplierBps policy),
      json_array (map canonical_row (sort_key pt_id (ps_wasteTypes policy)))]"

definition sessionPolicyVersion :: "world \<Rightarrow> policy_snapshot \<Rightarrow> string" where
  "sessionPolicyVersion w policy = w_sha256 w (canonicalSessionPolicy policy)"

fun max_cap :: "int \<Rightarrow> policy_type list \<Rightarrow> int option" where
  "max_cap m [] = Some m"
| "max_cap m (t # ts) =
     (case pt_maxRewardRupiah t of
        None \<Rightarrow> None
      | Some c \<Rightarrow> max_cap (if c > m then c else m) ts)"

definition snapshotMaxItemCap :: "policy_snapshot option \<Rightarrow> int option" where
  "snapshotMaxItemCap policy =
     (case policy of
        None \<Rightarrow> None
      | Some p \<Rightarrow> if ps_mode p \<noteq> MONEY_REWARD then Some 0 else max_cap 0 (ps_wasteTypes p))"

text \<open>The limits a user sees: the reward ceiling and the item bound.\<close>

definition sessionLimits :: "policy_snapshot option \<Rightarrow> int option \<times> int option" where
  "sessionLimits policy =
     (case policy of
        None \<Rightarrow> (None, None)
      | Some p \<Rightarrow> (if ps_mode p = MONEY_REWARD then ps_ceilingRupiah p else None, ps_maxItems p))"

text \<open>A nullable value satisfies a check when it is absent or passes it.\<close>

definition opt_all :: "('a \<Rightarrow> bool) \<Rightarrow> 'a option \<Rightarrow> bool" where
  "opt_all P v = (case v of None \<Rightarrow> True | Some x \<Rightarrow> P x)"

lemma opt_all_simps [simp]:
  "opt_all P None" "opt_all P (Some x) = P x"
  by (simp_all add: opt_all_def)

text \<open>The zod schema: integers are safe integers, ids are not empty.\<close>

definition nonNegativeInt :: "int \<Rightarrow> bool" where
  "nonNegativeInt n \<longleftrightarrow> isSafeInteger n \<and> 0 \<le> n"

definition type_schema :: "policy_type \<Rightarrow> bool" where
  "type_schema t \<longleftrightarrow> pt_id t \<noteq> [] \<and> nonNegativeInt (pt_rewardPerUnit t)
     \<and> opt_all nonNegativeInt (pt_maxRewardRupiah t) \<and> opt_all (\<lambda>s. s \<noteq> []) (pt_rewardRateId t)
     \<and> opt_all nonNegativeInt (pt_minWeightGrams t) \<and> opt_all nonNegativeInt (pt_maxWeightGrams t)"

definition snapshotSchema :: "policy_snapshot \<Rightarrow> bool" where
  "snapshotSchema p \<longleftrightarrow> ps_version p = SESSION_POLICY_VERSION \<and> isSafeInteger (ps_multiplierBps p)
     \<and> 0 < ps_multiplierBps p \<and> opt_all nonNegativeInt (ps_ceilingRupiah p)
     \<and> opt_all (\<lambda>n. isSafeInteger n \<and> 0 < n) (ps_maxItems p) \<and> ps_capturedAt p \<noteq> []
     \<and> list_all type_schema (ps_wasteTypes p)"

definition parseSessionPolicy :: "policy_snapshot option \<Rightarrow> policy_snapshot option" where
  "parseSessionPolicy json = (case json of None \<Rightarrow> None | Some p \<Rightarrow> if snapshotSchema p then Some p else None)"

text \<open>One entry of the price list: the rate in force now, else the type's own values.\<close>

definition price_entry ::
  "ident \<Rightarrow> ident option \<Rightarrow> reward_mode \<Rightarrow> int \<Rightarrow> int \<Rightarrow> db \<Rightarrow> waste_type \<Rightarrow> policy_type" where
  "price_entry organizationId campaignId mode multiplierBps now d type =
     (let rate = resolveRewardRate organizationId campaignId (wt_id type) now d;
          entry = \<lparr>pt_id = wt_id type,
            pt_unit = (case rate of None \<Rightarrow> wt_unit type | Some r \<Rightarrow> rr_unit r),
            pt_rewardPerUnit =
              (if mode = MONEY_REWARD
               then max 0 (case rate of None \<Rightarrow> nullish (wt_defaultRewardPerItem type) 0 | Some r \<Rightarrow> rr_pointsPerItem r)
               else 0),
            pt_maxRewardRupiah = None, pt_rewardRateId = map_option rr_id rate,
            pt_minWeightGrams = (case Option.bind rate rr_minWeightGrams of None \<Rightarrow> wt_minWeightGrams type | Some g \<Rightarrow> Some g),
            pt_maxWeightGrams = (case Option.bind rate rr_maxWeightGrams of None \<Rightarrow> wt_maxWeightGrams type | Some g \<Rightarrow> Some g)\<rparr>
      in entry\<lparr>pt_maxRewardRupiah := policyItemCap entry multiplierBps\<rparr>)"

text \<open>The active waste types of a machine.\<close>

definition machine_types :: "ident \<Rightarrow> db \<Rightarrow> waste_type list" where
  "machine_types machineId d =
     List.map_filter (\<lambda>l. if mwt_machineId l = machineId \<and> mwt_active l
                           then find_by wt_id (mwt_wasteTypeId l) (wasteTypes d) else None) (machineWasteTypes d)"

definition buildSessionPolicy ::
  "world \<Rightarrow> machine \<Rightarrow> reward_mode \<Rightarrow> campaign option \<Rightarrow> int option \<Rightarrow> db \<Rightarrow> policy_snapshot" where
  "buildSessionPolicy w machine organizationMode campaign ceilingRupiah d =
     (let now = w_now w;
          machineCampaign = (case campaign of
             Some c \<Rightarrow> if campaignSupportsMachine (cmp_campaignType c) (cmp_supportsMachine c) then Some c else None
           | None \<Rightarrow> None);
          mode = machineRewardMode (map_option campaign_shape campaign) organizationMode;
          multiplierBps = multiplierToBps (Option.bind machineCampaign cmp_rewardMultiplier);
          entries = map (price_entry (mac_organizationId machine) (map_option cmp_id machineCampaign) mode multiplierBps now d)
                      (machine_types (mac_id machine) d)
      in \<lparr>ps_version = SESSION_POLICY_VERSION, ps_mode = mode, ps_multiplierBps = multiplierBps,
          ps_ceilingRupiah = (if mode = MONEY_REWARD then ceilingRupiah else None),
          ps_maxItems = (case mac_maxItemsPerSession machine of Some n \<Rightarrow> if n > 0 then Some n else None | None \<Rightarrow> None),
          ps_capturedAt = w_isoDate w now, ps_wasteTypes = sort_key pt_id entries\<rparr>)"

section \<open>Reward points\<close>

definition toRewardPoints :: "int \<Rightarrow> int \<Rightarrow> int" where
  "toRewardPoints amount pointsToRupiah =
     (if pointsToRupiah \<le> 0 then 0 else \<lfloor>fdiv (of_int amount) (of_int pointsToRupiah)\<rfloor>)"

definition formatRewardPoints :: "int \<Rightarrow> int \<Rightarrow> string" where
  "formatRewardPoints amount pointsToRupiah = toLocaleString (toRewardPoints amount pointsToRupiah) @ '' poin''"

end
