(* ===== verification/Trip.thy ===== *)
theory Trip
  imports Policy
begin

text \<open>
  The trip programs: compliance scores (\<^verbatim>\<open>src/lib/tourism.ts\<close>) and the pure part of
  \<^verbatim>\<open>src/lib/trip.ts\<close> (bag conditions, the return reward, the status rules of a trip). The
  properties relate the reward of a checked-out trip to the ceiling that bag issuance reserves
  for it (\<^verbatim>\<open>tripIssuanceCeiling\<close> of \<^verbatim>\<open>src/lib/reward-funding.ts\<close>).
\<close>

section \<open>Compliance\<close>

datatype trip_stage = CHECK_IN | CHECK_OUT | BANK_SAMPAH_PICKUP

datatype compliance_status = NOT_STARTED | CHECKED_IN | COMPLIANT | NEEDS_REVIEW | NON_COMPLIANT

record compliance_input =
  ci_stage :: trip_stage
  ci_appCompleted :: bool
  ci_assignedBagCount :: "int option"
  ci_returnedBagCount :: "int option"
  ci_conditionStatus :: "condition option"

definition normalizeTravelAgentEmail :: "string \<Rightarrow> string" where
  "normalizeTravelAgentEmail email = js_lower (js_trim email)"

definition calculateCompliance :: "compliance_input \<Rightarrow> int \<times> compliance_status" where
  "calculateCompliance inp =
     (case ci_stage inp of
        CHECK_IN \<Rightarrow> (if ci_appCompleted inp then 30 else 0, CHECKED_IN)
      | BANK_SAMPAH_PICKUP \<Rightarrow> (100, COMPLIANT)
      | CHECK_OUT \<Rightarrow>
          (let assigned = max 0 (nullish (ci_assignedBagCount inp) 0);
               returned = max 0 (nullish (ci_returnedBagCount inp) 0);
               appScore = (if ci_appCompleted inp then 30 else 0);
               returnScore = (if assigned = 0 then (if returned > 0 then 40 else 0)
                              else if returned \<ge> assigned then 40 else if returned > 0 then 20 else 0);
               sortedScore = (case ci_conditionStatus inp of Some GOOD \<Rightarrow> 30 | Some PARTIAL \<Rightarrow> 20 | _ \<Rightarrow> 0);
               score = appScore + returnScore + sortedScore
           in (score, if score \<ge> 80 then COMPLIANT else if score \<ge> 50 then NEEDS_REVIEW else NON_COMPLIANT)))"

section \<open>Bags and rewards\<close>

definition TRASH_BAG_REWARD_PER_BAG :: int where
  "TRASH_BAG_REWARD_PER_BAG = 2000"

definition isTrashBagCampaignType :: "campaign_type option \<Rightarrow> bool" where
  "isTrashBagCampaignType t \<longleftrightarrow> t = Some TRASH_BAG \<or> t = Some TOURISM_PROGRAM"

definition requiresTravelAgent :: "campaign_type option \<Rightarrow> bool" where
  "requiresTravelAgent t \<longleftrightarrow> t = Some TOURISM_PROGRAM"

definition isRewardableCondition :: "condition option \<Rightarrow> bool" where
  "isRewardableCondition c \<longleftrightarrow> c = Some GOOD \<or> c = Some PARTIAL"

definition known_statuses :: "condition option list \<Rightarrow> condition list" where
  "known_statuses statuses = List.map_filter (\<lambda>s. s) statuses"

definition aggregateBagCondition :: "condition option list \<Rightarrow> condition option" where
  "aggregateBagCondition statuses =
     (let known = known_statuses statuses in
      if known = [] then None
      else if list_all (\<lambda>s. s = NOT_RETURNED) known then Some NOT_RETURNED
      else if list_all (\<lambda>s. s = GOOD) known then Some GOOD
      else if list_ex (\<lambda>s. s = POOR) known then Some POOR
      else Some PARTIAL)"

definition effectiveMultiplier :: "rat option \<Rightarrow> rat" where
  "effectiveMultiplier m = (case m of Some v \<Rightarrow> if v > 0 then v else 1 | None \<Rightarrow> 1)"

definition computeTrashBagRewardAmount :: "int \<Rightarrow> int \<Rightarrow> rat option \<Rightarrow> int option \<Rightarrow> int" where
  "computeTrashBagRewardAmount rewardableBagCount complianceScore rewardMultiplier rewardPerBag =
     (if rewardableBagCount \<le> 0 then 0
      else
        let perBag = nullish rewardPerBag TRASH_BAG_REWARD_PER_BAG;
            base = fmul (fmul (of_int rewardableBagCount) (of_int perBag)) (effectiveMultiplier rewardMultiplier);
            complianceMult = fdiv (of_int (max 0 (min 100 complianceScore))) 100
        in \<lfloor>fmul base complianceMult\<rfloor>)"

record trip_evaluation =
  te_assignedCount :: int
  te_reviewedCount :: int
  te_returnedCount :: int
  te_rewardableCount :: int
  te_conditionStatus :: "condition option"
  te_compliance :: "int \<times> compliance_status"
  te_rewardAmount :: int

definition evaluateTripBags ::
  "condition option list \<Rightarrow> bool \<Rightarrow> reward_mode \<Rightarrow> bool \<Rightarrow> rat option \<Rightarrow> trip_evaluation" where
  "evaluateTripBags statuses appCompleted mode hasRecipient rewardMultiplier =
     (let known = known_statuses statuses;
          returnedCount = int (length (filter (\<lambda>s. s \<noteq> NOT_RETURNED) known));
          rewardableCount = int (length (filter (\<lambda>s. isRewardableCondition (Some s)) known));
          conditionStatus = aggregateBagCondition (map Some known);
          compliance = calculateCompliance \<lparr>ci_stage = CHECK_OUT, ci_appCompleted = appCompleted,
            ci_assignedBagCount = Some (int (length statuses)), ci_returnedBagCount = Some returnedCount,
            ci_conditionStatus = conditionStatus\<rparr>
      in \<lparr>te_assignedCount = int (length statuses), te_reviewedCount = int (length known),
          te_returnedCount = returnedCount, te_rewardableCount = rewardableCount,
          te_conditionStatus = conditionStatus, te_compliance = compliance,
          te_rewardAmount =
            (if mode = MONEY_REWARD \<and> hasRecipient
             then computeTrashBagRewardAmount rewardableCount (fst compliance) rewardMultiplier (Some TRASH_BAG_REWARD_PER_BAG)
             else 0)\<rparr>)"

section \<open>Status rules\<close>

definition MANUAL_STATUS_REFUSED :: string where
  "MANUAL_STATUS_REFUSED = ''Status trip hanya bisa dibatalkan (PLANNED/ACTIVE -> CANCELLED) atau dibuka ulang (CANCELLED -> PLANNED). Check-in/out mengatur ACTIVE/COMPLETED otomatis.''"

text \<open>None: allowed; otherwise the reason shown (its arrows written in ASCII).\<close>

definition canManuallySetTripStatus :: "trip_status \<Rightarrow> trip_status \<Rightarrow> string option" where
  "canManuallySetTripStatus current next =
     (if current = next then None
      else if next = TS_CANCELLED \<and> (current = TS_PLANNED \<or> current = TS_ACTIVE) then None
      else if next = TS_PLANNED \<and> current = TS_CANCELLED then None
      else Some MANUAL_STATUS_REFUSED)"

definition canIssueBagsForTripStatus :: "trip_status \<Rightarrow> bool" where
  "canIssueBagsForTripStatus status \<longleftrightarrow> status = TS_PLANNED \<or> status = TS_ACTIVE"

definition canValidateTripStage :: "trip_status \<Rightarrow> trip_stage \<Rightarrow> string option" where
  "canValidateTripStage tripStatus stage =
     (if tripStatus = TS_CANCELLED then Some ''Trip sudah dibatalkan''
      else if stage = BANK_SAMPAH_PICKUP
      then if tripStatus \<noteq> TS_COMPLETED then Some ''Pickup bank sampah hanya untuk trip yang sudah check-out'' else None
      else if tripStatus = TS_COMPLETED then Some ''Trip sudah selesai; validasi gerbang tidak dapat diulang''
      else if stage = CHECK_IN \<and> tripStatus = TS_ACTIVE then Some ''Trip sudah check-in''
      else if stage = CHECK_OUT \<and> tripStatus = TS_PLANNED then Some ''Lakukan check-in terlebih dahulu sebelum check-out''
      else None)"

section \<open>The reserved ceiling\<close>

definition tripIssuanceCeiling :: "int \<Rightarrow> rat option \<Rightarrow> int result" where
  "tripIssuanceCeiling bagRows rewardMultiplier =
     (if \<not> isSafeInteger bagRows \<or> bagRows \<le> 0 then Inr 0
      else
        let c = \<lceil>fmul (fmul (of_int bagRows) (of_int TRASH_BAG_REWARD_PER_BAG)) (effectiveMultiplier rewardMultiplier)\<rceil>
        in if \<not> isSafeInteger c \<or> c > 2147483647
           then Inl (HttpError 422 ''Nilai reward trip melebihi batas yang diizinkan'') else Inr c)"

section \<open>Properties\<close>

lemma effectiveMultiplier_pos: "0 < effectiveMultiplier m"
  by (auto simp: effectiveMultiplier_def split: option.splits)

lemma compliance_score_range: "0 \<le> fst (calculateCompliance inp) \<and> fst (calculateCompliance inp) \<le> 100"
  by (auto simp: calculateCompliance_def Let_def split: trip_stage.splits option.splits condition.splits)

lemma known_statuses_length: "length (known_statuses xs) \<le> length xs"
  by (simp add: known_statuses_def map_filter_def)

lemma trash_bag_reward_le:
  assumes "0 \<le> n" "n \<le> b"
  shows "computeTrashBagRewardAmount n score m None
      \<le> \<lceil>fmul (fmul (of_int b) (of_int TRASH_BAG_REWARD_PER_BAG)) (effectiveMultiplier m)\<rceil>"
    "0 \<le> computeTrashBagRewardAmount n score m None"
proof -
  let ?m = "effectiveMultiplier m" and ?p = "of_int TRASH_BAG_REWARD_PER_BAG :: rat"
  let ?base = "\<lambda>k :: int. fmul (fmul (of_int k) ?p) ?m" and ?c = "fdiv (of_int (max 0 (min 100 score))) 100"
  have m: "0 \<le> ?m" using effectiveMultiplier_pos [of m] by linarith
  have p: "0 \<le> ?p" by (simp add: TRASH_BAG_REWARD_PER_BAG_def)
  have nonneg: "0 \<le> ?base k" if "0 \<le> k" for k using that m p by simp
  have "?c \<le> fdiv (of_int 100) 100" by (rule fdiv_mono) auto
  also have "\<dots> = 1" using fl_of_int [of 1] by (simp add: fdiv_def)
  finally have c: "?c \<le> 1" "0 \<le> ?c" by auto
  have "fmul (?base n) ?c \<le> fmul (?base n) 1" by (rule fmul_mono [OF nonneg [OF assms(1)] order_refl c(2,1)])
  also have "\<dots> = ?base n" by (simp add: fmul_def)
  also have "\<dots> \<le> ?base b" using assms m p by (intro fmul_mono fmul_nonneg) auto
  finally have "\<lfloor>fmul (?base n) ?c\<rfloor> \<le> \<lceil>?base b\<rceil>"
    by (meson floor_le_ceiling floor_mono order_trans)
  then show "computeTrashBagRewardAmount n score m None \<le> \<lceil>?base b\<rceil>"
    using nonneg [of b] assms by (auto simp: computeTrashBagRewardAmount_def Let_def)
  show "0 \<le> computeTrashBagRewardAmount n score m None"
    using nonneg [OF assms(1)] c by (auto simp: computeTrashBagRewardAmount_def Let_def le_floor_iff)
qed



text \<open>
  The life of a trip as the gates see it. Check-in is possible exactly for a planned trip,
  check-out exactly for an active one, a waste-bank pickup exactly after completion; a cancelled
  trip passes no gate, and a manual change is either no change, a cancellation of an open trip or
  the reopening of a cancelled one, so a completed trip never changes by hand.
\<close>

theorem trip_gates_follow_the_status:
  "(canValidateTripStage s CHECK_IN = None) = (s = TS_PLANNED)
   \<and> (canValidateTripStage s CHECK_OUT = None) = (s = TS_ACTIVE)
   \<and> (canValidateTripStage s BANK_SAMPAH_PICKUP = None) = (s = TS_COMPLETED)
   \<and> (canManuallySetTripStatus s n = None) =
       (n = s \<or> (canIssueBagsForTripStatus s \<and> n = TS_CANCELLED) \<or> (s = TS_CANCELLED \<and> n = TS_PLANNED))
   \<and> (canManuallySetTripStatus TS_COMPLETED n = None) = (n = TS_COMPLETED)"
  by (cases s; cases n)
    (auto simp: canValidateTripStage_def canManuallySetTripStatus_def canIssueBagsForTripStatus_def)

end
