(* ===== verification/Guards.thy ===== *)
theory Guards
  imports Funding_Props Frames Trip
begin

text \<open>
  The rest of \<^verbatim>\<open>src/lib/reward-funding.ts\<close>: the ceilings and caps a money program must
  configure, which sessions of a program can still create obligations, what undecided items can
  still draw from a reservation, the close of a watermarked session, the guards against changing
  a program's terms under open sources, and the read model of the reconciliation report.
\<close>

section \<open>Ceilings\<close>

definition SESSION_CEILING_NOT_CONFIGURED :: string where
  "SESSION_CEILING_NOT_CONFIGURED = ''Batas reward per sesi wajib diisi sebelum program berhadiah diaktifkan''"
definition CAMPAIGN_BUDGET_REQUIRED_FOR_ACTIVATION :: string where
  "CAMPAIGN_BUDGET_REQUIRED_FOR_ACTIVATION = ''Kuota reward program wajib diisi sebelum program berhadiah diaktifkan''"
definition PROGRAM_HAS_OPEN_SOURCES :: string where
  "PROGRAM_HAS_OPEN_SOURCES = ''Program masih memiliki sesi setoran atau trip yang berjalan. Tunggu sampai berakhir sebelum mengubah mode reward atau multiplier.''"
definition ORGANIZATION_HAS_OPEN_SESSIONS :: string where
  "ORGANIZATION_HAS_OPEN_SESSIONS = ''Organisasi masih memiliki sesi setoran berjalan tanpa program. Tunggu sampai berakhir sebelum mengubah mode reward mesin.''"

definition resolveSessionCeiling :: "campaign option \<Rightarrow> machine \<Rightarrow> int option" where
  "resolveSessionCeiling campaign machine =
     (case configuredCap (Option.bind campaign cmp_maxRewardPerSessionRupiah) of
        Some c \<Rightarrow> Some c
      | None \<Rightarrow> configuredCap (mac_maxRewardPerSessionRupiah machine))"

definition assertMoneyProgramConfigured :: "bool \<Rightarrow> campaign \<Rightarrow> unit result" where
  "assertMoneyProgramConfigured enforced campaign =
     (if \<not> enforced then Inr ()
      else if cmp_status campaign \<noteq> CS_ACTIVE \<or> cmp_rewardMode campaign \<noteq> MONEY_REWARD then Inr ()
      else if configuredCap (cmp_rewardBudgetRupiah campaign) = None
      then Inl (HttpError 422 CAMPAIGN_BUDGET_REQUIRED_FOR_ACTIVATION)
      else if (cmp_campaignType campaign = MACHINE_DEPOSIT
               \<or> ((cmp_campaignType campaign = EVENT \<or> cmp_campaignType campaign = SCHOOL_PROGRAM) \<and> cmp_supportsMachine campaign))
            \<and> configuredCap (cmp_maxRewardPerSessionRupiah campaign) = None
      then Inl (HttpError 422 SESSION_CEILING_NOT_CONFIGURED)
      else Inr ())"

section \<open>Open sources\<close>

definition OPEN_SESSION_STATUSES :: "session_status list" where
  "OPEN_SESSION_STATUSES = [SS_RESERVED, SS_ACTIVE, SS_PROCESSING_ITEM, SS_REVIEW]"
definition TERMINAL_SESSION_STATUSES :: "session_status list" where
  "TERMINAL_SESSION_STATUSES = [SS_COMPLETED, SS_CANCELLED, SS_EXPIRED]"
definition UNDECIDED_ITEM_STATUSES :: "item_status list" where
  "UNDECIDED_ITEM_STATUSES = [IS_PENDING, IS_REVIEW]"

text \<open>
  The two scopes the callers use: the sessions of one program, or the sessions without a
  program on an organization's machines.
\<close>

datatype session_scope = OfCampaign ident | WithoutCampaign ident

definition in_scope :: "session_scope \<Rightarrow> db \<Rightarrow> session \<Rightarrow> bool" where
  "in_scope scope d s =
     (case scope of
        OfCampaign c \<Rightarrow> ses_campaignId s = Some c
      | WithoutCampaign org \<Rightarrow> ses_campaignId s = None
          \<and> (case find_by mac_id (ses_machineId s) (machines d) of None \<Rightarrow> False | Some m \<Rightarrow> mac_organizationId m = org))"

definition undecided_of :: "db \<Rightarrow> session \<Rightarrow> item list" where
  "undecided_of d s = filter (\<lambda>i. itm_sessionId i = ses_id s \<and> itm_status i \<in> set UNDECIDED_ITEM_STATUSES) (items d)"

definition openSessionWhere :: "session_scope \<Rightarrow> db \<Rightarrow> session \<Rightarrow> bool" where
  "openSessionWhere scope d s \<longleftrightarrow> in_scope scope d s \<and>
     (ses_status s \<in> set OPEN_SESSION_STATUSES
      \<or> (ses_status s \<in> set TERMINAL_SESSION_STATUSES \<and> ses_closeWatermarkAt s = None \<and> undecided_of d s \<noteq> [])
      \<or> (ses_status s \<in> set TERMINAL_SESSION_STATUSES \<and> ses_closeWatermarkAt s \<noteq> None
         \<and> list_ex (\<lambda>i. itm_acceptanceEventId i \<noteq> None) (undecided_of d s)))"

definition countHeldEndedSessions :: "session_scope \<Rightarrow> db \<Rightarrow> int" where
  "countHeldEndedSessions scope d =
     int (length (filter (\<lambda>r. rsv_sourceType r = SESSION \<and> rsv_status r = RES_ACTIVE
       \<and> (case find_by ses_id (rsv_sourceId r) (sessions d) of
            None \<Rightarrow> False
          | Some s \<Rightarrow> ses_status s \<in> set TERMINAL_SESSION_STATUSES \<and> in_scope scope d s)) (reservations d)))"

section \<open>What undecided items can still draw\<close>

definition exposed_items :: "ident \<Rightarrow> db \<Rightarrow> item list" where
  "exposed_items sessionId d =
     sort_key itm_id (filter (\<lambda>i. itm_sessionId i = sessionId \<and> itm_status i \<in> set UNDECIDED_ITEM_STATUSES
       \<and> itm_acceptanceEventId i \<noteq> None) (items d))"

definition item_exposure :: "int \<Rightarrow> db \<Rightarrow> item \<Rightarrow> int" where
  "item_exposure cap d i =
     max 0 (cap - (case find_by com_businessKey (depositItemEarnKey (itm_id i)) (commits d) of
                     None \<Rightarrow> 0 | Some c \<Rightarrow> com_heldRupiah c))"

text \<open>The exposure (none: unbounded) and the number of undecided accepted items.\<close>

definition sessionReviewExposure :: "ident \<Rightarrow> db \<Rightarrow> int option \<times> int" where
  "sessionReviewExposure sessionId d =
     (let its = exposed_items sessionId d in
      if its = [] then (Some 0, 0)
      else
        let snapshot = Option.bind (find_by ses_id sessionId (sessions d)) ses_policySnapshot
        in case snapshotMaxItemCap (parseSessionPolicy snapshot) of
             None \<Rightarrow> (None, int (length its))
           | Some cap \<Rightarrow> (Some (foldl (\<lambda>s i. s + item_exposure cap d i) 0 its), int (length its)))"

definition REVIEW_SETTLED_RELEASE_REASON :: string where
  "REVIEW_SETTLED_RELEASE_REASON = ''REVIEW_SETTLED''"

definition closeWatermarkedSessionIfSettled :: "world \<Rightarrow> ident \<Rightarrow> db \<Rightarrow> int option tx" where
  "closeWatermarkedSessionIfSettled w sessionId d =
     (case Option.bind (find_by ses_id sessionId (sessions d)) ses_closeWatermarkAt of
        None \<Rightarrow> Inr (None, d)
      | Some _ \<Rightarrow>
        (case findReservationByKey (sessionAdmissionKey sessionId) d of
           None \<Rightarrow> Inr (None, d)
         | Some reservation \<Rightarrow>
             if rsv_status reservation \<noteq> RES_ACTIVE then Inr (None, d)
             else if fst (sessionReviewExposure sessionId d) \<noteq> Some 0 then Inr (None, d)
             else rbind (releaseUnusedRewardBudget w (rsv_id reservation) (rsv_remainingRupiah reservation)
                    \<lparr>ro_close = True, ro_releasedById = None, ro_reason = Some REVIEW_SETTLED_RELEASE_REASON,
                     ro_businessKey = Some (sessionReviewCloseKey sessionId)\<rparr> d)
                  (\<lambda>((released, _), d1). Inr (Some released, d1))))"

section \<open>Program guards\<close>

definition hasOpenProgramSources :: "ident \<Rightarrow> db \<Rightarrow> bool" where
  "hasOpenProgramSources campaignId d \<longleftrightarrow>
     list_ex (openSessionWhere (OfCampaign campaignId) d) (sessions d)
     \<or> countHeldEndedSessions (OfCampaign campaignId) d > 0
     \<or> list_ex (\<lambda>t. trp_campaignId t = campaignId \<and> trp_status t \<in> {TS_PLANNED, TS_ACTIVE}
          \<and> list_ex (\<lambda>b. bag_tripId b = trp_id t) (bags d)) (trips d)"

record program_shape =
  prg_rewardMode :: reward_mode
  prg_rewardMultiplier :: "rat option"
  prg_campaignType :: campaign_type
  prg_supportsMachine :: bool

text \<open>Whether trips and whether machines pay money under a program.\<close>

definition effectiveProgramModes :: "program_shape \<Rightarrow> bool \<times> bool" where
  "effectiveProgramModes p =
     (tripRewardMode (prg_campaignType p) (prg_rewardMode p) = MONEY_REWARD,
      machineRewardMode (Some (prg_campaignType p, prg_rewardMode p, prg_supportsMachine p)) COMPLIANCE_ONLY = MONEY_REWARD)"

definition guardProgramRewardChange :: "bool \<Rightarrow> ident \<Rightarrow> program_shape \<Rightarrow> program_shape \<Rightarrow> db \<Rightarrow> unit result" where
  "guardProgramRewardChange enforced campaignId current nxt d =
     (if \<not> enforced then Inr ()
      else
        let (ctrips, cmachines) = effectiveProgramModes current;
            (ntrips, nmachines) = effectiveProgramModes nxt;
            turnsToMoney = (\<not> ctrips \<and> ntrips) \<or> (\<not> cmachines \<and> nmachines);
            raisesMultiplier = (ntrips \<or> nmachines)
              \<and> effectiveMultiplier (prg_rewardMultiplier nxt) > effectiveMultiplier (prg_rewardMultiplier current)
        in if \<not> turnsToMoney \<and> \<not> raisesMultiplier then Inr ()
           else if hasOpenProgramSources campaignId d then Inl (HttpError 409 PROGRAM_HAS_OPEN_SOURCES)
           else Inr ())"

definition guardOrganizationModeChange :: "bool \<Rightarrow> ident \<Rightarrow> reward_mode \<Rightarrow> reward_mode \<Rightarrow> db \<Rightarrow> unit result" where
  "guardOrganizationModeChange enforced organizationId current nxt d =
     (if \<not> enforced then Inr ()
      else if current = MONEY_REWARD \<or> nxt \<noteq> MONEY_REWARD then Inr ()
      else if list_ex (openSessionWhere (WithoutCampaign organizationId) d) (sessions d)
      then Inl (HttpError 409 ORGANIZATION_HAS_OPEN_SESSIONS)
      else if countHeldEndedSessions (WithoutCampaign organizationId) d > 0
      then Inl (HttpError 409 ORGANIZATION_HAS_OPEN_SESSIONS)
      else Inr ())"

section \<open>The reconciliation report\<close>

datatype stale_reason =
    SOURCE_CLOSED_AWAITING_WATERMARK | SOURCE_OPEN_TOO_LONG | CEILING_NOT_CONFIGURED | CAPACITY_SHORTFALL
  | ADMITTED_WITHOUT_RESERVATION

definition STALE_HOLD_AFTER_MS :: int where
  "STALE_HOLD_AFTER_MS = 24 * 60 * 60 * 1000"

record stale_hold =
  sh_reservation :: reservation
  sh_organizationId :: ident
  sh_ageMinutes :: int
  sh_reasons :: "stale_reason list"

definition hold_reasons :: "reservation \<Rightarrow> bool \<Rightarrow> int \<Rightarrow> stale_reason list" where
  "hold_reasons row ended ageMs =
     (if rsv_remainingRupiah row > 0 \<and> ended then [SOURCE_CLOSED_AWAITING_WATERMARK] else [])
     @ (if rsv_remainingRupiah row > 0 \<and> \<not> ended \<and> ageMs > STALE_HOLD_AFTER_MS then [SOURCE_OPEN_TOO_LONG] else [])
     @ (if rsv_lateReservation row then [ADMITTED_WITHOUT_RESERVATION]
        else if rsv_sourceType row = SESSION \<and> rsv_ceilingRupiah row = 0 then [CEILING_NOT_CONFIGURED] else [])
     @ (if rsv_shortfallRupiah row > 0 \<or> rsv_campaignShortfallRupiah row > 0 then [CAPACITY_SHORTFALL] else [])"

definition classifyHold :: "ident \<Rightarrow> reservation \<Rightarrow> bool \<Rightarrow> int \<Rightarrow> stale_hold option" where
  "classifyHold organizationId row ended now =
     (let ageMs = now - rsv_createdAt row;
          reasons = hold_reasons row ended ageMs
      in if reasons = [] then None
         else Some \<lparr>sh_reservation = row, sh_organizationId = organizationId,
                    sh_ageMinutes = max 0 (ageMs div 60000), sh_reasons = reasons\<rparr>)"

record organization_view =
  ov_organizationId :: ident
  ov_organizationName :: string
  ov_accountId :: "ident option"
  ov_confirmedRupiah :: int
  ov_heldRupiah :: int
  ov_capacityRupiah :: int
  ov_activeReservations :: int
  ov_reservedRemainingRupiah :: int
  ov_uncoveredRupiah :: int
  ov_staleHolds :: "stale_hold list"
  ov_programsWithoutBudget :: "(ident \<times> string) list"

record funding_visibility =
  fv_enforced :: bool
  fv_totalConfirmedRupiah :: int
  fv_totalHeldRupiah :: int
  fv_staleHoldCount :: int
  fv_organizations :: "organization_view list"

text \<open>The active reservations of an account's organization, oldest first.\<close>

definition active_reservations :: "ident \<Rightarrow> db \<Rightarrow> reservation list" where
  "active_reservations organizationId d =
     sort_key (\<lambda>r. (rsv_createdAt r, rsv_id r))
       (filter (\<lambda>r. rsv_status r = RES_ACTIVE
          \<and> (case find_by acc_id (rsv_accountId r) (accounts d) of None \<Rightarrow> False | Some a \<Rightarrow> acc_organizationId a = organizationId))
          (reservations d))"

definition uncovered_of :: "ident \<Rightarrow> db \<Rightarrow> int" where
  "uncovered_of organizationId d =
     tsum (\<lambda>c. if com_uncoveredRupiah c > 0
               \<and> (case find_by acc_id (com_accountId c) (accounts d) of None \<Rightarrow> False | Some a \<Rightarrow> acc_organizationId a = organizationId)
             then com_uncoveredRupiah c else 0) (commits d)"

definition without_budget :: "ident \<Rightarrow> db \<Rightarrow> campaign list" where
  "without_budget organizationId d =
     sort_key cmp_name (filter (\<lambda>c. cmp_status c = CS_ACTIVE \<and> cmp_rewardMode c = MONEY_REWARD
       \<and> (case cmp_rewardBudgetRupiah c of None \<Rightarrow> True | Some b \<Rightarrow> b \<le> 0)
       \<and> cmp_organizationId c = organizationId) (campaigns d))"

definition organization_view_of :: "int \<Rightarrow> db \<Rightarrow> organization \<Rightarrow> organization_view" where
  "organization_view_of now d org =
     (let rows = active_reservations (org_id org) d;
          account = find_by acc_organizationId (org_id org) (accounts d);
          confirmed = (case account of None \<Rightarrow> 0 | Some a \<Rightarrow> acc_confirmedRupiah a);
          held = (case account of None \<Rightarrow> 0 | Some a \<Rightarrow> acc_heldRupiah a)
      in \<lparr>ov_organizationId = org_id org, ov_organizationName = org_name org, ov_accountId = map_option acc_id account,
          ov_confirmedRupiah = confirmed, ov_heldRupiah = held, ov_capacityRupiah = confirmed - held,
          ov_activeReservations = int (length rows), ov_reservedRemainingRupiah = tsum rsv_remainingRupiah rows,
          ov_uncoveredRupiah = uncovered_of (org_id org) d,
          ov_staleHolds = List.map_filter (\<lambda>r. classifyHold (org_id org) r (source_ended r d) now) rows,
          ov_programsWithoutBudget = map (\<lambda>c. (cmp_id c, cmp_name c)) (without_budget (org_id org) d)\<rparr>)"

definition readFundingVisibility :: "world \<Rightarrow> ident option \<Rightarrow> db \<Rightarrow> funding_visibility" where
  "readFundingVisibility w organizationId d =
     (let orgs = sort_key org_name (filter (\<lambda>g. case organizationId of None \<Rightarrow> True | Some i \<Rightarrow> org_id g = i) (organizations d));
          views = map (organization_view_of (w_now w) d) orgs
      in \<lparr>fv_enforced = isRewardFundingEnforced (w_env w),
          fv_totalConfirmedRupiah = tsum ov_confirmedRupiah views, fv_totalHeldRupiah = tsum ov_heldRupiah views,
          fv_staleHoldCount = tsum (\<lambda>v. int (length (ov_staleHolds v))) views, fv_organizations = views\<rparr>)"

end
