(* ===== verification/Deposits.thy ===== *)
theory Deposits
  imports Wallet Guards
begin

text \<open>
  Deposit sessions on a machine: the deadline and lease bounds
  (\<^verbatim>\<open>src/lib/deposit-session-deadline.ts\<close>), the session state machine and the sensor path
  (\<^verbatim>\<open>src/lib/machine-state.ts\<close>), who may join a program (\<^verbatim>\<open>src/lib/campaign.ts\<close>), the QR token
  (\<^verbatim>\<open>src/lib/qr.ts\<close>) and the session service (\<^verbatim>\<open>src/lib/deposit-session-service.ts\<close>): the timeout
  policy, start or resume, the late snapshot, finish and cancel, and the machine's poll. Times are
  milliseconds. Audit rows and log lines are not modelled.
\<close>

section \<open>Deadlines and leases\<close>

definition MACHINE_LEASE_MAX_SECONDS :: int where
  "MACHINE_LEASE_MAX_SECONDS = 300"

definition sessionDeadline :: "session \<Rightarrow> int \<Rightarrow> int" where
  "sessionDeadline s idleTimeoutMinutes = nullish (ses_timeoutAt s) (ses_startedAt s + idleTimeoutMinutes * 60000)"

definition sessionEnd :: "session \<Rightarrow> int \<Rightarrow> int" where
  "sessionEnd s idleTimeoutMinutes =
     (let deadline = sessionDeadline s idleTimeoutMinutes
      in case ses_completedAt s of
           Some c \<Rightarrow> if c < deadline then c else deadline
         | None \<Rightarrow> deadline)"

text \<open>
  The quotient by 1000 of a time in the range of \<^verbatim>\<open>Date\<close> is further from the next integer than
  a double's rounding error, so the floor of the double is the integer quotient.
\<close>

definition machineLeaseExpiry :: "int \<Rightarrow> int \<Rightarrow> int option" where
  "machineLeaseExpiry deadline issuedAtSeconds =
     (let expiresAt = min (deadline div 1000) (issuedAtSeconds + MACHINE_LEASE_MAX_SECONDS)
      in if expiresAt > issuedAtSeconds then Some expiresAt else None)"

section \<open>The session state machine\<close>

definition SESSION_TRANSITIONS :: "session_status \<Rightarrow> (string \<times> session_status) list" where
  "SESSION_TRANSITIONS s =
     (case s of
        SS_RESERVED \<Rightarrow> [(''ACTIVATE'', SS_ACTIVE), (''CANCEL'', SS_CANCELLED), (''EXPIRE'', SS_EXPIRED)]
      | SS_ACTIVE \<Rightarrow> [(''START_ITEM'', SS_PROCESSING_ITEM), (''FINISH'', SS_COMPLETED), (''ANOMALY'', SS_REVIEW),
          (''EXPIRE'', SS_EXPIRED), (''CANCEL'', SS_CANCELLED), (''SAFE_STATE'', SS_REVIEW)]
      | SS_PROCESSING_ITEM \<Rightarrow> [(''ITEM_DONE'', SS_ACTIVE), (''FINISH'', SS_COMPLETED), (''ANOMALY'', SS_REVIEW),
          (''SAFE_STATE'', SS_REVIEW), (''EXPIRE'', SS_EXPIRED)]
      | SS_REVIEW \<Rightarrow> [(''FINISH'', SS_COMPLETED), (''RESUME'', SS_ACTIVE)]
      | SS_COMPLETED \<Rightarrow> []
      | SS_CANCELLED \<Rightarrow> []
      | SS_EXPIRED \<Rightarrow> [])"

definition canTransitionSession :: "session_status \<Rightarrow> string \<Rightarrow> session_status option" where
  "canTransitionSession current action = map_of (SESSION_TRANSITIONS current) action"

definition show_session_status :: "session_status \<Rightarrow> string" where
  "show_session_status s =
     (case s of
        SS_RESERVED \<Rightarrow> ''RESERVED'' | SS_ACTIVE \<Rightarrow> ''ACTIVE'' | SS_PROCESSING_ITEM \<Rightarrow> ''PROCESSING_ITEM''
      | SS_COMPLETED \<Rightarrow> ''COMPLETED'' | SS_REVIEW \<Rightarrow> ''REVIEW'' | SS_CANCELLED \<Rightarrow> ''CANCELLED'' | SS_EXPIRED \<Rightarrow> ''EXPIRED'')"

definition InvalidSessionTransitionError :: "session_status \<Rightarrow> string \<Rightarrow> err" where
  "InvalidSessionTransitionError current action =
     JsError (''Transisi sesi tidak valid: '' @ show_session_status current @ '' + '' @ action)"

definition transitionSession :: "session_status \<Rightarrow> string \<Rightarrow> session_status result" where
  "transitionSession current action =
     (case canTransitionSession current action of
        None \<Rightarrow> Inl (InvalidSessionTransitionError current action)
      | Some s \<Rightarrow> Inr s)"

definition BLOCKING_MACHINE_STATUSES :: "machine_status list" where
  "BLOCKING_MACHINE_STATUSES = [MS_OFFLINE, MS_FULL, MS_MAINTENANCE, MS_ERROR]"

definition machineAcceptsSessions :: "machine_status \<Rightarrow> bool" where
  "machineAcceptsSessions s \<longleftrightarrow> s \<notin> set BLOCKING_MACHINE_STATUSES"

section \<open>The sensor path\<close>

definition EXPECTED_SENSOR_STEPS :: "string list" where
  "EXPECTED_SENSOR_STEPS =
     [''CHAMBER_OPEN'', ''ITEM_PRESENT'', ''WEIGHT_STABLE'', ''IMAGE_CAPTURED'', ''CONVEYOR_FORWARD'', ''ACCEPTANCE_POINT'']"

text \<open>\<^verbatim>\<open>indexOf\<close>: the position of the first occurrence, or -1.\<close>

fun index_of :: "'a \<Rightarrow> 'a list \<Rightarrow> int" where
  "index_of x [] = - 1"
| "index_of x (y # ys) = (if x = y then 0 else let i = index_of x ys in if i = - 1 then - 1 else i + 1)"

fun sensor_order :: "int \<Rightarrow> string list \<Rightarrow> string option" where
  "sensor_order lastIdx [] = None"
| "sensor_order lastIdx (s # rest) =
     (let idx = index_of s EXPECTED_SENSOR_STEPS in
      if idx = - 1 then sensor_order lastIdx rest
      else if idx < lastIdx then Some ''IMPOSSIBLE_SEQUENCE''
      else sensor_order idx rest)"

definition validateSensorSequence :: "sensor_sequence option \<Rightarrow> string option" where
  "validateSensorSequence payload =
     (case payload of
        None \<Rightarrow> None
      | Some p \<Rightarrow>
          if sq_reverseMotion p then Some ''REVERSE_MOTION''
          else if sq_retrievalAttempt p then Some ''RETRIEVAL_ATTEMPT''
          else if sq_impossibleSequence p then Some ''IMPOSSIBLE_SEQUENCE''
          else sensor_order (- 1) (nullish (sq_steps p) []))"

section \<open>Who may join, and the QR token\<close>

text \<open>\<^verbatim>\<open>s.endsWith(p)\<close>.\<close>

definition endsWith :: "string \<Rightarrow> string \<Rightarrow> bool" where
  "endsWith s p = startsWith (rev s) (rev p)"

fun split_on :: "char \<Rightarrow> string \<Rightarrow> string list" where
  "split_on c [] = [[]]"
| "split_on c (x # xs) =
     (if x = c then [] # split_on c xs
      else case split_on c xs of [] \<Rightarrow> [[x]] | l # ls \<Rightarrow> (x # l) # ls)"

definition is_lower :: "char \<Rightarrow> bool" where
  "is_lower c \<longleftrightarrow> (let n = (of_char c :: nat) in 97 \<le> n \<and> n \<le> 122)"

definition is_label_char :: "char \<Rightarrow> bool" where
  "is_label_char c \<longleftrightarrow> is_lower c \<or> (let n = (of_char c :: nat) in 48 \<le> n \<and> n \<le> 57) \<or> c = CHR ''-''"

text \<open>\<^verbatim>\<open>/^@([a-z0-9-]+\.)+[a-z]{2,}$/\<close>: labels separated by dots, the last one of two letters or more.\<close>

definition domain_shape :: "string \<Rightarrow> bool" where
  "domain_shape s \<longleftrightarrow>
     (case s of
        [] \<Rightarrow> False
      | c # rest \<Rightarrow> c = CHR ''@''
          \<and> (let labels = split_on (CHR ''.'') rest
             in 2 \<le> length labels \<and> list_all (\<lambda>l. l \<noteq> [] \<and> list_all is_label_char l) (butlast labels)
                \<and> 2 \<le> length (last labels) \<and> list_all is_lower (last labels)))"

definition with_at :: "string \<Rightarrow> string" where
  "with_at s = (if startsWith s ''@'' then s else CHR ''@'' # s)"

definition normalizeEmailDomains :: "string list \<Rightarrow> string list" where
  "normalizeEmailDomains inputs =
     distinct_first (filter domain_shape (map with_at (filter (\<lambda>s. s \<noteq> []) (map (\<lambda>s. js_lower (js_trim s)) inputs))))"

text \<open>None: eligible; otherwise the reason.\<close>

definition isCampaignEligible :: "campaign \<Rightarrow> string \<Rightarrow> int \<Rightarrow> string option" where
  "isCampaignEligible campaign userEmail now =
     (if cmp_status campaign \<noteq> CS_ACTIVE then Some ''CAMPAIGN_INACTIVE''
      else if (case cmp_startAt campaign of None \<Rightarrow> False | Some t \<Rightarrow> t > now) then Some ''CAMPAIGN_NOT_STARTED''
      else if (case cmp_endAt campaign of None \<Rightarrow> False | Some t \<Rightarrow> t < now) then Some ''CAMPAIGN_ENDED''
      else if cmp_visibility campaign = VIS_PUBLIC then None
      else case nullish (cmp_allowedEmailDomains campaign) [] of
             [] \<Rightarrow> Some ''PRIVATE_NO_DOMAINS''
           | domains \<Rightarrow>
               if list_ex (\<lambda>e. endsWith (js_lower userEmail) (with_at (js_lower e))) domains
               then None else Some ''EMAIL_DOMAIN_MISMATCH'')"

definition isTokenValid :: "machine \<Rightarrow> string \<Rightarrow> int \<Rightarrow> bool" where
  "isTokenValid machine token now \<longleftrightarrow>
     (case (mac_qrToken machine, mac_qrTokenExpiresAt machine) of
        (Some t, Some e) \<Rightarrow> t \<noteq> [] \<and> t = token \<and> e > now
      | _ \<Rightarrow> False)"

text \<open>The token is generated by the caller (\<^verbatim>\<open>randomBytes\<close>).\<close>

definition rotateToken :: "string \<Rightarrow> ident \<Rightarrow> int \<Rightarrow> int \<Rightarrow> db \<Rightarrow> (string \<times> int) tx" where
  "rotateToken token machineId rotationSeconds now d =
     (let expiresAt = now + max 5 rotationSeconds * 1000
      in rbind (update_row (\<lambda>_. True) mac_id machineId
                 (\<lambda>m. m\<lparr>mac_qrToken := Some token, mac_qrTokenExpiresAt := Some expiresAt\<rparr>) (machines d))
           (\<lambda>t. Inr ((token, expiresAt), d\<lparr>machines := t\<rparr>)))"

section \<open>The session service\<close>

definition ACTIVE_SESSION_STATUSES :: "session_status list" where
  "ACTIVE_SESSION_STATUSES = [SS_RESERVED, SS_ACTIVE, SS_PROCESSING_ITEM, SS_REVIEW]"

definition isActiveSession :: "session_status \<Rightarrow> bool" where
  "isActiveSession s \<longleftrightarrow> s \<in> set ACTIVE_SESSION_STATUSES"

definition MACHINE_IN_USE :: string where
  "MACHINE_IN_USE = ''Mesin sedang digunakan. Silakan coba lagi nanti atau gunakan mesin lain.''"
definition MACHINE_UNAVAILABLE :: string where
  "MACHINE_UNAVAILABLE = ''Mesin sedang tidak dapat digunakan. Silakan gunakan mesin lain.''"
definition ITEM_STILL_PROCESSING :: string where
  "ITEM_STILL_PROCESSING = ''Mesin masih memproses item terakhir Anda. Tunggu sebentar, lalu coba lagi.''"
definition SESSION_CANNOT_END :: string where
  "SESSION_CANNOT_END = ''Sesi tidak dapat diselesaikan saat ini.''"
definition CAMPAIGN_NOT_FOR_MACHINE :: string where
  "CAMPAIGN_NOT_FOR_MACHINE = ''Campaign ini tidak berlaku untuk setoran mesin''"
definition MACHINE_CHANGED :: string where
  "MACHINE_CHANGED = ''Konfigurasi mesin berubah. Silakan scan ulang QR mesin.''"
definition SESSION_TIMEOUT_REASON :: string where
  "SESSION_TIMEOUT_REASON = ''SESSION_TIMEOUT''"

text \<open>Items the machine has not decided yet.\<close>

definition undecidedItemsWhere :: "ident \<Rightarrow> item \<Rightarrow> bool" where
  "undecidedItemsWhere sessionId i \<longleftrightarrow>
     itm_sessionId i = sessionId \<and> itm_status i = IS_PENDING \<and> itm_acceptanceEventId i = None"

record expired_session =
  exp_sessionId :: ident
  exp_userId :: ident
  exp_heldItemIds :: "ident list"

subsection \<open>The timeout policy\<close>

fun lock_sessions :: "ident list \<Rightarrow> db \<Rightarrow> db result" where
  "lock_sessions [] d = Inr d"
| "lock_sessions (i # is) d = rbind (lockDepositSession i d) (lock_sessions is)"

fun lock_items :: "ident list \<Rightarrow> db \<Rightarrow> db result" where
  "lock_items [] d = Inr d"
| "lock_items (i # is) d = rbind (lockDepositItem i d) (lock_items is)"

text \<open>The sessions that are still active and past their deadline, as re-read under the locks.\<close>

definition closing_sessions :: "ident list \<Rightarrow> int \<Rightarrow> int \<Rightarrow> db \<Rightarrow> session list" where
  "closing_sessions ids idle now d =
     List.map_filter (\<lambda>i. case find_by ses_id i (sessions d) of
         None \<Rightarrow> None
       | Some s \<Rightarrow> if isActiveSession (ses_status s) \<and> sessionDeadline s idle \<le> now then Some s else None) ids"

definition undecided_items :: "ident list \<Rightarrow> db \<Rightarrow> item list" where
  "undecided_items sids d =
     sort_key itm_id (filter (\<lambda>i. itm_sessionId i \<in> set sids \<and> itm_status i = IS_PENDING \<and> itm_acceptanceEventId i = None) (items d))"

definition hold_item :: "world \<Rightarrow> item \<Rightarrow> item" where
  "hold_item w i = i\<lparr>itm_status := IS_REVIEW,
     itm_validationReasonCode := Some (nullish (itm_validationReasonCode i) SESSION_TIMEOUT_REASON), itm_updatedAt := w_now w\<rparr>"

text \<open>The items put on hold, with their sessions.\<close>

fun hold_items :: "world \<Rightarrow> item list \<Rightarrow> db \<Rightarrow> (ident \<times> ident) list \<times> db" where
  "hold_items w [] d = ([], d)"
| "hold_items w (u # us) d =
     (case find_by itm_id (itm_id u) (items d) of
        None \<Rightarrow> hold_items w us d
      | Some i \<Rightarrow>
          if itm_status i \<noteq> IS_PENDING \<or> itm_acceptanceEventId i \<noteq> None then hold_items w us d
          else
            let (held, d') = hold_items w us (d\<lparr>items := upd_by itm_id (itm_id u) (hold_item w) (items d)\<rparr>)
            in ((itm_sessionId u, itm_id u) # held, d'))"

definition expire_session :: "int \<Rightarrow> session \<Rightarrow> session" where
  "expire_session now s = s\<lparr>ses_status := SS_EXPIRED, ses_completedAt := Some now\<rparr>"

fun close_sessions :: "int \<Rightarrow> ident list \<Rightarrow> db \<Rightarrow> db result" where
  "close_sessions now [] d = Inr d"
| "close_sessions now (i # is) d =
     rbind (update_row (\<lambda>_. True) ses_id i (expire_session now) (sessions d))
       (\<lambda>t. close_sessions now is (d\<lparr>sessions := t\<rparr>))"

definition expireTimedOutSessions :: "world \<Rightarrow> ident list \<Rightarrow> int \<Rightarrow> int \<Rightarrow> db \<Rightarrow> expired_session list tx" where
  "expireTimedOutSessions w sessionIds idleTimeoutMinutes now d =
     (let ids = sort (distinct_first sessionIds) in
      rbind (lock_sessions ids d) (\<lambda>d1.
      let closing = closing_sessions ids idleTimeoutMinutes now d1 in
      if closing = [] then Inr ([], d1)
      else
        let undecided = undecided_items (map ses_id closing) d1 in
        rbind (lock_items (map itm_id undecided) d1) (\<lambda>d2.
        let (held, d3) = hold_items w undecided d2 in
        rbind (close_sessions now (map ses_id closing) d3) (\<lambda>d4.
        Inr (map (\<lambda>s. \<lparr>exp_sessionId = ses_id s, exp_userId = ses_userId s,
                exp_heldItemIds = map snd (filter (\<lambda>h. fst h = ses_id s) held)\<rparr>) closing, d4)))))"

definition expireIfTimedOut :: "world \<Rightarrow> ident \<Rightarrow> int \<Rightarrow> int \<Rightarrow> db \<Rightarrow> expired_session option tx" where
  "expireIfTimedOut w sessionId idleTimeoutMinutes now d =
     rbind (expireTimedOutSessions w [sessionId] idleTimeoutMinutes now d)
       (\<lambda>(es, d1). Inr (case es of [] \<Rightarrow> None | e # _ \<Rightarrow> Some e, d1))"

subsection \<open>Start or resume\<close>

datatype start_decision =
    Created session "expired_session list"
  | Resumed session "expired_session list"
  | Busy "expired_session list"
  | Conflict "ident list" "expired_session list"

record start_input =
  si_machineCode :: string
  si_token :: string
  si_campaignId :: "ident option"

definition assertCampaignForMachine :: "world \<Rightarrow> ident \<Rightarrow> ident \<Rightarrow> ident \<Rightarrow> db \<Rightarrow> campaign result" where
  "assertCampaignForMachine w actorId organizationId campaignId d =
     (case find_by cmp_id campaignId (campaigns d) of
        None \<Rightarrow> Inl (HttpError 422 ''Campaign tidak valid untuk mesin ini'')
      | Some campaign \<Rightarrow>
          if cmp_organizationId campaign \<noteq> organizationId then Inl (HttpError 422 ''Campaign tidak valid untuk mesin ini'')
          else if \<not> campaignSupportsMachine (cmp_campaignType campaign) (cmp_supportsMachine campaign)
          then Inl (HttpError 422 CAMPAIGN_NOT_FOR_MACHINE)
          else if isCampaignEligible campaign (case find_by usr_id actorId (users d) of None \<Rightarrow> [] | Some u \<Rightarrow> usr_email u) (w_now w) \<noteq> None
          then Inl (HttpError 403 ''Anda tidak memenuhi syarat campaign ini'')
          else Inr campaign)"

definition reserveSessionCeiling ::
  "world \<Rightarrow> session \<Rightarrow> machine \<Rightarrow> reward_mode \<Rightarrow> campaign option \<Rightarrow> db \<Rightarrow> (int \<times> ident) option tx" where
  "reserveSessionCeiling w session machine organizationMode campaign d =
     (if machineRewardMode (map_option campaign_shape campaign) organizationMode \<noteq> MONEY_REWARD then Inr (None, d)
      else
        let enforced = isRewardFundingEnforced (w_env w);
            configured = resolveSessionCeiling campaign machine
        in if configured = None \<and> enforced then Inl (HttpError 409 FUNDING_INSUFFICIENT)
           else
             let ceilingRupiah = nullish configured 0 in
             rbind (reserveRewardBudget w enforced
                 \<lparr>ri_businessKey = sessionAdmissionKey (ses_id session), ri_organizationId = mac_organizationId machine,
                  ri_campaignId = map_option cmp_id campaign, ri_userId = ses_userId session,
                  ri_ceilingRupiah = ceilingRupiah, ri_sourceType = SESSION, ri_sourceId = ses_id session\<rparr> d)
               (\<lambda>(reservationId, d1). Inr (Some (ceilingRupiah, reservationId), d1)))"

text \<open>A missing program is a foreign-key error; a taken id is the unique violation of the table.\<close>

definition insert_session :: "session \<Rightarrow> db \<Rightarrow> session tx" where
  "insert_session s d =
     (if (case ses_campaignId s of None \<Rightarrow> False | Some c \<Rightarrow> find_by cmp_id c (campaigns d) = None)
      then Inl (PrismaError ''P2003'')
      else if find_by ses_id (ses_id s) (sessions d) \<noteq> None then Inl (PrismaError ''P2002:DepositSession'')
      else Inr (s, bump_seq (d\<lparr>sessions := sessions d @ [s]\<rparr>)))"

definition new_session ::
  "world \<Rightarrow> db \<Rightarrow> ident \<Rightarrow> machine \<Rightarrow> ident option \<Rightarrow> policy_snapshot \<Rightarrow> session" where
  "new_session w d userId machine campaignId policy =
     \<lparr>ses_id = newId w d, ses_userId = userId, ses_machineId = mac_id machine, ses_campaignId = campaignId,
      ses_status = SS_ACTIVE, ses_startedAt = w_now w, ses_policySnapshot = Some policy,
      ses_closeWatermarkAt = None, ses_closeWatermarkEventCount = None, ses_completedAt = None,
      ses_timeoutAt = Some (w_now w + mac_sessionIdleTimeoutMinutes machine * 60000),
      ses_anomalyCount = 0, ses_policyVersion = Some (sessionPolicyVersion w policy)\<rparr>"

definition active_on :: "ident \<Rightarrow> session \<Rightarrow> bool" where
  "active_on machineId s \<longleftrightarrow> ses_machineId s = machineId \<and> isActiveSession (ses_status s)"

definition active_sessions :: "ident \<Rightarrow> db \<Rightarrow> session list" where
  "active_sessions machineId d = sort_key (\<lambda>s. (ses_startedAt s, ses_id s)) (filter (active_on machineId) (sessions d))"

text \<open>What the machine row must satisfy before a session is decided.\<close>

definition machine_refusal :: "machine \<Rightarrow> organization \<Rightarrow> string \<Rightarrow> int \<Rightarrow> db \<Rightarrow> err option" where
  "machine_refusal machine org token now d =
     (if \<not> isTokenValid machine token now
      then Some (HttpError 401 ''QR token tidak valid atau sudah kedaluwarsa. Silakan scan QR terbaru dari layar mesin.'')
      else if \<not> machineAcceptsSessions (mac_status machine) then Some (HttpError 409 ''Mesin tidak menerima setoran saat ini'')
      else if org_status org \<noteq> OS_ACTIVE then Some (HttpError 409 ''Organisasi mesin tidak aktif'')
      else if machine_types (mac_id machine) d = [] then Some (HttpError 409 ''Mesin belum dikonfigurasi jenis sampah'')
      else None)"

text \<open>The locks of an admission: user, funding account, campaign (an empty id is no campaign), machine.\<close>

definition given_campaign :: "start_input \<Rightarrow> ident option" where
  "given_campaign inp = (case si_campaignId inp of Some c \<Rightarrow> if c = [] then None else Some c | None \<Rightarrow> None)"

definition start_locks :: "world \<Rightarrow> ident \<Rightarrow> start_input \<Rightarrow> machine \<Rightarrow> db \<Rightarrow> db result" where
  "start_locks w actorId inp ref d =
     rbind (lockUser actorId d) (\<lambda>d1.
     rbind (lockFundingAccountForOrganization w (mac_organizationId ref) d1) (\<lambda>(_, d2).
     rbind (case given_campaign inp of
              None \<Rightarrow> Inr d2
            | Some c \<Rightarrow> if find_by cmp_id c (campaigns d2) = None
                        then Inl (HttpError 422 ''Campaign tidak valid untuk mesin ini'') else lockCampaign c d2) (\<lambda>d3.
     lockMachine (mac_id ref) d3)))"

definition admit_session ::
  "world \<Rightarrow> ident \<Rightarrow> start_input \<Rightarrow> machine \<Rightarrow> reward_mode \<Rightarrow> campaign option \<Rightarrow> db \<Rightarrow> session tx" where
  "admit_session w actorId inp machine organizationMode campaign d =
     (let policy = buildSessionPolicy w machine organizationMode campaign (resolveSessionCeiling campaign machine) d in
      rbind (insert_session (new_session w d actorId machine (si_campaignId inp) policy) d) (\<lambda>(session, d1).
      rbind (reserveSessionCeiling w session machine organizationMode campaign d1) (\<lambda>(_, d2).
      Inr (session, d2))))"

definition start_outcome ::
  "world \<Rightarrow> ident \<Rightarrow> start_input \<Rightarrow> machine \<Rightarrow> reward_mode \<Rightarrow> campaign option \<Rightarrow> session list \<Rightarrow> expired_session list
     \<Rightarrow> db \<Rightarrow> start_decision tx" where
  "start_outcome w actorId inp machine organizationMode campaign live expired d =
     (case live of
        [] \<Rightarrow> rbind (admit_session w actorId inp machine organizationMode campaign d)
                (\<lambda>(session, d1). Inr (Created session expired, d1))
      | [s] \<Rightarrow> Inr (if ses_userId s = actorId then Resumed s expired else Busy expired, d)
      | _ \<Rightarrow> Inr (Conflict (map ses_id live) expired, d))"

definition decideStart :: "world \<Rightarrow> ident \<Rightarrow> start_input \<Rightarrow> machine \<Rightarrow> db \<Rightarrow> start_decision tx" where
  "decideStart w actorId inp ref d =
     rbind (start_locks w actorId inp ref d) (\<lambda>d1.
     case find_by mac_id (mac_id ref) (machines d1) of
       None \<Rightarrow> Inl (HttpError 404 ''Mesin tidak ditemukan'')
     | Some machine \<Rightarrow>
       rbind (find_or_throw org_id (mac_organizationId machine) (organizations d1)) (\<lambda>org.
       if mac_organizationId machine \<noteq> mac_organizationId ref then Inl (HttpError 409 MACHINE_CHANGED)
       else case machine_refusal machine org (si_token inp) (w_now w) d1 of
         Some e \<Rightarrow> Inl e
       | None \<Rightarrow>
         let now = w_now w; idle = mac_sessionIdleTimeoutMinutes machine;
             active = active_sessions (mac_id ref) d1;
             timedOut = filter (\<lambda>s. sessionDeadline s idle \<le> now) active;
             live = filter (\<lambda>s. \<not> sessionDeadline s idle \<le> now) active in
         rbind (case given_campaign inp of
                  None \<Rightarrow> Inr None
                | Some c \<Rightarrow> if live = []
                            then rbind (assertCampaignForMachine w actorId (mac_organizationId machine) c d1) (\<lambda>r. Inr (Some r))
                            else Inr None) (\<lambda>campaign.
         rbind (expireTimedOutSessions w (map ses_id timedOut) idle now d1) (\<lambda>(expired, d2).
         start_outcome w actorId inp machine (org_machineRewardMode org) campaign
           (live @ filter (\<lambda>s. ses_id s \<notin> set (map exp_sessionId expired)) timedOut) expired d2))))"

text \<open>The unique violation of the session table.\<close>

definition isActiveSessionConflict :: "err \<Rightarrow> bool" where
  "isActiveSessionConflict e \<longleftrightarrow> e = PrismaError ''P2002:DepositSession''"

text \<open>
  At most two attempts. A decision commits its transaction even when the caller then throws
  (busy, conflict), so the result comes with the state.
\<close>

definition answer_start :: "start_decision \<Rightarrow> (session \<times> bool) result" where
  "answer_start dec =
     (case dec of
        Created s _ \<Rightarrow> Inr (s, False)
      | Resumed s _ \<Rightarrow> Inr (s, True)
      | Busy _ \<Rightarrow> Inl (HttpError 409 MACHINE_IN_USE)
      | Conflict _ _ \<Rightarrow> Inl (HttpError 409 MACHINE_UNAVAILABLE))"

fun start_attempts :: "nat \<Rightarrow> world \<Rightarrow> ident \<Rightarrow> start_input \<Rightarrow> machine \<Rightarrow> db \<Rightarrow> (session \<times> bool) result \<times> db" where
  "start_attempts left w actorId inp ref d =
     (case runWalletTransaction (decideStart w actorId inp ref) d of
        Inr (dec, d1) \<Rightarrow> (answer_start dec, d1)
      | Inl e \<Rightarrow>
          if \<not> isActiveSessionConflict e then (Inl e, d)
          else case take 2 (filter (active_on (mac_id ref)) (sessions d)) of
                 [] \<Rightarrow> (case left of
                          0 \<Rightarrow> (Inl (HttpError 409 MACHINE_IN_USE), d)
                        | Suc n \<Rightarrow> start_attempts n w actorId inp ref d)
               | [s] \<Rightarrow> if ses_userId s = actorId then (Inr (s, True), d) else (Inl (HttpError 409 MACHINE_IN_USE), d)
               | _ \<Rightarrow> (Inl (HttpError 409 MACHINE_IN_USE), d))"

definition startOrResumeDeposit :: "world \<Rightarrow> ident \<Rightarrow> start_input \<Rightarrow> db \<Rightarrow> (session \<times> bool) result \<times> db" where
  "startOrResumeDeposit w actorId inp d =
     (case find_by mac_machineCode (si_machineCode inp) (machines d) of
        None \<Rightarrow> (Inl (HttpError 404 ''Mesin tidak ditemukan''), d)
      | Some ref \<Rightarrow> start_attempts 1 w actorId inp ref d)"

subsection \<open>The late snapshot\<close>

definition sessionLimitsOf :: "session \<Rightarrow> int option \<times> int option" where
  "sessionLimitsOf s = sessionLimits (parseSessionPolicy (ses_policySnapshot s))"

definition ensure_locked :: "world \<Rightarrow> ident \<Rightarrow> machine \<Rightarrow> db \<Rightarrow> policy_snapshot option tx" where
  "ensure_locked w sessionId ref d =
     (case find_by ses_id sessionId (sessions d) of
        None \<Rightarrow> Inr (None, d)
      | Some session \<Rightarrow>
        (case parseSessionPolicy (ses_policySnapshot session) of
           Some p \<Rightarrow> Inr (Some p, d)
         | None \<Rightarrow>
           (case find_by mac_id (ses_machineId session) (machines d) of
              None \<Rightarrow> Inr (None, d)
            | Some machine \<Rightarrow>
                rbind (find_or_throw org_id (mac_organizationId machine) (organizations d)) (\<lambda>org.
                if mac_organizationId machine \<noteq> mac_organizationId ref \<or> ses_machineId session \<noteq> mac_id ref
                then Inl (HttpError 409 MACHINE_CHANGED)
                else
                  let campaign = Option.bind (ses_campaignId session) (\<lambda>c. find_by cmp_id c (campaigns d));
                      policy = buildSessionPolicy w machine (org_machineRewardMode org) campaign
                                 (resolveSessionCeiling campaign machine) d in
                  rbind (update_row (\<lambda>_. True) ses_id sessionId
                          (\<lambda>s. s\<lparr>ses_policyVersion := Some (sessionPolicyVersion w policy), ses_policySnapshot := Some policy\<rparr>) (sessions d))
                    (\<lambda>t. Inr (Some policy, d\<lparr>sessions := t\<rparr>))))))"

definition ensureSessionPolicy :: "world \<Rightarrow> ident \<Rightarrow> db \<Rightarrow> policy_snapshot option tx" where
  "ensureSessionPolicy w sessionId d =
     (case find_by ses_id sessionId (sessions d) of
        None \<Rightarrow> Inr (None, d)
      | Some current \<Rightarrow>
        (case parseSessionPolicy (ses_policySnapshot current) of
           Some p \<Rightarrow> Inr (Some p, d)
         | None \<Rightarrow>
             rbind (find_or_throw mac_id (ses_machineId current) (machines d)) (\<lambda>ref.
             runWalletTransaction (\<lambda>d0.
               rbind (lockUser (ses_userId current) d0) (\<lambda>d1.
               rbind (lockFundingAccountForOrganization w (mac_organizationId ref) d1) (\<lambda>(_, d2).
               rbind (lockCampaignOpt (ses_campaignId current) d2) (\<lambda>d3.
               rbind (lockMachine (mac_id ref) d3) (\<lambda>d4.
               rbind (lockDepositSession sessionId d4) (ensure_locked w sessionId ref)))))) d)))"

subsection \<open>The owner's view, finish and cancel\<close>

record active_summary =
  as_session :: session
  as_timedOut :: bool
  as_machineCode :: string
  as_items :: "(ident \<times> string \<times> int \<times> item_status \<times> int) list"

definition summary_items :: "ident \<Rightarrow> db \<Rightarrow> (ident \<times> string \<times> int \<times> item_status \<times> int) list" where
  "summary_items sessionId d =
     map (\<lambda>i. (itm_id i, case find_by wt_id (itm_wasteTypeId i) (wasteTypes d) of None \<Rightarrow> [] | Some t \<Rightarrow> wt_name t,
               itm_quantity i, itm_status i, itm_rewardAmount i))
       (sort_key itm_createdAt (filter (\<lambda>i. itm_sessionId i = sessionId) (items d)))"

definition getActiveDepositForUser ::
  "world \<Rightarrow> ident \<Rightarrow> string option \<Rightarrow> db \<Rightarrow> active_summary option \<times> active_summary list" where
  "getActiveDepositForUser w userId machineCode d =
     (let rows = sort_key (\<lambda>(s, _). (ses_startedAt s, ses_id s))
            (List.map_filter (\<lambda>s. case find_by mac_id (ses_machineId s) (machines d) of
                None \<Rightarrow> None
              | Some m \<Rightarrow>
                  if ses_userId s = userId \<and> isActiveSession (ses_status s)
                     \<and> (case machineCode of None \<Rightarrow> True | Some c \<Rightarrow> c = [] \<or> mac_machineCode m = c)
                  then Some (s, m) else None) (sessions d));
          summaries = map (\<lambda>(s, m). \<lparr>as_session = s,
              as_timedOut = (sessionDeadline s (mac_sessionIdleTimeoutMinutes m) \<le> w_now w),
              as_machineCode = mac_machineCode m, as_items = summary_items (ses_id s) d\<rparr>) rows
      in (case summaries of [s] \<Rightarrow> Some s | _ \<Rightarrow> None, summaries))"

datatype owner_action = Finish | CancelSession

definition end_locked :: "world \<Rightarrow> ident \<Rightarrow> ident \<Rightarrow> owner_action \<Rightarrow> db \<Rightarrow> (session \<times> bool) tx" where
  "end_locked w sessionId machineId action d =
     (case find_by ses_id sessionId (sessions d) of
        None \<Rightarrow> Inl (HttpError 404 ''Sesi tidak ditemukan'')
      | Some session \<Rightarrow>
          if \<not> isActiveSession (ses_status session) then Inr ((session, False), d)
          else if list_ex (undecidedItemsWhere sessionId) (items d)
          then
            rbind (case find_by mac_id machineId (machines d) of
                     None \<Rightarrow> Inr (None, d)
                   | Some m \<Rightarrow> expireIfTimedOut w sessionId (mac_sessionIdleTimeoutMinutes m) (w_now w) d) (\<lambda>(expired, d1).
            if expired = None then Inl (HttpError 409 ITEM_STILL_PROCESSING)
            else Inr ((nullish (find_by ses_id sessionId (sessions d1)) session, True), d1))
          else
            case (if action = CancelSession then Inr SS_CANCELLED else transitionSession (ses_status session) ''FINISH'') of
              Inl _ \<Rightarrow> Inl (HttpError 409 SESSION_CANNOT_END)
            | Inr next \<Rightarrow>
                let updated = session\<lparr>ses_status := next, ses_completedAt := Some (w_now w)\<rparr> in
                rbind (update_row (\<lambda>_. True) ses_id sessionId (\<lambda>_. updated) (sessions d))
                  (\<lambda>t. Inr ((updated, True), d\<lparr>sessions := t\<rparr>)))"

definition endDepositByOwner :: "world \<Rightarrow> ident \<Rightarrow> ident \<Rightarrow> owner_action \<Rightarrow> db \<Rightarrow> (session \<times> bool) tx" where
  "endDepositByOwner w actorId sessionId action d =
     (case find_by ses_id sessionId (sessions d) of
        None \<Rightarrow> Inl (HttpError 404 ''Sesi tidak ditemukan'')
      | Some ref \<Rightarrow>
          if ses_userId ref \<noteq> actorId then Inl (HttpError 403 ''Bukan sesi Anda'')
          else runWalletTransaction (\<lambda>d0.
            rbind (lockUser (ses_userId ref) d0) (\<lambda>d1.
            rbind (lockMachine (ses_machineId ref) d1) (\<lambda>d2.
            rbind (lockDepositSession sessionId d2) (end_locked w sessionId (ses_machineId ref) action)))) d)"

subsection \<open>The machine's poll\<close>

text \<open>Each expiry commits on its own, so an error comes with the state reached before it.\<close>

fun poll_sessions :: "world \<Rightarrow> machine \<Rightarrow> session list \<Rightarrow> db \<Rightarrow> ident list result \<times> db" where
  "poll_sessions w machine [] d = (Inr [], d)"
| "poll_sessions w machine (c # cs) d =
     (let keep = (\<lambda>d1. case poll_sessions w machine cs d1 of
                          (Inr live, d2) \<Rightarrow> (Inr (ses_id c # live), d2)
                        | (Inl e, d2) \<Rightarrow> (Inl e, d2))
      in if sessionDeadline c (mac_sessionIdleTimeoutMinutes machine) > w_now w then keep d
         else case runWalletTransaction (\<lambda>d0.
                rbind (lockUser (ses_userId c) d0) (\<lambda>d1.
                rbind (lockMachine (mac_id machine) d1) (\<lambda>d2.
                expireIfTimedOut w (ses_id c) (mac_sessionIdleTimeoutMinutes machine) (w_now w) d2))) d of
              Inl e \<Rightarrow> (Inl e, d)
            | Inr (None, d1) \<Rightarrow> keep d1
            | Inr (Some _, d1) \<Rightarrow> poll_sessions w machine cs d1)"

definition currentMachineSession ::
  "world \<Rightarrow> machine \<Rightarrow> db \<Rightarrow> (ident option \<times> bool \<times> ident list) result \<times> db" where
  "currentMachineSession w machine d =
     (case poll_sessions w machine (active_sessions (mac_id machine) d) d of
        (Inl e, d1) \<Rightarrow> (Inl e, d1)
      | (Inr live, d1) \<Rightarrow>
          if length live > 1 then (Inr (None, True, live), d1)
          else (Inr (case live of [] \<Rightarrow> None | s # _ \<Rightarrow> Some s, False, live), d1))"

end
