(* ===== verification/Payload.thy ===== *)
theory Payload
  imports Schema Json
begin

text \<open>
  What a machine sends is JSON: the values of an event payload as \<^verbatim>\<open>JSON.parse\<close> gives them, the
  JavaScript reading of such a value (truthiness, \<^verbatim>\<open>typeof\<close>, \<^verbatim>\<open>String(v)\<close>), what Prisma does with a
  value that is written to a typed column unchecked, and the enums of the schema as text. A column
  write leaves the column alone on \<^verbatim>\<open>undefined\<close>, stores a value of the column's type, and refuses
  anything else; an object in place of a scalar is refused here, where Prisma would first read it as a filter.
\<close>

section \<open>JSON values\<close>

text \<open>A number comes with the text \<^verbatim>\<open>String\<close> prints for it; object keys are distinct.\<close>

datatype jval =
    JNull
  | JBool bool
  | JNum rat string
  | JStr string
  | JArr "jval list"
  | JObj "(string \<times> jval) list"

type_synonym payload = "(string \<times> jval) list"

text \<open>\<^verbatim>\<open>payload.key\<close>; none is \<^verbatim>\<open>undefined\<close>.\<close>

definition field :: "payload \<Rightarrow> string \<Rightarrow> jval option" where
  "field p k = map_of p k"

text \<open>\<^verbatim>\<open>v ?? undefined\<close>.\<close>

definition present :: "jval option \<Rightarrow> jval option" where
  "present v = (case v of Some JNull \<Rightarrow> None | _ \<Rightarrow> v)"

definition truthy :: "jval option \<Rightarrow> bool" where
  "truthy v = (case v of
      None \<Rightarrow> False | Some JNull \<Rightarrow> False | Some (JBool b) \<Rightarrow> b | Some (JNum q _) \<Rightarrow> q \<noteq> 0
    | Some (JStr s) \<Rightarrow> s \<noteq> [] | Some (JArr _) \<Rightarrow> True | Some (JObj _) \<Rightarrow> True)"

definition number_of :: "jval option \<Rightarrow> rat option" where
  "number_of v = (case v of Some (JNum q _) \<Rightarrow> Some q | _ \<Rightarrow> None)"

definition text_of :: "jval option \<Rightarrow> string option" where
  "text_of v = (case v of Some (JStr s) \<Rightarrow> Some s | _ \<Rightarrow> None)"

fun join_comma :: "string list \<Rightarrow> string" where
  "join_comma [] = []"
| "join_comma [s] = s"
| "join_comma (s # ss) = s @ CHR '','' # join_comma ss"

text \<open>\<^verbatim>\<open>String(v)\<close>.\<close>

fun js_String :: "jval \<Rightarrow> string" where
  "js_String JNull = ''null''"
| "js_String (JBool b) = (if b then ''true'' else ''false'')"
| "js_String (JNum _ t) = t"
| "js_String (JStr s) = s"
| "js_String (JArr vs) = join_comma (map (\<lambda>v. if v = JNull then [] else js_String v) vs)"
| "js_String (JObj _) = ''[object Object]''"

section \<open>Unchecked values in typed columns\<close>

definition VALIDATION :: err where
  "VALIDATION = PrismaError ''PrismaClientValidationError''"

definition int_column :: "jval \<Rightarrow> int result" where
  "int_column v = (case v of
      JNum q _ \<Rightarrow> if q \<noteq> of_int \<lfloor>q\<rfloor> then Inl VALIDATION else if int4 \<lfloor>q\<rfloor> then Inr \<lfloor>q\<rfloor> else Inl (PgError ''22003'')
    | _ \<Rightarrow> Inl VALIDATION)"

definition float_column :: "jval \<Rightarrow> rat result" where
  "float_column v = (case v of JNum q _ \<Rightarrow> Inr q | _ \<Rightarrow> Inl VALIDATION)"

definition text_column :: "jval \<Rightarrow> string result" where
  "text_column v = (case v of JStr s \<Rightarrow> Inr s | _ \<Rightarrow> Inl VALIDATION)"

text \<open>A nullable column: \<^verbatim>\<open>undefined\<close> keeps the old value, \<^verbatim>\<open>null\<close> clears it.\<close>

definition write_nullable :: "(jval \<Rightarrow> 'a result) \<Rightarrow> jval option \<Rightarrow> 'a option \<Rightarrow> 'a option result" where
  "write_nullable column v old = (case v of
      None \<Rightarrow> Inr old
    | Some JNull \<Rightarrow> Inr None
    | Some x \<Rightarrow> rbind (column x) (\<lambda>y. Inr (Some y)))"

section \<open>Enums as text\<close>

definition MACHINE_STATUS_TEXT :: "(string \<times> machine_status) list" where
  "MACHINE_STATUS_TEXT =
     [(''ONLINE'', MS_ONLINE), (''OFFLINE'', MS_OFFLINE), (''FULL'', MS_FULL), (''MAINTENANCE'', MS_MAINTENANCE), (''ERROR'', MS_ERROR)]"

definition EVENT_TYPE_TEXT :: "(string \<times> event_type) list" where
  "EVENT_TYPE_TEXT =
     [(''HEARTBEAT'', EV_HEARTBEAT), (''QR_REFRESHED'', EV_QR_REFRESHED), (''CHAMBER_OPENED'', EV_CHAMBER_OPENED),
      (''CHAMBER_TIMEOUT'', EV_CHAMBER_TIMEOUT), (''ITEM_DETECTED'', EV_ITEM_DETECTED), (''WEIGHT_MEASURED'', EV_WEIGHT_MEASURED),
      (''IMAGE_CLASSIFIED'', EV_IMAGE_CLASSIFIED), (''BARCODE_READ'', EV_BARCODE_READ), (''SENSOR_SEQUENCE'', EV_SENSOR_SEQUENCE),
      (''ITEM_ACCEPTED_POINT'', EV_ITEM_ACCEPTED_POINT), (''ITEM_REJECTED'', EV_ITEM_REJECTED),
      (''CONVEYOR_STARTED'', EV_CONVEYOR_STARTED), (''COMPACTION_STARTED'', EV_COMPACTION_STARTED),
      (''COMPACTION_COMPLETED'', EV_COMPACTION_COMPLETED), (''FRAUD_DETECTED'', EV_FRAUD_DETECTED),
      (''VANDALISM_DETECTED'', EV_VANDALISM_DETECTED), (''SAFE_STATE_ENTERED'', EV_SAFE_STATE_ENTERED),
      (''STATUS_CHANGED'', EV_STATUS_CHANGED), (''FILL_LEVEL_UPDATED'', EV_FILL_LEVEL_UPDATED), (''ERROR'', EV_ERROR),
      (''SESSION_CLOSE_WATERMARK'', EV_SESSION_CLOSE_WATERMARK)]"

definition machine_status_column :: "jval \<Rightarrow> machine_status result" where
  "machine_status_column v = (case v of
      JStr s \<Rightarrow> (case map_of MACHINE_STATUS_TEXT s of Some m \<Rightarrow> Inr m | None \<Rightarrow> Inl VALIDATION)
    | _ \<Rightarrow> Inl VALIDATION)"

text \<open>
  A sensor payload as \<^verbatim>\<open>validateSensorSequence\<close> reads it: a value without a length and without an
  iterator throws where it is walked, but only when no tamper flag was set before.
\<close>

definition read_steps :: "jval option \<Rightarrow> string list option result" where
  "read_steps v = (case v of
      None \<Rightarrow> Inr None
    | Some JNull \<Rightarrow> Inr None
    | Some (JArr vs) \<Rightarrow> Inr (Some (map (\<lambda>x. case x of JStr s \<Rightarrow> s | _ \<Rightarrow> []) vs))
    | Some (JStr s) \<Rightarrow> Inr (Some (map (\<lambda>c. [c]) s))
    | Some (JObj ob) \<Rightarrow> (case number_of (map_of ob ''length'') of
          Some q \<Rightarrow> if q = 0 then Inr None else Inl (JsError ''steps is not iterable'')
        | None \<Rightarrow> Inl (JsError ''steps is not iterable''))
    | Some _ \<Rightarrow> Inl (JsError ''steps is not iterable''))"

definition read_sensor :: "payload \<Rightarrow> sensor_sequence result" where
  "read_sensor p =
     (let reverse = truthy (field p ''reverseMotion''); retrieval = truthy (field p ''retrievalAttempt'');
          impossible = truthy (field p ''impossibleSequence'')
      in rbind (if reverse \<or> retrieval \<or> impossible then Inr None else read_steps (field p ''steps'')) (\<lambda>steps.
         Inr \<lparr>sq_steps = steps, sq_reverseMotion = reverse, sq_retrievalAttempt = retrieval, sq_impossibleSequence = impossible\<rparr>))"

end
