(* ===== verification/Events.thy ===== *)
theory Events
  imports Credit Deposits Payload
begin

text \<open>
  The effects of machine events (\<^verbatim>\<open>src/lib/machine-events/\<close>): which item an event is about
  (\<^verbatim>\<open>shared.ts\<close>, \<^verbatim>\<open>item.ts\<close>), the acceptance point that prices and pays an item, rejection and
  machine evidence (\<^verbatim>\<open>acceptance.ts\<close>), anomalies and fraud holds (\<^verbatim>\<open>fraud.ts\<close>), automatic pickups
  (\<^verbatim>\<open>pickup.ts\<close>), the close watermark (\<^verbatim>\<open>watermark.ts\<close>) and the dispatch over event types
  (\<^verbatim>\<open>side-effects.ts\<close>). Notifications, audit rows and log lines are not modelled; the machine passed
  to a handler is the row the batch was authenticated with, which may be older than the table's.
\<close>

section \<open>Shared rules\<close>

definition UNKNOWN_WASTE_TYPE_NAME :: string where
  "UNKNOWN_WASTE_TYPE_NAME = ''Tidak Diketahui (Unknown)''"
definition UNKNOWN_WASTE_TYPE_REASON :: string where
  "UNKNOWN_WASTE_TYPE_REASON = ''UNKNOWN_WASTE_TYPE''"
definition SNAPSHOT_TYPE_MISSING_REASON :: string where
  "SNAPSHOT_TYPE_MISSING_REASON = ''TYPE_NOT_IN_SNAPSHOT''"
definition SESSION_CLOSED_REASON :: string where
  "SESSION_CLOSED_REASON = ''SESSION_CLOSED''"
definition REVIEW_APPROVED_REASON :: string where
  "REVIEW_APPROVED_REASON = ''REVIEW_APPROVED''"
definition REVIEW_REJECTED_REASON :: string where
  "REVIEW_REJECTED_REASON = ''REVIEW_REJECTED''"

definition isReviewFinal :: "item \<Rightarrow> bool" where
  "isReviewFinal i \<longleftrightarrow>
     (itm_status i = IS_ACCEPTED \<and> itm_validationReasonCode i = Some REVIEW_APPROVED_REASON)
     \<or> (itm_status i = IS_REJECTED \<and> itm_validationReasonCode i = Some REVIEW_REJECTED_REASON)"

definition MACHINE_REASON_MAX :: nat where
  "MACHINE_REASON_MAX = 64"

definition machineReasonCode :: "jval option \<Rightarrow> string \<Rightarrow> string" where
  "machineReasonCode raw fallback =
     (let txt = (case raw of Some (JStr s) \<Rightarrow> take MACHINE_REASON_MAX (js_trim s) | _ \<Rightarrow> []);
          code = (if txt = [] then fallback else txt)
      in if startsWith (js_upper code) ''REVIEW_'' then ''MACHINE_'' @ code else code)"

definition isFallbackWasteType :: "waste_type \<Rightarrow> bool" where
  "isFallbackWasteType t \<longleftrightarrow> wt_name t = UNKNOWN_WASTE_TYPE_NAME \<and> wt_organizationId t = None"

definition isUnknownWasteTypeItem :: "item \<Rightarrow> waste_type \<Rightarrow> bool" where
  "isUnknownWasteTypeItem i t \<longleftrightarrow> itm_validationReasonCode i = Some UNKNOWN_WASTE_TYPE_REASON \<or> isFallbackWasteType t"

record ingest_input =
  in_machineCode :: string
  in_localEventId :: string
  in_eventType :: event_type
  in_payload :: "payload option"
  in_sessionId :: "ident option"
  in_depositItemId :: "ident option"
  in_occurredAt :: "string option"
  in_itemReferenceRejected :: bool

definition payloadStr :: "payload option \<Rightarrow> payload" where
  "payloadStr p = nullish p []"

text \<open>\<^verbatim>\<open>if (id)\<close>: an id that is present and not empty.\<close>

definition given :: "ident option \<Rightarrow> ident option" where
  "given i = (case i of Some [] \<Rightarrow> None | _ \<Rightarrow> i)"

definition isTerminalSession :: "session_status \<Rightarrow> bool" where
  "isTerminalSession s \<longleftrightarrow> s \<in> set TERMINAL_SESSION_STATUSES"

text \<open>Neither accepted nor decided: what a machine may still decide.\<close>

definition undecided :: "item \<Rightarrow> bool" where
  "undecided i \<longleftrightarrow> itm_acceptanceEventId i = None \<and> (itm_status i = IS_PENDING \<or> itm_status i = IS_REVIEW)"

text \<open>\<^verbatim>\<open>updateMany\<close> on one item id with a guard: the rows that matched, and the table.\<close>

definition cas_item :: "world \<Rightarrow> ident \<Rightarrow> (item \<Rightarrow> bool) \<Rightarrow> (item \<Rightarrow> item) \<Rightarrow> db \<Rightarrow> nat \<times> db" where
  "cas_item w i guard f d =
     (length (filter (\<lambda>r. itm_id r = i \<and> guard r) (items d)),
      d\<lparr>items := upd_by itm_id i (\<lambda>r. if guard r then (f r)\<lparr>itm_updatedAt := w_now w\<rparr> else r) (items d)\<rparr>)"

text \<open>\<^verbatim>\<open>update\<close> of one item, and of one session (its anomaly counter is an integer column).\<close>

definition update_item :: "world \<Rightarrow> ident \<Rightarrow> (item \<Rightarrow> item) \<Rightarrow> db \<Rightarrow> db result" where
  "update_item w i f d =
     rbind (update_row (\<lambda>_. True) itm_id i (\<lambda>r. (f r)\<lparr>itm_updatedAt := w_now w\<rparr>) (items d)) (\<lambda>t. Inr (d\<lparr>items := t\<rparr>))"

definition update_session :: "ident \<Rightarrow> (session \<Rightarrow> session) \<Rightarrow> db \<Rightarrow> db result" where
  "update_session i f d =
     rbind (update_row (\<lambda>s. int4 (ses_anomalyCount s)) ses_id i f (sessions d)) (\<lambda>t. Inr (d\<lparr>sessions := t\<rparr>))"

definition update_machine :: "ident \<Rightarrow> (machine \<Rightarrow> machine) \<Rightarrow> db \<Rightarrow> db result" where
  "update_machine i f d =
     rbind (update_row (\<lambda>_. True) mac_id i f (machines d)) (\<lambda>t. Inr (d\<lparr>machines := t\<rparr>))"

section \<open>The item of an event\<close>

definition latest_by :: "('r \<Rightarrow> 'k::linorder) \<Rightarrow> 'r list \<Rightarrow> 'r option" where
  "latest_by key rows = (case sort_key key rows of [] \<Rightarrow> None | r # rs \<Rightarrow> Some (last (r # rs)))"

definition fallback_type :: "world \<Rightarrow> db \<Rightarrow> waste_type" where
  "fallback_type w d = \<lparr>wt_id = newId w d, wt_name = UNKNOWN_WASTE_TYPE_NAME, wt_unit = ITEM, wt_minWeightGrams = None,
     wt_maxWeightGrams = None, wt_defaultRewardPerItem = None, wt_active = False, wt_aiAcceptedLabels = [], wt_organizationId = None\<rparr>"

definition resolveOrCreateUnknownWasteType :: "world \<Rightarrow> db \<Rightarrow> ident tx" where
  "resolveOrCreateUnknownWasteType w d =
     (case List.find isFallbackWasteType (wasteTypes d) of
        Some existing \<Rightarrow> Inr (wt_id existing, d)
      | None \<Rightarrow>
          rbind (create_row (\<lambda>_. True) (\<lambda>a b. wt_id a = wt_id b) (fallback_type w d) (wasteTypes d))
            (\<lambda>t. Inr (newId w d, bump_seq (d\<lparr>wasteTypes := t\<rparr>))))"

definition resolveFraudDepositItemId :: "ingest_input \<Rightarrow> db \<Rightarrow> ident option" where
  "resolveFraudDepositItemId inp d =
     (case given (in_depositItemId inp) of
        Some i \<Rightarrow> Some i
      | None \<Rightarrow>
        (case given (in_sessionId inp) of
           None \<Rightarrow> None
         | Some s \<Rightarrow>
             if in_itemReferenceRejected inp then None
             else map_option itm_id (latest_by itm_createdAt (filter (\<lambda>i. itm_sessionId i = s) (items d)))))"

text \<open>The cache of one batch, if the caller has one: session id to item id or null.\<close>

type_synonym item_cache = "(ident \<rightharpoonup> ident option) option"

definition cache_set :: "ident \<Rightarrow> ident option \<Rightarrow> item_cache \<Rightarrow> item_cache" where
  "cache_set s i cache = map_option (\<lambda>m. m(s \<mapsto> i)) cache"

definition createDepositItemCache :: item_cache where
  "createDepositItemCache = Some Map.empty"

definition open_item :: "ident \<Rightarrow> db \<Rightarrow> ident option" where
  "open_item s d = map_option itm_id (latest_by itm_createdAt
     (filter (\<lambda>i. itm_sessionId i = s \<and> itm_status i \<in> {IS_PENDING, IS_REVIEW}) (items d)))"

definition resolveDepositItemId :: "ingest_input \<Rightarrow> item_cache \<Rightarrow> db \<Rightarrow> ident option \<times> item_cache" where
  "resolveDepositItemId inp cache d =
     (case given (in_depositItemId inp) of
        Some i \<Rightarrow> (Some i, case given (in_sessionId inp) of None \<Rightarrow> cache | Some s \<Rightarrow> cache_set s (Some i) cache)
      | None \<Rightarrow>
        (case given (in_sessionId inp) of
           None \<Rightarrow> (None, cache)
         | Some s \<Rightarrow>
             if in_itemReferenceRejected inp then (None, cache)
             else case Option.bind cache (\<lambda>m. m s) of
                    Some i \<Rightarrow> (i, cache)
                  | None \<Rightarrow> (open_item s d, cache_set s (open_item s d) cache)))"

section \<open>Automatic pickups\<close>

definition PICKUP_OPEN :: "pickup_status list" where
  "PICKUP_OPEN = [PK_REQUESTED, PK_ASSIGNED, PK_ON_THE_WAY, PK_ARRIVED, PK_COLLECTED]"
definition PICKUP_REPLACEABLE :: "pickup_status list" where
  "PICKUP_REPLACEABLE = [PK_FAILED, PK_CANCELLED]"
definition AUTO_PICKUP_FILL_THRESHOLD :: int where
  "AUTO_PICKUP_FILL_THRESHOLD = 90"

definition pickup_clash :: "pickup \<Rightarrow> pickup \<Rightarrow> bool" where
  "pickup_clash a b \<longleftrightarrow> pck_id a = pck_id b
     \<or> (pck_replacesPickupId a \<noteq> None \<and> pck_replacesPickupId a = pck_replacesPickupId b)"

definition replacement_of :: "ident \<Rightarrow> db \<Rightarrow> pickup option" where
  "replacement_of pickupId d = List.find (\<lambda>p. pck_replacesPickupId p = Some pickupId) (pickups d)"

definition auto_replaces :: "ident \<Rightarrow> db \<Rightarrow> ident option" where
  "auto_replaces machineId d =
     (case latest_by (\<lambda>p. (pck_createdAt p, pck_id p)) (filter (\<lambda>p. pck_machineId p = Some machineId) (pickups d)) of
        None \<Rightarrow> None
      | Some l \<Rightarrow> if pck_status l \<in> set PICKUP_REPLACEABLE \<and> replacement_of (pck_id l) d = None then Some (pck_id l) else None)"

definition maybeCreateAutoPickup :: "world \<Rightarrow> machine \<Rightarrow> db \<Rightarrow> db result" where
  "maybeCreateAutoPickup w machine d =
     (if list_ex (\<lambda>p. pck_machineId p = Some (mac_id machine) \<and> pck_status p \<in> set PICKUP_OPEN) (pickups d) then Inr d
      else
        rbind (create_row (\<lambda>_. True) pickup_clash
            \<lparr>pck_id = newId w d, pck_machineId = Some (mac_id machine), pck_organizationId = mac_organizationId machine,
             pck_requestedById = None, pck_assignedCollectorId = None, pck_collectorPartnerId = None,
             pck_status = PK_REQUESTED, pck_priority = 1, pck_reason = PR_FULL,
             pck_notes = Some ''Auto-generated: mesin penuh / mendekati penuh.'', pck_version = 0, pck_assignedAt = None,
             pck_expectedStartAt = None, pck_lastEscalatedAt = None, pck_closedReason = None,
             pck_replacesPickupId = auto_replaces (mac_id machine) d, pck_createdAt = w_now w\<rparr> (pickups d))
          (\<lambda>t. Inr (bump_seq (d\<lparr>pickups := t\<rparr>))))"

section \<open>Anomalies and fraud holds\<close>

definition flag_session :: "session \<Rightarrow> session" where
  "flag_session s = s\<lparr>ses_status := (if ses_status s \<in> {SS_ACTIVE, SS_PROCESSING_ITEM} then SS_REVIEW else ses_status s),
     ses_anomalyCount := ses_anomalyCount s + 1\<rparr>"

definition flag_item :: "string \<Rightarrow> item \<Rightarrow> item" where
  "flag_item reason i = i\<lparr>itm_status := IS_REVIEW, itm_validationReasonCode := Some (nullish (itm_validationReasonCode i) reason)\<rparr>"

definition flagAnomaly :: "world \<Rightarrow> ident \<Rightarrow> ident option \<Rightarrow> string \<Rightarrow> db \<Rightarrow> db result" where
  "flagAnomaly w sessionId depositItemId reason d =
     rbind (case find_by ses_id sessionId (sessions d) of
              None \<Rightarrow> Inr d
            | Some s \<Rightarrow> if ses_status s \<in> {SS_COMPLETED, SS_CANCELLED, SS_EXPIRED} then Inr d
                        else update_session sessionId flag_session d) (\<lambda>d1.
     case given depositItemId of
       None \<Rightarrow> Inr d1
     | Some i \<Rightarrow>
       (case find_by itm_id i (items d1) of
          None \<Rightarrow> Inr d1
        | Some item \<Rightarrow> if undecided item then update_item w i (flag_item reason) d1 else Inr d1))"

definition fraudHoldKey :: "ident \<Rightarrow> string" where
  "fraudHoldKey depositItemId = ''fraud:'' @ depositItemId @ '':hold:v1''"

record fraud_result =
  fr_sessionId :: ident
  fr_decided :: bool
  fr_heldAmount :: int
  fr_caseId :: "ident option"

definition item_earnings :: "ident \<Rightarrow> ident \<Rightarrow> db \<Rightarrow> ledger list" where
  "item_earnings depositItemId userId d =
     sort_key led_id (filter (\<lambda>r. led_depositItemId r = Some depositItemId \<and> led_userId r = userId
       \<and> led_entryType r = EARN \<and> led_status r = LS_AVAILABLE) (ledgers d))"

definition fraud_case :: "ident \<Rightarrow> ident \<Rightarrow> ledger \<Rightarrow> case_input" where
  "fraud_case depositItemId userId earn =
     \<lparr>ki_businessKey = fraudHoldKey depositItemId, ki_userId = userId, ki_amount = led_amount earn, ki_entryType = EARN,
      ki_reasonCode = CASE_ALREADY_PAID_OUT, ki_depositItemId = Some depositItemId,
      ki_referenceType = Some ''DepositItem'', ki_referenceId = Some depositItemId\<rparr>"

text \<open>The loop over the earnings: what was held, and the last case.\<close>

fun hold_earnings :: "world \<Rightarrow> ident \<Rightarrow> ident \<Rightarrow> ledger list \<Rightarrow> int \<Rightarrow> ident option \<Rightarrow> db \<Rightarrow> (int \<times> ident option) tx" where
  "hold_earnings w itemId userId [] held caseId d = Inr ((held, caseId), d)"
| "hold_earnings w itemId userId (earn # es) held caseId d =
     (if wb_available (getWalletBalance userId d) \<ge> led_amount earn
      then if length (filter (\<lambda>r. led_id r = led_id earn \<and> led_status r = LS_AVAILABLE) (ledgers d)) \<noteq> 1
           then Inl (JsError ''REWARD_LEDGER_CHANGED'')
           else hold_earnings w itemId userId es (held + led_amount earn) caseId
                  (d\<lparr>ledgers := upd_by led_id (led_id earn) (set_status LS_PENDING) (ledgers d)\<rparr>)
      else rbind (openRewardReconciliationCase w (fraud_case itemId userId earn) d)
             (\<lambda>(c, d1). hold_earnings w itemId userId es held (Some (rc_id c)) d1))"

text \<open>The recipient of an item through its session, and the lock order of every item handler.\<close>

definition item_ref :: "ident \<Rightarrow> db \<Rightarrow> (ident \<times> ident) option" where
  "item_ref depositItemId d =
     (case find_by itm_id depositItemId (items d) of
        None \<Rightarrow> None
      | Some i \<Rightarrow> map_option (\<lambda>s. (ses_id s, ses_userId s)) (find_by ses_id (itm_sessionId i) (sessions d)))"

definition lock_item_path :: "ident \<Rightarrow> ident \<Rightarrow> ident \<Rightarrow> db \<Rightarrow> db result" where
  "lock_item_path userId sessionId depositItemId d =
     rbind (lockUser userId d) (\<lambda>d1. rbind (lockDepositSession sessionId d1) (lockDepositItem depositItemId))"

definition fraud_item :: "string \<Rightarrow> item \<Rightarrow> item" where
  "fraud_item reason i = i\<lparr>itm_status := IS_REVIEW, itm_externalFraudFlag := True,
     itm_validationReasonCode := (if itm_status i = IS_PENDING \<or> itm_status i = IS_ACCEPTED then Some reason
                                  else itm_validationReasonCode i)\<rparr>"

definition hold_locked :: "world \<Rightarrow> ident \<Rightarrow> ident \<Rightarrow> ident \<Rightarrow> string \<Rightarrow> db \<Rightarrow> fraud_result option tx" where
  "hold_locked w depositItemId sessionId userId reason d =
     (case find_by itm_id depositItemId (items d) of
        None \<Rightarrow> Inr (None, d)
      | Some item \<Rightarrow>
          if itm_status item = IS_REJECTED \<or> isReviewFinal item
          then rbind (update_item w depositItemId (\<lambda>i. i\<lparr>itm_externalFraudFlag := True\<rparr>) d)
                 (\<lambda>d1. Inr (Some \<lparr>fr_sessionId = sessionId, fr_decided = True, fr_heldAmount = 0, fr_caseId = None\<rparr>, d1))
          else
            rbind (update_item w depositItemId (fraud_item reason) d) (\<lambda>d1.
            let d2 = markCommitReviewPending (depositItemEarnKey depositItemId) d1 in
            rbind (hold_earnings w depositItemId userId (item_earnings depositItemId userId d2) 0 None d2) (\<lambda>((held, caseId), d3).
            Inr (Some \<lparr>fr_sessionId = sessionId, fr_decided = False, fr_heldAmount = held, fr_caseId = caseId\<rparr>, d3))))"

definition holdItemForFraud :: "world \<Rightarrow> ident \<Rightarrow> string \<Rightarrow> db \<Rightarrow> fraud_result option tx" where
  "holdItemForFraud w depositItemId reason d =
     (case item_ref depositItemId d of
        None \<Rightarrow> Inr (None, d)
      | Some (sessionId, userId) \<Rightarrow>
          rbind (lock_item_path userId sessionId depositItemId d) (hold_locked w depositItemId sessionId userId reason))"

section \<open>The acceptance point\<close>

definition MAX_ITEM_RUPIAH :: int where
  "MAX_ITEM_RUPIAH = 2147483647"

definition DepositItemChangedError :: err where
  "DepositItemChangedError = JsError ''DEPOSIT_ITEM_CHANGED''"

text \<open>The rate an item is priced with: an entry of the session's price list, or a rate row.\<close>

record applied_rate =
  ar_id :: "ident option"
  ar_pointsPerItem :: int
  ar_unit :: waste_unit
  ar_minWeightGrams :: "int option"
  ar_maxWeightGrams :: "int option"

definition rate_of_type :: "policy_type \<Rightarrow> applied_rate" where
  "rate_of_type t = \<lparr>ar_id = pt_rewardRateId t, ar_pointsPerItem = pt_rewardPerUnit t, ar_unit = pt_unit t,
     ar_minWeightGrams = pt_minWeightGrams t, ar_maxWeightGrams = pt_maxWeightGrams t\<rparr>"

definition rate_of_row :: "reward_rate \<Rightarrow> applied_rate" where
  "rate_of_row r = \<lparr>ar_id = Some (rr_id r), ar_pointsPerItem = rr_pointsPerItem r, ar_unit = rr_unit r,
     ar_minWeightGrams = rr_minWeightGrams r, ar_maxWeightGrams = rr_maxWeightGrams r\<rparr>"

definition show_material_reason :: "material_reason \<Rightarrow> string" where
  "show_material_reason r = (case r of
      AI_MATCH \<Rightarrow> ''AI_MATCH'' | AI_TYPE_MISMATCH \<Rightarrow> ''AI_TYPE_MISMATCH'' | AI_LOW_CONFIDENCE \<Rightarrow> ''AI_LOW_CONFIDENCE''
    | AI_UNAVAILABLE \<Rightarrow> ''AI_UNAVAILABLE'' | AI_TAXONOMY_MISSING \<Rightarrow> ''AI_TAXONOMY_MISSING''
    | MR_BARCODE_WEIGHT \<Rightarrow> ''BARCODE_WEIGHT'' | BARCODE_MISSING \<Rightarrow> ''BARCODE_MISSING'' | MR_WEIGHT_ONLY \<Rightarrow> ''WEIGHT_ONLY'')"

text \<open>Everything the decision reads under the locks.\<close>

record acceptance_view =
  av_session :: session
  av_item :: item
  av_wasteType :: waste_type
  av_campaign :: "campaign option"
  av_config :: "machine option"
  av_organizationMode :: reward_mode
  av_event :: "machine_event option"
  av_liveRate :: "applied_rate option"

definition av_policy :: "acceptance_view \<Rightarrow> policy_snapshot option" where
  "av_policy v = parseSessionPolicy (ses_policySnapshot (av_session v))"

definition machine_campaign :: "campaign option \<Rightarrow> campaign option" where
  "machine_campaign campaign = (case campaign of
      Some c \<Rightarrow> if campaignSupportsMachine (cmp_campaignType c) (cmp_supportsMachine c) then Some c else None
    | None \<Rightarrow> None)"

definition reported_after_end :: "acceptance_view \<Rightarrow> bool" where
  "reported_after_end v \<longleftrightarrow> itm_validationReasonCode (av_item v) = Some SESSION_CLOSED_REASON"

definition acceptance_late :: "acceptance_view \<Rightarrow> bool" where
  "acceptance_late v \<longleftrightarrow> reported_after_end v
     \<or> (case av_event v of
          None \<Rightarrow> True
        | Some e \<Rightarrow> mev_occurredAt e > sessionEnd (av_session v) (case av_config v of None \<Rightarrow> 0 | Some m \<Rightarrow> mac_sessionIdleTimeoutMinutes m))"

definition acceptance_mode :: "acceptance_view \<Rightarrow> reward_mode" where
  "acceptance_mode v = (case av_policy v of
      Some p \<Rightarrow> ps_mode p
    | None \<Rightarrow> machineRewardMode (map_option campaign_shape (av_campaign v)) (av_organizationMode v))"

definition unknown_type :: "acceptance_view \<Rightarrow> bool" where
  "unknown_type v = isUnknownWasteTypeItem (av_item v) (av_wasteType v)"

definition snapshot_type :: "ident \<Rightarrow> policy_snapshot option \<Rightarrow> policy_type option" where
  "snapshot_type wasteTypeId policy = Option.bind policy (\<lambda>p. find_by pt_id wasteTypeId (ps_wasteTypes p))"

definition outside_snapshot :: "acceptance_view \<Rightarrow> bool" where
  "outside_snapshot v \<longleftrightarrow> av_policy v \<noteq> None \<and> snapshot_type (itm_wasteTypeId (av_item v)) (av_policy v) = None \<and> \<not> unknown_type v"

definition unpriceable :: "acceptance_view \<Rightarrow> bool" where
  "unpriceable v \<longleftrightarrow> unknown_type v \<or> outside_snapshot v"

definition acceptance_rate :: "acceptance_view \<Rightarrow> applied_rate option" where
  "acceptance_rate v =
     (if unpriceable v then None
      else case snapshot_type (itm_wasteTypeId (av_item v)) (av_policy v) of
             Some t \<Rightarrow> Some (rate_of_type t)
           | None \<Rightarrow> av_liveRate v)"

definition first_some :: "'a option \<Rightarrow> 'a option \<Rightarrow> 'a option" where
  "first_some a b = (case a of Some x \<Rightarrow> Some x | None \<Rightarrow> b)"

definition acceptance_weight :: "acceptance_view \<Rightarrow> string option" where
  "acceptance_weight v = validateWeight (itm_measuredWeightGrams (av_item v))
     (first_some (Option.bind (acceptance_rate v) ar_minWeightGrams) (wt_minWeightGrams (av_wasteType v)))
     (first_some (Option.bind (acceptance_rate v) ar_maxWeightGrams) (wt_maxWeightGrams (av_wasteType v)))"

definition acceptance_material :: "acceptance_view \<Rightarrow> (bool \<times> material_reason) option" where
  "acceptance_material v =
     (if unpriceable v then None
      else Some (verifyMaterial
        \<lparr>mi_policy = Some (case av_config v of None \<Rightarrow> AI_REQUIRED | Some m \<Rightarrow> mac_materialVerification m),
         mi_acceptedLabels = wt_aiAcceptedLabels (av_wasteType v), mi_aiLabel = itm_aiDetectedType (av_item v),
         mi_aiConfidence = itm_aiConfidence (av_item v), mi_barcodeValue = itm_barcodeValue (av_item v), mi_minConfidence = None\<rparr>))"

text \<open>The price: points or a rate per kilogram, times the multiplier.\<close>

definition session_multiplier :: "policy_snapshot option \<Rightarrow> campaign option \<Rightarrow> rat" where
  "session_multiplier policy campaign = (case policy of
      Some p \<Rightarrow> bpsToMultiplier (ps_multiplierBps p)
    | None \<Rightarrow> nullish (Option.bind (machine_campaign campaign) cmp_rewardMultiplier) 1)"

definition price_with :: "applied_rate option \<Rightarrow> waste_type \<Rightarrow> int option \<Rightarrow> int \<Rightarrow> rat \<Rightarrow> int" where
  "price_with rate wasteType grams quantity multiplier =
     (let points = (case rate of Some r \<Rightarrow> ar_pointsPerItem r | None \<Rightarrow> nullish (wt_defaultRewardPerItem wasteType) 0);
          unit = (case rate of Some r \<Rightarrow> ar_unit r | None \<Rightarrow> wt_unit wasteType)
      in if unit = KG then computeWeightBasedRewardAmount points grams multiplier
         else computeRewardAmount points quantity multiplier)"

definition in_money_range :: "int \<Rightarrow> bool" where
  "in_money_range n \<longleftrightarrow> isSafeInteger n \<and> 0 \<le> n \<and> n \<le> MAX_ITEM_RUPIAH"

definition acceptance_computed :: "acceptance_view \<Rightarrow> int" where
  "acceptance_computed v = price_with (acceptance_rate v) (av_wasteType v) (itm_measuredWeightGrams (av_item v))
     (itm_quantity (av_item v)) (session_multiplier (av_policy v) (av_campaign v))"

definition out_of_range :: "acceptance_view \<Rightarrow> bool" where
  "out_of_range v \<longleftrightarrow> \<not> unpriceable v \<and> \<not> in_money_range (acceptance_computed v)"

definition acceptance_base :: "acceptance_view \<Rightarrow> int" where
  "acceptance_base v = (if unpriceable v \<or> out_of_range v then 0 else acceptance_computed v)"

definition has_anomaly :: "acceptance_view \<Rightarrow> bool" where
  "has_anomaly v \<longleftrightarrow> validateSensorSequence (itm_sensorSequence (av_item v)) \<noteq> None \<or> itm_externalFraudFlag (av_item v)
     \<or> ses_status (av_session v) = SS_REVIEW \<or> out_of_range v \<or> acceptance_late v"

definition acceptance_decision :: "acceptance_view \<Rightarrow> reward_decision result" where
  "acceptance_decision v = decideReward
     \<lparr>ri_mode = acceptance_mode v, ri_baseAmount = acceptance_base v,
      ri_weightValid = (unpriceable v \<or> acceptance_weight v = None),
      ri_typeMatch = (case acceptance_material v of None \<Rightarrow> False | Some (m, _) \<Rightarrow> m), ri_hasAnomaly = has_anomaly v\<rparr>"

definition acceptance_reason :: "acceptance_view \<Rightarrow> reward_decision \<Rightarrow> string" where
  "acceptance_reason v dec =
     (case dec_status dec of
        R_REJECTED \<Rightarrow> nullish (acceptance_weight v) ''WEIGHT_INVALID''
      | R_ACCEPTED \<Rightarrow> dec_reason dec
      | R_REVIEW \<Rightarrow>
          if unknown_type v then UNKNOWN_WASTE_TYPE_REASON
          else if outside_snapshot v then SNAPSHOT_TYPE_MISSING_REASON
          else if acceptance_late v then (if reported_after_end v then SESSION_CLOSED_REASON else SESSION_TIMEOUT_REASON)
          else case validateSensorSequence (itm_sensorSequence (av_item v)) of
                 Some r \<Rightarrow> r
               | None \<Rightarrow> if out_of_range v then ''REWARD_OUT_OF_RANGE'' else if has_anomaly v then ''ANOMALY_REVIEW''
                         else (case acceptance_material v of Some (_, r) \<Rightarrow> show_material_reason r | None \<Rightarrow> []))"

definition item_status_of :: "reward_status \<Rightarrow> item_status" where
  "item_status_of s = (case s of R_ACCEPTED \<Rightarrow> IS_ACCEPTED | R_REVIEW \<Rightarrow> IS_REVIEW | R_REJECTED \<Rightarrow> IS_REJECTED)"

definition accepted_item :: "world \<Rightarrow> acceptance_view \<Rightarrow> reward_decision \<Rightarrow> ident \<Rightarrow> bool \<Rightarrow> item \<Rightarrow> item" where
  "accepted_item w v dec eventId hasCompactor i =
     i\<lparr>itm_status := item_status_of (dec_status dec), itm_validationReasonCode := Some (acceptance_reason v dec),
       itm_rewardRateId := Option.bind (acceptance_rate v) ar_id,
       itm_baseRewardAmount := (if acceptance_mode v = MONEY_REWARD then acceptance_base v else 0),
       itm_complianceMultiplier := (if dec_status dec = R_ACCEPTED then 1
                                    else if dec_status dec = R_REVIEW \<and> \<not> unpriceable v then REVIEW_HOLD_RATIO else 0),
       itm_rewardAmount := dec_amount dec,
       itm_acceptedAt := (if dec_status dec \<noteq> R_REJECTED then Some (w_now w) else None),
       itm_acceptanceEventId := Some eventId,
       itm_compactionStatus := (if hasCompactor then CP_PENDING else CP_NOT_REQUIRED)\<rparr>"

definition acceptance_credit :: "acceptance_view \<Rightarrow> reward_decision \<Rightarrow> ident \<Rightarrow> credit_input" where
  "acceptance_credit v dec organizationId =
     (let fundedBase = (if acceptance_mode v = MONEY_REWARD then acceptance_base v else 0);
          itemId = itm_id (av_item v)
      in \<lparr>ci_businessKey = depositItemEarnKey itemId, ci_userId = ses_userId (av_session v), ci_organizationId = organizationId,
          ci_campaignId = ses_campaignId (av_session v), ci_amount = dec_amount dec, ci_status = dec_ledgerStatus dec,
          ci_reasonCode = acceptance_reason v dec, ci_referenceType = ''DepositItem'', ci_referenceId = itemId,
          ci_entryType = None, ci_depositItemId = Some itemId, ci_sessionId = Some (ses_id (av_session v)), ci_actorId = None,
          ci_funding = Some (Hint (Some (if dec_status dec = R_REVIEW then fundedBase else dec_amount dec))
                                  (Some (dec_status dec = R_REVIEW)))\<rparr>)"

definition advance_session :: "session \<Rightarrow> reward_status \<Rightarrow> db \<Rightarrow> db result" where
  "advance_session session status d =
     (if ses_status session \<noteq> SS_PROCESSING_ITEM then Inr d
      else rbind (transitionSession (ses_status session) (if status = R_REVIEW then ''ANOMALY'' else ''ITEM_DONE''))
        (\<lambda>nxt. update_session (ses_id session)
           (\<lambda>s. s\<lparr>ses_status := nxt, ses_anomalyCount := (if status = R_REVIEW then ses_anomalyCount s + 1 else ses_anomalyCount s)\<rparr>) d))"

text \<open>The locks of an acceptance: recipient, the organization's account, campaign, session, item.\<close>

definition acceptance_locks :: "world \<Rightarrow> machine \<Rightarrow> session \<Rightarrow> ident \<Rightarrow> db \<Rightarrow> db result" where
  "acceptance_locks w machine ref depositItemId d =
     rbind (lockUser (ses_userId ref) d) (\<lambda>d1.
     rbind (lockFundingAccountForOrganization w (mac_organizationId machine) d1) (\<lambda>(_, d2).
     rbind (lockCampaignOpt (given (ses_campaignId ref)) d2) (\<lambda>d3.
     rbind (lockDepositSession (ses_id ref) d3) (lockDepositItem depositItemId))))"

definition view_of :: "world \<Rightarrow> machine \<Rightarrow> session \<Rightarrow> item \<Rightarrow> waste_type \<Rightarrow> ident \<Rightarrow> db \<Rightarrow> acceptance_view" where
  "view_of w machine session item wasteType eventId d =
     (let config = find_by mac_id (mac_id machine) (machines d);
          campaign = Option.bind (ses_campaignId session) (\<lambda>c. find_by cmp_id c (campaigns d))
      in \<lparr>av_session = session, av_item = item, av_wasteType = wasteType, av_campaign = campaign, av_config = config,
          av_organizationMode = (case Option.bind config (\<lambda>m. find_by org_id (mac_organizationId m) (organizations d)) of
             None \<Rightarrow> COMPLIANCE_ONLY | Some g \<Rightarrow> org_machineRewardMode g),
          av_event = find_by mev_id eventId (machineEvents d),
          av_liveRate = map_option rate_of_row (resolveRewardRate (mac_organizationId machine)
             (map_option cmp_id (machine_campaign campaign)) (itm_wasteTypeId item) (w_now w) d)\<rparr>)"

definition write_acceptance ::
  "world \<Rightarrow> machine \<Rightarrow> acceptance_view \<Rightarrow> reward_decision \<Rightarrow> ident \<Rightarrow> db \<Rightarrow> db result" where
  "write_acceptance w machine v dec eventId d =
     (let (count, d1) = cas_item w (itm_id (av_item v)) undecided (accepted_item w v dec eventId (mac_hasCompactor machine)) d in
      if count \<noteq> 1 then Inl DepositItemChangedError
      else
        rbind (if dec_status dec = R_REJECTED then Inr d1
               else rbind (creditReward w (acceptance_credit v dec (mac_organizationId machine)) d1) (\<lambda>(_, d2). Inr d2))
          (advance_session (av_session v) (dec_status dec)))"

definition accept_locked :: "world \<Rightarrow> machine \<Rightarrow> session \<Rightarrow> ident \<Rightarrow> ident \<Rightarrow> db \<Rightarrow> db result" where
  "accept_locked w machine ref depositItemId eventId d =
     (case (find_by ses_id (ses_id ref) (sessions d), find_by itm_id depositItemId (items d)) of
        (Some session, Some item) \<Rightarrow>
          if itm_sessionId item \<noteq> ses_id ref then Inr d
          else rbind (find_or_throw wt_id (itm_wasteTypeId item) (wasteTypes d)) (\<lambda>wasteType.
            if ses_userId session \<noteq> ses_userId ref \<or> ses_campaignId session \<noteq> ses_campaignId ref
            then Inl DepositItemChangedError
            else if \<not> undecided item then Inr d
            else
              let v = view_of w machine session item wasteType eventId d in
              rbind (acceptance_decision v) (\<lambda>dec. write_acceptance w machine v dec eventId d))
      | _ \<Rightarrow> Inr d)"

definition handleAcceptance :: "world \<Rightarrow> machine \<Rightarrow> ident \<Rightarrow> ident \<Rightarrow> ident \<Rightarrow> db \<Rightarrow> db result" where
  "handleAcceptance w machine sessionId depositItemId acceptanceEventId d =
     (case (find_by ses_id sessionId (sessions d), find_by itm_id depositItemId (items d)) of
        (Some ref, Some itemRef) \<Rightarrow>
          if itm_sessionId itemRef \<noteq> sessionId then Inr d
          else rbind (acceptance_locks w machine ref depositItemId d)
                 (accept_locked w machine ref depositItemId acceptanceEventId)
      | _ \<Rightarrow> Inr d)"

section \<open>Rejection and evidence\<close>

definition finish_item :: "ident option \<Rightarrow> db \<Rightarrow> db result" where
  "finish_item sessionId d =
     (case given sessionId of
        None \<Rightarrow> Inr d
      | Some s \<Rightarrow>
        (case find_by ses_id s (sessions d) of
           None \<Rightarrow> Inr d
         | Some session \<Rightarrow>
             if ses_status session \<noteq> SS_PROCESSING_ITEM then Inr d
             else rbind (transitionSession (ses_status session) ''ITEM_DONE'')
                    (\<lambda>nxt. update_session (ses_id session) (\<lambda>r. r\<lparr>ses_status := nxt\<rparr>) d)))"

definition handleItemRejected :: "world \<Rightarrow> ident option \<Rightarrow> ident \<Rightarrow> string \<Rightarrow> db \<Rightarrow> db result" where
  "handleItemRejected w sessionId depositItemId reason d =
     (case item_ref depositItemId d of
        None \<Rightarrow> Inr d
      | Some (refSession, userId) \<Rightarrow>
          rbind (lock_item_path userId refSession depositItemId d) (\<lambda>d1.
          rbind (finish_item sessionId d1) (\<lambda>d2.
          case find_by itm_id depositItemId (items d2) of
            None \<Rightarrow> Inr d2
          | Some item \<Rightarrow>
              if \<not> undecided item then Inr d2
              else if list_ex (\<lambda>r. led_depositItemId r = Some depositItemId) (ledgers d2) then Inr d2
              else Inr (snd (cas_item w depositItemId undecided
                     (\<lambda>i. i\<lparr>itm_status := IS_REJECTED, itm_validationReasonCode := Some reason\<rparr>) d2)))))"

text \<open>The columns of a reading, unchecked as they came; and the compaction signal.\<close>

datatype item_evidence =
    Measurement "jval option" "jval option" "jval option" "jval option" \<comment> \<open>weight, label, confidence, barcode\<close>
  | Compaction compaction_status

definition write_reading ::
  "jval option \<Rightarrow> jval option \<Rightarrow> jval option \<Rightarrow> jval option \<Rightarrow> item \<Rightarrow> item result" where
  "write_reading weight label confidence barcode i =
     rbind (write_nullable int_column weight (itm_measuredWeightGrams i)) (\<lambda>g.
     rbind (write_nullable text_column label (itm_aiDetectedType i)) (\<lambda>l.
     rbind (write_nullable float_column confidence (itm_aiConfidence i)) (\<lambda>c.
     rbind (write_nullable text_column barcode (itm_barcodeValue i)) (\<lambda>b.
     Inr (i\<lparr>itm_measuredWeightGrams := g, itm_aiDetectedType := l, itm_aiConfidence := c, itm_barcodeValue := b\<rparr>)))))"

definition compactable :: "item \<Rightarrow> bool" where
  "compactable i \<longleftrightarrow> itm_acceptanceEventId i \<noteq> None \<and> itm_status i \<noteq> IS_REJECTED"

definition recordItemEvidence :: "world \<Rightarrow> ident \<Rightarrow> item_evidence \<Rightarrow> db \<Rightarrow> bool tx" where
  "recordItemEvidence w depositItemId evidence d =
     (case item_ref depositItemId d of
        None \<Rightarrow> Inr (False, d)
      | Some (sessionId, userId) \<Rightarrow>
          rbind (lock_item_path userId sessionId depositItemId d) (\<lambda>d1.
          case find_by itm_id depositItemId (items d1) of
            None \<Rightarrow> Inr (False, d1)
          | Some item \<Rightarrow>
            (case evidence of
               Measurement g l c b \<Rightarrow>
                 if \<not> undecided item then Inr (False, d1)
                 else rbind (write_reading g l c b item) (\<lambda>written.
                   let (count, d2) = cas_item w depositItemId undecided (\<lambda>_. written) d1 in Inr (count = 1, d2))
             | Compaction status \<Rightarrow>
                 if \<not> compactable item then Inr (False, d1)
                 else let (count, d2) = cas_item w depositItemId compactable (\<lambda>i. i\<lparr>itm_compactionStatus := status\<rparr>) d1
                      in Inr (count = 1, d2))))"

section \<open>The close watermark\<close>

definition WATERMARK_COUNT_MISMATCH :: string where
  "WATERMARK_COUNT_MISMATCH = ''Jumlah event sesi yang dikonfirmasi mesin tidak sesuai dengan yang tercatat di server''"
definition WATERMARK_SESSION_STILL_OPEN :: string where
  "WATERMARK_SESSION_STILL_OPEN = ''Sesi masih berjalan di server; konfirmasi penutupan diproses ulang nanti''"
definition WATERMARK_PAYLOAD_INVALID :: string where
  "WATERMARK_PAYLOAD_INVALID = ''Payload konfirmasi penutupan sesi tidak valid''"
definition CLOSE_WATERMARK_RELEASE_REASON :: string where
  "CLOSE_WATERMARK_RELEASE_REASON = ''CLOSE_WATERMARK''"

record watermark_payload =
  wp_eventCount :: int
  wp_lastLocalEventId :: "string option"
  wp_consumedRupiah :: "int option"
  wp_consumedItems :: "int option"

definition safe_integer :: "jval option \<Rightarrow> int option" where
  "safe_integer v = (case v of
      Some (JNum q _) \<Rightarrow> if q = of_int \<lfloor>q\<rfloor> \<and> isSafeInteger \<lfloor>q\<rfloor> \<and> 0 \<le> q then Some \<lfloor>q\<rfloor> else None
    | _ \<Rightarrow> None)"

definition parsePayload :: "payload \<Rightarrow> watermark_payload result" where
  "parsePayload raw =
     (let invalid = HttpError 422 WATERMARK_PAYLOAD_INVALID; lst = field raw ''lastLocalEventId'' in
      case safe_integer (field raw ''eventCount'') of
        None \<Rightarrow> Inl invalid
      | Some eventCount \<Rightarrow>
          if \<not> (case lst of None \<Rightarrow> True | Some JNull \<Rightarrow> True | Some (JStr s) \<Rightarrow> s \<noteq> [] \<and> length s \<le> 191 | _ \<Rightarrow> False)
          then Inl invalid
          else if eventCount > 0 \<and> text_of lst = None then Inl invalid
          else Inr \<lparr>wp_eventCount = eventCount, wp_lastLocalEventId = text_of lst,
                    wp_consumedRupiah = safe_integer (field raw ''consumedRupiah''),
                    wp_consumedItems = safe_integer (field raw ''consumedItems'')\<rparr>)"

definition watermark_locks :: "machine \<Rightarrow> session \<Rightarrow> reservation option \<Rightarrow> db \<Rightarrow> db result" where
  "watermark_locks machine ref reservationRef d =
     rbind (lockUser (ses_userId ref) d) (\<lambda>d1.
     rbind (case reservationRef of None \<Rightarrow> Inr d1 | Some r \<Rightarrow> lockFundingAccount (rsv_accountId r) d1) (\<lambda>d2.
     rbind (lockCampaignOpt (given (ses_campaignId ref)) d2) (\<lambda>d3.
     rbind (lockMachine (mac_id machine) d3) (lockDepositSession (ses_id ref)))))"

text \<open>The machine's organization must own the account the reservation holds.\<close>

definition watermark_owner :: "machine \<Rightarrow> reservation option \<Rightarrow> db \<Rightarrow> unit result" where
  "watermark_owner machine reservationRef d =
     (case reservationRef of
        None \<Rightarrow> Inr ()
      | Some r \<Rightarrow>
          rbind (find_or_throw acc_id (rsv_accountId r) (accounts d)) (\<lambda>account.
          case find_by mac_id (mac_id machine) (machines d) of
            None \<Rightarrow> Inl (HttpError 409 MACHINE_CHANGED)
          | Some current \<Rightarrow> if mac_organizationId current \<noteq> acc_organizationId account then Inl (HttpError 409 MACHINE_CHANGED) else Inr ()))"

text \<open>An overdue session is closed by the timeout policy first; one the server still runs is refused.\<close>

definition watermark_close_first :: "world \<Rightarrow> machine \<Rightarrow> session \<Rightarrow> db \<Rightarrow> db result" where
  "watermark_close_first w machine session d =
     (if isTerminalSession (ses_status session) then Inr d
      else
        rbind (if sessionDeadline session (mac_sessionIdleTimeoutMinutes machine) \<le> w_now w
               then rbind (expireIfTimedOut w (ses_id session) (mac_sessionIdleTimeoutMinutes machine) (w_now w) d) (\<lambda>(_, d1). Inr d1)
               else Inr d) (\<lambda>d1.
        case find_by ses_id (ses_id session) (sessions d1) of
          None \<Rightarrow> Inl (HttpError 503 WATERMARK_SESSION_STILL_OPEN)
        | Some s \<Rightarrow> if isTerminalSession (ses_status s) then Inr d1 else Inl (HttpError 503 WATERMARK_SESSION_STILL_OPEN)))"

definition session_event :: "machine \<Rightarrow> ident \<Rightarrow> machine_event \<Rightarrow> bool" where
  "session_event machine sessionId e \<longleftrightarrow> mev_machineId e = mac_id machine \<and> mev_sessionId e = Some sessionId"

text \<open>The server holds at least what the machine counted, and the last event itself.\<close>

definition watermark_confirmed :: "machine \<Rightarrow> ident \<Rightarrow> watermark_payload \<Rightarrow> db \<Rightarrow> bool" where
  "watermark_confirmed machine sessionId p d \<longleftrightarrow>
     wp_eventCount p \<le> int (length (filter (\<lambda>e. session_event machine sessionId e \<and> mev_eventType e \<noteq> EV_SESSION_CLOSE_WATERMARK) (machineEvents d)))
     \<and> (case wp_lastLocalEventId p of
          None \<Rightarrow> True
        | Some l \<Rightarrow> list_ex (\<lambda>e. session_event machine sessionId e \<and> mev_localEventId e = l) (machineEvents d))"

text \<open>What stays held for items a reviewer may still approve.\<close>

definition kept_for_review :: "reservation \<Rightarrow> ident \<Rightarrow> db \<Rightarrow> int" where
  "kept_for_review reservation sessionId d =
     (case fst (sessionReviewExposure sessionId d) of
        None \<Rightarrow> rsv_remainingRupiah reservation
      | Some e \<Rightarrow> min e (rsv_remainingRupiah reservation))"

definition watermark_release :: "world \<Rightarrow> ident \<Rightarrow> reservation option \<Rightarrow> db \<Rightarrow> int tx" where
  "watermark_release w sessionId reservationRef d =
     (case (if reservationRef = None then None else findReservationByKey (sessionAdmissionKey sessionId) d) of
        None \<Rightarrow> Inr (0, d)
      | Some reservation \<Rightarrow>
          if rsv_status reservation \<noteq> RES_ACTIVE then Inr (0, d)
          else
            let kept = kept_for_review reservation sessionId d in
            rbind (releaseUnusedRewardBudget w (rsv_id reservation) (rsv_remainingRupiah reservation - kept)
                \<lparr>ro_close = (kept = 0), ro_releasedById = None, ro_reason = Some CLOSE_WATERMARK_RELEASE_REASON,
                 ro_businessKey = Some (sessionCloseWatermarkKey sessionId)\<rparr> d)
              (\<lambda>((released, _), d1). Inr (released, d1)))"

definition mark_watermark :: "world \<Rightarrow> watermark_payload \<Rightarrow> session \<Rightarrow> session" where
  "mark_watermark w p s = s\<lparr>ses_closeWatermarkAt := Some (w_now w), ses_closeWatermarkEventCount := Some (wp_eventCount p)\<rparr>"

definition watermark_locked ::
  "world \<Rightarrow> machine \<Rightarrow> watermark_payload \<Rightarrow> ident \<Rightarrow> reservation option \<Rightarrow> db \<Rightarrow> int tx" where
  "watermark_locked w machine p sessionId reservationRef d =
     rbind (watermark_owner machine reservationRef d) (\<lambda>_.
     case find_by ses_id sessionId (sessions d) of
       None \<Rightarrow> Inr (0, d)
     | Some session \<Rightarrow>
         if ses_closeWatermarkAt session \<noteq> None then Inr (0, d)
         else
           rbind (watermark_close_first w machine session d) (\<lambda>d1.
           if \<not> watermark_confirmed machine sessionId p d1 then Inl (HttpError 409 WATERMARK_COUNT_MISMATCH)
           else
             rbind (update_row (\<lambda>s. opt_int4 (ses_closeWatermarkEventCount s)) ses_id sessionId (mark_watermark w p) (sessions d1))
               (\<lambda>t. watermark_release w sessionId reservationRef (d1\<lparr>sessions := t\<rparr>))))"

text \<open>The result is what was released, for the audit row.\<close>

definition handleCloseWatermark :: "world \<Rightarrow> machine \<Rightarrow> ingest_input \<Rightarrow> db \<Rightarrow> int tx" where
  "handleCloseWatermark w machine inp d =
     (case given (in_sessionId inp) of
        None \<Rightarrow> Inr (0, d)
      | Some sessionId \<Rightarrow>
          rbind (parsePayload (payloadStr (in_payload inp))) (\<lambda>p.
          case find_by ses_id sessionId (sessions d) of
            None \<Rightarrow> Inr (0, d)
          | Some ref \<Rightarrow>
              if ses_machineId ref \<noteq> mac_id machine then Inr (0, d)
              else
                let reservationRef = findReservationByKey (sessionAdmissionKey sessionId) d in
                rbind (watermark_locks machine ref reservationRef d) (watermark_locked w machine p sessionId reservationRef)))"

section \<open>The effects of one event\<close>

definition needs_pickup :: "payload \<Rightarrow> rat option \<Rightarrow> bool" where
  "needs_pickup p fill \<longleftrightarrow> (case fill of Some f \<Rightarrow> f \<ge> of_int AUTO_PICKUP_FILL_THRESHOLD | None \<Rightarrow> False)
     \<or> field p ''status'' = Some (JStr ''FULL'')"

definition on_heartbeat :: "world \<Rightarrow> machine \<Rightarrow> payload \<Rightarrow> db \<Rightarrow> db result" where
  "on_heartbeat w machine p d =
     (let fill = number_of (field p ''fillLevelPercent'') in
      rbind (case present (field p ''status'') of None \<Rightarrow> Inr None | Some v \<Rightarrow> rbind (machine_status_column v) (\<lambda>s. Inr (Some s))) (\<lambda>status.
      rbind (case fill of None \<Rightarrow> Inr None
             | Some f \<Rightarrow> rbind (int_column (JNum f [])) (\<lambda>n. Inr (Some n))) (\<lambda>level.
      rbind (update_machine (mac_id machine) (\<lambda>m. m\<lparr>mac_lastHeartbeatAt := Some (w_now w),
               mac_status := nullish status (mac_status m), mac_fillLevelPercent := nullish level (mac_fillLevelPercent m)\<rparr>) d) (\<lambda>d1.
      if needs_pickup p fill then maybeCreateAutoPickup w machine d1 else Inr d1))))"

definition on_status :: "world \<Rightarrow> machine \<Rightarrow> payload \<Rightarrow> db \<Rightarrow> db result" where
  "on_status w machine p d =
     (case field p ''status'' of
        None \<Rightarrow> Inr d
      | Some v \<Rightarrow>
          if \<not> truthy (Some v) then Inr d
          else rbind (machine_status_column v) (\<lambda>status.
            rbind (update_machine (mac_id machine) (\<lambda>m. m\<lparr>mac_status := status\<rparr>) d) (\<lambda>d1.
            if v = JStr ''FULL'' then maybeCreateAutoPickup w machine d1 else Inr d1)))"

definition on_fill :: "world \<Rightarrow> machine \<Rightarrow> payload \<Rightarrow> db \<Rightarrow> db result" where
  "on_fill w machine p d =
     (case number_of (field p ''fillLevelPercent'') of
        None \<Rightarrow> Inr d
      | Some fill \<Rightarrow>
          rbind (int_column (JNum fill [])) (\<lambda>level.
          rbind (update_machine (mac_id machine)
                  (\<lambda>m. m\<lparr>mac_fillLevelPercent := level, mac_status := (if fill \<ge> 95 then MS_FULL else mac_status m)\<rparr>) d) (\<lambda>d1.
          if fill \<ge> of_int AUTO_PICKUP_FILL_THRESHOLD then maybeCreateAutoPickup w machine d1 else Inr d1)))"

text \<open>A session event that moves the status by one action, from the statuses it applies to.\<close>

definition move_session :: "session_status list \<Rightarrow> string \<Rightarrow> ident option \<Rightarrow> db \<Rightarrow> db result" where
  "move_session from action sessionId d =
     (case given sessionId of
        None \<Rightarrow> Inr d
      | Some s \<Rightarrow>
        (case find_by ses_id s (sessions d) of
           None \<Rightarrow> Inr d
         | Some session \<Rightarrow>
             if ses_status session \<notin> set from then Inr d
             else rbind (transitionSession (ses_status session) action)
                    (\<lambda>nxt. update_session (ses_id session) (\<lambda>r. r\<lparr>ses_status := nxt\<rparr>) d)))"

definition on_safe_state :: "machine \<Rightarrow> ident option \<Rightarrow> db \<Rightarrow> db result" where
  "on_safe_state machine sessionId d =
     rbind (update_machine (mac_id machine) (\<lambda>m. m\<lparr>mac_status := MS_ERROR\<rparr>) d) (\<lambda>d1.
     case given sessionId of
       None \<Rightarrow> Inr d1
     | Some s \<Rightarrow>
       (case find_by ses_id s (sessions d1) of
          None \<Rightarrow> Inr d1
        | Some session \<Rightarrow>
            if ses_status session \<in> {SS_COMPLETED, SS_CANCELLED, SS_EXPIRED} then Inr d1
            else update_session (ses_id session)
                   (\<lambda>r. r\<lparr>ses_status := nullish (canTransitionSession (ses_status session) ''SAFE_STATE'') (ses_status session),
                          ses_anomalyCount := ses_anomalyCount r + 1\<rparr>) d1))"

subsection \<open>A detected item\<close>

text \<open>\<^verbatim>\<open>s.includes(p)\<close>, and the case-insensitive \<^verbatim>\<open>contains\<close> of a query.\<close>

fun includes_text :: "string \<Rightarrow> string \<Rightarrow> bool" where
  "includes_text [] p = (p = [])"
| "includes_text (c # s) p = (startsWith (c # s) p \<or> includes_text s p)"

definition contains_insensitive :: "string \<Rightarrow> string \<Rightarrow> bool" where
  "contains_insensitive s p = includes_text (js_lower s) (js_lower p)"

definition active_type_named :: "string \<Rightarrow> db \<Rightarrow> ident option" where
  "active_type_named name d = map_option wt_id (List.find (\<lambda>t. contains_insensitive (wt_name t) name \<and> wt_active t) (wasteTypes d))"

text \<open>The type the kiosk sent: kept only while it is an accepted type of the machine.\<close>

definition kiosk_type :: "machine \<Rightarrow> payload \<Rightarrow> db \<Rightarrow> ident option result" where
  "kiosk_type machine p d =
     (case present (field p ''wasteTypeId'') of
        None \<Rightarrow> Inr None
      | Some v \<Rightarrow>
          if \<not> truthy (Some v) then Inr None
          else rbind (text_column v) (\<lambda>t.
            Inr (if list_ex (\<lambda>l. mwt_machineId l = mac_id machine \<and> mwt_wasteTypeId l = t \<and> mwt_active l) (machineWasteTypes d)
                 then Some t else None)))"

definition named_type :: "payload \<Rightarrow> db \<Rightarrow> ident option" where
  "named_type p d =
     (case field p ''wasteTypeName'' of
        None \<Rightarrow> None
      | Some v \<Rightarrow> if \<not> truthy (Some v) then None
                  else active_type_named (js_trim (takeWhile (\<lambda>c. c \<noteq> CHR ''('') (js_String v))) d)"

definition mapped_name :: "string \<Rightarrow> string" where
  "mapped_name key =
     (if includes_text key ''anorganik'' \<or> includes_text key ''kaleng'' then ''Anorganik''
      else if includes_text key ''organik'' \<or> includes_text key ''botol'' then ''Organik'' else ''Anorganik'')"

definition keyed_type :: "payload \<Rightarrow> db \<Rightarrow> ident option" where
  "keyed_type p d =
     (case field p ''wasteTypeKey'' of
        None \<Rightarrow> None
      | Some v \<Rightarrow> if \<not> truthy (Some v) then None else active_type_named (mapped_name (js_lower (js_String v))) d)"

definition detected_type :: "ident option \<Rightarrow> payload \<Rightarrow> db \<Rightarrow> ident option" where
  "detected_type kiosk p d = first_some kiosk (first_some (named_type p d) (keyed_type p d))"

definition item_quantity :: "payload \<Rightarrow> int result" where
  "item_quantity p = (case present (field p ''quantity'') of None \<Rightarrow> Inr 1 | Some v \<Rightarrow> int_column v)"

definition new_item :: "world \<Rightarrow> db \<Rightarrow> session \<Rightarrow> ident \<Rightarrow> int \<Rightarrow> bool \<Rightarrow> item" where
  "new_item w d session wasteTypeId quantity fallback =
     \<lparr>itm_id = newId w d, itm_sessionId = ses_id session,
      itm_status = (if fallback \<or> isTerminalSession (ses_status session) then IS_REVIEW else IS_PENDING),
      itm_acceptanceEventId = None, itm_wasteTypeId = wasteTypeId, itm_quantity = quantity,
      itm_measuredWeightGrams = None, itm_aiDetectedType = None, itm_aiConfidence = None, itm_barcodeValue = None,
      itm_rewardRateId = None, itm_baseRewardAmount = 0, itm_complianceMultiplier = 1, itm_rewardAmount = 0,
      itm_validationReasonCode = (if fallback then Some UNKNOWN_WASTE_TYPE_REASON
                                  else if isTerminalSession (ses_status session) then Some SESSION_CLOSED_REASON else None),
      itm_sensorSequence = None, itm_acceptedAt = None, itm_externalFraudFlag = False, itm_compactionStatus = CP_NOT_REQUIRED,
      itm_createdAt = w_now w, itm_updatedAt = w_now w\<rparr>"

definition insert_item :: "item \<Rightarrow> db \<Rightarrow> db result" where
  "insert_item i d =
     (if find_by wt_id (itm_wasteTypeId i) (wasteTypes d) = None then Inl (PrismaError ''P2003'')
      else rbind (create_row (\<lambda>r. int4 (itm_quantity r)) (\<lambda>a b. itm_id a = itm_id b) i (items d))
             (\<lambda>t. Inr (bump_seq (d\<lparr>items := t\<rparr>))))"

definition set_event_item :: "ident \<Rightarrow> ident \<Rightarrow> db \<Rightarrow> db result" where
  "set_event_item eventId itemId d =
     rbind (update_row (\<lambda>_. True) mev_id eventId (\<lambda>e. e\<lparr>mev_depositItemId := Some itemId\<rparr>) (machineEvents d))
       (\<lambda>t. Inr (d\<lparr>machineEvents := t\<rparr>))"

definition extend_deadline :: "world \<Rightarrow> machine \<Rightarrow> session \<Rightarrow> db \<Rightarrow> db result" where
  "extend_deadline w machine session d =
     (let extended = w_now w + mac_sessionIdleTimeoutMinutes machine * 60000 in
      if (case ses_timeoutAt session of None \<Rightarrow> True | Some t \<Rightarrow> t < extended)
      then update_session (ses_id session) (\<lambda>s. s\<lparr>ses_timeoutAt := Some extended\<rparr>) d
      else Inr d)"

text \<open>The new item under the type that was found, or under the shared fallback type.\<close>

definition create_detected :: "world \<Rightarrow> payload \<Rightarrow> session \<Rightarrow> ident option \<Rightarrow> db \<Rightarrow> ident tx" where
  "create_detected w p session kiosk d =
     rbind (case detected_type kiosk p d of
              Some t \<Rightarrow> Inr ((t, False), d)
            | None \<Rightarrow> rbind (resolveOrCreateUnknownWasteType w d) (\<lambda>(t, d1). Inr ((t, True), d1))) (\<lambda>((wasteTypeId, fallback), d1).
     rbind (item_quantity p) (\<lambda>quantity.
     rbind (insert_item (new_item w d1 session wasteTypeId quantity fallback) d1) (\<lambda>d2. Inr (newId w d1, d2))))"

text \<open>The id of the created item, none when the session does not exist.\<close>

definition on_detected :: "world \<Rightarrow> machine \<Rightarrow> payload \<Rightarrow> ident \<Rightarrow> ident \<Rightarrow> db \<Rightarrow> ident option tx" where
  "on_detected w machine p sessionId eventId d =
     (case find_by ses_id sessionId (sessions d) of
        None \<Rightarrow> Inr (None, d)
      | Some session \<Rightarrow>
          let pastDeadline = sessionDeadline session (mac_sessionIdleTimeoutMinutes machine) \<le> w_now w;
              d0 = acquire (LDepositSession sessionId) d in
          rbind (if \<not> isTerminalSession (ses_status session) \<and> \<not> pastDeadline then extend_deadline w machine session d0 else Inr d0) (\<lambda>d1.
          rbind (kiosk_type machine p d1) (\<lambda>kiosk.
          rbind (create_detected w p session kiosk d1) (\<lambda>(itemId, d2).
          rbind (set_event_item eventId itemId d2) (\<lambda>d3.
          rbind (if ses_status session = SS_ACTIVE \<and> \<not> pastDeadline
                 then update_session (ses_id session) (\<lambda>s. s\<lparr>ses_status := SS_PROCESSING_ITEM\<rparr>) d3
                 else Inr d3) (\<lambda>d4.
          Inr (Some itemId, d4)))))))"

subsection \<open>The dispatch\<close>

definition done_with :: "db result \<Rightarrow> ident option tx" where
  "done_with m = rbind m (\<lambda>d. Inr (None, d))"

definition on_evidence :: "world \<Rightarrow> item_evidence \<Rightarrow> ident \<Rightarrow> db \<Rightarrow> db result" where
  "on_evidence w evidence itemId d = rbind (recordItemEvidence w itemId evidence d) (\<lambda>(_, d1). Inr d1)"

definition on_sensor :: "world \<Rightarrow> payload \<Rightarrow> ident option \<Rightarrow> ident \<Rightarrow> db \<Rightarrow> db result" where
  "on_sensor w p sessionId itemId d =
     rbind (read_sensor p) (\<lambda>sq.
     rbind (update_item w itemId (\<lambda>i. i\<lparr>itm_sensorSequence := Some sq\<rparr>) d) (\<lambda>d1.
     case (validateSensorSequence (Some sq), given sessionId) of
       (Some anomaly, Some s) \<Rightarrow> flagAnomaly w s (Some itemId) anomaly d1
     | _ \<Rightarrow> Inr d1))"

definition on_fraud :: "world \<Rightarrow> ingest_input \<Rightarrow> ident \<Rightarrow> db \<Rightarrow> db result" where
  "on_fraud w inp eventId d =
     (let p = payloadStr (in_payload inp);
          reason = machineReasonCode (field p ''reason'')
            (if in_eventType inp = EV_FRAUD_DETECTED then ''FRAUD_DETECTED'' else ''VANDALISM_DETECTED'');
          affected = (if in_eventType inp = EV_FRAUD_DETECTED then resolveFraudDepositItemId inp d else in_depositItemId inp)
      in rbind (case given affected of
                  None \<Rightarrow> Inr d
                | Some i \<Rightarrow> rbind (holdItemForFraud w i reason d) (\<lambda>(_, d1). set_event_item eventId i d1)) (\<lambda>d2.
         case given (in_sessionId inp) of
           None \<Rightarrow> Inr d2
         | Some s \<Rightarrow> flagAnomaly w s None reason d2))"

text \<open>The readings an event carries for one item.\<close>

definition reading_of :: "event_type \<Rightarrow> payload \<Rightarrow> item_evidence option" where
  "reading_of t p = (case t of
      EV_WEIGHT_MEASURED \<Rightarrow> Some (Measurement (field p ''weightGrams'') None None None)
    | EV_IMAGE_CLASSIFIED \<Rightarrow> Some (Measurement None (field p ''detectedType'') (field p ''confidence'') None)
    | EV_BARCODE_READ \<Rightarrow> Some (Measurement None None None (field p ''barcode''))
    | EV_COMPACTION_STARTED \<Rightarrow> Some (Compaction CP_PENDING)
    | EV_COMPACTION_COMPLETED \<Rightarrow> Some (Compaction CP_COMPACTED)
    | _ \<Rightarrow> None)"

text \<open>What an event does to the item it resolved to.\<close>

definition on_item :: "world \<Rightarrow> machine \<Rightarrow> ingest_input \<Rightarrow> ident \<Rightarrow> ident \<Rightarrow> db \<Rightarrow> db result" where
  "on_item w machine inp eventId itemId d =
     (let p = payloadStr (in_payload inp) in
      case in_eventType inp of
        EV_SENSOR_SEQUENCE \<Rightarrow> on_sensor w p (in_sessionId inp) itemId d
      | EV_ITEM_ACCEPTED_POINT \<Rightarrow>
          (case given (in_sessionId inp) of None \<Rightarrow> Inr d | Some s \<Rightarrow> handleAcceptance w machine s itemId eventId d)
      | EV_ITEM_REJECTED \<Rightarrow>
          handleItemRejected w (in_sessionId inp) itemId (machineReasonCode (field p ''reason'') ''REJECTED'') d
      | t \<Rightarrow> (case reading_of t p of None \<Rightarrow> Inr d | Some e \<Rightarrow> on_evidence w e itemId d))"

text \<open>The event types that resolve an item through the cache (an acceptance only within a session).\<close>

definition resolves_item :: "ingest_input \<Rightarrow> bool" where
  "resolves_item inp \<longleftrightarrow>
     in_eventType inp \<in> {EV_WEIGHT_MEASURED, EV_IMAGE_CLASSIFIED, EV_BARCODE_READ, EV_SENSOR_SEQUENCE, EV_ITEM_REJECTED,
        EV_COMPACTION_STARTED, EV_COMPACTION_COMPLETED}
     \<or> (in_eventType inp = EV_ITEM_ACCEPTED_POINT \<and> given (in_sessionId inp) \<noteq> None)"

definition machine_event_effect :: "world \<Rightarrow> machine \<Rightarrow> ingest_input \<Rightarrow> ident \<Rightarrow> db \<Rightarrow> ident option tx" where
  "machine_event_effect w machine inp eventId d =
     (let p = payloadStr (in_payload inp) in
      case in_eventType inp of
        EV_HEARTBEAT \<Rightarrow> done_with (on_heartbeat w machine p d)
      | EV_STATUS_CHANGED \<Rightarrow> done_with (on_status w machine p d)
      | EV_FILL_LEVEL_UPDATED \<Rightarrow> done_with (on_fill w machine p d)
      | EV_CHAMBER_OPENED \<Rightarrow> done_with (move_session [SS_ACTIVE, SS_RESERVED] ''START_ITEM'' (in_sessionId inp) d)
      | EV_CHAMBER_TIMEOUT \<Rightarrow> done_with (move_session [SS_PROCESSING_ITEM] ''ITEM_DONE'' (in_sessionId inp) d)
      | EV_ITEM_DETECTED \<Rightarrow>
          (case given (in_sessionId inp) of None \<Rightarrow> Inr (None, d) | Some s \<Rightarrow> on_detected w machine p s eventId d)
      | EV_FRAUD_DETECTED \<Rightarrow> done_with (on_fraud w inp eventId d)
      | EV_VANDALISM_DETECTED \<Rightarrow> done_with (on_fraud w inp eventId d)
      | EV_SAFE_STATE_ENTERED \<Rightarrow> done_with (on_safe_state machine (in_sessionId inp) d)
      | EV_SESSION_CLOSE_WATERMARK \<Rightarrow> rbind (handleCloseWatermark w machine inp d) (\<lambda>(_, d1). Inr (None, d1))
      | _ \<Rightarrow> Inr (None, d))"

text \<open>
  The whole dispatch: the created item with the state, and the cache, which is kept even when the
  transaction is rolled back.
\<close>

definition processEventSideEffects ::
  "world \<Rightarrow> machine \<Rightarrow> ingest_input \<Rightarrow> ident \<Rightarrow> item_cache \<Rightarrow> db \<Rightarrow> ident option tx \<times> item_cache" where
  "processEventSideEffects w machine inp eventId cache d =
     (if resolves_item inp
      then let (itemId, cache1) = resolveDepositItemId inp cache d
           in (case given itemId of None \<Rightarrow> Inr (None, d) | Some i \<Rightarrow> done_with (on_item w machine inp eventId i d), cache1)
      else let run = machine_event_effect w machine inp eventId d
           in (run, case (run, given (in_sessionId inp)) of
                      (Inr (Some created, _), Some s) \<Rightarrow> cache_set s (Some created) cache
                    | _ \<Rightarrow> cache))"

end
