(* ===== verification/Review.thy ===== *)
theory Review
  imports Events Wallet
begin

text \<open>
  The review decision on a held deposit item: the rules for rows the acceptance point never produced
  (\<^verbatim>\<open>src/lib/deposit-review-contract.ts\<close>), the settlement plan, the price of an approval and the decision
  transaction (\<^verbatim>\<open>src/lib/deposit-review.ts\<close>). The audit row after the commit is not modelled; the quantity
  of a request is within what the route admits (1 to 999).
\<close>

section \<open>The contract\<close>

definition isLegacyReviewRow :: "item \<Rightarrow> bool" where
  "isLegacyReviewRow i \<longleftrightarrow> itm_acceptanceEventId i = None \<or> itm_acceptedAt i = None"

definition isBeforeCutover :: "int \<Rightarrow> int option \<Rightarrow> bool" where
  "isBeforeCutover createdAt cutoverAt \<longleftrightarrow> (case cutoverAt of None \<Rightarrow> False | Some c \<Rightarrow> createdAt < c)"

definition LEGACY_ACCEPTANCE_PREFIX :: string where
  "LEGACY_ACCEPTANCE_PREFIX = ''legacy-approval:''"

definition legacyAcceptanceMarker :: "ident \<Rightarrow> string" where
  "legacyAcceptanceMarker actorId = LEGACY_ACCEPTANCE_PREFIX @ actorId"

definition isLegacyAcceptanceMarker :: "ident option \<Rightarrow> bool" where
  "isLegacyAcceptanceMarker e \<longleftrightarrow> (case e of None \<Rightarrow> False | Some s \<Rightarrow> startsWith s LEGACY_ACCEPTANCE_PREFIX)"

definition REVIEW_NOT_ACCEPTED :: string where
  "REVIEW_NOT_ACCEPTED = ''Item belum melewati titik penerimaan mesin. Tunggu hingga mesin menyelesaikan setoran, atau tolak item ini.''"
definition REVIEW_LEGACY_ROW :: string where
  "REVIEW_LEGACY_ROW = ''Catatan penerimaan mesin untuk item ini tidak ada atau tidak lengkap, dan sesi setorannya sudah berakhir. ''
     @ ''Item ini tercatat sebelum kebijakan penerimaan saat ini berlaku: hanya superadmin yang dapat menyetujuinya ''
     @ ''sebagai setoran lama, atau tolak item ini.''"
definition REVIEW_ENDED_SESSION_REJECT_ONLY :: string where
  "REVIEW_ENDED_SESSION_REJECT_ONLY =
     ''Item belum melewati titik penerimaan mesin dan sesi setorannya sudah berakhir, sehingga tidak dapat disetujui. ''
     @ ''Item ini hanya dapat ditolak; catatan penerimaan mesin yang masih tertunda, bila ada, akan memperbaruinya secara otomatis.''"
definition REVIEW_LEGACY_SESSION_OPEN :: string where
  "REVIEW_LEGACY_SESSION_OPEN =
     ''Sesi setoran ini masih berjalan. Tunggu hingga sesi berakhir sebelum menyetujuinya sebagai setoran lama, atau tolak item ini.''"
definition REVIEW_LEGACY_SUPERADMIN_ONLY :: string where
  "REVIEW_LEGACY_SUPERADMIN_ONLY = ''Persetujuan setoran lama hanya dapat dilakukan oleh superadmin.''"
definition REVIEW_NOT_LEGACY :: string where
  "REVIEW_NOT_LEGACY = ''Item ini sudah tercatat diterima mesin. Gunakan persetujuan biasa.''"
definition REVIEW_LEGACY_NOT_ELIGIBLE :: string where
  "REVIEW_LEGACY_NOT_ELIGIBLE =
     ''Item ini tercatat setelah kebijakan penerimaan saat ini berlaku, sehingga tidak dapat disetujui sebagai setoran lama. ''
     @ ''Item ini hanya dapat ditolak.''"
definition REVIEW_LEGACY_CUTOVER_UNAVAILABLE :: string where
  "REVIEW_LEGACY_CUTOVER_UNAVAILABLE =
     ''Batas waktu setoran lama belum dapat ditentukan, sehingga persetujuan setoran lama tidak tersedia. ''
     @ ''Tolak item ini atau hubungi administrator sistem.''"
definition REVIEW_LEGACY_VERSION_REQUIRED :: string where
  "REVIEW_LEGACY_VERSION_REQUIRED =
     ''Versi item yang Anda lihat wajib disertakan untuk persetujuan setoran lama. Muat ulang halaman lalu ulangi.''"
definition REVIEW_LEGACY_VERSION_MISMATCH :: string where
  "REVIEW_LEGACY_VERSION_MISMATCH =
     ''Item setoran berubah sejak Anda melihatnya. Muat ulang halaman, periksa kembali, lalu ulangi.''"

section \<open>Requests and results\<close>

definition REVIEW_DECIDED_DIFFERENTLY :: string where
  "REVIEW_DECIDED_DIFFERENTLY = ''Item sudah ditinjau dengan keputusan lain''"
definition ITEM_CHANGED :: string where
  "ITEM_CHANGED = ''Item setoran berubah saat ditinjau. Muat ulang lalu ulangi.''"
definition REWARD_TOO_LARGE :: string where
  "REWARD_TOO_LARGE = ''Nilai reward melebihi batas yang diizinkan''"
definition REVIEW_FALLBACK_TYPE :: string where
  "REVIEW_FALLBACK_TYPE = ''Jenis sampah cadangan tidak dapat disetujui. Pilih jenis sampah yang sebenarnya.''"
definition REVIEW_TYPE_NOT_IN_SNAPSHOT :: string where
  "REVIEW_TYPE_NOT_IN_SNAPSHOT =
     ''Jenis sampah ini tidak termasuk daftar harga sesi; pilih jenis sampah yang berlaku saat sesi dimulai''"
definition REVIEW_MACHINE_ORGANIZATION_CHANGED :: string where
  "REVIEW_MACHINE_ORGANIZATION_CHANGED =
     ''Mesin setoran ini sudah dipindahkan ke organisasi lain. Peninjauan tidak dapat diproses; hubungi superadmin.''"
definition REVIEW_WEIGHT_MISSING :: string where
  "REVIEW_WEIGHT_MISSING = ''Berat setoran tidak tercatat. Item tanpa berat tidak dapat disetujui; tolak item ini.''"
definition REVIEW_WEIGHT_OUT_OF_RANGE :: string where
  "REVIEW_WEIGHT_OUT_OF_RANGE =
     ''Berat setoran di luar batas jenis sampah yang dipilih. Tolak item ini atau pilih jenis sampah yang sesuai.''"

definition MAX_REVIEW_RUPIAH :: int where
  "MAX_REVIEW_RUPIAH = 2147483647"

definition reviewDecisionKey :: "ident \<Rightarrow> string" where
  "reviewDecisionKey depositItemId = ''review:'' @ depositItemId @ '':decision:v1''"

datatype review_action = Approve_item | Reject_item

record review_input =
  vi_action :: review_action
  vi_wasteTypeId :: "ident option"
  vi_quantity :: "int option"
  vi_legacy :: bool
  vi_itemVersion :: "string option"

record review_result =
  vr_item :: item
  vr_idempotent :: bool
  vr_targetAmount :: int
  vr_ledgerEntry :: "ledger option"
  vr_case :: "reward_case option"

section \<open>The settlement plan\<close>

record settlement_plan =
  sp_releaseIds :: "ident list"
  sp_rejectIds :: "ident list"
  sp_delta :: int
  sp_effect :: "(entry_type \<times> string) option"

definition CORRECTION_TYPES :: "entry_type list" where
  "CORRECTION_TYPES = [ADJUST, REVERSE, PENALTY]"

definition review_counts :: "ledger \<Rightarrow> bool" where
  "review_counts r \<longleftrightarrow> led_status r = LS_AVAILABLE"

definition planReviewSettlement :: "review_action \<Rightarrow> int \<Rightarrow> ledger list \<Rightarrow> settlement_plan" where
  "planReviewSettlement action targetAmount rows =
     (let earnRows = filter (\<lambda>r. led_entryType r = EARN) rows;
          holds = map led_id (filter (\<lambda>r. led_status r = LS_PENDING) earnRows);
          pays = (action = Approve_item \<and> targetAmount > 0);
          releaseIds = (if pays then holds else []);
          rejectIds = (if pays then [] else holds);
          earned = sum_list (map led_amount (filter (\<lambda>r. review_counts r \<or> led_id r \<in> set releaseIds) earnRows));
          corrected = sum_list (map led_amount (filter (\<lambda>r. led_entryType r \<in> set CORRECTION_TYPES \<and> review_counts r) rows));
          delta = targetAmount - (earned + corrected)
      in \<lparr>sp_releaseIds = releaseIds, sp_rejectIds = rejectIds, sp_delta = delta,
          sp_effect = (if delta = 0 then None
                       else if action = Reject_item then Some (if delta < 0 then REVERSE else ADJUST, REVIEW_REJECTED_REASON)
                       else if delta > 0 \<and> earnRows = [] then Some (EARN, REVIEW_APPROVED_REASON)
                       else Some (ADJUST, ''REVIEW_ADJUSTMENT''))\<rparr>)"

section \<open>The price of an approval\<close>

text \<open>The item with its relations, as it was re-read under the locks.\<close>

record locked_item =
  lk_item :: item
  lk_wasteType :: waste_type
  lk_session :: session
  lk_campaign :: "campaign option"
  lk_machine :: machine
  lk_organizationMode :: reward_mode

definition sameDecision :: "item \<Rightarrow> review_input \<Rightarrow> bool" where
  "sameDecision i inp \<longleftrightarrow>
     (case vi_action inp of
        Reject_item \<Rightarrow> itm_status i = IS_REJECTED \<and> itm_validationReasonCode i = Some REVIEW_REJECTED_REASON
      | Approve_item \<Rightarrow> itm_status i = IS_ACCEPTED \<and> itm_validationReasonCode i = Some REVIEW_APPROVED_REASON
          \<and> (vi_wasteTypeId inp = None \<or> vi_wasteTypeId inp = Some (itm_wasteTypeId i))
          \<and> (vi_quantity inp = None \<or> vi_quantity inp = Some (itm_quantity i)))"

text \<open>\<^verbatim>\<open>acceptanceRate\<close>: the recorded rate while its window holds the instant, else the rate in force then.\<close>

definition recorded_rate :: "item \<Rightarrow> ident \<Rightarrow> int \<Rightarrow> db \<Rightarrow> reward_rate option" where
  "recorded_rate i wasteTypeId t d =
     (case Option.bind (itm_rewardRateId i) (\<lambda>r. find_by rr_id r (rewardRates d)) of
        Some r \<Rightarrow> if rr_wasteTypeId r = wasteTypeId \<and> rateWindowContains r t then Some r else None
      | None \<Rightarrow> None)"

definition acceptanceRate :: "item \<Rightarrow> ident \<Rightarrow> ident option \<Rightarrow> ident \<Rightarrow> int \<Rightarrow> bool \<Rightarrow> db \<Rightarrow> reward_rate option" where
  "acceptanceRate i organizationId campaignId wasteTypeId t legacyRow d =
     (if wasteTypeId = itm_wasteTypeId i \<and> itm_rewardRateId i = None \<and> \<not> legacyRow then None
      else case (if wasteTypeId = itm_wasteTypeId i then recorded_rate i wasteTypeId t d else None) of
             Some r \<Rightarrow> Some r
           | None \<Rightarrow> resolveRewardRateAt organizationId campaignId wasteTypeId t d)"

record approval =
  ap_wasteType :: waste_type
  ap_quantity :: int
  ap_rateId :: "ident option"
  ap_baseAmount :: int
  ap_target :: int

text \<open>The type an approval prices: the item's, or the reviewer's replacement.\<close>

definition approval_type :: "locked_item \<Rightarrow> review_input \<Rightarrow> db \<Rightarrow> waste_type result" where
  "approval_type l inp d =
     (case given (vi_wasteTypeId inp) of
        None \<Rightarrow>
          if isUnknownWasteTypeItem (lk_item l) (lk_wasteType l)
          then Inl (HttpError 422 ''wasteTypeId wajib diisi untuk item tanpa jenis sampah'')
          else if isFallbackWasteType (lk_wasteType l) then Inl (HttpError 422 REVIEW_FALLBACK_TYPE) else Inr (lk_wasteType l)
      | Some t \<Rightarrow>
          rbind (if t = itm_wasteTypeId (lk_item l) then Inr (lk_wasteType l)
                 else case find_by wt_id t (wasteTypes d) of
                        None \<Rightarrow> Inl (HttpError 422 ''Jenis sampah pengganti tidak ditemukan'')
                      | Some found \<Rightarrow>
                          if wt_organizationId found \<noteq> None \<and> wt_organizationId found \<noteq> Some (mac_organizationId (lk_machine l))
                          then Inl (HttpError 422 ''Jenis sampah pengganti tidak ditemukan'') else Inr found)
            (\<lambda>wt. if isFallbackWasteType wt then Inl (HttpError 422 REVIEW_FALLBACK_TYPE) else Inr wt))"

definition approvalTarget :: "locked_item \<Rightarrow> review_input \<Rightarrow> int \<Rightarrow> bool \<Rightarrow> db \<Rightarrow> approval result" where
  "approvalTarget l inp pricedAt legacyRow d =
     rbind (approval_type l inp d) (\<lambda>wasteType.
     let i = lk_item l;
         quantity = nullish (vi_quantity inp) (itm_quantity i);
         policy = parseSessionPolicy (ses_policySnapshot (lk_session l));
         snapshotType = snapshot_type (wt_id wasteType) policy;
         mode = (case policy of
             Some p \<Rightarrow> ps_mode p
           | None \<Rightarrow> machineRewardMode (map_option campaign_shape (lk_campaign l)) (lk_organizationMode l));
         rate = (case snapshotType of
             Some t \<Rightarrow> Some (rate_of_type t)
           | None \<Rightarrow> map_option rate_of_row (acceptanceRate i (mac_organizationId (lk_machine l))
               (map_option cmp_id (machine_campaign (lk_campaign l))) (wt_id wasteType) pricedAt legacyRow d));
         weight = validateWeight (itm_measuredWeightGrams i)
           (first_some (Option.bind rate ar_minWeightGrams) (wt_minWeightGrams wasteType))
           (first_some (Option.bind rate ar_maxWeightGrams) (wt_maxWeightGrams wasteType));
         baseAmount = price_with rate wasteType (itm_measuredWeightGrams i) quantity (session_multiplier policy (lk_campaign l))
     in if policy \<noteq> None \<and> snapshotType = None then Inl (HttpError 422 REVIEW_TYPE_NOT_IN_SNAPSHOT)
        else if weight \<noteq> None
        then Inl (HttpError 422 (if weight = Some ''WEIGHT_MISSING'' then REVIEW_WEIGHT_MISSING else REVIEW_WEIGHT_OUT_OF_RANGE))
        else if \<not> isSafeInteger baseAmount \<or> baseAmount < 0 \<or> baseAmount > MAX_REVIEW_RUPIAH then Inl (HttpError 422 REWARD_TOO_LARGE)
        else rbind (decideReward \<lparr>ri_mode = mode, ri_baseAmount = baseAmount, ri_weightValid = True, ri_typeMatch = True,
               ri_hasAnomaly = False\<rparr>) (\<lambda>dec.
             Inr \<lparr>ap_wasteType = wasteType, ap_quantity = quantity, ap_rateId = Option.bind rate ar_id,
                  ap_baseAmount = (if mode = MONEY_REWARD then baseAmount else 0), ap_target = dec_amount dec\<rparr>))"

section \<open>The decision\<close>

definition assertOrgScope :: "actor \<Rightarrow> ident \<Rightarrow> unit result" where
  "assertOrgScope actr organizationId =
     (if act_role actr = SUPERADMIN then Inr ()
      else if act_role actr = ADMIN \<and> act_organizationId actr = Some organizationId then Inr ()
      else Inl (HttpError 403 ''Di luar scope organisasi Anda''))"

definition parseItemVersion :: "world \<Rightarrow> string option \<Rightarrow> int result" where
  "parseItemVersion w raw =
     (case given raw of
        None \<Rightarrow> Inl (HttpError 422 REVIEW_LEGACY_VERSION_REQUIRED)
      | Some s \<Rightarrow> (case w_parseDate w s of None \<Rightarrow> Inl (HttpError 422 REVIEW_LEGACY_VERSION_REQUIRED) | Some t \<Rightarrow> Inr t))"

text \<open>The item row with its relations; the foreign keys make the joins total.\<close>

definition locked_item_of :: "ident \<Rightarrow> db \<Rightarrow> locked_item option result" where
  "locked_item_of itemId d =
     (case find_by itm_id itemId (items d) of
        None \<Rightarrow> Inr None
      | Some i \<Rightarrow>
          rbind (find_or_throw wt_id (itm_wasteTypeId i) (wasteTypes d)) (\<lambda>wt.
          rbind (find_or_throw ses_id (itm_sessionId i) (sessions d)) (\<lambda>s.
          rbind (find_or_throw mac_id (ses_machineId s) (machines d)) (\<lambda>m.
          rbind (find_or_throw org_id (mac_organizationId m) (organizations d)) (\<lambda>g.
          Inr (Some \<lparr>lk_item = i, lk_wasteType = wt, lk_session = s,
            lk_campaign = Option.bind (ses_campaignId s) (\<lambda>c. find_by cmp_id c (campaigns d)), lk_machine = m,
            lk_organizationMode = org_machineRewardMode g\<rparr>))))))"

text \<open>
  The locks: recipient, the account of the session's reservation (or the organization's), campaign,
  machine, session, item. The result is the account.
\<close>

definition review_locks :: "world \<Rightarrow> session \<Rightarrow> machine \<Rightarrow> ident \<Rightarrow> db \<Rightarrow> ident tx" where
  "review_locks w ref machine itemId d =
     rbind (lockUser (ses_userId ref) d) (\<lambda>d1.
     rbind (case findReservationByKey (sessionAdmissionKey (ses_id ref)) d of
              Some r \<Rightarrow> rbind (lockFundingAccount (rsv_accountId r) d1) (\<lambda>d2. Inr (rsv_accountId r, d2))
            | None \<Rightarrow> rbind (lockFundingAccountForOrganization w (mac_organizationId machine) d1) (\<lambda>(a, d2). Inr (acc_id a, d2)))
       (\<lambda>(account, d2).
     rbind (lockCampaignOpt (given (ses_campaignId ref)) d2) (\<lambda>d3.
     rbind (lockMachine (ses_machineId ref) d3) (\<lambda>d4.
     rbind (lockDepositSession (ses_id ref) d4) (\<lambda>d5.
     rbind (lockDepositItem itemId d5) (\<lambda>d6. Inr (account, d6)))))))"

text \<open>The item under the locks, with the owner of the locked account checked.\<close>

definition review_view :: "session \<Rightarrow> ident \<Rightarrow> ident \<Rightarrow> db \<Rightarrow> locked_item result" where
  "review_view ref accountId itemId d =
     rbind (locked_item_of itemId d) (\<lambda>found.
     case found of
       None \<Rightarrow> Inl (HttpError 409 ITEM_CHANGED)
     | Some l \<Rightarrow>
         if itm_sessionId (lk_item l) \<noteq> ses_id ref \<or> ses_userId (lk_session l) \<noteq> ses_userId ref
            \<or> ses_machineId (lk_session l) \<noteq> ses_machineId ref \<or> ses_campaignId (lk_session l) \<noteq> ses_campaignId ref
         then Inl (HttpError 409 ITEM_CHANGED)
         else rbind (find_or_throw acc_id accountId (accounts d)) (\<lambda>account.
           if acc_organizationId account \<noteq> mac_organizationId (lk_machine l)
              \<or> (case findReservationByKey (sessionAdmissionKey (ses_id ref)) d of
                   None \<Rightarrow> False | Some r \<Rightarrow> rsv_accountId r \<noteq> accountId)
           then Inl (HttpError 409 REVIEW_MACHINE_ORGANIZATION_CHANGED)
           else Inr l))"

text \<open>Who may approve what: none when the approval may go on.\<close>

definition approval_refusal :: "world \<Rightarrow> locked_item \<Rightarrow> review_input \<Rightarrow> int option \<Rightarrow> db \<Rightarrow> err option" where
  "approval_refusal w l inp itemVersion d =
     (let i = lk_item l;
          legacyRow = isLegacyReviewRow i;
          machineMayStillAccept = (itm_acceptanceEventId i = None \<and> \<not> isTerminalSession (ses_status (lk_session l)));
          cutover = (if legacyRow \<and> \<not> machineMayStillAccept then Some (resolveLegacyCutover w d) else None);
          beforeCutover = (case cutover of None \<Rightarrow> False | Some c \<Rightarrow> isBeforeCutover (itm_createdAt i) (lc_at c))
      in if legacyRow \<and> \<not> vi_legacy inp
         then Some (HttpError 409 (if machineMayStillAccept then REVIEW_NOT_ACCEPTED
                                   else if beforeCutover then REVIEW_LEGACY_ROW else REVIEW_ENDED_SESSION_REJECT_ONLY))
         else if \<not> legacyRow \<and> vi_legacy inp then Some (HttpError 422 REVIEW_NOT_LEGACY)
         else if legacyRow \<and> machineMayStillAccept then Some (HttpError 409 REVIEW_LEGACY_SESSION_OPEN)
         else if vi_legacy inp
         then if (case cutover of None \<Rightarrow> True | Some c \<Rightarrow> lc_at c = None) then Some (HttpError 409 REVIEW_LEGACY_CUTOVER_UNAVAILABLE)
              else if \<not> beforeCutover then Some (HttpError 409 REVIEW_LEGACY_NOT_ELIGIBLE)
              else if itemVersion \<noteq> Some (itm_updatedAt i) then Some (HttpError 409 REVIEW_LEGACY_VERSION_MISMATCH)
              else None
         else None)"

definition approved_item :: "ident \<Rightarrow> int \<Rightarrow> approval \<Rightarrow> item \<Rightarrow> item" where
  "approved_item actorId pricedAt a i =
     i\<lparr>itm_wasteTypeId := wt_id (ap_wasteType a), itm_quantity := ap_quantity a, itm_status := IS_ACCEPTED,
       itm_complianceMultiplier := 1, itm_baseRewardAmount := ap_baseAmount a, itm_rewardAmount := ap_target a,
       itm_rewardRateId := ap_rateId a, itm_validationReasonCode := Some REVIEW_APPROVED_REASON,
       itm_externalFraudFlag := False, itm_acceptedAt := Some pricedAt,
       itm_acceptanceEventId := Some (nullish (itm_acceptanceEventId i) (legacyAcceptanceMarker actorId))\<rparr>"

definition rejected_item :: "item \<Rightarrow> item" where
  "rejected_item i = i\<lparr>itm_status := IS_REJECTED, itm_rewardAmount := 0, itm_validationReasonCode := Some REVIEW_REJECTED_REASON\<rparr>"

text \<open>The target amount of the decision and what it writes to the item.\<close>

definition decide_item :: "world \<Rightarrow> actor \<Rightarrow> locked_item \<Rightarrow> review_input \<Rightarrow> int option \<Rightarrow> db \<Rightarrow> (int \<times> (item \<Rightarrow> item)) result" where
  "decide_item w actr l inp itemVersion d =
     (case vi_action inp of
        Reject_item \<Rightarrow> Inr (0, rejected_item)
      | Approve_item \<Rightarrow>
          (case approval_refusal w l inp itemVersion d of
             Some e \<Rightarrow> Inl e
           | None \<Rightarrow>
               let pricedAt = nullish (itm_acceptedAt (lk_item l)) (itm_createdAt (lk_item l)) in
               rbind (approvalTarget l inp pricedAt (isLegacyReviewRow (lk_item l)) d)
                 (\<lambda>a. Inr (ap_target a, approved_item (act_id actr) pricedAt a))))"

text \<open>One pass over holds: each must still be pending.\<close>

fun settle_holds :: "ledger_status \<Rightarrow> ident list \<Rightarrow> db \<Rightarrow> db result" where
  "settle_holds status [] d = Inr d"
| "settle_holds status (i # is) d =
     (if length (filter (\<lambda>r. led_id r = i \<and> led_status r = LS_PENDING) (ledgers d)) \<noteq> 1 then Inl (HttpError 409 ITEM_CHANGED)
      else settle_holds status is (d\<lparr>ledgers := upd_by led_id i (\<lambda>r. if led_status r = LS_PENDING then set_status status r else r) (ledgers d)\<rparr>))"

definition review_effect :: "actor \<Rightarrow> locked_item \<Rightarrow> int \<Rightarrow> entry_type \<Rightarrow> string \<Rightarrow> credit_input" where
  "review_effect actr l delta et reason =
     \<lparr>ci_businessKey = reviewDecisionKey (itm_id (lk_item l)), ci_userId = ses_userId (lk_session l),
      ci_organizationId = mac_organizationId (lk_machine l), ci_campaignId = ses_campaignId (lk_session l), ci_amount = delta,
      ci_status = LS_AVAILABLE, ci_reasonCode = reason, ci_referenceType = ''DepositItem'', ci_referenceId = itm_id (lk_item l),
      ci_entryType = Some et, ci_depositItemId = Some (itm_id (lk_item l)), ci_sessionId = Some (itm_sessionId (lk_item l)),
      ci_actorId = Some (act_id actr), ci_funding = Some SettledByCaller\<rparr>"

definition item_rows :: "ident \<Rightarrow> db \<Rightarrow> ledger list" where
  "item_rows itemId d = sort_key led_id (filter (\<lambda>r. led_depositItemId r = Some itemId) (ledgers d))"

text \<open>The single correction of the plan, if it has one.\<close>

definition write_correction :: "world \<Rightarrow> actor \<Rightarrow> locked_item \<Rightarrow> settlement_plan \<Rightarrow> db \<Rightarrow> (ledger option \<times> reward_case option) tx" where
  "write_correction w actr l plan d =
     (case sp_effect plan of
        None \<Rightarrow> Inr ((None, None), d)
      | Some (et, reason) \<Rightarrow>
          rbind (applyRewardEffect w (review_effect actr l (sp_delta plan) et reason) d)
            (\<lambda>(res, d1). Inr ((er_entry res, er_case res), d1)))"

text \<open>The money of a decision, settled once.\<close>

definition settle_decision :: "world \<Rightarrow> actor \<Rightarrow> locked_item \<Rightarrow> review_action \<Rightarrow> int \<Rightarrow> db \<Rightarrow> (ledger option \<times> reward_case option) tx" where
  "settle_decision w actr l action targetAmount d =
     (let itemId = itm_id (lk_item l); rows = item_rows itemId d in
      if list_ex (\<lambda>r. led_userId r \<noteq> ses_userId (lk_session l)) rows then Inl (HttpError 409 ITEM_CHANGED)
      else
        let plan = planReviewSettlement action targetAmount rows in
        rbind (settle_holds LS_AVAILABLE (sp_releaseIds plan) d) (\<lambda>d1.
        rbind (settle_holds LS_REJECTED (sp_rejectIds plan) d1) (\<lambda>d2.
        rbind (write_correction w actr l plan d2) (\<lambda>((entry, kase), d3).
        let d4 = (if kase = None then snd (resolveItemDebitCases w itemId (act_id actr) d3) else d3) in
        rbind (settleOrCommitReward w (depositItemEarnKey itemId) SESSION (itm_sessionId (lk_item l))
            (if kase = None then Some targetAmount else None) False d4) (\<lambda>(_, d5).
        rbind (closeWatermarkedSessionIfSettled w (itm_sessionId (lk_item l)) d5) (\<lambda>(_, d6).
        Inr ((entry, kase), d6)))))))"

definition show_item_status :: "item_status \<Rightarrow> string" where
  "show_item_status s = (case s of
      IS_PENDING \<Rightarrow> ''PENDING'' | IS_ACCEPTED \<Rightarrow> ''ACCEPTED'' | IS_REJECTED \<Rightarrow> ''REJECTED'' | IS_REVIEW \<Rightarrow> ''REVIEW'')"

text \<open>An item that left the review: the recorded answer for the same decision, a conflict otherwise.\<close>

definition replay_decision :: "locked_item \<Rightarrow> review_input \<Rightarrow> db \<Rightarrow> review_result tx" where
  "replay_decision l inp d =
     (let i = lk_item l; key = reviewDecisionKey (itm_id i) in
      if \<not> isReviewFinal i
      then Inl (HttpError 409 (''Item sudah berstatus '' @ show_item_status (itm_status i) @ '', tidak lagi menunggu peninjauan''))
      else if \<not> sameDecision i inp then Inl (HttpError 409 REVIEW_DECIDED_DIFFERENTLY)
      else Inr (\<lparr>vr_item = i, vr_idempotent = True, vr_targetAmount = itm_rewardAmount i,
                 vr_ledgerEntry = find_by led_businessKey (Some key) (ledgers d),
                 vr_case = find_by rc_businessKey key (cases d)\<rparr>, d))"

definition take_decision :: "world \<Rightarrow> actor \<Rightarrow> locked_item \<Rightarrow> review_input \<Rightarrow> int option \<Rightarrow> db \<Rightarrow> review_result tx" where
  "take_decision w actr l inp itemVersion d =
     rbind (decide_item w actr l inp itemVersion d) (\<lambda>(targetAmount, write).
     let itemId = itm_id (lk_item l); (count, d1) = cas_item w itemId (\<lambda>i. itm_status i = IS_REVIEW) write d in
     if count \<noteq> 1 then Inl (HttpError 409 REVIEW_DECIDED_DIFFERENTLY)
     else
       rbind (settle_decision w actr l (vi_action inp) targetAmount d1) (\<lambda>((entry, kase), d2).
       Inr (\<lparr>vr_item = nullish (find_by itm_id itemId (items d2)) (lk_item l), vr_idempotent = False,
              vr_targetAmount = targetAmount, vr_ledgerEntry = entry, vr_case = kase\<rparr>, d2)))"

definition review_transaction :: "world \<Rightarrow> actor \<Rightarrow> session \<Rightarrow> machine \<Rightarrow> ident \<Rightarrow> review_input \<Rightarrow> int option \<Rightarrow> db \<Rightarrow> review_result tx" where
  "review_transaction w actr ref machine itemId inp itemVersion d =
     rbind (review_locks w ref machine itemId d) (\<lambda>(accountId, d1).
     rbind (review_view ref accountId itemId d1) (\<lambda>l.
     if itm_status (lk_item l) \<noteq> IS_REVIEW then replay_decision l inp d1
     else take_decision w actr l inp itemVersion d1))"

definition decideDepositReview :: "world \<Rightarrow> actor \<Rightarrow> ident \<Rightarrow> review_input \<Rightarrow> db \<Rightarrow> review_result tx" where
  "decideDepositReview w actr itemId inp d =
     (case find_by itm_id itemId (items d) of
        None \<Rightarrow> Inl (HttpError 404 ''Item setoran tidak ditemukan'')
      | Some i \<Rightarrow>
          rbind (find_or_throw ses_id (itm_sessionId i) (sessions d)) (\<lambda>ref.
          rbind (find_or_throw mac_id (ses_machineId ref) (machines d)) (\<lambda>machine.
          rbind (assertOrgScope actr (mac_organizationId machine)) (\<lambda>_.
          if vi_legacy inp \<and> act_role actr \<noteq> SUPERADMIN then Inl (HttpError 403 REVIEW_LEGACY_SUPERADMIN_ONLY)
          else rbind (if vi_legacy inp then rbind (parseItemVersion w (vi_itemVersion inp)) (\<lambda>t. Inr (Some t)) else Inr None) (\<lambda>itemVersion.
            runWalletTransaction (review_transaction w actr ref machine itemId inp itemVersion) d)))))"

end
