(* ===== verification/Ingest.thy ===== *)
theory Ingest
  imports Events
begin

text \<open>
  Ingestion of machine events: one event in one transaction (\<^verbatim>\<open>src/lib/machine-events/ingest.ts\<close>),
  the answer codes of the protocol (\<^verbatim>\<open>src/lib/machine-events/protocol.ts\<close>) and the batch loop of
  \<^verbatim>\<open>src/app/api/machine-events/route.ts\<close> after the request was authenticated. Effects queued until after
  the commit (notifications, audit rows) and the stored payload are not modelled.
\<close>

section \<open>One event\<close>

record ingest_result =
  ir_duplicate :: bool
  ir_eventId :: ident
  ir_message :: "string option"
  ir_depositItemId :: "ident option"

definition find_event :: "ident \<Rightarrow> string \<Rightarrow> db \<Rightarrow> machine_event option" where
  "find_event machineId localEventId d =
     List.find (\<lambda>e. mev_machineId e = machineId \<and> mev_localEventId e = localEventId) (machineEvents d)"

definition duplicate_of :: "machine_event \<Rightarrow> ingest_result" where
  "duplicate_of e = \<lparr>ir_duplicate = True, ir_eventId = mev_id e, ir_message = Some ''Event sudah diproses'',
     ir_depositItemId = mev_depositItemId e\<rparr>"

definition isUniqueViolation :: "err \<Rightarrow> bool" where
  "isUniqueViolation e = (case e of PrismaError c \<Rightarrow> startsWith c ''P2002'' | PgError s \<Rightarrow> s = ''23505'' | _ \<Rightarrow> False)"

text \<open>The references of an event that exist: a session of the machine, an item of the machine and of that session.\<close>

definition known_session :: "machine \<Rightarrow> ident \<Rightarrow> db \<Rightarrow> bool" where
  "known_session machine s d \<longleftrightarrow> (case find_by ses_id s (sessions d) of None \<Rightarrow> False | Some r \<Rightarrow> ses_machineId r = mac_id machine)"

definition known_item :: "machine \<Rightarrow> ident option \<Rightarrow> ident \<Rightarrow> db \<Rightarrow> bool" where
  "known_item machine sessionId i d \<longleftrightarrow>
     (case find_by itm_id i (items d) of
        None \<Rightarrow> False
      | Some r \<Rightarrow> known_session machine (itm_sessionId r) d \<and> (case given sessionId of None \<Rightarrow> True | Some s \<Rightarrow> itm_sessionId r = s))"

definition session_orphaned :: "machine \<Rightarrow> ingest_input \<Rightarrow> db \<Rightarrow> bool" where
  "session_orphaned machine inp d \<longleftrightarrow> (case given (in_sessionId inp) of None \<Rightarrow> False | Some s \<Rightarrow> \<not> known_session machine s d)"

definition sanitizeInput :: "machine \<Rightarrow> ingest_input \<Rightarrow> db \<Rightarrow> ingest_input \<times> bool" where
  "sanitizeInput machine inp d =
     (let lost = session_orphaned machine inp d;
          sessionId = (if lost then None else in_sessionId inp);
          named = (if lost then None else in_depositItemId inp);
          dropped = (case given named of None \<Rightarrow> False | Some i \<Rightarrow> \<not> known_item machine sessionId i d)
      in (inp\<lparr>in_sessionId := sessionId, in_depositItemId := (if dropped then None else named),
              in_itemReferenceRejected := (in_itemReferenceRejected inp \<or> dropped)\<rparr>, lost \<or> dropped))"

definition occurred_at :: "world \<Rightarrow> string option \<Rightarrow> int result" where
  "occurred_at w raw = (case raw of
      None \<Rightarrow> Inr (w_now w)
    | Some s \<Rightarrow> if s = [] then Inr (w_now w) else (case w_parseDate w s of Some t \<Rightarrow> Inr t | None \<Rightarrow> Inl VALIDATION))"

definition event_clash :: "machine_event \<Rightarrow> machine_event \<Rightarrow> bool" where
  "event_clash a b \<longleftrightarrow> mev_id a = mev_id b
     \<or> (mev_machineId a = mev_machineId b \<and> mev_localEventId a = mev_localEventId b)"

text \<open>A reference to a missing row is a foreign-key error.\<close>

definition insert_event :: "machine_event \<Rightarrow> db \<Rightarrow> db result" where
  "insert_event e d =
     (if find_by mac_id (mev_machineId e) (machines d) = None
         \<or> (case mev_sessionId e of None \<Rightarrow> False | Some s \<Rightarrow> find_by ses_id s (sessions d) = None)
         \<or> (case mev_depositItemId e of None \<Rightarrow> False | Some i \<Rightarrow> find_by itm_id i (items d) = None)
      then Inl (PrismaError ''P2003'')
      else rbind (create_row (\<lambda>_. True) event_clash e (machineEvents d)) (\<lambda>t. Inr (bump_seq (d\<lparr>machineEvents := t\<rparr>))))"

definition new_event :: "world \<Rightarrow> machine \<Rightarrow> ingest_input \<Rightarrow> int \<Rightarrow> db \<Rightarrow> machine_event" where
  "new_event w machine inp occurredAt d =
     \<lparr>mev_id = newId w d, mev_machineId = mac_id machine, mev_sessionId = in_sessionId inp,
      mev_localEventId = in_localEventId inp, mev_eventType = in_eventType inp, mev_depositItemId = in_depositItemId inp,
      mev_occurredAt = occurredAt\<rparr>"

text \<open>The event row and every effect of it, or nothing.\<close>

definition event_transaction ::
  "world \<Rightarrow> machine \<Rightarrow> ingest_input \<Rightarrow> item_cache \<Rightarrow> db \<Rightarrow> (ident \<times> ident option) tx \<times> item_cache" where
  "event_transaction w machine inp cache d =
     (case rbind (occurred_at w (in_occurredAt inp)) (\<lambda>t. insert_event (new_event w machine inp t d) d) of
        Inl e \<Rightarrow> (Inl e, cache)
      | Inr d1 \<Rightarrow>
          let (run, cache1) = processEventSideEffects w machine inp (newId w d) cache d1
          in (rbind run (\<lambda>(created, d2). Inr ((newId w d, created), committed d2)), cache1))"

definition ORPHANED_MESSAGE :: string where
  "ORPHANED_MESSAGE = ''Referensi sesi/item lokal tidak ditemukan dan dilepas''"

definition ingest_new ::
  "world \<Rightarrow> machine \<Rightarrow> ingest_input \<Rightarrow> item_cache \<Rightarrow> db \<Rightarrow> (ingest_result result \<times> db) \<times> item_cache" where
  "ingest_new w machine inp cache d =
     (let (clean, orphaned) = sanitizeInput machine inp d;
          (run, cache1) = event_transaction w machine clean cache (committed d)
      in (case run of
            Inr ((eventId, created), d1) \<Rightarrow>
              (Inr \<lparr>ir_duplicate = False, ir_eventId = eventId,
                    ir_message = (if orphaned then Some ORPHANED_MESSAGE else None),
                    ir_depositItemId = first_some created (in_depositItemId clean)\<rparr>, d1)
          | Inl e \<Rightarrow>
              if \<not> isUniqueViolation e then (Inl e, d)
              else (case find_event (mac_id machine) (in_localEventId inp) d of
                      None \<Rightarrow> (Inl e, d)
                    | Some winner \<Rightarrow> (Inr (duplicate_of winner), d)), cache1))"

definition ingestMachineEvent ::
  "world \<Rightarrow> machine option \<Rightarrow> ingest_input \<Rightarrow> item_cache \<Rightarrow> db \<Rightarrow> (ingest_result result \<times> db) \<times> item_cache" where
  "ingestMachineEvent w preloaded inp cache d =
     (case first_some preloaded (find_by mac_machineCode (in_machineCode inp) (machines d)) of
        None \<Rightarrow> ((Inl (JsError ''Mesin tidak ditemukan''), d), cache)
      | Some machine \<Rightarrow>
        (case find_event (mac_id machine) (in_localEventId inp) d of
           Some existing \<Rightarrow> ((Inr (duplicate_of existing), d), cache)
         | None \<Rightarrow> ingest_new w machine inp cache d))"

section \<open>Answer codes\<close>

datatype event_error = INVALID_EVENT | EVENT_REJECTED | TEMPORARY_FAILURE | SESSION_HELD

definition TRANSIENT_PRISMA_CODES :: "string list" where
  "TRANSIENT_PRISMA_CODES = [''P2002'', ''P2024'', ''P2028'', ''P2034'', ''P2037'']"

text \<open>\<^verbatim>\<open>/^(?:08|40|53|57|58)|^55P03$/\<close>.\<close>

definition TRANSIENT_SQLSTATE :: "string \<Rightarrow> bool" where
  "TRANSIENT_SQLSTATE s \<longleftrightarrow> list_ex (startsWith s) [''08'', ''40'', ''53'', ''57'', ''58''] \<or> s = ''55P03''"

text \<open>The code of a Prisma error; a unique violation may carry its table after a colon.\<close>

definition prisma_code :: "string \<Rightarrow> string" where
  "prisma_code c = takeWhile (\<lambda>x. x \<noteq> CHR '':'') c"

definition is_P2_code :: "string \<Rightarrow> bool" where
  "is_P2_code c \<longleftrightarrow> length c = 5 \<and> startsWith c ''P2'' \<and> list_all is_digit (drop 2 c)"

text \<open>
  The error and whether the machine may retry. An invalid session transition is recognized by its
  message; a PostgreSQL error is the cause of a failed raw query (P2010).
\<close>

definition classifyIngestFailure :: "err \<Rightarrow> event_error \<times> bool" where
  "classifyIngestFailure e = (case e of
      JsError m \<Rightarrow> if startsWith m ''Transisi sesi tidak valid: '' then (EVENT_REJECTED, False) else (TEMPORARY_FAILURE, True)
    | RangeError _ \<Rightarrow> (TEMPORARY_FAILURE, True)
    | ZodError _ \<Rightarrow> (INVALID_EVENT, False)
    | HttpError status _ \<Rightarrow> if status \<ge> 500 then (TEMPORARY_FAILURE, True) else (EVENT_REJECTED, False)
    | PgError s \<Rightarrow> if TRANSIENT_SQLSTATE s then (TEMPORARY_FAILURE, True) else (EVENT_REJECTED, False)
    | PrismaError c \<Rightarrow>
        if c = ''PrismaClientValidationError'' then (EVENT_REJECTED, False)
        else if startsWith c ''P1'' \<or> prisma_code c \<in> set TRANSIENT_PRISMA_CODES then (TEMPORARY_FAILURE, True)
        else if is_P2_code (prisma_code c) then (EVENT_REJECTED, False)
        else (TEMPORARY_FAILURE, True))"

datatype event_answer =
    Accepted string ident
  | Duplicate string ident
  | Refused string event_error bool

section \<open>The batch\<close>

definition MAX_EVENTS_PER_BATCH :: nat where
  "MAX_EVENTS_PER_BATCH = 50"

text \<open>A field that may be missing or null, else a string.\<close>

definition optional_text :: "payload \<Rightarrow> string \<Rightarrow> string option option" where
  "optional_text raw k = (case present (field raw k) of None \<Rightarrow> Some None | Some (JStr s) \<Rightarrow> Some (Some s) | _ \<Rightarrow> None)"

text \<open>\<^verbatim>\<open>machineEventSchema.safeParse\<close>: none when a field does not fit.\<close>

definition parse_event :: "world \<Rightarrow> string \<Rightarrow> payload \<Rightarrow> ingest_input option" where
  "parse_event w machineCode raw =
     (case (field raw ''localEventId'', field raw ''eventType'') of
        (Some (JStr localId), Some (JStr t)) \<Rightarrow>
          (case (map_of EVENT_TYPE_TEXT t, optional_text raw ''sessionId'', optional_text raw ''depositItemId'', optional_text raw ''occurredAt'') of
             (Some et, Some s, Some i, Some at0) \<Rightarrow>
               if localId = [] \<or> \<not> (case at0 of None \<Rightarrow> True | Some x \<Rightarrow> w_parseDate w x \<noteq> None) then None
               else (case present (field raw ''payload'') of
                       None \<Rightarrow> Some \<lparr>in_machineCode = machineCode, in_localEventId = localId, in_eventType = et, in_payload = None,
                                 in_sessionId = s, in_depositItemId = i, in_occurredAt = at0, in_itemReferenceRejected = False\<rparr>
                     | Some (JObj p) \<Rightarrow> Some \<lparr>in_machineCode = machineCode, in_localEventId = localId, in_eventType = et,
                                 in_payload = Some p, in_sessionId = s, in_depositItemId = i, in_occurredAt = at0,
                                 in_itemReferenceRejected = False\<rparr>
                     | _ \<Rightarrow> None)
           | _ \<Rightarrow> None)
      | _ \<Rightarrow> None)"

text \<open>What the loop carries: known events by local id, the item cache, the sessions on hold, the tables.\<close>

record batch_state =
  bs_known :: "string \<rightharpoonup> ident"
  bs_cache :: item_cache
  bs_held :: "ident list"
  bs_db :: db

definition forget_item :: "ident option \<Rightarrow> item_cache \<Rightarrow> item_cache" where
  "forget_item s cache = (case given s of None \<Rightarrow> cache | Some i \<Rightarrow> map_option (\<lambda>m. m(i := None)) cache)"

definition batch_attempt :: "world \<Rightarrow> machine \<Rightarrow> ingest_input \<Rightarrow> batch_state \<Rightarrow> event_answer \<times> batch_state" where
  "batch_attempt w machine evt b =
     (case ingestMachineEvent w (Some machine) evt (bs_cache b) (bs_db b) of
        ((Inr r, d1), cache1) \<Rightarrow>
          ((if ir_duplicate r then Duplicate (in_localEventId evt) (ir_eventId r) else Accepted (in_localEventId evt) (ir_eventId r)),
           b\<lparr>bs_known := (bs_known b)(in_localEventId evt \<mapsto> ir_eventId r), bs_cache := cache1, bs_db := d1\<rparr>)
      | ((Inl e, d1), cache1) \<Rightarrow>
          let (code, retryable) = classifyIngestFailure e in
          (Refused (in_localEventId evt) code retryable,
           b\<lparr>bs_cache := forget_item (in_sessionId evt) cache1, bs_db := d1,
             bs_held := (case given (in_sessionId evt) of
                Some s \<Rightarrow> if retryable then s # bs_held b else bs_held b
              | None \<Rightarrow> bs_held b)\<rparr>))"

definition batch_event :: "world \<Rightarrow> machine \<Rightarrow> string \<times> payload \<Rightarrow> batch_state \<Rightarrow> event_answer \<times> batch_state" where
  "batch_event w machine rawEvent b =
     (let (localId, raw) = rawEvent in
      case bs_known b localId of
        Some eventId \<Rightarrow> (Duplicate localId eventId, b)
      | None \<Rightarrow>
        (case parse_event w (mac_machineCode machine) raw of
           None \<Rightarrow> (Refused localId INVALID_EVENT False, b)
         | Some evt \<Rightarrow>
             (case given (in_sessionId evt) of
                Some s \<Rightarrow> if s \<in> set (bs_held b) then (Refused (in_localEventId evt) SESSION_HELD True, b) else batch_attempt w machine evt b
              | None \<Rightarrow> batch_attempt w machine evt b)))"

fun batch_loop :: "world \<Rightarrow> machine \<Rightarrow> (string \<times> payload) list \<Rightarrow> batch_state \<Rightarrow> event_answer list \<times> batch_state" where
  "batch_loop w machine [] b = ([], b)"
| "batch_loop w machine (e # es) b =
     (let (a, b1) = batch_event w machine e b; (as, b2) = batch_loop w machine es b1 in (a # as, b2))"

definition known_events :: "ident \<Rightarrow> string list \<Rightarrow> db \<Rightarrow> string \<rightharpoonup> ident" where
  "known_events machineId localIds d =
     (\<lambda>l. if l \<in> set localIds then map_option mev_id (find_event machineId l d) else None)"

text \<open>
  The body after authentication; a raw event is given with its \<^verbatim>\<open>localEventId\<close>, which the envelope
  schema requires. An oversized batch is refused whole.
\<close>

definition postMachineEvents ::
  "world \<Rightarrow> machine \<Rightarrow> (string \<times> payload) list \<Rightarrow> db \<Rightarrow> event_answer list result \<times> db" where
  "postMachineEvents w machine events d =
     (if length events > MAX_EVENTS_PER_BATCH then (Inl (ZodError ''too_big''), d)
      else
        let (answers, b) = batch_loop w machine events
              \<lparr>bs_known = known_events (mac_id machine) (map fst events) d, bs_cache = createDepositItemCache, bs_held = [], bs_db = d\<rparr>
        in (Inr answers, bs_db b))"

end
