(* ===== verification/Policy_Props.thy ===== *)
theory Policy_Props
  imports Policy Samples
begin

text \<open>
  Properties of the reward policy: the decided amount is bounded by the price and carries money
  only where the program pays, a material match is exactly what the machine's policy demands, the
  selected rate is the best applicable one, a price list entry bounds every price computed from
  it, and the hashed text of a price list determines the list.
\<close>

section \<open>Decisions\<close>

lemma half_of_rupiah:
  assumes "0 \<le> n" "n \<le> MAX_REWARD_RUPIAH"
  shows "fmul (of_int n) REVIEW_HOLD_RATIO = of_int n / 2"
proof (cases "n = 0")
  case False
  with assms have "fl (of_int n * two_pow (- 1)) = of_int n * two_pow (- 1)"
    by (intro fl_exact_pos) (auto simp: MAX_REWARD_RUPIAH_def)
  then show ?thesis by (simp add: fmul_def REVIEW_HOLD_RATIO_def two_pow_def)
qed (simp add: fmul_def)

lemma floor_half: "\<lfloor>(of_int n :: rat) / 2\<rfloor> = n div 2"
  using floor_divide_of_int_eq [of n 2] by simp

text \<open>
  The whole decision. It fails exactly when the price is not a rupiah value a ledger row can
  hold. Otherwise an invalid weight rejects with no money; an anomaly or a material mismatch holds
  half the price (rounded down) as pending; anything else is accepted at the full price and
  available. A compliance-only program takes the same decision without money.
\<close>

theorem decision_follows_the_policy:
  "decideReward inp =
     (if ri_baseAmount inp < 0 \<or> MAX_REWARD_RUPIAH < ri_baseAmount inp
      then Inl (RangeError ''baseAmount must be a non-negative integer rupiah value'')
      else if \<not> ri_weightValid inp
      then Inr \<lparr>dec_status = R_REJECTED, dec_amount = 0, dec_ledgerStatus = LS_PENDING, dec_reason = ''WEIGHT_INVALID''\<rparr>
      else if ri_typeMatch inp \<and> \<not> ri_hasAnomaly inp
      then Inr \<lparr>dec_status = R_ACCEPTED,
                dec_amount = (if ri_mode inp = MONEY_REWARD then ri_baseAmount inp else 0),
                dec_ledgerStatus = LS_AVAILABLE, dec_reason = ''ACCEPTED''\<rparr>
      else Inr \<lparr>dec_status = R_REVIEW,
                dec_amount = (if ri_mode inp = MONEY_REWARD then ri_baseAmount inp div 2 else 0),
                dec_ledgerStatus = LS_PENDING,
                dec_reason = (if ri_hasAnomaly inp then ''ANOMALY_REVIEW'' else ''TYPE_MISMATCH'')\<rparr>)"
proof -
  have safe: "isSafeInteger (ri_baseAmount inp)" if "0 \<le> ri_baseAmount inp" "ri_baseAmount inp \<le> MAX_REWARD_RUPIAH"
    using that by (simp add: isSafeInteger_def MAX_REWARD_RUPIAH_def)
  have mode: "ri_mode inp = MONEY_REWARD \<longleftrightarrow> ri_mode inp \<noteq> COMPLIANCE_ONLY" by (cases "ri_mode inp") auto
  show ?thesis
    using safe by (auto simp: decideReward_def Let_def half_of_rupiah floor_half mode)
qed

text \<open>What later components use of a decision.\<close>

lemma decision_bounds:
  assumes "decideReward inp = Inr dec"
  shows "0 \<le> dec_amount dec" "dec_amount dec \<le> ri_baseAmount inp" "ri_baseAmount inp \<le> MAX_REWARD_RUPIAH"
    "dec_status dec = R_REJECTED \<Longrightarrow> dec_amount dec = 0"
    "ri_mode inp = COMPLIANCE_ONLY \<Longrightarrow> dec_amount dec = 0"
    "dec_ledgerStatus dec = LS_AVAILABLE \<longleftrightarrow> dec_status dec = R_ACCEPTED"
    "dec_ledgerStatus dec = LS_AVAILABLE \<or> dec_ledgerStatus dec = LS_PENDING"
    "dec_status dec = R_ACCEPTED \<Longrightarrow> ri_weightValid inp \<and> ri_typeMatch inp \<and> \<not> ri_hasAnomaly inp"
proof -
  let ?b = "ri_baseAmount inp"
  have base: "0 \<le> ?b" "?b \<le> MAX_REWARD_RUPIAH" using assms by (auto simp: decideReward_def Let_def split: if_splits)
  have half: "\<lfloor>fmul (of_int ?b) REVIEW_HOLD_RATIO\<rfloor> = ?b div 2" using base by (simp add: half_of_rupiah floor_half)
  show "0 \<le> dec_amount dec" "dec_amount dec \<le> ?b" "?b \<le> MAX_REWARD_RUPIAH"
    "dec_status dec = R_REJECTED \<Longrightarrow> dec_amount dec = 0"
    "ri_mode inp = COMPLIANCE_ONLY \<Longrightarrow> dec_amount dec = 0"
    "dec_ledgerStatus dec = LS_AVAILABLE \<longleftrightarrow> dec_status dec = R_ACCEPTED"
    "dec_ledgerStatus dec = LS_AVAILABLE \<or> dec_ledgerStatus dec = LS_PENDING"
    "dec_status dec = R_ACCEPTED \<Longrightarrow> ri_weightValid inp \<and> ri_typeMatch inp \<and> \<not> ri_hasAnomaly inp"
    using assms base half by (auto simp: decideReward_def Let_def split: if_splits)
qed

section \<open>Material\<close>

text \<open>
  When material counts as verified. A label the classifier reported is never ignored: if the
  waste type has a taxonomy it must be confident and accepted. On top of that a machine that
  requires AI (or whose policy is unknown) needs such a confirmation, and a barcode machine needs a
  barcode that is not blank.
\<close>

theorem material_match_iff:
  "fst (verifyMaterial inp) \<longleftrightarrow>
     (let accepted = {l \<in> normalizeAiLabel ` set (mi_acceptedLabels inp). l \<noteq> []};
          confirms = (\<exists>l c. mi_aiLabel inp = Some l \<and> mi_aiConfidence inp = Some c
            \<and> nullish (mi_minConfidence inp) AI_MIN_CONFIDENCE \<le> c \<and> normalizeAiLabel l \<in> accepted)
      in (if classifierReported inp \<and> accepted \<noteq> {} then confirms else mi_policy inp \<notin> {None, Some AI_REQUIRED})
         \<and> (case mi_policy inp of
               Some BARCODE_WEIGHT \<Rightarrow> (\<exists>b. mi_barcodeValue inp = Some b \<and> js_trim b \<noteq> [])
             | _ \<Rightarrow> True))"
proof -
  have nonempty: "filter (\<lambda>l. l \<noteq> []) (map normalizeAiLabel xs) \<noteq> [] \<longleftrightarrow> {l \<in> normalizeAiLabel ` set xs. l \<noteq> []} \<noteq> {}" for xs
    by (auto simp: filter_empty_conv)
  have "set (filter (\<lambda>l. l \<noteq> []) (map normalizeAiLabel xs)) = {l \<in> normalizeAiLabel ` set xs. l \<noteq> []}" for xs
    by auto
  then show ?thesis
    unfolding verifyMaterial_def Let_def nonempty
    by (cases "mi_policy inp"; cases "the (mi_policy inp)"; cases "mi_barcodeValue inp")
      (auto simp: policy_requirement_def classifierReported_def not_less split: option.splits)
qed

section \<open>Rates\<close>

definition rate_applies :: "ident \<Rightarrow> ident option \<Rightarrow> ident \<Rightarrow> int \<Rightarrow> bool \<Rightarrow> reward_rate \<Rightarrow> bool" where
  "rate_applies org cmp wt t requireActive r \<longleftrightarrow>
     rr_wasteTypeId r = wt \<and> (requireActive \<longrightarrow> rr_active r) \<and> rateWindowContains r t \<and> rate_in_scope org cmp r"

lemma select_sorted:
  "selectRewardRate org cmp wt t ra rates =
     (case sort_key (\<lambda>r. (ratePriority r org cmp, - rr_effectiveFrom r))
        (sort_key (\<lambda>r. - rr_effectiveFrom r) (filter (rate_applies org cmp wt t ra) rates)) of [] \<Rightarrow> None | r # _ \<Rightarrow> Some r)"
proof -
  have "filter (\<lambda>r. if ra then inRateWindow r t else rateWindowContains r t)
      (sort_key (\<lambda>r. - rr_effectiveFrom r) (filter (\<lambda>r. rr_wasteTypeId r = wt \<and>
         (if ra then inRateWindow r t else rateWindowContains r t) \<and> rate_in_scope org cmp r) rates))
    = sort_key (\<lambda>r. - rr_effectiveFrom r) (filter (rate_applies org cmp wt t ra) rates)"
    by (simp add: filter_sort [symmetric] filter_filter)
      (rule filter_cong [OF refl], auto simp: rate_applies_def inRateWindow_def)
  then show ?thesis by (simp only: selectRewardRate_def Let_def)
qed

lemma sort_key_head_le:
  assumes "sort_key f xs = r # rs"
  shows "r \<in> set xs" "q \<in> set xs \<Longrightarrow> f r \<le> f q"
proof -
  have s: "set (r # rs) = set xs" using assms by (metis set_sort)
  then show "r \<in> set xs" by auto
  have "sorted (map f (r # rs))" using assms by (metis sorted_sort_key)
  moreover assume "q \<in> set xs"
  ultimately show "f r \<le> f q" using s by auto
qed

text \<open>
  The selected rate is the best applicable one. It is for the right waste type, its half-open
  window contains the instant, it is active when a new acceptance asks, and it is in scope; and no
  applicable rate has a better scope (campaign before organization before global) or, in the same
  scope, started later. No rate is selected only when none applies.
\<close>

theorem selected_rate_is_best:
  "case selectRewardRate org cmp wt t requireActive rates of
     None \<Rightarrow> \<not> list_ex (rate_applies org cmp wt t requireActive) rates
   | Some r \<Rightarrow> r \<in> set rates \<and> rate_applies org cmp wt t requireActive r
       \<and> (\<forall>q \<in> set rates. rate_applies org cmp wt t requireActive q \<longrightarrow>
            ratePriority r org cmp < ratePriority q org cmp
            \<or> ratePriority r org cmp = ratePriority q org cmp \<and> rr_effectiveFrom q \<le> rr_effectiveFrom r)"
proof -
  let ?ys = "sort_key (\<lambda>r. - rr_effectiveFrom r) (filter (rate_applies org cmp wt t requireActive) rates)"
  let ?f = "\<lambda>r. (ratePriority r org cmp, - rr_effectiveFrom r)"
  have ys: "set ?ys = {r \<in> set rates. rate_applies org cmp wt t requireActive r}" by auto
  show ?thesis
  proof (cases "sort_key ?f ?ys")
    case Nil
    then have "set ?ys = {}" by (metis set_empty set_sort)
    with ys Nil show ?thesis by (auto simp: select_sorted list_ex_iff)
  next
    case (Cons r rs)
    note head = sort_key_head_le [OF Cons]
    have "r \<in> {r \<in> set rates. rate_applies org cmp wt t requireActive r}" using head(1) ys by blast
    moreover have "ratePriority r org cmp < ratePriority q org cmp
        \<or> ratePriority r org cmp = ratePriority q org cmp \<and> rr_effectiveFrom q \<le> rr_effectiveFrom r"
      if "q \<in> set rates" "rate_applies org cmp wt t requireActive q" for q
    proof -
      have "?f r \<le> ?f q" using head(2) [of q] that ys by blast
      then show ?thesis by (simp add: less_eq_prod_def) linarith
    qed
    ultimately show ?thesis by (simp add: select_sorted Cons)
  qed
qed

definition sample_rate :: "ident \<Rightarrow> ident option \<Rightarrow> int \<Rightarrow> int \<Rightarrow> reward_rate" where
  "sample_rate i org points since = \<lparr>rr_id = i, rr_organizationId = org, rr_campaignId = None, rr_wasteTypeId = ''w1'',
     rr_unit = ITEM, rr_pointsPerItem = points, rr_minWeightGrams = Some 5, rr_maxWeightGrams = Some 900,
     rr_effectiveFrom = since, rr_effectiveTo = None, rr_active = True\<rparr>"

theorem selected_rate_is_best_witness:
  "selectRewardRate ''o1'' None ''w1'' 1000 True [sample_rate ''r1'' None 10 0, sample_rate ''r2'' (Some ''o1'') 20 500]
     = Some (sample_rate ''r2'' (Some ''o1'') 20 500)"
proof -
  let ?r1 = "sample_rate ''r1'' None 10 0" and ?r2 = "sample_rate ''r2'' (Some ''o1'') 20 500"
  have applies: "rate_applies ''o1'' None ''w1'' 1000 True ?r1" "rate_applies ''o1'' None ''w1'' 1000 True ?r2"
    by code_simp+
  have "ratePriority ?r1 ''o1'' None = 2" "ratePriority ?r2 ''o1'' None = 1" by code_simp+
  then show ?thesis
    using selected_rate_is_best [of "''o1''" None "''w1''" 1000 True "[?r1, ?r2]"] applies
    by (cases "selectRewardRate ''o1'' None ''w1'' 1000 True [?r1, ?r2]") auto
qed

section \<open>Price lists\<close>

lemma bpsToMultiplier_nonneg: "0 \<le> b \<Longrightarrow> 0 \<le> bpsToMultiplier b"
  by (simp add: bpsToMultiplier_def BPS_def)

lemma multiplierToBps_nonneg: "0 \<le> multiplierToBps m"
  by (auto simp: multiplierToBps_def Let_def BPS_def intro!: js_round_nonneg split: option.splits)

lemma computeRewardAmount_mono:
  assumes "0 \<le> p" "0 \<le> q" "q \<le> q'" "0 \<le> m"
  shows "computeRewardAmount p q m \<le> computeRewardAmount p q' m" "0 \<le> computeRewardAmount p q m"
  unfolding computeRewardAmount_def using assms
  by (intro js_round_mono fmul_mono fmul_nonneg js_round_nonneg; simp)+

lemma computeWeight_mono:
  assumes "0 \<le> p" "0 \<le> g" "g \<le> g'" "0 \<le> m"
  shows "computeWeightBasedRewardAmount p (Some g) m \<le> computeWeightBasedRewardAmount p (Some g') m"
    "0 \<le> computeWeightBasedRewardAmount p (Some g) m"
proof -
  show "computeWeightBasedRewardAmount p (Some g) m \<le> computeWeightBasedRewardAmount p (Some g') m"
    unfolding computeWeightBasedRewardAmount_def Let_def nullish_simps using assms
    by (intro floor_mono fmul_mono fdiv_mono fmul_nonneg) simp_all
  show "0 \<le> computeWeightBasedRewardAmount p (Some g) m"
    using assms by (simp add: computeWeightBasedRewardAmount_def le_floor_iff)
qed

text \<open>The price of an item under a price list entry: what acceptance and review compute.\<close>

definition entry_price :: "policy_type \<Rightarrow> int \<Rightarrow> int \<Rightarrow> int option \<Rightarrow> int" where
  "entry_price t bps quantity grams =
     (if pt_unit t = KG then computeWeightBasedRewardAmount (pt_rewardPerUnit t) grams (bpsToMultiplier bps)
      else computeRewardAmount (pt_rewardPerUnit t) quantity (bpsToMultiplier bps))"

lemma entry_price_le_cap:
  assumes "policyItemCap t bps = Some c" "0 \<le> pt_rewardPerUnit t" "0 \<le> bps"
    "validateWeight (Some g) (pt_minWeightGrams t) (pt_maxWeightGrams t) = None" "0 \<le> g"
  shows "0 \<le> entry_price t bps 1 (Some g)" "entry_price t bps 1 (Some g) \<le> c"
proof -
  note m = bpsToMultiplier_nonneg [OF assms(3)]
  have "0 \<le> entry_price t bps 1 (Some g) \<and> entry_price t bps 1 (Some g) \<le> c"
  proof (cases "pt_unit t = KG")
    case True
    then obtain gm where gm: "pt_maxWeightGrams t = Some gm" "c = computeWeightBasedRewardAmount (pt_rewardPerUnit t) (Some gm) (bpsToMultiplier bps)"
      using assms(1) by (auto simp: policyItemCap_def Let_def split: option.splits)
    moreover have "g \<le> gm" using assms(4) gm by (auto simp: validateWeight_def split: if_splits option.splits)
    ultimately show ?thesis using True computeWeight_mono [OF assms(2,5) _ m, of gm] computeWeight_mono(2) [OF assms(2,5) _ m, of g]
      by (simp add: entry_price_def)
  next
    case False
    then show ?thesis using assms(1) computeRewardAmount_mono(2) [OF assms(2) _ _ m, of 1 1]
      by (simp add: policyItemCap_def Let_def entry_price_def)
  qed
  then show "0 \<le> entry_price t bps 1 (Some g)" "entry_price t bps 1 (Some g) \<le> c" by auto
qed

lemma policyItemCap_cap [simp]: "policyItemCap (t\<lparr>pt_maxRewardRupiah := x\<rparr>) b = policyItemCap t b"
  by (simp add: policyItemCap_def Let_def cong: option.case_cong)

lemma price_entry_fields:
  "0 \<le> pt_rewardPerUnit (price_entry org cmp mode bps now d wt)"
  "pt_maxRewardRupiah (price_entry org cmp mode bps now d wt) = policyItemCap (price_entry org cmp mode bps now d wt) bps"
  "mode \<noteq> MONEY_REWARD \<Longrightarrow> pt_rewardPerUnit (price_entry org cmp mode bps now d wt) = 0"
  by (simp_all add: price_entry_def Let_def del: policy_type.update_convs)


definition sample_type :: "ident \<Rightarrow> waste_unit \<Rightarrow> int \<Rightarrow> waste_type" where
  "sample_type i u points = \<lparr>wt_id = i, wt_name = ''Botol'', wt_unit = u, wt_minWeightGrams = Some 5,
     wt_maxWeightGrams = Some 2000, wt_defaultRewardPerItem = Some points, wt_active = True,
     wt_aiAcceptedLabels = [''bottle''], wt_organizationId = None\<rparr>"

definition priced_db :: db where
  "priced_db = sample_db\<lparr>wasteTypes := [sample_type ''w1'' ITEM 100, sample_type ''w2'' KG 4000],
     machineWasteTypes := [\<lparr>mwt_machineId = ''m1'', mwt_wasteTypeId = ''w2'', mwt_active = True\<rparr>,
       \<lparr>mwt_machineId = ''m1'', mwt_wasteTypeId = ''w1'', mwt_active = True\<rparr>],
     rewardRates := [sample_rate ''r1'' None 150 0]\<rparr>"

definition sample_policy :: policy_snapshot where
  "sample_policy = buildSessionPolicy sample_world sample_machine MONEY_REWARD (Some sample_campaign) (Some 5000) priced_db"


section \<open>The hashed text\<close>

text \<open>A token that ends before a comma or a closing bracket determines itself in front of any such text.\<close>

definition ends_token :: "string \<Rightarrow> bool" where
  "ends_token s \<longleftrightarrow> (\<exists>c r. s = c # r \<and> (c = CHR '','' \<or> c = CHR '']''))"

definition self_delimiting :: "('a \<Rightarrow> string) \<Rightarrow> bool" where
  "self_delimiting enc \<longleftrightarrow>
     (\<forall>x y u v. ends_token u \<longrightarrow> ends_token v \<longrightarrow> enc x @ u = enc y @ v \<longrightarrow> x = y \<and> u = v)"

lemma self_delimitingD:
  "self_delimiting enc \<Longrightarrow> enc x @ u = enc y @ v \<Longrightarrow> ends_token u \<Longrightarrow> ends_token v \<Longrightarrow> x = y \<and> u = v"
  unfolding self_delimiting_def by blast

lemma ends_token_simps [simp]:
  "ends_token (CHR '','' # r)" "ends_token (CHR '']'' # r)"
  by (auto simp: ends_token_def)

lemma takeWhile_token:
  assumes "\<forall>c \<in> set s. P c" "ends_token u" "\<not> P (CHR '','')" "\<not> P (CHR '']'')"
  shows "takeWhile P (s @ u) = s" "dropWhile P (s @ u) = u"
  using assms by (auto simp: ends_token_def takeWhile_append dropWhile_append)

lemma plain_tokens_delimit:
  assumes "\<And>x c. c \<in> set (enc x) \<Longrightarrow> P c" "\<not> P (CHR '','')" "\<not> P (CHR '']'')" "inj enc"
  shows "self_delimiting enc"
  unfolding self_delimiting_def
proof (intro allI impI)
  fix x y u v assume t: "ends_token u" "ends_token v" and eq: "enc x @ u = enc y @ v"
  have all: "\<forall>c \<in> set (enc z). P c" for z using assms(1) by blast
  note token = takeWhile_token [OF all _ assms(2,3)]
  have "enc x = enc y" using token(1) [of u x] token(1) [of v y] t eq by metis
  moreover have "u = v" using token(2) [of u x] token(2) [of v y] t eq by metis
  ultimately have "enc x = enc y" "u = v" by auto
  with assms(4) show "x = y \<and> u = v" by (simp add: inj_eq)
qed

lemma show_int_delimits: "self_delimiting show_int"
  by (rule plain_tokens_delimit [where P = "\<lambda>c. is_digit c \<or> c = CHR ''-''"])
    (use show_int_chars in \<open>auto simp: is_digit_def inj_def show_int_inj\<close>)

lemma json_opt_int_delimits: "self_delimiting json_opt_int"
proof (rule plain_tokens_delimit [where P = "\<lambda>c. is_digit c \<or> c = CHR ''-'' \<or> c \<in> set ''null''"])
  have "show_int n \<noteq> ''null''" for n using show_int_chars [of "CHR ''n''" n] by (auto simp: is_digit_def)
  then show "inj json_opt_int"
    by (auto simp: inj_def json_opt_int_def show_int_inj split: option.splits) (metis)+
qed (use show_int_chars in \<open>auto simp: json_opt_int_def is_digit_def split: option.splits\<close>)

lemma json_string_delimits: "inj f \<Longrightarrow> self_delimiting (\<lambda>x. json_string (f x))"
  by (auto simp: self_delimiting_def json_string_inj inj_eq)

lemma delimited_list_tail:
  assumes "self_delimiting enc"
  shows "concat (map (\<lambda>x. CHR '','' # enc x) xs) @ CHR '']'' # u = concat (map (\<lambda>x. CHR '','' # enc x) ys) @ CHR '']'' # v
    \<Longrightarrow> xs = ys \<and> u = v"
proof (induction xs arbitrary: ys)
  case Nil
  then show ?case by (cases ys) auto
next
  case (Cons x xs)
  then obtain y zs where ys: "ys = y # zs" by (cases ys) auto
  let ?rest = "\<lambda>zs u. concat (map (\<lambda>x. CHR '','' # enc x) zs) @ CHR '']'' # u"
  have ends: "ends_token (?rest zs u)" for zs u by (cases zs) auto
  have "enc x @ ?rest xs u = enc y @ ?rest zs v" using Cons.prems by (simp add: ys)
  from self_delimitingD [OF assms this ends ends] Cons.IH ys show ?case by blast
qed

lemma delimited_array:
  assumes "self_delimiting enc" "\<And>x. enc x \<noteq> [] \<and> hd (enc x) \<noteq> CHR '']''"
    and eq: "json_array (map enc xs) @ u = json_array (map enc ys) @ v"
  shows "xs = ys \<and> u = v"
proof -
  let ?rest = "\<lambda>zs u. concat (map (\<lambda>x. CHR '','' # enc x) zs) @ CHR '']'' # u"
  have arr: "json_array (map enc zs) @ w = CHR ''['' # (case zs of [] \<Rightarrow> CHR '']'' # w | z # r \<Rightarrow> enc z @ ?rest r w)" for zs w
    by (cases zs) (simp_all add: json_array_def comp_def)
  have ends: "ends_token (?rest zs u)" for zs u by (cases zs) auto
  have other: "enc a @ s \<noteq> CHR '']'' # t" "CHR '']'' # t \<noteq> enc a @ s" for a s t using assms(2) [of a] by (cases "enc a"; simp)+
  from eq have eq': "(case xs of [] \<Rightarrow> CHR '']'' # u | z # r \<Rightarrow> enc z @ ?rest r u) = (case ys of [] \<Rightarrow> CHR '']'' # v | z # r \<Rightarrow> enc z @ ?rest r v)"
    unfolding arr by simp
  show ?thesis
  proof (cases xs)
    case Nil
    with eq' other show ?thesis by (cases ys) simp_all
  next
    case (Cons x r)
    with eq' other obtain y q where ys: "ys = y # q" by (cases ys) simp_all
    with eq' Cons have "enc x @ ?rest r u = enc y @ ?rest q v" by simp
    from self_delimitingD [OF assms(1) this ends ends] delimited_list_tail [OF assms(1), of r u q v] Cons ys
    show ?thesis by blast
  qed
qed

text \<open>What the text keeps of a price list entry.\<close>

definition row_key :: "policy_type \<Rightarrow> ident \<times> waste_unit \<times> int \<times> int option" where
  "row_key t = (pt_id t, pt_unit t, pt_rewardPerUnit t, pt_maxRewardRupiah t)"

definition row_text :: "ident \<times> waste_unit \<times> int \<times> int option \<Rightarrow> string" where
  "row_text k = (case k of (i, u, r, c) \<Rightarrow>
     json_array [json_string i, json_string (show_unit u), show_int r, json_opt_int c])"

lemma canonical_row_key: "canonical_row t = row_text (row_key t)"
  by (simp add: canonical_row_def row_text_def row_key_def)

lemma inj_show_unit: "inj show_unit"
  by (auto simp: inj_def show_unit_def split: waste_unit.splits)

lemma inj_show_mode: "inj show_mode"
  by (auto simp: inj_def show_mode_def split: reward_mode.splits)

lemma row_text_delimits: "self_delimiting row_text"
  unfolding self_delimiting_def
proof (intro allI impI)
  fix x y u v assume ends: "ends_token u" "ends_token v" and eq: "row_text x @ u = row_text y @ v"
  obtain i un r c where x: "x = (i, un, r, c)" by (cases x)
  obtain i' un' r' c' where y: "y = (i', un', r', c')" by (cases y)
  from eq have "i = i'" and 1: "json_string (show_unit un) @ CHR '','' # show_int r @ CHR '','' # json_opt_int c @ CHR '']'' # u
      = json_string (show_unit un') @ CHR '','' # show_int r' @ CHR '','' # json_opt_int c' @ CHR '']'' # v"
    by (simp_all add: x y row_text_def json_array_def json_string_inj)
  from 1 have "un = un'" and 2: "show_int r @ CHR '','' # json_opt_int c @ CHR '']'' # u = show_int r' @ CHR '','' # json_opt_int c' @ CHR '']'' # v"
    by (simp_all add: json_string_inj inj_eq [OF inj_show_unit])
  from self_delimitingD [OF show_int_delimits 2] have "r = r'" and 3: "json_opt_int c @ CHR '']'' # u = json_opt_int c' @ CHR '']'' # v"
    by simp_all
  from self_delimitingD [OF json_opt_int_delimits 3] \<open>i = i'\<close> \<open>un = un'\<close> \<open>r = r'\<close> show "x = y \<and> u = v" by (simp add: x y)
qed

text \<open>
  C37: the text that is hashed into the policy version determines what the machine enforces. Two
  price lists have the same canonical text exactly when they agree on the mode, the multiplier and,
  in id order, on the id, unit, rate and cap of every type.
\<close>

theorem canonical_text_determines_the_price_list:
  "canonicalSessionPolicy p = canonicalSessionPolicy q \<longleftrightarrow>
     ps_mode p = ps_mode q \<and> ps_multiplierBps p = ps_multiplierBps q
     \<and> map row_key (sort_key pt_id (ps_wasteTypes p)) = map row_key (sort_key pt_id (ps_wasteTypes q))"
    (is "?l \<longleftrightarrow> ?r")
proof
  have rows: "map canonical_row ts = map row_text (map row_key ts)" for ts by (simp add: canonical_row_key)
  assume ?l
  then have "ps_mode p = ps_mode q" and 1: "show_int (ps_multiplierBps p) @ CHR '','' #
      json_array (map row_text (map row_key (sort_key pt_id (ps_wasteTypes p)))) @ [CHR '']'']
    = show_int (ps_multiplierBps q) @ CHR '','' #
      json_array (map row_text (map row_key (sort_key pt_id (ps_wasteTypes q)))) @ [CHR '']'']"
    by (simp_all add: canonicalSessionPolicy_def rows json_string_inj inj_eq [OF inj_show_mode] json_array_def [of "_ # _ # _"]
        del: map_map)
  from self_delimitingD [OF show_int_delimits 1] have "ps_multiplierBps p = ps_multiplierBps q"
    and 2: "json_array (map row_text (map row_key (sort_key pt_id (ps_wasteTypes p)))) @ [CHR '']'']
      = json_array (map row_text (map row_key (sort_key pt_id (ps_wasteTypes q)))) @ [CHR '']'']" by simp_all
  have "row_text k \<noteq> [] \<and> hd (row_text k) \<noteq> CHR '']''" for k by (cases k) (simp add: row_text_def json_array_def)
  from delimited_array [OF row_text_delimits this 2] \<open>ps_mode p = ps_mode q\<close> \<open>ps_multiplierBps p = ps_multiplierBps q\<close>
  show ?r by simp
next
  assume ?r
  then show ?l by (simp add: canonicalSessionPolicy_def canonical_row_key flip: map_map comp_def)
      (metis (no_types, lifting) canonical_row_key map_eq_conv map_map comp_def list.map_comp)
qed

section \<open>Reading a price list back\<close>

text \<open>The configuration rows a price list is built from hold values of their columns.\<close>

definition weight_ok :: "int option \<Rightarrow> bool" where
  "weight_ok g \<longleftrightarrow> opt_all (\<lambda>n. 0 \<le> n \<and> int4 n) g"

definition price_rows_ok :: "db \<Rightarrow> bool" where
  "price_rows_ok d \<longleftrightarrow>
     list_all (\<lambda>t. wt_id t \<noteq> [] \<and> opt_all int4 (wt_defaultRewardPerItem t)
       \<and> weight_ok (wt_minWeightGrams t) \<and> weight_ok (wt_maxWeightGrams t)) (wasteTypes d)
     \<and> list_all (\<lambda>r. rr_id r \<noteq> [] \<and> int4 (rr_pointsPerItem r)
       \<and> weight_ok (rr_minWeightGrams r) \<and> weight_ok (rr_maxWeightGrams r)) (rewardRates d)"

lemma resolveRewardRate_in: "resolveRewardRate org cmp wt now d = Some r \<Longrightarrow> r \<in> set (rewardRates d)"
  using selected_rate_is_best [of org cmp wt now True "rewardRates d"] by (auto simp: resolveRewardRate_def)

lemma machine_types_in: "t \<in> set (machine_types m d) \<Longrightarrow> t \<in> set (wasteTypes d)"
  using find_by_SomeD by (fastforce simp: machine_types_def map_filter_def split: if_splits)

lemma weight_ok_schema: "weight_ok g \<Longrightarrow> opt_all nonNegativeInt g"
  by (cases g) (auto simp: weight_ok_def nonNegativeInt_def isSafeInteger_def int4_def)

lemma price_entry_schema:
  assumes "price_rows_ok d" "t \<in> set (wasteTypes d)" "0 \<le> bps"
  shows "type_schema (price_entry org cmp mode bps now d t)
    \<longleftrightarrow> opt_all isSafeInteger (pt_maxRewardRupiah (price_entry org cmp mode bps now d t))"
proof -
  let ?e = "price_entry org cmp mode bps now d t" and ?r = "resolveRewardRate org cmp (wt_id t) now d"
  have t: "wt_id t \<noteq> []" "opt_all int4 (wt_defaultRewardPerItem t)" "weight_ok (wt_minWeightGrams t)" "weight_ok (wt_maxWeightGrams t)"
    using assms by (auto simp: price_rows_ok_def list_all_iff)
  have r: "rr_id q \<noteq> [] \<and> int4 (rr_pointsPerItem q) \<and> weight_ok (rr_minWeightGrams q) \<and> weight_ok (rr_maxWeightGrams q)"
    if "?r = Some q" for q
    using that assms resolveRewardRate_in [OF that] by (auto simp: price_rows_ok_def list_all_iff)
  have w: "weight_ok (pt_minWeightGrams ?e)" "weight_ok (pt_maxWeightGrams ?e)"
    using t r by (auto simp: price_entry_def Let_def split: option.splits bind_splits)
  have rate: "nonNegativeInt (pt_rewardPerUnit ?e)"
    using t(2) r by (auto simp: price_entry_def Let_def nonNegativeInt_def isSafeInteger_def int4_def max_def nullish_def split: option.splits)
  have ids: "pt_id ?e \<noteq> []" "opt_all (\<lambda>s. s \<noteq> []) (pt_rewardRateId ?e)"
    using t(1) r by (auto simp: price_entry_def Let_def opt_all_def split: option.splits)
  have cap: "0 \<le> c" if "pt_maxRewardRupiah ?e = Some c" for c
  proof -
    have c: "policyItemCap ?e bps = Some c" using that price_entry_fields(2) [of org cmp mode bps now d t] by simp
    have m: "0 \<le> bpsToMultiplier bps" using assms(3) by (rule bpsToMultiplier_nonneg)
    show ?thesis
      using c computeRewardAmount_mono(2) [OF price_entry_fields(1) _ _ m, of 1 1]
        computeWeight_mono(2) [OF price_entry_fields(1) _ order_refl m] w(2)
      by (auto simp: policyItemCap_def Let_def weight_ok_def split: if_splits option.splits)
  qed
  show ?thesis
    using w rate ids cap weight_ok_schema by (auto simp: type_schema_def nonNegativeInt_def opt_all_def split: option.splits)
qed



text \<open>A multiplier below half a basis point rounds to zero, and the snapshot is refused when it is read.\<close>

lemma tiny_multiplier_is_unreadable:
  "multiplierToBps (Some (1 / 100000)) = 0"
  "parseSessionPolicy (Some (sample_policy\<lparr>ps_multiplierBps := multiplierToBps (Some (1 / 100000))\<rparr>)) = None"
  by code_simp+

end
