(* ===== verification/Guards_Props.thy ===== *)
theory Guards_Props
  imports Guards Policy_Props
begin

text \<open>
  What the guards of reward funding promise: closing a confirmed session gives back exactly what
  it still holds, a change of a program's terms that passes never raises what an open source can
  earn, and the reconciliation report agrees with the books.
\<close>

lemma uniq_row: "uniq key t \<Longrightarrow> r \<in> set t \<Longrightarrow> s \<in> set t \<Longrightarrow> key r = key s \<Longrightarrow> r = s"
  by (auto simp: uniq_def distinct_map inj_on_def)

section \<open>Closing a confirmed session\<close>

lemma release_close_all:
  assumes run: "releaseUnusedRewardBudget w i (rsv_remainingRupiah r) opts d = Inr ((n, replay), d')" and inv: "funding_inv d"
    and r: "find_by rsv_id i (reservations d) = Some r" "rsv_status r \<noteq> RES_RELEASED"
    and opts: "ro_close opts" "\<forall>k. ro_businessKey opts = Some k \<longrightarrow> find_by rel_businessKey k (releases d) = None"
  shows "n = rsv_remainingRupiah r \<and> funding_inv d'
    \<and> acct_shift (rsv_accountId r) 0 (- n) (accounts d) (accounts d')
    \<and> reservations d' = upd_by rsv_id i (release_reservation w n opts) (reservations d)"
proof -
  from run obtain ls where locked: "release_locked w r (rsv_remainingRupiah r) opts (d\<lparr>held_locks := ls\<rparr>) = Inr ((n, replay), d')"
    using r(1) by (auto simp: releaseUnusedRewardBudget_def assertRupiah_def result_simps elim: with_funding_locks_Inr)
  have id: "rsv_id r = i" using find_by_SomeD [OF r(1)] by simp
  have nonneg: "0 \<le> rsv_remainingRupiah r"
    using inv find_by_SomeD [OF r(1)] by (auto simp: funding_inv_def funding_rows_def reservation_inv_def)
  from locked opts r id obtain d1 where "apply_release w r (rsv_remainingRupiah r) opts (d\<lparr>held_locks := ls\<rparr>) = Inr d1"
    and n: "n = rsv_remainingRupiah r" and d': "d' = d1 \<or> (\<exists>t. d' = bump_seq (d1\<lparr>releases := t\<rparr>))"
    by (auto simp: release_locked_def find_or_throw_def Let_def result_simps split: option.splits)
  from apply_release_Inr [OF this(1) nonneg r(2)] obtain X Y where
    d1: "d1 = d\<lparr>held_locks := ls, accounts := X, campaigns := Y,
      reservations := upd_by rsv_id i (release_reservation w (rsv_remainingRupiah r) opts) (reservations d)\<rparr>"
    and X: "acct_shift (rsv_accountId r) 0 (- rsv_remainingRupiah r) (accounts d) X" by (auto simp: id)
  have "funding_inv d'" using run inv by (rule releaseUnusedRewardBudget_inv) (use r in simp)
  with d' n d1 X show ?thesis by (auto simp: bump_seq_def)
qed

definition settled_sessions_db :: db where
  "settled_sessions_db = reserved_db\<lparr>sessions := [sample_session\<lparr>ses_status := SS_COMPLETED, ses_closeWatermarkAt := Some 950\<rparr>]\<rparr>"

text \<open>
  Closing a confirmed session frees exactly its remainder. When the close goes through, the
  machine had confirmed the end, no accepted item is undecided at a positive exposure, the amount
  given back is everything the session's reservation still held, the reservation ends released with
  nothing left, the account's held rupiah drops by that amount and the books balance. A later
  attempt finds the reservation released and does nothing.
\<close>

theorem settled_close_frees_the_remainder:
  assumes run: "closeWatermarkedSessionIfSettled w sid d = Inr (Some n, d')" and inv: "funding_inv d"
    and key: "find_by rel_businessKey (sessionReviewCloseKey sid) (releases d) = None"
  shows "\<exists>r r'. findReservationByKey (sessionAdmissionKey sid) d = Some r \<and> rsv_status r = RES_ACTIVE
    \<and> fst (sessionReviewExposure sid d) = Some 0 \<and> n = rsv_remainingRupiah r
    \<and> findReservationByKey (sessionAdmissionKey sid) d' = Some r' \<and> rsv_status r' = RES_RELEASED \<and> rsv_remainingRupiah r' = 0
    \<and> acct_shift (rsv_accountId r) 0 (- n) (accounts d) (accounts d') \<and> funding_inv d'
    \<and> closeWatermarkedSessionIfSettled w sid d' = Inr (None, d')"
proof -
  let ?opts = "\<lparr>ro_close = True, ro_releasedById = None, ro_reason = Some REVIEW_SETTLED_RELEASE_REASON,
                ro_businessKey = Some (sessionReviewCloseKey sid)\<rparr>"
  from run obtain r replay where r: "findReservationByKey (sessionAdmissionKey sid) d = Some r" "rsv_status r = RES_ACTIVE"
    and exposure: "fst (sessionReviewExposure sid d) = Some 0"
    and rel: "releaseUnusedRewardBudget w (rsv_id r) (rsv_remainingRupiah r) ?opts d = Inr ((n, replay), d')"
    by (auto simp: closeWatermarkedSessionIfSettled_def rbind_Inr_iff split: option.splits if_splits)
  have mem: "r \<in> set (reservations d)" and bk: "rsv_businessKey r = sessionAdmissionKey sid"
    using find_by_SomeD [OF r(1) [unfolded findReservationByKey_def]] by auto
  have row: "find_by rsv_id (rsv_id r) (reservations d) = Some r"
    using inv mem by (intro find_by_uniqI) (auto simp: funding_inv_def keys_unique_def)
  from release_close_all [OF rel inv row] r(2) key have eff: "n = rsv_remainingRupiah r" "funding_inv d'"
    "acct_shift (rsv_accountId r) 0 (- n) (accounts d) (accounts d')"
    "reservations d' = upd_by rsv_id (rsv_id r) (release_reservation w n ?opts) (reservations d)" by auto
  let ?r' = "release_reservation w n ?opts r"
  have "?r' \<in> set (reservations d')" using mem by (auto simp: eff(4) set_upd_by)
  then have r': "findReservationByKey (sessionAdmissionKey sid) d' = Some ?r'"
    using eff(2) find_by_uniqI [of rsv_businessKey "reservations d'" ?r'] bk
    by (auto simp: findReservationByKey_def funding_inv_def keys_unique_def)
  then have "closeWatermarkedSessionIfSettled w sid d' = Inr (None, d')"
    by (auto simp: closeWatermarkedSessionIfSettled_def split: option.splits)
  with r exposure eff r' show ?thesis by auto
qed

theorem settled_close_frees_the_remainder_witness:
  "\<exists>n d'. closeWatermarkedSessionIfSettled sample_world ''s1'' settled_sessions_db = Inr (Some n, d') \<and> funding_inv d'"
proof -
  let ?run = "closeWatermarkedSessionIfSettled sample_world ''s1'' settled_sessions_db"
  have ok: "succeeds ?run" "result_of ?run None = Some 5000" by code_simp+
  then have run: "?run = Inr (Some 5000, state_of ?run)"
    by (cases ?run) (auto simp: succeeds_def result_of_def state_of_def)
  have "releases settled_sessions_db = []" by code_simp
  moreover have "funding_inv settled_sessions_db"
    using sample_inv(3) funding_inv_cong [of settled_sessions_db reserved_db] by (simp add: settled_sessions_db_def)
  ultimately show ?thesis using settled_close_frees_the_remainder [OF run] run by (metis find_by_Nil)
qed

section \<open>Changing a program's terms\<close>

lemma multiplierToBps_effective: "multiplierToBps m = js_round (fmul (effectiveMultiplier m) (of_int BPS))"
  by (simp add: multiplierToBps_def effectiveMultiplier_def Let_def)

lemma multiplierToBps_mono:
  assumes "effectiveMultiplier m \<le> effectiveMultiplier m'"
  shows "multiplierToBps m \<le> multiplierToBps m'"
proof -
  have "fmul (effectiveMultiplier m) (of_int BPS) \<le> fmul (effectiveMultiplier m') (of_int BPS)"
    by (rule fmul_mono) (use assms effectiveMultiplier_pos [of m] in \<open>auto simp: BPS_def\<close>)
  then show ?thesis by (simp add: multiplierToBps_effective js_round_mono)
qed

lemma trash_bag_reward_mono:
  assumes "effectiveMultiplier m \<le> effectiveMultiplier m'" "0 \<le> n"
  shows "computeTrashBagRewardAmount n score m (Some TRASH_BAG_REWARD_PER_BAG)
    \<le> computeTrashBagRewardAmount n score m' (Some TRASH_BAG_REWARD_PER_BAG)"
proof -
  let ?p = "of_int TRASH_BAG_REWARD_PER_BAG :: rat" and ?c = "fdiv (of_int (max 0 (min 100 score))) 100"
  have p: "0 \<le> fmul (of_int n) ?p" using assms(2) by (simp add: TRASH_BAG_REWARD_PER_BAG_def)
  have m: "0 \<le> effectiveMultiplier m" using effectiveMultiplier_pos [of m] by linarith
  have "fmul (fmul (of_int n) ?p) (effectiveMultiplier m) \<le> fmul (fmul (of_int n) ?p) (effectiveMultiplier m')"
    by (rule fmul_mono [OF p order_refl m assms(1)])
  from fmul_mono [OF fmul_nonneg [OF p m] this, of ?c ?c]
  have "fmul (fmul (fmul (of_int n) ?p) (effectiveMultiplier m)) ?c \<le> fmul (fmul (fmul (of_int n) ?p) (effectiveMultiplier m')) ?c" by simp
  then show ?thesis by (auto simp: computeTrashBagRewardAmount_def Let_def intro: floor_mono)
qed

definition sample_terms :: "rat \<Rightarrow> program_shape" where
  "sample_terms m = \<lparr>prg_rewardMode = MONEY_REWARD, prg_rewardMultiplier = Some m, prg_campaignType = MACHINE_DEPOSIT,
     prg_supportsMachine = True\<rparr>"

text \<open>
  C39: terms never rise under open sources. If a change of a program's reward terms passes the
  enforced guard while the program still has open sources, then machines pay under the new terms
  only if they already did and at no higher multiplier, and a trip earns under the new terms at
  most what it earns under the old ones, whatever the condition of its bags: what was reserved
  under the old terms still covers every open source.
\<close>

theorem terms_never_rise_under_open_sources:
  assumes pass: "guardProgramRewardChange True cid cur nxt d = Inr ()" and "open": "hasOpenProgramSources cid d"
  shows "(snd (effectiveProgramModes nxt) \<longrightarrow> snd (effectiveProgramModes cur)
       \<and> multiplierToBps (prg_rewardMultiplier nxt) \<le> multiplierToBps (prg_rewardMultiplier cur))
    \<and> te_rewardAmount (evaluateTripBags statuses app (tripRewardMode (prg_campaignType nxt) (prg_rewardMode nxt)) recipient (prg_rewardMultiplier nxt))
      \<le> te_rewardAmount (evaluateTripBags statuses app (tripRewardMode (prg_campaignType cur) (prg_rewardMode cur)) recipient (prg_rewardMultiplier cur))"
proof -
  have kept: "fst (effectiveProgramModes nxt) \<longrightarrow> fst (effectiveProgramModes cur)"
      "snd (effectiveProgramModes nxt) \<longrightarrow> snd (effectiveProgramModes cur)"
      "fst (effectiveProgramModes nxt) \<or> snd (effectiveProgramModes nxt) \<longrightarrow>
         effectiveMultiplier (prg_rewardMultiplier nxt) \<le> effectiveMultiplier (prg_rewardMultiplier cur)"
    using assms by (auto simp: guardProgramRewardChange_def Let_def case_prod_beta not_less split: if_splits)
  let ?n = "int (length (filter (\<lambda>s. isRewardableCondition (Some s)) (known_statuses statuses)))"
  have same: "computeTrashBagRewardAmount ?n sc m (Some TRASH_BAG_REWARD_PER_BAG) = computeTrashBagRewardAmount ?n sc m None" for sc m
    by (simp add: computeTrashBagRewardAmount_def)
  have zero: "0 \<le> computeTrashBagRewardAmount ?n sc m (Some TRASH_BAG_REWARD_PER_BAG)" for sc m
    unfolding same using trash_bag_reward_le(2) [of ?n ?n sc m] by simp
  have modes: "fst (effectiveProgramModes p) \<longleftrightarrow> tripRewardMode (prg_campaignType p) (prg_rewardMode p) = MONEY_REWARD" for p
    by (simp add: effectiveProgramModes_def)
  show ?thesis
    using kept multiplierToBps_mono trash_bag_reward_mono [of "prg_rewardMultiplier nxt" "prg_rewardMultiplier cur" ?n] zero
    by (auto simp: evaluateTripBags_def Let_def modes)
qed

theorem terms_never_rise_under_open_sources_witness:
  "multiplierToBps (prg_rewardMultiplier (sample_terms 1)) \<le> multiplierToBps (prg_rewardMultiplier (sample_terms 2))"
proof -
  have "guardProgramRewardChange True ''c1'' (sample_terms 2) (sample_terms 1) sample_db = Inr ()"
    "hasOpenProgramSources ''c1'' sample_db" "snd (effectiveProgramModes (sample_terms 1))" by code_simp+
  with terms_never_rise_under_open_sources [OF this(1,2), of "[]" False False] show ?thesis by blast
qed

section \<open>The reconciliation report\<close>

lemma account_of_org:
  assumes "funding_inv d" "find_by acc_organizationId g (accounts d) = Some a" "r \<in> set (accounts d)"
  shows "acc_organizationId r = g \<longleftrightarrow> r = a"
proof -
  have "uniq acc_organizationId (accounts d)" using assms(1) by (simp add: funding_inv_def keys_unique_def)
  with uniq_row [OF this assms(3), of a] find_by_SomeD [OF assms(2)] show ?thesis by auto
qed

lemma find_account:
  assumes "funding_inv d" "i \<in> acc_id ` set (accounts d)"
  obtains a where "find_by acc_id i (accounts d) = Some a" "a \<in> set (accounts d)" "acc_id a = i"
proof -
  from assms(2) obtain a where a: "a \<in> set (accounts d)" "acc_id a = i" by blast
  moreover have "uniq acc_id (accounts d)" using assms(1) by (simp add: funding_inv_def keys_unique_def)
  ultimately have "find_by acc_id i (accounts d) = Some a" using find_by_uniqI [of acc_id "accounts d" a] by simp
  with a show ?thesis by (intro that)
qed

lemma tsum_sorted_filter: "tsum f (sort_key k (filter P t)) = tsum (\<lambda>r. if P r then f r else 0) t"
proof -
  have "tsum f (sort_key k (filter P t)) = tsum f (filter P t)" by (rule tsum_mset) simp
  also have "\<dots> = tsum (\<lambda>r. if P r then f r else 0) t" by (induction t) auto
  finally show ?thesis .
qed

lemma reserved_remaining:
  assumes inv: "funding_inv d" and a: "find_by acc_organizationId g (accounts d) = Some a"
  shows "tsum rsv_remainingRupiah (active_reservations g d) = tsum (due_res (acc_id a)) (reservations d)"
  unfolding active_reservations_def tsum_sorted_filter
proof (rule tsum_cong)
  fix r
  assume r: "r \<in> set (reservations d)"
  with inv have row: "reservation_inv r" "rsv_accountId r \<in> acc_id ` set (accounts d)" by (auto simp: funding_inv_def funding_rows_def)
  from find_account [OF inv row(2)] obtain b where b: "find_by acc_id (rsv_accountId r) (accounts d) = Some b"
    "b \<in> set (accounts d)" "acc_id b = rsv_accountId r" .
  have mine: "acc_organizationId b = g \<longleftrightarrow> rsv_accountId r = acc_id a"
    using account_of_org [OF inv a b(2)] find_by_SomeD [OF a] b inv find_by_uniqI [of acc_id "accounts d" a]
    by (auto simp: funding_inv_def keys_unique_def)
  show "(if rsv_status r = RES_ACTIVE \<and> (case find_by acc_id (rsv_accountId r) (accounts d) of None \<Rightarrow> False | Some a \<Rightarrow> acc_organizationId a = g)
      then rsv_remainingRupiah r else 0) = due_res (acc_id a) r"
    using row(1) mine by (cases "rsv_status r") (auto simp: b due_res_def reservation_inv_def)
qed

text \<open>
  C40: the reconciliation report agrees with the books. In a state whose books balance, the report
  shows for every organization with a funding account the sum of its cash entries as confirmed, and
  as held exactly what its active reservations still hold plus what its commits still owe, so the
  reported capacity is cash less obligations; an organization without an account shows zeros, and
  the totals are the sums over the organizations.
\<close>

theorem report_agrees_with_the_books:
  assumes inv: "funding_inv d" and v: "v \<in> set (fv_organizations (readFundingVisibility w filt d))"
  shows "(case ov_accountId v of
        None \<Rightarrow> ov_confirmedRupiah v = 0 \<and> ov_heldRupiah v = 0
      | Some a \<Rightarrow> ov_confirmedRupiah v = cash_due d a
          \<and> ov_heldRupiah v = ov_reservedRemainingRupiah v + tsum (due_com a) (commits d))
    \<and> ov_capacityRupiah v = ov_confirmedRupiah v - ov_heldRupiah v
    \<and> fv_totalHeldRupiah (readFundingVisibility w filt d) = tsum ov_heldRupiah (fv_organizations (readFundingVisibility w filt d))
    \<and> fv_totalConfirmedRupiah (readFundingVisibility w filt d) = tsum ov_confirmedRupiah (fv_organizations (readFundingVisibility w filt d))"
proof -
  from v obtain g where g: "v = organization_view_of (w_now w) d g" by (auto simp: readFundingVisibility_def Let_def)
  show ?thesis
  proof (cases "find_by acc_organizationId (org_id g) (accounts d)")
    case None
    then show ?thesis by (simp add: g organization_view_of_def Let_def readFundingVisibility_def)
  next
    case (Some a)
    have "acc_heldRupiah a = held_due d (acc_id a)" "acc_confirmedRupiah a = cash_due d (acc_id a)"
      using inv find_by_SomeD [OF Some] by (auto simp: funding_inv_def funding_books_def)
    with Some reserved_remaining [OF inv Some] show ?thesis
      by (simp add: g organization_view_of_def Let_def readFundingVisibility_def held_due_def)
  qed
qed

theorem report_agrees_with_the_books_witness:
  "\<exists>v a. v \<in> set (fv_organizations (readFundingVisibility sample_world None earned_db)) \<and> ov_accountId v = Some a
     \<and> ov_heldRupiah v = ov_reservedRemainingRupiah v + tsum (due_com a) (commits earned_db)"
proof -
  let ?vs = "fv_organizations (readFundingVisibility sample_world None earned_db)"
  have vs: "?vs \<noteq> []" "ov_accountId (hd ?vs) \<noteq> None" by code_simp+
  then obtain a where a: "ov_accountId (hd ?vs) = Some a" by blast
  have "hd ?vs \<in> set ?vs" using vs(1) by (rule hd_in_set)
  with a report_agrees_with_the_books [OF sample_inv(4) this] show ?thesis
    by (intro exI [of _ "hd ?vs"] exI [of _ a]) (simp only: option.case simp_thms)
qed

end
