(* ===== verification/Deposits_Props.thy ===== *)
theory Deposits_Props
  imports Deposits Guards_Props
begin

text \<open>
  What the session service promises: a machine never has two active sessions, only the timeout
  policy or the owner ends one, the policy acts after every lease has run out and moves no money,
  and an admission fixes its price list and holds its ceiling in the same transaction.
\<close>

section \<open>Frames\<close>

lemma lock_sessions_Inr: "lock_sessions ids d = Inr d' \<Longrightarrow> \<exists>ls. d' = d\<lparr>held_locks := ls\<rparr>"
proof (induction ids arbitrary: d)
  case Nil
  then show ?case by (auto intro: exI [of _ "held_locks d"])
next
  case (Cons i ids)
  from Cons.prems obtain l where "lock_sessions ids (acquire l d) = Inr d'" by (auto simp: result_simps)
  from Cons.IH [OF this] acquire_eq [of l d] show ?case by auto
qed

lemma lock_items_Inr: "lock_items ids d = Inr d' \<Longrightarrow> \<exists>ls. d' = d\<lparr>held_locks := ls\<rparr>"
proof (induction ids arbitrary: d)
  case Nil
  then show ?case by (auto intro: exI [of _ "held_locks d"])
next
  case (Cons i ids)
  from Cons.prems obtain l where "lock_items ids (acquire l d) = Inr d'" by (auto simp: result_simps)
  from Cons.IH [OF this] acquire_eq [of l d] show ?case by auto
qed

lemma find_by_replaced: "find_by key k t = Some r \<Longrightarrow> key v = k \<Longrightarrow> find_by key k (upd_by key k (\<lambda>_. v) t) = Some v"
  by (induction t) (auto split: if_splits)

lemma succeeds_result: "succeeds m \<Longrightarrow> m = Inr (result_of m x, state_of m)"
  by (cases m) (auto simp: succeeds_def state_of_def result_of_def)

section \<open>The timeout policy\<close>

lemma expire_session_fields [simp]:
  "ses_id (expire_session now s) = ses_id s" "ses_machineId (expire_session now s) = ses_machineId s"
  "ses_userId (expire_session now s) = ses_userId s" "ses_status (expire_session now s) = SS_EXPIRED"
  "expire_session now (expire_session now s) = expire_session now s"
  by (simp_all add: expire_session_def)

lemma close_sessions_Inr:
  assumes "close_sessions now ids d = Inr d'"
  shows "d' = d\<lparr>sessions := map (\<lambda>s. if ses_id s \<in> set ids then expire_session now s else s) (sessions d)\<rparr>"
  using assms
proof (induction ids arbitrary: d)
  case (Cons i ids)
  let ?f = "\<lambda>s. if ses_id s = i then expire_session now s else s"
  from Cons.prems have "close_sessions now ids (d\<lparr>sessions := map ?f (sessions d)\<rparr>) = Inr d'"
    by (auto simp: result_simps upd_by_def)
  from Cons.IH [OF this] show ?case by (simp add: o_def)
qed simp

lemma hold_item_fields [simp]:
  "itm_id (hold_item w i) = itm_id i" "itm_sessionId (hold_item w i) = itm_sessionId i"
  "itm_status (hold_item w i) = IS_REVIEW" "itm_acceptanceEventId (hold_item w i) = itm_acceptanceEventId i"
  "itm_rewardAmount (hold_item w i) = itm_rewardAmount i"
  by (simp_all add: hold_item_def)

text \<open>Every undecided item of distinct ids goes to review, in order, and nothing else changes.\<close>

lemma hold_items_effect:
  assumes "uniq itm_id (items d)" "distinct (map itm_id us)" "\<forall>u \<in> set us. u \<in> set (items d)"
    "\<forall>u \<in> set us. itm_status u = IS_PENDING \<and> itm_acceptanceEventId u = None"
  shows "hold_items w us d =
    (map (\<lambda>u. (itm_sessionId u, itm_id u)) us,
     d\<lparr>items := map (\<lambda>i. if itm_id i \<in> itm_id ` set us then hold_item w i else i) (items d)\<rparr>)"
  using assms
proof (induction us arbitrary: d)
  case (Cons u us)
  let ?d = "d\<lparr>items := upd_by itm_id (itm_id u) (hold_item w) (items d)\<rparr>"
  have found: "find_by itm_id (itm_id u) (items d) = Some u" using Cons.prems by (simp add: find_by_uniqI)
  have mem: "v \<in> set (items ?d)" if "v \<in> set us" for v
  proof -
    have "v \<in> set (items d)" "itm_id v \<noteq> itm_id u" using that Cons.prems(2,3) by (auto simp: image_iff)
    then show ?thesis by (auto simp: set_upd_by intro: image_eqI [where x = v])
  qed
  have uniq: "uniq itm_id (items ?d)" using Cons.prems(1) by (simp add: row_simps)
  have "hold_items w us ?d = (map (\<lambda>u. (itm_sessionId u, itm_id u)) us,
     ?d\<lparr>items := map (\<lambda>i. if itm_id i \<in> itm_id ` set us then hold_item w i else i) (items ?d)\<rparr>)"
    using Cons.prems mem uniq by (intro Cons.IH) auto
  moreover have "map (\<lambda>i. if itm_id i \<in> itm_id ` set us then hold_item w i else i) (items ?d)
      = map (\<lambda>i. if itm_id i \<in> itm_id ` set (u # us) then hold_item w i else i) (items d)"
    using Cons.prems(2) by (auto simp: upd_by_def)
  ultimately show ?case using Cons.prems(4) found by simp
qed simp

lemma hold_items_frame: "\<exists>t. snd (hold_items w us d) = d\<lparr>items := t\<rparr>"
proof (induction us arbitrary: d)
  case Nil
  then show ?case by (auto intro: exI [of _ "items d"])
next
  case (Cons u us)
  let ?d = "d\<lparr>items := upd_by itm_id (itm_id u) (hold_item w) (items d)\<rparr>"
  from Cons [of d] Cons [of ?d] show ?case by (auto simp: case_prod_beta Let_def split: option.splits)
qed

lemma set_closing_sessions:
  assumes "uniq ses_id (sessions d)"
  shows "set (closing_sessions ids idle now d)
    = {s \<in> set (sessions d). ses_id s \<in> set ids \<and> isActiveSession (ses_status s) \<and> sessionDeadline s idle \<le> now}"
proof (intro set_eqI iffI)
  fix s
  assume "s \<in> set (closing_sessions ids idle now d)"
  then obtain i where "i \<in> set ids" "find_by ses_id i (sessions d) = Some s" "isActiveSession (ses_status s)" "sessionDeadline s idle \<le> now"
    by (auto simp: closing_sessions_def map_filter_def split: option.splits if_splits)
  then show "s \<in> {s \<in> set (sessions d). ses_id s \<in> set ids \<and> isActiveSession (ses_status s) \<and> sessionDeadline s idle \<le> now}"
    using find_by_SomeD [of ses_id i "sessions d" s] by simp
next
  fix s
  assume s: "s \<in> {s \<in> set (sessions d). ses_id s \<in> set ids \<and> isActiveSession (ses_status s) \<and> sessionDeadline s idle \<le> now}"
  then have "find_by ses_id (ses_id s) (sessions d) = Some s" using find_by_uniqI [OF assms] by simp
  with s show "s \<in> set (closing_sessions ids idle now d)"
    by (auto simp: closing_sessions_def map_filter_def intro!: image_eqI [where x = "ses_id s"])
qed

text \<open>The two paths of the policy: nothing to close, or the given sessions that are over.\<close>

lemma expire_run:
  assumes "expireTimedOutSessions w ids idle now d = Inr (es, d')" and "uniq ses_id (sessions d)"
  obtains cl un ls where "cl = closing_sessions (sort (distinct_first ids)) idle now d" "un = undecided_items (map ses_id cl) d"
    "exp_sessionId ` set es = ses_id ` set cl"
    "exp_sessionId ` set es = {ses_id s | s. s \<in> set (sessions d) \<and> ses_id s \<in> set ids
          \<and> isActiveSession (ses_status s) \<and> sessionDeadline s idle \<le> now}"
    "cl = [] \<longrightarrow> d' = d\<lparr>held_locks := ls\<rparr>"
    "cl \<noteq> [] \<longrightarrow> close_sessions now (map ses_id cl) (snd (hold_items w un (d\<lparr>held_locks := ls\<rparr>))) = Inr d'"
proof -
  let ?ids = "sort (distinct_first ids)"
  from assms(1) obtain d1 where d1: "lock_sessions ?ids d = Inr d1"
    and rest: "(let closing = closing_sessions ?ids idle now d1 in
      if closing = [] then Inr ([], d1)
      else
        let undecided = undecided_items (map ses_id closing) d1 in
        rbind (lock_items (map itm_id undecided) d1) (\<lambda>d2.
        let (held, d3) = hold_items w undecided d2 in
        rbind (close_sessions now (map ses_id closing) d3) (\<lambda>d4.
        Inr (map (\<lambda>s. \<lparr>exp_sessionId = ses_id s, exp_userId = ses_userId s,
                exp_heldItemIds = map snd (filter (\<lambda>h. fst h = ses_id s) held)\<rparr>) closing, d4)))) = Inr (es, d')"
    by (auto simp: expireTimedOutSessions_def Let_def rbind_Inr_iff)
  from lock_sessions_Inr [OF d1] obtain ls where ls: "d1 = d\<lparr>held_locks := ls\<rparr>" by blast
  let ?cl = "closing_sessions ?ids idle now d"
  let ?un = "undecided_items (map ses_id ?cl) d"
  have same: "closing_sessions ?ids idle now d1 = ?cl" "undecided_items (map ses_id ?cl) d1 = ?un"
    by (simp_all add: ls closing_sessions_def undecided_items_def)
  have set_ids: "set ?ids = set ids" by (simp add: distinct_first_def)
  have cl: "ses_id ` set ?cl = {ses_id s | s. s \<in> set (sessions d) \<and> ses_id s \<in> set ids
      \<and> isActiveSession (ses_status s) \<and> sessionDeadline s idle \<le> now}"
    unfolding set_closing_sessions [OF assms(2)] set_ids by auto
  show ?thesis
  proof (cases "?cl = []")
    case True
    with rest same have "es = []" "d' = d\<lparr>held_locks := ls\<rparr>" by (auto simp: Let_def ls)
    with True cl show ?thesis by (intro that [of ?cl ?un ls]) auto
  next
    case False
    with rest same obtain d2 where d2: "lock_items (map itm_id ?un) d1 = Inr d2"
      and d': "close_sessions now (map ses_id ?cl) (snd (hold_items w ?un d2)) = Inr d'"
      and es: "exp_sessionId ` set es = ses_id ` set ?cl"
      by (auto simp: Let_def rbind_Inr_iff case_prod_beta image_image)
    from lock_items_Inr [OF d2] obtain ls2 where "d2 = d\<lparr>held_locks := ls2\<rparr>" by (auto simp: ls)
    with d' es cl False show ?thesis by (intro that [of ?cl ?un ls2]) auto
  qed
qed

text \<open>
  The whole effect: the sessions among the given ones that are active and past their deadline
  expire, their undecided items go to review, and only the two tables change.
\<close>

lemma expireTimedOutSessions_Inr:
  assumes run: "expireTimedOutSessions w ids idle now d = Inr (es, d')" and uniq: "uniq ses_id (sessions d)"
  shows "\<exists>t ls. d' = d\<lparr>held_locks := ls, items := t,
      sessions := map (\<lambda>s. if ses_id s \<in> exp_sessionId ` set es then expire_session now s else s) (sessions d)\<rparr>"
    and "exp_sessionId ` set es = {ses_id s | s. s \<in> set (sessions d) \<and> ses_id s \<in> set ids
          \<and> isActiveSession (ses_status s) \<and> sessionDeadline s idle \<le> now}"
proof -
  from run uniq obtain cl :: "session list" and un ls where es: "exp_sessionId ` set es = ses_id ` set cl"
    and over: "exp_sessionId ` set es = {ses_id s | s. s \<in> set (sessions d) \<and> ses_id s \<in> set ids
          \<and> isActiveSession (ses_status s) \<and> sessionDeadline s idle \<le> now}"
    and none: "cl = [] \<longrightarrow> d' = d\<lparr>held_locks := ls\<rparr>"
    and some: "cl \<noteq> [] \<longrightarrow> close_sessions now (map ses_id cl) (snd (hold_items w un (d\<lparr>held_locks := ls\<rparr>))) = Inr d'"
    by (rule expire_run)
  show "exp_sessionId ` set es = {ses_id s | s. s \<in> set (sessions d) \<and> ses_id s \<in> set ids
          \<and> isActiveSession (ses_status s) \<and> sessionDeadline s idle \<le> now}" by (rule over)
  from hold_items_frame [of w un "d\<lparr>held_locks := ls\<rparr>"] obtain t where
    t: "snd (hold_items w un (d\<lparr>held_locks := ls\<rparr>)) = d\<lparr>held_locks := ls, items := t\<rparr>" by auto
  show "\<exists>t ls. d' = d\<lparr>held_locks := ls, items := t,
      sessions := map (\<lambda>s. if ses_id s \<in> exp_sessionId ` set es then expire_session now s else s) (sessions d)\<rparr>"
  proof (cases "cl = []")
    case True
    with none es show ?thesis by (auto intro!: exI [of _ "items d"] exI [of _ ls])
  next
    case False
    with some have "close_sessions now (map ses_id cl) (d\<lparr>held_locks := ls, items := t\<rparr>) = Inr d'" by (simp add: t)
    from close_sessions_Inr [OF this] show ?thesis unfolding es by (auto intro!: exI [of _ t] exI [of _ ls])
  qed
qed

text \<open>The items after the policy: the undecided ones of the closed sessions are in review.\<close>

lemma undecided_items_props:
  assumes "uniq itm_id (items d)"
  shows "distinct (map itm_id (undecided_items sids d))"
    and "set (undecided_items sids d) = {i \<in> set (items d). itm_sessionId i \<in> set sids \<and> itm_status i = IS_PENDING \<and> itm_acceptanceEventId i = None}"
proof -
  show "set (undecided_items sids d) = {i \<in> set (items d). itm_sessionId i \<in> set sids \<and> itm_status i = IS_PENDING \<and> itm_acceptanceEventId i = None}"
    by (auto simp: undecided_items_def)
  have "distinct (map itm_id (filter P (items d)))" for P using assms by (simp add: uniq_def distinct_map_filter)
  then show "distinct (map itm_id (undecided_items sids d))"
    unfolding undecided_items_def distinct_map by (auto simp: distinct_map inj_on_def)
qed

lemma expire_items:
  assumes run: "expireTimedOutSessions w ids idle now d = Inr (es, d')"
    and uniq: "uniq ses_id (sessions d)" "uniq itm_id (items d)"
  shows "items d' = map (\<lambda>i. if itm_sessionId i \<in> exp_sessionId ` set es \<and> itm_status i = IS_PENDING \<and> itm_acceptanceEventId i = None
      then hold_item w i else i) (items d)"
proof -
  from run uniq(1) obtain cl :: "session list" and un ls where un: "un = undecided_items (map ses_id cl) d"
    and es: "exp_sessionId ` set es = ses_id ` set cl" and none: "cl = [] \<longrightarrow> d' = d\<lparr>held_locks := ls\<rparr>"
    and some: "cl \<noteq> [] \<longrightarrow> close_sessions now (map ses_id cl) (snd (hold_items w un (d\<lparr>held_locks := ls\<rparr>))) = Inr d'"
    by (rule expire_run)
  note props = undecided_items_props [OF uniq(2), of "map ses_id cl", folded un]
  show ?thesis
  proof (cases "cl = []")
    case True
    with none es show ?thesis by simp
  next
    case False
    have "snd (hold_items w un (d\<lparr>held_locks := ls\<rparr>))
        = d\<lparr>held_locks := ls, items := map (\<lambda>i. if itm_id i \<in> itm_id ` set un then hold_item w i else i) (items d)\<rparr>"
      by (subst hold_items_effect) (use props uniq(2) in auto)
    with close_sessions_Inr [of now "map ses_id cl"] some False
    have "items d' = map (\<lambda>i. if itm_id i \<in> itm_id ` set un then hold_item w i else i) (items d)" by fastforce
    moreover have "itm_id i \<in> itm_id ` set un \<longleftrightarrow> i \<in> set un" if "i \<in> set (items d)" for i
      using that uniq(2) props(2) by (auto simp: uniq_def distinct_map inj_on_def)
    ultimately show ?thesis using props(2) es by auto
  qed
qed

section \<open>One active session per machine\<close>

definition sessions_inv :: "db \<Rightarrow> bool" where
  "sessions_inv d \<longleftrightarrow> uniq ses_id (sessions d)
     \<and> list_all (\<lambda>s. length (filter (active_on (ses_machineId s)) (sessions d)) \<le> 1) (sessions d)"

lemma sessions_inv_iff:
  "sessions_inv d \<longleftrightarrow> uniq ses_id (sessions d) \<and> (\<forall>m. length (filter (active_on m) (sessions d)) \<le> 1)"
proof -
  have "length (filter (active_on m) (sessions d)) \<le> 1"
    if "list_all (\<lambda>s. length (filter (active_on (ses_machineId s)) (sessions d)) \<le> 1) (sessions d)" for m
  proof (cases "m \<in> ses_machineId ` set (sessions d)")
    case True
    with that show ?thesis by (auto simp: list_all_iff)
  next
    case False
    then have "filter (active_on m) (sessions d) = []" by (auto simp: filter_empty_conv active_on_def)
    then show ?thesis by (simp only: list.size)
  qed
  then show ?thesis by (auto simp: sessions_inv_def list_all_iff)
qed

text \<open>Rows keep their identity and an ended session never becomes active again.\<close>

definition row_moves :: "session \<Rightarrow> session \<Rightarrow> bool" where
  "row_moves s s' \<longleftrightarrow> ses_id s' = ses_id s \<and> ses_machineId s' = ses_machineId s \<and> ses_userId s' = ses_userId s
     \<and> ses_startedAt s' = ses_startedAt s \<and> (isActiveSession (ses_status s') \<longrightarrow> isActiveSession (ses_status s))"

definition session_moves :: "session list \<Rightarrow> session list \<Rightarrow> bool" where
  "session_moves = list_all2 row_moves"

lemma row_moves_refl [simp]: "row_moves s s"
  by (simp add: row_moves_def)

lemma session_moves_refl [simp]: "session_moves t t"
  by (simp add: session_moves_def list.rel_refl)

lemma session_moves_map: "(\<And>s. s \<in> set t \<Longrightarrow> row_moves s (f s)) \<Longrightarrow> session_moves t (map f t)"
  by (simp add: session_moves_def list_all2_conv_all_nth)

lemma session_moves_ids: "session_moves t u \<Longrightarrow> map ses_id u = map ses_id t"
  unfolding session_moves_def by (induction rule: list_all2_induct) (auto simp: row_moves_def)

lemma session_moves_active:
  "session_moves t u \<Longrightarrow> length (filter (active_on m) u) \<le> length (filter (active_on m) t)"
  unfolding session_moves_def by (induction rule: list_all2_induct) (auto simp: row_moves_def active_on_def)

lemma session_moves_inv:
  assumes "sessions_inv d" "session_moves (sessions d) (sessions d')"
  shows "sessions_inv d'"
  using assms session_moves_ids [OF assms(2)] session_moves_active [OF assms(2)]
  by (auto simp: sessions_inv_iff uniq_def intro: order_trans)

lemma row_moves_expire: "row_moves s (expire_session now s)"
  by (simp add: row_moves_def isActiveSession_def ACTIVE_SESSION_STATUSES_def expire_session_def)

lemma expire_moves:
  assumes "expireTimedOutSessions w ids idle now d = Inr (es, d')" "uniq ses_id (sessions d)"
  shows "session_moves (sessions d) (sessions d')"
  using expireTimedOutSessions_Inr(1) [OF assms] by (auto intro!: session_moves_map row_moves_expire)

lemma expireIfTimedOut_Some:
  assumes "expireIfTimedOut w i idle now d = Inr (Some e, d')"
  shows "\<exists>es. expireTimedOutSessions w [i] idle now d = Inr (e # es, d')"
proof -
  from assms obtain es0 where "expireTimedOutSessions w [i] idle now d = Inr (es0, d')"
    "(case es0 of [] \<Rightarrow> None | e # _ \<Rightarrow> Some e) = Some e" by (auto simp: expireIfTimedOut_def rbind_Inr_iff)
  then show ?thesis by (cases es0) auto
qed

lemma expireIfTimedOut_moves:
  assumes "expireIfTimedOut w i idle now d = Inr (e, d')" "uniq ses_id (sessions d)"
  shows "session_moves (sessions d) (sessions d')"
  using assms expire_moves by (auto simp: expireIfTimedOut_def result_simps)

lemma committed_transaction:
  assumes "runWalletTransaction fn d = Inr (x, d')"
  shows "\<exists>d1. fn (committed d) = Inr (x, d1) \<and> d' = committed d1"
  using assms by (auto simp: runWalletTransaction_def split: sum.splits if_splits)

lemma committed_tables [simp]:
  "sessions (committed d) = sessions d" "items (committed d) = items d" "machines (committed d) = machines d"
  "funding_inv (committed d) = funding_inv d" "reservations (committed d) = reservations d" "campaigns (committed d) = campaigns d"
  by (simp_all add: committed_def)

subsection \<open>Admission\<close>

lemma start_locks_frame:
  assumes "start_locks w a inp ref d = Inr d1"
  shows "same_wallet d d1"
proof -
  from assms obtain acc d2 where "lockFundingAccountForOrganization w (mac_organizationId ref) (acquire (LUser a) d) = Inr (acc, d2)"
    and "same_wallet d2 d1"
    by (auto simp: start_locks_def result_simps split: option.splits if_splits)
  with lockFundingAccountForOrganization_frame [OF this(1)] show ?thesis by (auto intro: same_wallet_trans)
qed

lemma start_locks_inv:
  assumes "start_locks w a inp ref d = Inr d1" "funding_inv d"
  shows "funding_inv d1"
proof -
  from assms(1) obtain acc d2 where "lockFundingAccountForOrganization w (mac_organizationId ref) (acquire (LUser a) d) = Inr (acc, d2)"
    and "funding_inv d1 = funding_inv d2"
    by (auto simp: start_locks_def result_simps split: option.splits if_splits)
  with lockFundingAccountForOrganization_inv [OF this(1)] assms(2) show ?thesis by simp
qed

lemma start_locks_reservations:
  assumes "start_locks w a inp ref d = Inr d1"
  shows "reservations d1 = reservations d"
proof -
  from assms obtain acc d2 where "lockFundingAccountForOrganization w (mac_organizationId ref) (acquire (LUser a) d) = Inr (acc, d2)"
    and "reservations d1 = reservations d2"
    by (auto simp: start_locks_def result_simps split: option.splits if_splits)
  with lockFundingAccountForOrganization_Inr [OF this(1)] show ?thesis by simp
qed

lemma admit_session_Inr:
  assumes "admit_session w a inp machine om campaign d = Inr (s, d')"
  shows "s = new_session w d a machine (si_campaignId inp) (buildSessionPolicy w machine om campaign (resolveSessionCeiling campaign machine) d)"
    and "sessions d' = sessions d @ [s]" and "find_by ses_id (ses_id s) (sessions d) = None"
proof -
  let ?s = "new_session w d a machine (si_campaignId inp) (buildSessionPolicy w machine om campaign (resolveSessionCeiling campaign machine) d)"
  from assms obtain r where s: "s = ?s" and none: "find_by ses_id (ses_id s) (sessions d) = None"
    and res: "reserveSessionCeiling w ?s machine om campaign (bump_seq (d\<lparr>sessions := sessions d @ [?s]\<rparr>)) = Inr (r, d')"
    by (auto simp: admit_session_def insert_session_def Let_def result_simps split: if_splits)
  have "sessions d' = sessions (bump_seq (d\<lparr>sessions := sessions d @ [?s]\<rparr>))"
    using res reserveRewardBudget_frame
    by (fastforce simp: reserveSessionCeiling_def Let_def result_simps same_wallet_def split: if_splits)
  then show "s = ?s" "sessions d' = sessions d @ [s]" "find_by ses_id (ses_id s) (sessions d) = None"
    using s none by (simp_all add: bump_seq_def)
qed

text \<open>What a committed start decision did.\<close>

lemma decideStart_Inr:
  assumes run: "decideStart w a inp ref d = Inr (dec, d')" and uniq: "uniq ses_id (sessions d)"
  obtains (kept) d1 where "same_wallet d d1" "session_moves (sessions d) (sessions d')" "\<forall>s es. dec \<noteq> Created s es"
      "start_locks w a inp ref d = Inr d1" "\<exists>ids idle es. expireTimedOutSessions w ids idle (w_now w) d1 = Inr (es, d')"
  | (created) d1 d2 machine org campaign s es where "dec = Created s es" "start_locks w a inp ref d = Inr d1"
      "find_by mac_id (mac_id ref) (machines d1) = Some machine"
      "find_by org_id (mac_organizationId machine) (organizations d1) = Some org"
      "machine_refusal machine org (si_token inp) (w_now w) d1 = None"
      "(campaign = None) = (given_campaign inp = None)"
      "\<forall>c r. given_campaign inp = Some c \<longrightarrow> campaign = Some r \<longrightarrow> assertCampaignForMachine w a (mac_organizationId machine) c d1 = Inr r"
      "\<exists>t ls. d2 = d1\<lparr>held_locks := ls, items := t, sessions := sessions d2\<rparr>"
      "session_moves (sessions d1) (sessions d2)" "filter (active_on (mac_id ref)) (sessions d2) = []"
      "admit_session w a inp machine (org_machineRewardMode org) campaign d2 = Inr (s, d')"
      "\<exists>ids idle. expireTimedOutSessions w ids idle (w_now w) d1 = Inr (es, d2)"
proof -
  from run obtain d1 machine org where d1: "start_locks w a inp ref d = Inr d1"
    and m: "find_by mac_id (mac_id ref) (machines d1) = Some machine"
    and org: "find_by org_id (mac_organizationId machine) (organizations d1) = Some org"
    and ok: "machine_refusal machine org (si_token inp) (w_now w) d1 = None"
    and rest: "(let now = w_now w; idle = mac_sessionIdleTimeoutMinutes machine;
             active = active_sessions (mac_id ref) d1;
             timedOut = filter (\<lambda>s. sessionDeadline s idle \<le> now) active;
             live = filter (\<lambda>s. \<not> sessionDeadline s idle \<le> now) active in
         rbind (case given_campaign inp of
                  None \<Rightarrow> Inr None
                | Some c \<Rightarrow> if live = []
                            then rbind (assertCampaignForMachine w a (mac_organizationId machine) c d1) (\<lambda>r. Inr (Some r))
                            else Inr None) (\<lambda>campaign.
         rbind (expireTimedOutSessions w (map ses_id timedOut) idle now d1) (\<lambda>(expired, d2).
         start_outcome w a inp machine (org_machineRewardMode org) campaign
           (live @ filter (\<lambda>s. ses_id s \<notin> set (map exp_sessionId expired)) timedOut) expired d2))) = Inr (dec, d')"
    unfolding decideStart_def
    by (auto simp: rbind_Inr_iff find_or_throw_Inr split: option.splits if_splits)
  let ?idle = "mac_sessionIdleTimeoutMinutes machine"
  let ?act = "active_sessions (mac_id ref) d1"
  let ?out = "filter (\<lambda>s. sessionDeadline s ?idle \<le> w_now w) ?act"
  let ?live = "filter (\<lambda>s. \<not> sessionDeadline s ?idle \<le> w_now w) ?act"
  from rest obtain campaign es d2 where
    cmp: "(case given_campaign inp of
                  None \<Rightarrow> Inr None
                | Some c \<Rightarrow> if ?live = []
                            then rbind (assertCampaignForMachine w a (mac_organizationId machine) c d1) (\<lambda>r. Inr (Some r))
                            else Inr None) = Inr campaign"
    and d2: "expireTimedOutSessions w (map ses_id ?out) ?idle (w_now w) d1 = Inr (es, d2)"
    and tail: "start_outcome w a inp machine (org_machineRewardMode org) campaign
           (?live @ filter (\<lambda>s. ses_id s \<notin> set (map exp_sessionId es)) ?out) es d2 = Inr (dec, d')"
    unfolding Let_def rbind_Inr_iff by (auto simp del: filter_filter)
  have frame: "same_wallet d d1" by (rule start_locks_frame [OF d1])
  then have same: "sessions d1 = sessions d" by (simp add: same_wallet_def)
  have uniq1: "uniq ses_id (sessions d1)" using uniq same by simp
  note moves = expire_moves [OF d2 uniq1]
  let ?live2 = "?live @ filter (\<lambda>s. ses_id s \<notin> set (map exp_sessionId es)) ?out"
  show ?thesis
  proof (cases "?live2 = []")
    case False
    then have "(\<forall>s es. dec \<noteq> Created s es) \<and> d' = d2"
      using tail unfolding start_outcome_def by (cases ?live2 rule: remdups_adj.cases) (auto split: if_splits)
    with moves same d1 d2 show ?thesis by (intro kept [OF frame]) auto
  next
    case True
    with tail obtain s where s: "admit_session w a inp machine (org_machineRewardMode org) campaign d2 = Inr (s, d')"
      and dec: "dec = Created s es" unfolding start_outcome_def by (auto simp: rbind_Inr_iff)
    from True have live: "?live = []" and closed: "\<forall>x \<in> set ?out. ses_id x \<in> exp_sessionId ` set es"
      by (auto simp: filter_empty_conv)
    from expireTimedOutSessions_Inr(1) [OF d2 uniq1] obtain t ls where
      d2_eq: "d2 = d1\<lparr>held_locks := ls, items := t,
        sessions := map (\<lambda>s. if ses_id s \<in> exp_sessionId ` set es then expire_session (w_now w) s else s) (sessions d1)\<rparr>"
      by blast
    have gone: "ses_id x \<in> exp_sessionId ` set es" if "x \<in> set (sessions d1)" "active_on (mac_id ref) x" for x
    proof -
      from that have "x \<in> set ?act" by (simp add: active_sessions_def)
      then have "x \<in> set ?out" using live by (auto simp: filter_empty_conv)
      with closed show ?thesis by blast
    qed
    have none: "filter (active_on (mac_id ref)) (sessions d2) = []"
      using gone by (auto simp: d2_eq filter_empty_conv active_on_def isActiveSession_def ACTIVE_SESSION_STATUSES_def)
    have c1: "(campaign = None) = (given_campaign inp = None)"
      "\<forall>c r. given_campaign inp = Some c \<longrightarrow> campaign = Some r \<longrightarrow> assertCampaignForMachine w a (mac_organizationId machine) c d1 = Inr r"
      using cmp live by (auto simp: rbind_Inr_iff split: option.splits if_splits)
    have "\<exists>t ls. d2 = d1\<lparr>held_locks := ls, items := t, sessions := sessions d2\<rparr>" by (auto simp: d2_eq)
    with d2 show ?thesis by (intro created [OF dec d1 m org ok c1 _ moves none s]) auto
  qed
qed

lemma appended_session_inv:
  assumes inv: "sessions_inv d" and t: "session_moves (sessions d) t" and none: "filter (active_on m) t = []"
    and new: "find_by ses_id (ses_id s) t = None" "ses_machineId s = m" and d': "sessions d' = t @ [s]"
  shows "sessions_inv d'"
proof -
  have t_inv: "uniq ses_id t" "length (filter (active_on n) t) \<le> 1" for n
    using inv session_moves_ids [OF t] session_moves_active [OF t, of n] by (auto simp: sessions_inv_iff uniq_def intro: order_trans)
  have "length (filter (active_on n) (t @ [s])) \<le> 1" for n
    using t_inv(2) [of n] none new(2) by (cases "n = m") (auto simp: active_on_def)
  then show ?thesis using t_inv(1) new(1) by (simp add: sessions_inv_iff d' uniq_append find_by_None_iff)
qed

lemma decideStart_keeps:
  assumes run: "decideStart w a inp ref d = Inr (dec, d')" and inv: "sessions_inv d"
  shows "sessions_inv d'"
proof -
  have uniq: "uniq ses_id (sessions d)" using inv by (simp add: sessions_inv_def)
  from run uniq show ?thesis
  proof (cases rule: decideStart_Inr)
    case (kept d1)
    then show ?thesis using session_moves_inv [OF inv] by blast
  next
    case (created d1 d2 machine org campaign s es)
    note new = admit_session_Inr [OF created(11)]
    have "sessions d1 = sessions d" using start_locks_frame [OF created(2)] by (simp add: same_wallet_def)
    with created(9) have "session_moves (sessions d) (sessions d2)" by simp
    moreover have "ses_machineId s = mac_id ref" using new(1) find_by_SomeD [OF created(3)] by (simp add: new_session_def)
    ultimately show ?thesis using new created(10) by (intro appended_session_inv [OF inv]) auto
  qed
qed

lemma start_attempts_keeps:
  "start_attempts n w a inp ref d = (r, d') \<Longrightarrow> sessions_inv d \<Longrightarrow> sessions_inv d'"
proof (induction n)
  case (0 )
  then show ?case
    using decideStart_keeps [of w a inp ref "committed d"] committed_transaction [of "decideStart w a inp ref" d]
    by (auto simp: sessions_inv_def split: sum.splits prod.splits list.splits if_splits)
next
  case (Suc n)
  then show ?case
    using decideStart_keeps [of w a inp ref "committed d"] committed_transaction [of "decideStart w a inp ref" d]
    by (auto simp: sessions_inv_def split: sum.splits prod.splits list.splits if_splits)
qed

subsection \<open>The owner and the machine\<close>

lemma transition_FINISH: "transitionSession s ''FINISH'' = Inr n \<Longrightarrow> n = SS_COMPLETED"
  by (cases s) (auto simp: transitionSession_def canTransitionSession_def SESSION_TRANSITIONS_def)

lemma end_locked_moves:
  assumes "end_locked w sid mid action d = Inr (x, d')" "uniq ses_id (sessions d)"
  shows "session_moves (sessions d) (sessions d')"
proof -
  from assms(1) obtain s where s: "find_by ses_id sid (sessions d) = Some s"
    by (auto simp: end_locked_def split: option.splits)
  have only: "r = s" if "r \<in> set (sessions d)" "ses_id r = sid" for r
    using find_by_uniqI [OF assms(2) that(1)] that(2) s by simp
  have update: "session_moves (sessions d) (upd_by ses_id sid (\<lambda>_. s\<lparr>ses_status := n, ses_completedAt := Some (w_now w)\<rparr>) (sessions d))"
    if "n = SS_CANCELLED \<or> n = SS_COMPLETED" for n
    unfolding upd_by_def
    by (rule session_moves_map) (use only that in \<open>auto simp: row_moves_def isActiveSession_def ACTIVE_SESSION_STATUSES_def\<close>)
  show ?thesis
  proof (cases "list_ex (undecidedItemsWhere sid) (items d) \<and> isActiveSession (ses_status s)")
    case True
    with assms(1) s obtain m e d1 where "(case find_by mac_id mid (machines d) of None \<Rightarrow> Inr (None, d)
        | Some m \<Rightarrow> expireIfTimedOut w sid (mac_sessionIdleTimeoutMinutes m) (w_now w) d) = Inr (e, d1)" "d' = d1"
      by (auto simp: end_locked_def rbind_Inr_iff split: if_splits)
    then show ?thesis using expireIfTimedOut_moves [OF _ assms(2)] by (auto split: option.splits)
  next
    case False
    have "d' = d \<or> (\<exists>n. (n = SS_CANCELLED \<or> n = SS_COMPLETED) \<and>
        sessions d' = upd_by ses_id sid (\<lambda>_. s\<lparr>ses_status := n, ses_completedAt := Some (w_now w)\<rparr>) (sessions d))"
      using assms(1) s False transition_FINISH [of "ses_status s"]
      by (auto simp: end_locked_def result_simps Let_def split: if_splits sum.splits)
    then show ?thesis using update by auto
  qed
qed

lemma ensure_locked_moves:
  assumes "ensure_locked w sid ref d = Inr (x, d')"
  shows "session_moves (sessions d) (sessions d')"
  using assms
  by (auto simp: ensure_locked_def result_simps Let_def upd_by_def row_moves_def split: option.splits if_splits
      intro!: session_moves_map)

lemma endDepositByOwner_Inr:
  assumes "endDepositByOwner w a sid action d = Inr (x, d')"
  shows "\<exists>ref d1 d2. find_by ses_id sid (sessions d) = Some ref \<and> ses_userId ref = a \<and> committed d1 = committed d
    \<and> end_locked w sid (ses_machineId ref) action d1 = Inr (x, d2) \<and> d' = committed d2"
proof -
  let ?tx = "\<lambda>ref d0. rbind (lockUser (ses_userId ref) d0) (\<lambda>d1. rbind (lockMachine (ses_machineId ref) d1) (\<lambda>d2.
            rbind (lockDepositSession sid d2) (end_locked w sid (ses_machineId ref) action)))"
  from assms obtain ref where ref: "find_by ses_id sid (sessions d) = Some ref" "ses_userId ref = a"
    and run: "runWalletTransaction (?tx ref) d = Inr (x, d')"
    by (auto simp: endDepositByOwner_def split: option.splits if_splits)
  from committed_transaction [OF run] obtain d2 where "?tx ref (committed d) = Inr (x, d2)" and d': "d' = committed d2" by blast
  then have "end_locked w sid (ses_machineId ref) action (acquire (LDepositSession sid)
       (acquire (LMachine (ses_machineId ref)) (acquire (LUser (ses_userId ref)) (committed d)))) = Inr (x, d2)"
    by (auto simp: result_simps)
  with ref d' show ?thesis by (metis acquire_committed committed_idem)
qed

lemma endDepositByOwner_moves:
  assumes "endDepositByOwner w a sid action d = Inr (x, d')" "uniq ses_id (sessions d)"
  shows "session_moves (sessions d) (sessions d')"
proof -
  from endDepositByOwner_Inr [OF assms(1)] obtain ref :: session and d1 d2 where d1: "committed d1 = committed d"
    and run: "end_locked w sid (ses_machineId ref) action d1 = Inr (x, d2)" and d': "d' = committed d2" by metis
  from d1 have "sessions d1 = sessions d" by (metis committed_tables(1))
  with end_locked_moves [OF run] assms(2) d' show ?thesis by simp
qed

lemma ensureSessionPolicy_moves:
  assumes "ensureSessionPolicy w sid d = Inr (x, d')"
  shows "session_moves (sessions d) (sessions d')"
proof (cases "d' = d")
  case False
  with assms obtain ref d0 acc d1 d2 c s d3 where
    "lockFundingAccountForOrganization w (mac_organizationId ref) (acquire s (committed d)) = Inr (acc, d1)"
    "lockCampaignOpt c d1 = Inr d2" "ensure_locked w sid ref d3 = Inr (x, d0)" "sessions d3 = sessions d2" "d' = committed d0"
    by (auto simp: ensureSessionPolicy_def result_simps split: option.splits dest!: committed_transaction)
  with lockFundingAccountForOrganization_frame [OF this(1)] lockCampaignOpt_fields [OF this(2)] ensure_locked_moves [OF this(3)]
  show ?thesis by (auto simp: same_wallet_def)
qed simp

lemma poll_sessions_inv:
  "poll_sessions w machine cs d = (r, d') \<Longrightarrow> sessions_inv d \<Longrightarrow> sessions_inv d'"
proof (induction cs arbitrary: d r d')
  case (Cons c cs)
  let ?tx = "\<lambda>d0. rbind (lockUser (ses_userId c) d0) (\<lambda>d1. rbind (lockMachine (mac_id machine) d1) (\<lambda>d2.
                expireIfTimedOut w (ses_id c) (mac_sessionIdleTimeoutMinutes machine) (w_now w) d2))"
  have tx: "sessions_inv d1" if "runWalletTransaction ?tx d = Inr (e, d1)" for e d1
  proof -
    from committed_transaction [OF that] obtain d2 d3 where
      "expireIfTimedOut w (ses_id c) (mac_sessionIdleTimeoutMinutes machine) (w_now w) d2 = Inr (e, d3)" "d1 = committed d3" "sessions d2 = sessions d"
      by (auto simp: result_simps)
    with expireIfTimedOut_moves [OF this(1)] Cons.prems(2) show ?thesis
      by (intro session_moves_inv [OF Cons.prems(2)]) (auto simp: sessions_inv_def)
  qed
  from Cons.prems(1) consider (live) r1 where "poll_sessions w machine cs d = (r1, d')" | (same) "d' = d"
    | (closed) e d1 r1 where "runWalletTransaction ?tx d = Inr (e, d1)" "poll_sessions w machine cs d1 = (r1, d')"
    by (auto simp: Let_def split: if_splits sum.splits prod.splits option.splits)
  then show ?case using Cons.IH Cons.prems(2) tx by cases blast+
qed simp

subsection \<open>Sessions as a state machine\<close>

text \<open>
  The steps of the service; any other writer (machine events, reviews) may rewrite session rows
  as long as no ended session becomes active.
\<close>

inductive session_step :: "world \<Rightarrow> db \<Rightarrow> db \<Rightarrow> bool" for w where
  start: "startOrResumeDeposit w a inp d = (r, d') \<Longrightarrow> session_step w d d'"
| owner_end: "endDepositByOwner w a sid action d = Inr (x, d') \<Longrightarrow> session_step w d d'"
| poll: "currentMachineSession w machine d = (r2, d') \<Longrightarrow> session_step w d d'"
| snapshot: "ensureSessionPolicy w sid d = Inr (p, d') \<Longrightarrow> session_step w d d'"
| elsewhere: "session_moves (sessions d) (sessions d') \<Longrightarrow> session_step w d d'"

lemma session_step_inv:
  assumes "session_step w d d'" "sessions_inv d"
  shows "sessions_inv d'"
  using assms(1)
proof cases
  case (start a inp r)
  then show ?thesis using start_attempts_keeps [OF _ assms(2)] assms(2)
    by (auto simp: startOrResumeDeposit_def simp del: start_attempts.simps split: option.splits)
next
  case (owner_end a sid action x)
  then show ?thesis using endDepositByOwner_moves assms(2) by (intro session_moves_inv [OF assms(2)]) (auto simp: sessions_inv_def)
next
  case (poll machine r2)
  then show ?thesis using poll_sessions_inv [OF _ assms(2)]
    by (auto simp: currentMachineSession_def split: prod.splits sum.splits if_splits)
next
  case (snapshot sid p)
  then show ?thesis using ensureSessionPolicy_moves by (intro session_moves_inv [OF assms(2)]) auto
next
  case elsewhere
  then show ?thesis by (rule session_moves_inv [OF assms(2)])
qed

interpretation session_machine: invariant_system "\<lambda>d. sessions d = []" "session_step w" sessions_inv for w
proof
  show "sessions_inv d" if "sessions d = []" for d using that by (simp add: sessions_inv_def uniq_def)
qed (rule session_step_inv)

section \<open>Properties\<close>

definition sample_scan :: start_input where
  "sample_scan = \<lparr>si_machineCode = ''RVM-1'', si_token = ''tok'', si_campaignId = Some ''c1''\<rparr>"

text \<open>The installation with prices and funding, before anybody scanned; and after a scan.\<close>

definition scan_db :: db where
  "scan_db = committed (state_of (recordFundingEntry sample_world sample_topup (priced_db\<lparr>sessions := []\<rparr>)))"

definition scanned_db :: db where
  "scanned_db = snd (startOrResumeDeposit sample_world ''u1'' sample_scan scan_db)"

definition later_world :: world where
  "later_world = sample_world\<lparr>w_now := 200000\<rparr>"



text \<open>
  What the timeout policy does, exactly. Of the sessions it is given it closes those that are
  still active and whose deadline has passed; each undecided item of a closed session goes to
  review and keeps a reason it already had; no other session, no other item and no other table
  (reservations, commits, ledger, cases, accounts) changes.
\<close>

theorem timeout_policy_closes_exactly:
  assumes run: "expireTimedOutSessions w ids idle now d = Inr (es, d')"
    and uniq: "uniq ses_id (sessions d)" "uniq itm_id (items d)"
  defines "over \<equiv> \<lambda>s. ses_id s \<in> set ids \<and> isActiveSession (ses_status s) \<and> sessionDeadline s idle \<le> now"
  shows "sessions d' = map (\<lambda>s. if over s then expire_session now s else s) (sessions d)
    \<and> items d' = map (\<lambda>i. if list_ex (\<lambda>s. over s \<and> undecidedItemsWhere (ses_id s) i) (sessions d) then hold_item w i else i) (items d)
    \<and> d'\<lparr>sessions := sessions d, items := items d, held_locks := held_locks d\<rparr> = d"
proof -
  let ?E = "exp_sessionId ` set es"
  have E: "?E = {ses_id s | s. s \<in> set (sessions d) \<and> over s}"
    unfolding over_def using expireTimedOutSessions_Inr(2) [OF run uniq(1)] by auto
  have mem: "ses_id s \<in> ?E \<longleftrightarrow> over s" if "s \<in> set (sessions d)" for s
  proof
    assume "ses_id s \<in> ?E"
    then obtain r where r: "r \<in> set (sessions d)" "over r" "ses_id r = ses_id s" unfolding E by auto
    then show "over s" using uniq_row [OF uniq(1) r(1) that] by simp
  qed (use that E in auto)
  from expireTimedOutSessions_Inr(1) [OF run uniq(1)] obtain t ls where
    d': "d' = d\<lparr>held_locks := ls, items := t, sessions := map (\<lambda>s. if ses_id s \<in> ?E then expire_session now s else s) (sessions d)\<rparr>"
    by blast
  have un: "list_ex (\<lambda>s. over s \<and> undecidedItemsWhere (ses_id s) i) (sessions d)
      \<longleftrightarrow> itm_sessionId i \<in> ?E \<and> itm_status i = IS_PENDING \<and> itm_acceptanceEventId i = None" for i
    unfolding E by (auto simp: list_ex_iff undecidedItemsWhere_def)
  have "items d' = map (\<lambda>i. if itm_sessionId i \<in> ?E \<and> itm_status i = IS_PENDING \<and> itm_acceptanceEventId i = None then hold_item w i else i) (items d)"
    by (rule expire_items [OF run uniq])
  then show ?thesis using mem by (simp add: d' un)
qed

theorem timeout_policy_closes_exactly_witness:
  "sessions (state_of (expireTimedOutSessions later_world [''s1''] 3 200000 sample_db)) = [expire_session 200000 sample_session]"
proof -
  have "succeeds (expireTimedOutSessions later_world [''s1''] 3 200000 sample_db)" by code_simp
  from succeeds_tx [OF this] obtain es where
    run: "expireTimedOutSessions later_world [''s1''] 3 200000 sample_db
      = Inr (es, state_of (expireTimedOutSessions later_world [''s1''] 3 200000 sample_db))" by blast
  have "uniq ses_id (sessions sample_db)" "uniq itm_id (items sample_db)" by code_simp+
  from timeout_policy_closes_exactly [OF run this] show ?thesis
    by (simp add: sample_db_def sample_session_def isActiveSession_def ACTIVE_SESSION_STATUSES_def sessionDeadline_def)
qed

text \<open>
  No lease outlives its session. A lease issued at second \<open>t\<close> lasts at most 300 seconds and ends no
  later than the session's deadline, none is issued once the deadline's second is reached, and when
  the timeout policy closes the session every lease issued under that deadline has expired.
\<close>

theorem no_lease_outlives_its_session:
  assumes "expireTimedOutSessions w ids idle now d = Inr (es, d')" "uniq ses_id (sessions d)"
    and "s \<in> set (sessions d)" "ses_id s \<in> exp_sessionId ` set es"
  shows "(case machineLeaseExpiry (sessionDeadline s idle) t of
       None \<Rightarrow> sessionDeadline s idle div 1000 \<le> t
     | Some e \<Rightarrow> t < e \<and> e \<le> t + MACHINE_LEASE_MAX_SECONDS \<and> e * 1000 \<le> sessionDeadline s idle \<and> e * 1000 \<le> now)"
proof -
  from expireTimedOutSessions_Inr(2) [OF assms(1,2)] assms(4) obtain r where
    r: "r \<in> set (sessions d)" "ses_id r = ses_id s" "sessionDeadline r idle \<le> now" by auto
  then have "r = s" using uniq_row [OF assms(2) r(1) assms(3)] by simp
  with r(3) have "sessionDeadline s idle \<le> now" by simp
  moreover have "sessionDeadline s idle div 1000 * 1000 \<le> sessionDeadline s idle" by presburger
  ultimately show ?thesis
    by (auto simp: machineLeaseExpiry_def Let_def MACHINE_LEASE_MAX_SECONDS_def min_def split: if_splits)
qed

theorem no_lease_outlives_its_session_witness:
  "case machineLeaseExpiry (sessionDeadline sample_session 3) 100 of
     None \<Rightarrow> sessionDeadline sample_session 3 div 1000 \<le> 100
   | Some e \<Rightarrow> 100 < e \<and> e \<le> 100 + MACHINE_LEASE_MAX_SECONDS \<and> e * 1000 \<le> sessionDeadline sample_session 3 \<and> e * 1000 \<le> 200000"
proof -
  let ?run = "expireTimedOutSessions later_world [''s1''] 3 200000 sample_db"
  have "succeeds ?run" by code_simp
  from succeeds_result [OF this, of "[]"] have run: "?run = Inr (result_of ?run [], state_of ?run)" .
  moreover have "uniq ses_id (sessions sample_db)" "result_of ?run [] = [\<lparr>exp_sessionId = ''s1'', exp_userId = ''u1'', exp_heldItemIds = []\<rparr>]"
    by code_simp+
  ultimately show ?thesis
    by (intro no_lease_outlives_its_session [OF run]) (simp_all add: sample_db_def sample_session_def)
qed

text \<open>A reservation made under a fresh key.\<close>

lemma fresh_reservation:
  assumes run: "reserveRewardBudget w enf inp d = Inr (i, d')" and inv: "funding_inv d"
    and fresh: "find_by rsv_businessKey (ri_businessKey inp) (reservations d) = None"
  shows "\<exists>r. findReservationByKey (ri_businessKey inp) d' = Some r \<and> rsv_id r = i \<and> rsv_status r = RES_ACTIVE
    \<and> rsv_ceilingRupiah r = ri_ceilingRupiah inp \<and> rsv_remainingRupiah r = ri_ceilingRupiah inp
    \<and> rsv_userId r = ri_userId inp \<and> rsv_campaignId r = ri_campaignId inp"
  using run
proof (cases rule: reserveRewardBudget_Inr)
  case (same a d1 ls e)
  with fresh show ?thesis by simp
next
  case (writes a d1 ls cmp existing n sf)
  have none: "existing = None" using writes(2) fresh by simp
  have n: "0 \<le> n" using writes(5,10) by (simp add: none reserve_delta_def)
  note frame = lockFundingAccountForOrganization_Inr [OF writes(1)]
  from writes(9) n obtain X Y where
    "case existing of
       Some e \<Rightarrow> i = rsv_id e \<and>
         reservations d' = upd_by rsv_id (rsv_id e) (extend_reservation (ri_ceilingRupiah inp) n sf) (reservations (d1\<lparr>held_locks := ls\<rparr>))
     | None \<Rightarrow> (let r = new_reservation w (d1\<lparr>held_locks := ls\<rparr>) inp a sf in
         i = rsv_id r \<and> reservations d' = reservations (d1\<lparr>held_locks := ls\<rparr>) @ [r] \<and> \<not> list_ex (reservation_clash r) (reservations (d1\<lparr>held_locks := ls\<rparr>)))"
    by (rule reserve_write_Inr)
  then show ?thesis
    using fresh frame by (auto simp: none Let_def findReservationByKey_def find_by_append new_reservation_def)
qed

lemma start_attempts_created:
  "start_attempts n w a inp ref d = (Inr (s, False), d') \<Longrightarrow>
   \<exists>es. runWalletTransaction (decideStart w a inp ref) d = Inr (Created s es, d')"
proof (induction n)
  case 0
  then show ?case by (auto simp: answer_start_def split: sum.splits prod.splits list.splits if_splits start_decision.splits)
next
  case (Suc n)
  then show ?case by (auto simp: answer_start_def split: sum.splits prod.splits list.splits if_splits start_decision.splits)
qed

lemma built_policy_fields:
  "ps_mode (buildSessionPolicy w machine om campaign ceil d) = machineRewardMode (map_option campaign_shape campaign) om"
  "ps_ceilingRupiah (buildSessionPolicy w machine om campaign ceil d)
     = (if machineRewardMode (map_option campaign_shape campaign) om = MONEY_REWARD then ceil else None)"
  by (simp_all add: buildSessionPolicy_def Let_def)

text \<open>An admission keeps the books and, in a paying session, holds the ceiling of its price list.\<close>

lemma admit_session_holds:
  assumes run: "admit_session w a inp machine om campaign d = Inr (s, d')" and inv: "funding_inv d"
    and fresh: "find_by rsv_businessKey (sessionAdmissionKey (ses_id s)) (reservations d) = None"
  shows "funding_inv d' \<and> (\<exists>p. ses_policySnapshot s = Some p \<and> (ps_mode p = MONEY_REWARD \<longrightarrow>
     (isRewardFundingEnforced (w_env w) \<longrightarrow> ps_ceilingRupiah p \<noteq> None)
     \<and> (\<exists>r. findReservationByKey (sessionAdmissionKey (ses_id s)) d' = Some r \<and> rsv_status r = RES_ACTIVE
         \<and> rsv_ceilingRupiah r = nullish (ps_ceilingRupiah p) 0 \<and> rsv_remainingRupiah r = rsv_ceilingRupiah r
         \<and> rsv_userId r = ses_userId s)))"
proof -
  let ?c = "resolveSessionCeiling campaign machine"
  let ?p = "buildSessionPolicy w machine om campaign ?c d"
  let ?d1 = "bump_seq (d\<lparr>sessions := sessions d @ [s]\<rparr>)"
  note s = admit_session_Inr(1) [OF run]
  from run obtain r where res: "reserveSessionCeiling w s machine om campaign ?d1 = Inr (r, d')"
    by (auto simp: admit_session_def insert_session_def Let_def result_simps split: if_splits)
  have p: "ses_policySnapshot s = Some ?p" using s by (simp add: new_session_def)
  have inv1: "funding_inv ?d1" using inv funding_inv_cong [of ?d1 d] by (simp add: bump_seq_def)
  show ?thesis
  proof (cases "machineRewardMode (map_option campaign_shape campaign) om = MONEY_REWARD")
    case False
    with res have "d' = ?d1" by (simp add: reserveSessionCeiling_def)
    with False p inv1 show ?thesis by (auto simp: built_policy_fields)
  next
    case True
    let ?inp = "\<lparr>ri_businessKey = sessionAdmissionKey (ses_id s), ri_organizationId = mac_organizationId machine,
                  ri_campaignId = map_option cmp_id campaign, ri_userId = ses_userId s,
                  ri_ceilingRupiah = nullish ?c 0, ri_sourceType = SESSION, ri_sourceId = ses_id s\<rparr>"
    from res True obtain i where conf: "?c \<noteq> None \<or> \<not> isRewardFundingEnforced (w_env w)"
      and rr: "reserveRewardBudget w (isRewardFundingEnforced (w_env w)) ?inp ?d1 = Inr (i, d')"
      by (auto simp: reserveSessionCeiling_def Let_def result_simps split: if_splits)
    have fresh1: "find_by rsv_businessKey (ri_businessKey ?inp) (reservations ?d1) = None" using fresh by (simp add: bump_seq_def)
    from fresh_reservation [OF rr inv1 fresh1] reserveRewardBudget_inv [OF rr inv1] fresh1 True p conf show ?thesis
      by (auto simp: built_policy_fields)
  qed
qed

text \<open>
  C34: an admission is complete or absent. When a scan starts a session, the session is an active
  row of the scanning user, the only active one of its machine, with its price list stored; if the
  list pays money, the same transaction holds exactly the list's ceiling for this user in an
  active reservation (under enforcement the ceiling is configured), and the funding books balance.
\<close>

theorem admission_holds_its_ceiling:
  assumes run: "startOrResumeDeposit w a inp d = (Inr (s, False), d')"
    and inv: "funding_inv d" "sessions_inv d"
    and fresh: "find_by rsv_businessKey (sessionAdmissionKey (ses_id s)) (reservations d) = None"
  shows "funding_inv d' \<and> find_by ses_id (ses_id s) (sessions d') = Some s \<and> ses_userId s = a \<and> ses_status s = SS_ACTIVE
    \<and> filter (active_on (ses_machineId s)) (sessions d') = [s]
    \<and> (\<exists>p. ses_policySnapshot s = Some p \<and> (ps_mode p = MONEY_REWARD \<longrightarrow>
         (isRewardFundingEnforced (w_env w) \<longrightarrow> ps_ceilingRupiah p \<noteq> None)
         \<and> (\<exists>r. findReservationByKey (sessionAdmissionKey (ses_id s)) d' = Some r \<and> rsv_status r = RES_ACTIVE
             \<and> rsv_ceilingRupiah r = nullish (ps_ceilingRupiah p) 0 \<and> rsv_remainingRupiah r = rsv_ceilingRupiah r
             \<and> rsv_userId r = a)))"
proof -
  from run obtain ref where "start_attempts 1 w a inp ref d = (Inr (s, False), d')"
    by (auto simp: startOrResumeDeposit_def simp del: start_attempts.simps split: option.splits)
  from start_attempts_created [OF this] obtain es where "runWalletTransaction (decideStart w a inp ref) d = Inr (Created s es, d')" by blast
  from committed_transaction [OF this] obtain d0 where
    dec: "decideStart w a inp ref (committed d) = Inr (Created s es, d0)" and d': "d' = committed d0" by blast
  have uniq: "uniq ses_id (sessions (committed d))" using inv(2) by (simp add: sessions_inv_def)
  from dec uniq show ?thesis
  proof (cases rule: decideStart_Inr)
    case (kept d1)
    then show ?thesis by blast
  next
    case (created d1 d2 machine org campaign s' es')
    note frame = start_locks_frame [OF created(2)]
    from created(8) obtain t ls where d2: "d2 = d1\<lparr>held_locks := ls, items := t, sessions := sessions d2\<rparr>" by blast
    have "funding_inv d2 = funding_inv d1" by (rule funding_inv_cong) (subst d2, simp)+
    then have inv2: "funding_inv d2" using start_locks_inv [OF created(2)] inv(1) by simp
    have res: "reservations d2 = reservations d"
      using start_locks_reservations [OF created(2)] by (subst d2) simp
    have s: "admit_session w a inp machine (org_machineRewardMode org) campaign d2 = Inr (s, d0)" using created(1,11) by simp
    note new = admit_session_Inr [OF s]
    have mid: "ses_machineId s = mac_id ref" using new(1) find_by_SomeD [OF created(3)] by (simp add: new_session_def)
    have "active_on (mac_id ref) s" using new(1) mid
      by (simp add: active_on_def new_session_def isActiveSession_def ACTIVE_SESSION_STATUSES_def)
    then have "filter (active_on (ses_machineId s)) (sessions d') = [s]" using created(10) new(2) mid by (simp add: d')
    moreover have "find_by ses_id (ses_id s) (sessions d') = Some s" using new(2,3) by (simp add: d' find_by_append)
    ultimately show ?thesis
      using admit_session_holds [OF s inv2] fresh res new(1) by (auto simp: d' new_session_def findReservationByKey_def)
  qed
qed

text \<open>The scan of the sample installation succeeds whatever price list is stored with the session.\<close>

definition scan_locked :: db where
  "scan_locked = (case start_locks sample_world ''u1'' sample_scan sample_machine scan_db of Inr d \<Rightarrow> d | Inl _ \<Rightarrow> empty_db)"

definition scan_session :: "policy_snapshot \<Rightarrow> session" where
  "scan_session p = new_session sample_world scan_locked ''u1'' sample_machine (Some ''c1'') p"

lemma scan_insert: "succeeds (insert_session (scan_session p) scan_locked)"
  by code_simp

lemma scan_reserve:
  "succeeds (reserveSessionCeiling sample_world (scan_session p) sample_machine MONEY_REWARD (Some sample_campaign)
     (bump_seq (scan_locked\<lparr>sessions := t\<rparr>)))"
  by code_simp

lemma scan_admit: "\<exists>s d'. admit_session sample_world ''u1'' sample_scan sample_machine MONEY_REWARD (Some sample_campaign) scan_locked = Inr (s, d')"
proof -
  let ?p = "buildSessionPolicy sample_world sample_machine MONEY_REWARD (Some sample_campaign)
    (resolveSessionCeiling (Some sample_campaign) sample_machine) scan_locked"
  let ?d = "bump_seq (scan_locked\<lparr>sessions := sessions scan_locked @ [scan_session ?p]\<rparr>)"
  from scan_insert [of ?p] have "insert_session (scan_session ?p) scan_locked = Inr (scan_session ?p, ?d)"
    by (auto simp: insert_session_def succeeds_def split: if_splits)
  moreover from succeeds_tx [OF scan_reserve [of ?p "sessions scan_locked @ [scan_session ?p]"]] obtain r d' where
    "reserveSessionCeiling sample_world (scan_session ?p) sample_machine MONEY_REWARD (Some sample_campaign) ?d = Inr (r, d')" by blast
  moreover have "si_campaignId sample_scan = Some ''c1''" by (simp add: sample_scan_def)
  ultimately show ?thesis unfolding admit_session_def Let_def scan_session_def by simp
qed

lemma expire_nobody: "expireTimedOutSessions w [] idle now d = Inr ([], d)"
  by (simp add: expireTimedOutSessions_def distinct_first_def closing_sessions_def map_filter_def)

lemma scan_start: "\<exists>s d'. startOrResumeDeposit sample_world ''u1'' sample_scan scan_db = (Inr (s, False), d')"
proof -
  have "succeeds (start_locks sample_world ''u1'' sample_scan sample_machine scan_db)" by code_simp
  then have locks: "start_locks sample_world ''u1'' sample_scan sample_machine scan_db = Inr scan_locked"
    by (auto simp: scan_locked_def succeeds_def split: sum.splits)
  have reads: "find_by mac_machineCode (si_machineCode sample_scan) (machines scan_db) = Some sample_machine"
    "find_by mac_id (mac_id sample_machine) (machines scan_locked) = Some sample_machine"
    "find_by org_id (mac_organizationId sample_machine) (organizations scan_locked)
       = Some \<lparr>org_id = ''o1'', org_name = ''Kota'', org_machineRewardMode = MONEY_REWARD, org_status = OS_ACTIVE\<rparr>"
    "machine_refusal sample_machine \<lparr>org_id = ''o1'', org_name = ''Kota'', org_machineRewardMode = MONEY_REWARD, org_status = OS_ACTIVE\<rparr>
       (si_token sample_scan) (w_now sample_world) scan_locked = None"
    "active_sessions (mac_id sample_machine) scan_locked = []" "given_campaign sample_scan = Some ''c1''"
    "assertCampaignForMachine sample_world ''u1'' (mac_organizationId sample_machine) ''c1'' scan_locked = Inr sample_campaign"
    "machine_types (mac_id sample_machine) scan_locked \<noteq> []"
    by code_simp+
  from scan_admit obtain s d' where
    "admit_session sample_world ''u1'' sample_scan sample_machine MONEY_REWARD (Some sample_campaign) scan_locked = Inr (s, d')" by blast
  then have "decideStart sample_world ''u1'' sample_scan sample_machine scan_db = Inr (Created s [], d')"
    by (simp add: decideStart_def locks reads find_or_throw_def Let_def expire_nobody start_outcome_def)
  moreover have "committed scan_db = scan_db" by (simp add: scan_db_def)
  ultimately have "runWalletTransaction (decideStart sample_world ''u1'' sample_scan sample_machine) scan_db = Inr (Created s [], committed d')"
    by (simp add: runWalletTransaction_def)
  then show ?thesis by (simp add: startOrResumeDeposit_def reads answer_start_def)
qed

theorem admission_holds_its_ceiling_witness:
  "\<exists>s d'. startOrResumeDeposit sample_world ''u1'' sample_scan scan_db = (Inr (s, False), d')
     \<and> funding_inv d' \<and> filter (active_on (ses_machineId s)) (sessions d') = [s]"
proof -
  from scan_start obtain s d' where run: "startOrResumeDeposit sample_world ''u1'' sample_scan scan_db = (Inr (s, False), d')" by blast
  have "funding_inv scan_db" "sessions_inv scan_db" "reservations scan_db = []" by code_simp+
  with admission_holds_its_ceiling [OF run] run show ?thesis by auto
qed

text \<open>
  An owner's finish or cancellation never strands an item. Only the owner ends a session and
  only an active one; afterwards the session is over and none of its items waits for the machine:
  either there was none (the session is completed or cancelled) or the deadline had passed and the
  timeout policy expired the session and moved the items to review.
\<close>

theorem owner_end_strands_no_item:
  assumes run: "endDepositByOwner w a sid action d = Inr ((s, True), d')"
    and uniq: "uniq ses_id (sessions d)" "uniq itm_id (items d)"
  shows "find_by ses_id sid (sessions d') = Some s \<and> ses_userId s = a \<and> \<not> isActiveSession (ses_status s)
    \<and> (\<exists>ref. find_by ses_id sid (sessions d) = Some ref \<and> isActiveSession (ses_status ref))
    \<and> \<not> list_ex (undecidedItemsWhere sid) (items d')
    \<and> (list_ex (undecidedItemsWhere sid) (items d) = (ses_status s = SS_EXPIRED))"
proof -
  from endDepositByOwner_Inr [OF run] obtain ref :: session and d1 d2 where
    ref: "find_by ses_id sid (sessions d) = Some ref" "ses_userId ref = a"
    and d1: "committed d1 = committed d" and locked: "end_locked w sid (ses_machineId ref) action d1 = Inr ((s, True), d2)"
    and d': "d' = committed d2" by metis
  have same: "sessions d1 = sessions d" "items d1 = items d" using d1 by (metis committed_tables)+
  have active: "isActiveSession (ses_status ref)" using locked ref(1) same by (auto simp: end_locked_def split: if_splits)
  have id: "ses_id ref = sid" and mem: "ref \<in> set (sessions d)" using find_by_SomeD [OF ref(1)] by auto
  show ?thesis
  proof (cases "list_ex (undecidedItemsWhere sid) (items d)")
    case False
    then obtain n where n: "n = SS_CANCELLED \<or> n = SS_COMPLETED"
      and s: "s = ref\<lparr>ses_status := n, ses_completedAt := Some (w_now w)\<rparr>"
      and d2: "d2 = d1\<lparr>sessions := upd_by ses_id sid (\<lambda>_. s) (sessions d1)\<rparr>"
      using locked ref(1) same active transition_FINISH [of "ses_status ref"]
      by (auto simp: end_locked_def result_simps Let_def split: if_splits sum.splits)
    have "find_by ses_id sid (sessions d') = Some s"
      using find_by_replaced [OF ref(1), of s] id s by (simp add: d' d2 same)
    with False n s ref active same show ?thesis
      by (auto simp: d' d2 isActiveSession_def ACTIVE_SESSION_STATUSES_def)
  next
    case True
    with locked ref(1) same active obtain m :: machine and e d3 where
      exp: "expireIfTimedOut w sid (mac_sessionIdleTimeoutMinutes m) (w_now w) d1 = Inr (Some e, d3)"
      and d2: "d2 = d3" "s = nullish (find_by ses_id sid (sessions d3)) ref"
      by (auto simp: end_locked_def rbind_Inr_iff split: option.splits if_splits)
    from expireIfTimedOut_Some [OF exp] obtain es where
      es: "expireTimedOutSessions w [sid] (mac_sessionIdleTimeoutMinutes m) (w_now w) d1 = Inr (e # es, d3)" by blast
    note eff = expireTimedOutSessions_Inr [OF es, unfolded same, OF uniq(1)]
    have E: "exp_sessionId ` set (e # es) = {sid}" using eff(2) by auto
    from eff(1) have "sessions d3 = upd_by ses_id sid (expire_session (w_now w)) (sessions d)"
      unfolding E by (auto simp: upd_by_def)
    then have "find_by ses_id sid (sessions d3) = Some (expire_session (w_now w) ref)" using ref(1) by (simp add: find_by_upd_by)
    moreover have "\<not> list_ex (undecidedItemsWhere sid) (items d3)"
      using expire_items [OF es, unfolded same, OF uniq] E by (auto simp: list_ex_iff undecidedItemsWhere_def)
    ultimately show ?thesis
      using True d2 ref active by (auto simp: d' isActiveSession_def ACTIVE_SESSION_STATUSES_def)
  qed
qed

theorem owner_end_strands_no_item_witness:
  "\<exists>s d'. endDepositByOwner sample_world ''u1'' ''s1'' Finish sample_db = Inr ((s, True), d')
     \<and> find_by ses_id ''s1'' (sessions d') = Some s \<and> \<not> isActiveSession (ses_status s)"
proof -
  let ?run = "endDepositByOwner sample_world ''u1'' ''s1'' Finish sample_db"
  have "succeeds ?run" "snd (result_of ?run (sample_session, False))" by code_simp+
  then obtain s where run: "?run = Inr ((s, True), state_of ?run)"
    using succeeds_result [of ?run "(sample_session, False)"] by (cases "result_of ?run (sample_session, False)") auto
  have "uniq ses_id (sessions sample_db)" "uniq itm_id (items sample_db)" by code_simp+
  from owner_end_strands_no_item [OF run this] run show ?thesis by blast
qed

lemma sensor_order_sorted:
  "sensor_order l xs = None \<longleftrightarrow> sorted (l # filter (\<lambda>i. i \<noteq> - 1) (map (\<lambda>x. index_of x EXPECTED_SENSOR_STEPS) xs))"
proof (induction xs arbitrary: l)
  case (Cons x xs)
  let ?i = "index_of x EXPECTED_SENSOR_STEPS"
  show ?case
  proof (cases "?i = - 1 \<or> ?i < l")
    case True
    then show ?thesis using Cons [of l] by (auto simp: Let_def)
  next
    case False
    then have "sensor_order l (x # xs) = sensor_order ?i xs" by (simp add: Let_def)
    moreover have "sorted (l # ?i # is) \<longleftrightarrow> l \<le> ?i \<and> sorted (?i # is)" for "is" by (auto intro: order_trans)
    ultimately show ?thesis using Cons [of ?i] False by (simp del: sorted_wrt.simps)
  qed
qed simp

lemma index_of_ge: "- 1 \<le> index_of x ys"
  by (induction ys) (auto simp: Let_def)

text \<open>
  When a sensor path is suspicious. A reported path passes exactly when no tamper flag is set
  and the positions of its known steps in the expected sequence never go backwards; unknown steps
  do not count.
\<close>

theorem sensor_path_passes_iff:
  "validateSensorSequence (Some p) = None \<longleftrightarrow>
     \<not> sq_reverseMotion p \<and> \<not> sq_retrievalAttempt p \<and> \<not> sq_impossibleSequence p
     \<and> sorted (filter (\<lambda>i. i \<noteq> - 1) (map (\<lambda>x. index_of x EXPECTED_SENSOR_STEPS) (nullish (sq_steps p) [])))"
  using index_of_ge by (auto simp: validateSensorSequence_def sensor_order_sorted)

text \<open>Characters of a normalized domain are untouched by trimming and lower-casing.\<close>

lemma split_on_chars: "x \<in> set s \<Longrightarrow> x = c \<or> (\<exists>l \<in> set (split_on c s). x \<in> set l)"
  by (induction c s rule: split_on.induct) (auto split: list.splits)

lemma split_on_not_Nil: "split_on c s \<noteq> []"
  by (induction c s rule: split_on.induct) (auto split: list.splits)

lemma domain_chars:
  assumes "domain_shape s" "x \<in> set s"
  shows "is_label_char x \<or> x = CHR ''.'' \<or> x = CHR ''@''"
proof -
  from assms obtain rest where s: "s = CHR ''@'' # rest"
    and labels: "\<forall>l \<in> set (butlast (split_on (CHR ''.'') rest)). \<forall>x \<in> set l. is_label_char x"
    and final: "\<forall>x \<in> set (last (split_on (CHR ''.'') rest)). is_lower x"
    by (cases s) (auto simp: domain_shape_def Let_def list_all_iff)
  have "\<forall>l \<in> set (split_on (CHR ''.'') rest). \<forall>x \<in> set l. is_label_char x"
  proof
    fix l
    assume "l \<in> set (split_on (CHR ''.'') rest)"
    then have "l \<in> set (butlast (split_on (CHR ''.'') rest)) \<or> l = last (split_on (CHR ''.'') rest)"
      using append_butlast_last_id [OF split_on_not_Nil [of "CHR ''.''" rest]]
      by (metis Un_iff empty_iff insert_iff list.set set_append)
    with labels final show "\<forall>x \<in> set l. is_label_char x" by (auto simp: is_label_char_def)
  qed
  with assms(2) s split_on_chars [of x rest "CHR ''.''"] show ?thesis by auto
qed

lemma label_char_plain: "is_label_char x \<or> x = CHR ''.'' \<or> x = CHR ''@'' \<Longrightarrow> \<not> js_space x \<and> char_lower x = x"
  by (auto simp: is_label_char_def is_lower_def js_space_def char_lower_def Let_def)

lemma domain_stable:
  assumes "domain_shape s"
  shows "js_lower (js_trim s) = s" "with_at s = s" "s \<noteq> []"
proof -
  have plain: "\<not> js_space x" "char_lower x = x" if "x \<in> set s" for x
    using domain_chars [OF assms that] label_char_plain by blast+
  then have "dropWhile js_space s = s" "dropWhile js_space (rev s) = rev s"
    by (metis dropWhile_eq_self_iff hd_in_set, metis dropWhile_eq_self_iff hd_in_set set_rev)
  then have "js_trim s = s" by (simp add: js_trim_def)
  then show "js_lower (js_trim s) = s" using plain(2) by (simp add: map_idI)
  show "with_at s = s" "s \<noteq> []" using assms by (auto simp: domain_shape_def with_at_def split: list.splits)
qed

lemma distinct_first_distinct: "distinct (distinct_first xs)" "set (distinct_first xs) = set xs"
  by (simp_all add: distinct_first_def)

lemma distinct_first_id: "distinct xs \<Longrightarrow> distinct_first xs = xs"
  by (simp add: distinct_first_def distinct_remdups_id)

text \<open>
  The stored domains of a private program are in normal form. Every normalized domain has the
  shape \<^verbatim>\<open>@label.tld\<close> in lower case, none occurs twice, and normalizing the list again changes
  nothing, so saving a program's settings unchanged keeps its list.
\<close>

theorem normalized_domains_are_stable:
  "normalizeEmailDomains (normalizeEmailDomains inputs) = normalizeEmailDomains inputs
   \<and> distinct (normalizeEmailDomains inputs) \<and> list_all domain_shape (normalizeEmailDomains inputs)"
proof -
  let ?ds = "normalizeEmailDomains inputs"
  have shapes: "\<forall>s \<in> set ?ds. domain_shape s" by (simp add: normalizeEmailDomains_def distinct_first_distinct)
  have "map (\<lambda>s. js_lower (js_trim s)) ?ds = ?ds" "map with_at ?ds = ?ds" "filter (\<lambda>s. s \<noteq> []) ?ds = ?ds" "filter domain_shape ?ds = ?ds"
    using shapes domain_stable by (simp_all add: map_idI filter_id_conv)
  then have "normalizeEmailDomains ?ds = distinct_first ?ds" by (simp add: normalizeEmailDomains_def)
  moreover have "distinct ?ds" by (simp add: normalizeEmailDomains_def distinct_first_distinct)
  ultimately show ?thesis using shapes by (simp add: distinct_first_id list_all_iff)
qed

end
