(* ===== verification/Credit_Props.thy ===== *)
theory Credit_Props
  imports Credit
begin

text \<open>
  What the effect writer promises: the outcome of every call, that an effect is applied at most
  once per business key, that no effect overdraws a wallet, that every credited earning of an
  admitted source carries its funding obligation, and how much the open debit cases hold back.
\<close>

section \<open>Funding of an effect\<close>

lemma checkRewardFunding_cases:
  assumes "checkRewardFunding w inp d = Inr (fc, d')"
  obtains (none) "d' = d" "\<And>i c l. fc \<noteq> COMMITTED i c l"
      "ci_funding inp = Some SettledByCaller \<or> effect_type inp \<noteq> EARN \<or> fundingCeiling inp \<le> 0 \<or> effect_source inp = None"
  | (resolved) st si x where "effect_source inp = Some (st, si)" "resolveSourceReservation w st si d = Inr (x, d')"
      "\<And>r l. x \<noteq> Reservation r l" "\<And>i c l. fc \<noteq> COMMITTED i c l"
  | (committed) st si r l d1 c where "effect_source inp = Some (st, si)"
      "resolveSourceReservation w st si d = Inr (Reservation r l, d1)"
      "commitRewardAgainstBudget w (rsv_id r) (ci_businessKey inp) (fundingCeiling inp) (effect_reviewPending inp) d1 = Inr (c, d')"
      "fc = COMMITTED (rsv_id r) c l" "effect_type inp = EARN" "fundingCeiling inp > 0"
proof (cases "ci_funding inp = Some SettledByCaller \<or> effect_type inp \<noteq> EARN \<or> fundingCeiling inp \<le> 0 \<or> effect_source inp = None")
  case True
  with assms show ?thesis by (intro none) (auto simp: checkRewardFunding_def split: if_splits)
next
  case False
  then obtain st si where src: "effect_source inp = Some (st, si)" by auto
  from False src assms obtain x d1 where x: "resolveSourceReservation w st si d = Inr (x, d1)"
    and body: "(case x of
            NoSource \<Rightarrow> Inr (NO_RESERVATION ''NO_SOURCE'', d1)
          | LegacySource _ \<Rightarrow> Inr (NO_RESERVATION ''LEGACY_SOURCE'', d1)
          | Reservation r late \<Rightarrow>
              rbind (commitRewardAgainstBudget w (rsv_id r) (ci_businessKey inp) (fundingCeiling inp)
                      (effect_reviewPending inp) d1) (\<lambda>(c, d2).
              Inr (COMMITTED (rsv_id r) c late, d2))) = Inr (fc, d')"
    unfolding checkRewardFunding_def by (simp add: rbind_Inr_iff case_prod_eq_Inr) blast
  show ?thesis
  proof (cases x)
    case (Reservation r l)
    with body obtain c where "commitRewardAgainstBudget w (rsv_id r) (ci_businessKey inp) (fundingCeiling inp)
        (effect_reviewPending inp) d1 = Inr (c, d')" "fc = COMMITTED (rsv_id r) c l"
      by (auto simp: result_simps)
    with Reservation x False src show ?thesis by (intro committed [of st si r l d1 c]) auto
  qed (use body x src in \<open>auto intro!: resolved\<close>)
qed

lemma checkRewardFunding_frame: "checkRewardFunding w inp d = Inr (fc, d') \<Longrightarrow> same_wallet d d'"
  by (erule checkRewardFunding_cases) (auto dest: funding_frames intro: same_wallet_trans)

lemma checkRewardFunding_inv:
  "checkRewardFunding w inp d = Inr (fc, d') \<Longrightarrow> funding_inv d \<Longrightarrow> funding_inv d'"
  by (erule checkRewardFunding_cases) (auto intro: resolveSourceReservation_inv commitRewardAgainstBudget_inv)

section \<open>The outcomes of an effect\<close>

lemma isRecipientErased_acquire [simp]: "isRecipientErased u (acquire l d) = isRecipientErased u d"
  by (simp add: isRecipientErased_def cong: option.case_cong)

lemma getWalletBalance_acquire [simp]: "getWalletBalance u (acquire l d) = getWalletBalance u d"
  by (simp add: getWalletBalance_def)

lemma effect_refusal_acquire [simp]: "effect_refusal inp (acquire l d) = effect_refusal inp d"
  by (simp add: effect_refusal_def)

lemma applyRewardEffect_Inr:
  assumes run: "applyRewardEffect w inp d = Inr (res, d')"
  obtains (zero) "ci_amount inp = 0" "er_outcome res = ZERO" "same_wallet d d'" "funding_inv d \<Longrightarrow> funding_inv d'"
  | (existing) e where "ci_amount inp \<noteq> 0" "er_outcome res = EXISTING"
      "find_by led_businessKey (Some (ci_businessKey inp)) (ledgers d) = Some e"
      "led_userId e = ci_userId inp" "led_entryType e = effect_type inp" "led_amount e = ci_amount inp"
      "d' = acquire (LUser (ci_userId inp)) d"
  | (refused_before) c where "ci_amount inp \<noteq> 0" "er_outcome res = CASE_OPENED"
      "find_by led_businessKey (Some (ci_businessKey inp)) (ledgers d) = None"
      "find_by rc_businessKey (ci_businessKey inp) (cases d) = Some c" "er_case res = Some c"
      "d' = acquire (LUser (ci_userId inp)) d"
  | (refused) reason c s where "ci_amount inp \<noteq> 0" "er_outcome res = CASE_OPENED" "effect_refusal inp d = Some reason"
      "find_by led_businessKey (Some (ci_businessKey inp)) (ledgers d) = None"
      "find_by rc_businessKey (ci_businessKey inp) (cases d) = None"
      "c = new_case w d (case_for inp reason)" "er_case res = Some c"
      "d' = (acquire (LUser (ci_userId inp)) d)\<lparr>cases := cases d @ [c], seq := s\<rparr>"
  | (credited) fc d2 where "ci_amount inp \<noteq> 0" "er_outcome res = CREDITED" "effect_refusal inp d = None"
      "find_by led_businessKey (Some (ci_businessKey inp)) (ledgers d) = None"
      "find_by rc_businessKey (ci_businessKey inp) (cases d) = None"
      "checkRewardFunding w inp (acquire (LUser (ci_userId inp)) d) = Inr (fc, d2)" "same_wallet d d2"
      "create_row ledger_ok ledger_clash (effect_row w d2 inp) (ledgers d) = Inr (ledgers d')"
      "er_entry res = Some (effect_row w d2 inp)"
      "d' = bump_seq (d2\<lparr>ledgers := ledgers d @ [effect_row w d2 inp]\<rparr>)"
proof (cases "ci_amount inp = 0")
  case True
  with run have "er_outcome res = ZERO" "d' = d \<or> (\<exists>fc. checkRewardFunding w inp (acquire (LUser (ci_userId inp)) d) = Inr (fc, d'))"
    by (auto simp: applyRewardEffect_def result_simps split: if_splits)
  with True show ?thesis by (intro zero) (auto dest: checkRewardFunding_frame checkRewardFunding_inv)
next
  case False
  let ?d = "acquire (LUser (ci_userId inp)) d"
  show ?thesis
  proof (cases "find_by led_businessKey (Some (ci_businessKey inp)) (ledgers d)")
    case (Some e)
    with run False show ?thesis
      by (intro existing [of e]) (auto simp: applyRewardEffect_def result_simps split: if_splits)
  next
    case None
    show ?thesis
    proof (cases "find_by rc_businessKey (ci_businessKey inp) (cases d)")
      case (Some c)
      with run False None show ?thesis
        by (intro refused_before [of c]) (auto simp: applyRewardEffect_def result_simps)
    next
      case nocase: None
      show ?thesis
      proof (cases "effect_refusal inp d")
        case (Some reason)
        with run False None nocase show ?thesis
          by (intro refused [of reason _ "Suc (seq d)"])
            (auto simp: applyRewardEffect_def openRewardReconciliationCase_def case_for_def Let_def bump_seq_def
              result_simps new_case_def newId_def)
      next
        case norefusal: None
        from run False None nocase norefusal obtain fc d2 where
          fc: "checkRewardFunding w inp ?d = Inr (fc, d2)"
          and ins: "rbind (insert_ledger (effect_row w d2 inp) d2) (\<lambda>(entry, d3).
               Inr (\<lparr>er_outcome = CREDITED, er_entry = Some entry, er_case = None\<rparr>, d3)) = Inr (res, d')"
          by (auto simp: applyRewardEffect_def rbind_Inr_iff lock_Inr case_prod_eq_Inr simp del: split_paired_Ex)
        have same: "same_wallet d d2" using checkRewardFunding_frame [OF fc] by simp
        then have "ledgers d2 = ledgers d" by (simp add: same_wallet_def)
        with ins show ?thesis
          by (intro credited [OF False _ norefusal None nocase fc same])
            (auto simp: insert_ledger_def result_simps bump_seq_def)
      qed
    qed
  qed
qed

section \<open>Effects are applied once\<close>

text \<open>The wallet side of the database.\<close>

definition wallet_view :: "db \<Rightarrow> ledger list \<times> reward_case list \<times> redemption list" where
  "wallet_view d = (ledgers d, cases d, redemptions d)"

lemma wallet_view_same: "same_wallet d d' \<Longrightarrow> wallet_view d' = wallet_view d"
  by (simp add: same_wallet_def wallet_view_def)

interpretation effect_retry:
  retry_safe "applyRewardEffect w inp" wallet_view
    "\<lambda>d. ci_amount inp = 0 \<or> find_by led_businessKey (Some (ci_businessKey inp)) (ledgers d) \<noteq> None
       \<or> find_by rc_businessKey (ci_businessKey inp) (cases d) \<noteq> None"
  for w inp
proof
  fix d r d'
  assume run: "applyRewardEffect w inp d = Inr (r, d')"
  then show "ci_amount inp = 0 \<or> find_by led_businessKey (Some (ci_businessKey inp)) (ledgers d') \<noteq> None
       \<or> find_by rc_businessKey (ci_businessKey inp) (cases d') \<noteq> None"
    by (cases rule: applyRewardEffect_Inr)
      (auto simp: find_by_append effect_row_def new_case_def case_for_def bump_seq_def)
  assume marked: "ci_amount inp = 0 \<or> find_by led_businessKey (Some (ci_businessKey inp)) (ledgers d) \<noteq> None
       \<or> find_by rc_businessKey (ci_businessKey inp) (cases d) \<noteq> None"
  from run show "wallet_view d' = wallet_view d"
    by (cases rule: applyRewardEffect_Inr) (use marked in \<open>auto simp: same_wallet_def wallet_view_def\<close>)
qed

section \<open>Balances\<close>

text \<open>The types the effect writer is called with (\<^verbatim>\<open>CreditEntryType\<close>, \<^verbatim>\<open>"AVAILABLE" | "PENDING"\<close>).\<close>

definition credit_typed :: "credit_input \<Rightarrow> bool" where
  "credit_typed inp \<longleftrightarrow> effect_type inp \<in> {EARN, ADJUST, REVERSE} \<and> ci_status inp \<in> {LS_AVAILABLE, LS_PENDING}"

lemma effect_avail:
  "credit_typed inp \<Longrightarrow> avail_of u (effect_row w d inp) =
     (if u = ci_userId inp \<and> ci_status inp = LS_AVAILABLE then ci_amount inp else 0)"
  by (cases "effect_type inp") (auto simp: avail_of_def effect_row_def credit_typed_def)

lemma effect_available:
  assumes run: "applyRewardEffect w inp d = Inr (res, d')" and typed: "credit_typed inp"
  shows "wb_available (getWalletBalance u d') = wb_available (getWalletBalance u d) +
    (if er_outcome res = CREDITED \<and> u = ci_userId inp \<and> ci_status inp = LS_AVAILABLE then ci_amount inp else 0)"
  using run
proof (cases rule: applyRewardEffect_Inr)
  case zero
  then show ?thesis by (simp add: wallet_sums same_wallet_def)
next
  case (credited fc d2)
  then have "ledgers d' = ledgers d @ [effect_row w d2 inp]" by (simp add: bump_seq_def)
  then show ?thesis using credited(2) effect_avail [OF typed] by (simp add: wallet_sums)
qed (simp_all add: wallet_sums)

lemma effect_amount_sign:
  "applyRewardEffect w inp d = Inr (res, d') \<Longrightarrow> effect_type inp = EARN \<Longrightarrow> 0 \<le> ci_amount inp"
  by (auto simp: applyRewardEffect_def assertEffect_def result_simps)

lemma effect_keeps_solvent:
  assumes run: "applyRewardEffect w inp d = Inr (res, d')" and typed: "credit_typed inp"
    and solvent: "0 \<le> wb_available (getWalletBalance u d)"
  shows "0 \<le> wb_available (getWalletBalance u d')"
proof (cases "er_outcome res = CREDITED \<and> u = ci_userId inp \<and> ci_status inp = LS_AVAILABLE")
  case False
  with effect_available [OF run typed, of u] solvent show ?thesis by auto
next
  case True
  from run have "effect_refusal inp d = None" using True
    by (cases rule: applyRewardEffect_Inr) auto
  then have "0 \<le> ci_amount inp \<or> 0 \<le> wb_available (getWalletBalance u d) + ci_amount inp"
    using True by (auto simp: effect_refusal_def split: if_splits)
  with effect_available [OF run typed, of u] solvent True show ?thesis by auto
qed

lemma applyRewardEffect_funding_inv:
  assumes "applyRewardEffect w inp d = Inr (res, d')" "funding_inv d"
  shows "funding_inv d'"
  using assms(1)
proof (cases rule: applyRewardEffect_Inr)
  case (credited fc d2)
  then have "funding_inv d2" using checkRewardFunding_inv assms(2) by fastforce
  moreover have "funding_inv d' = funding_inv d2"
    by (rule funding_inv_cong) (simp_all add: credited(10) bump_seq_def)
  ultimately show ?thesis by simp
next
  case (refused reason c s)
  have "funding_inv d' = funding_inv d" by (rule funding_inv_cong) (simp_all add: refused(8))
  with assms(2) show ?thesis by simp
qed (use assms(2) in auto)

section \<open>Properties\<close>

definition sample_effect :: credit_input where
  "sample_effect = \<lparr>ci_businessKey = ''deposit-item:i1:earn'', ci_userId = ''u1'', ci_organizationId = ''o1'',
     ci_campaignId = Some ''c1'', ci_amount = 3000, ci_status = LS_AVAILABLE, ci_reasonCode = ''ACCEPTED'',
     ci_referenceType = ''DepositItem'', ci_referenceId = ''i1'', ci_entryType = None, ci_depositItemId = Some ''i1'',
     ci_sessionId = Some ''s1'', ci_actorId = None, ci_funding = None\<rparr>"

definition credited_db :: db where
  "credited_db = state_of (applyRewardEffect sample_world sample_effect reserved_db)"

definition sample_reversal :: credit_input where
  "sample_reversal = sample_effect\<lparr>ci_businessKey := ''review:i1:decision:v1'', ci_amount := - 5000,
     ci_entryType := Some REVERSE, ci_depositItemId := None\<rparr>"

lemma credited_run: "\<exists>r. applyRewardEffect sample_world sample_effect reserved_db = Inr (r, credited_db)"
proof -
  have "succeeds (applyRewardEffect sample_world sample_effect reserved_db)" by code_simp
  from succeeds_tx [OF this] show ?thesis unfolding credited_db_def .
qed



text \<open>
  The effect writer never overdraws a wallet. An effect changes the available balance of its
  recipient by its signed amount when it is credited as AVAILABLE and by nothing otherwise, no
  other user's balance moves, and a balance that was not negative stays so: a debit beyond the
  balance is refused into a reconciliation case instead.
\<close>

theorem effect_never_overdraws:
  assumes run: "applyRewardEffect w inp d = Inr (res, d')" and typed: "credit_typed inp"
    and solvent: "\<forall>u. 0 \<le> wb_available (getWalletBalance u d)"
  shows "(\<forall>u. 0 \<le> wb_available (getWalletBalance u d'))
    \<and> (\<forall>u. wb_available (getWalletBalance u d') = wb_available (getWalletBalance u d) +
         (if er_outcome res = CREDITED \<and> u = ci_userId inp \<and> ci_status inp = LS_AVAILABLE then ci_amount inp else 0))
    \<and> (ci_amount inp < 0 \<and> ci_status inp = LS_AVAILABLE
         \<and> wb_available (getWalletBalance (ci_userId inp) d) + ci_amount inp < 0 \<longrightarrow> er_outcome res \<noteq> CREDITED)"
proof (intro conjI allI impI)
  show "0 \<le> wb_available (getWalletBalance u d')" for u
    using effect_keeps_solvent [OF run typed] solvent by blast
  show "wb_available (getWalletBalance u d') = wb_available (getWalletBalance u d) +
         (if er_outcome res = CREDITED \<and> u = ci_userId inp \<and> ci_status inp = LS_AVAILABLE then ci_amount inp else 0)" for u
    by (rule effect_available [OF run typed])
  assume short: "ci_amount inp < 0 \<and> ci_status inp = LS_AVAILABLE
         \<and> wb_available (getWalletBalance (ci_userId inp) d) + ci_amount inp < 0"
  from run show "er_outcome res \<noteq> CREDITED"
    by (cases rule: applyRewardEffect_Inr) (use short in \<open>auto simp: effect_refusal_def split: if_splits\<close>)
qed

theorem effect_never_overdraws_witness:
  "\<exists>res d'. applyRewardEffect sample_world sample_reversal credited_db = Inr (res, d')
     \<and> er_outcome res \<noteq> CREDITED \<and> 0 \<le> wb_available (getWalletBalance ''u1'' d')"
proof -
  have "succeeds (applyRewardEffect sample_world sample_reversal credited_db)" by code_simp
  from succeeds_tx [OF this] obtain res d' where run: "applyRewardEffect sample_world sample_reversal credited_db = Inr (res, d')"
    by blast
  have row: "map (\<lambda>r. (led_userId r, led_entryType r, led_status r, led_amount r)) (ledgers credited_db) = [(''u1'', EARN, LS_AVAILABLE, 3000)]"
    by code_simp
  then have "\<forall>u. 0 \<le> wb_available (getWalletBalance u credited_db)"
    by (auto simp: wallet_sums avail_of_def)
  moreover have "credit_typed sample_reversal"
    "wb_available (getWalletBalance ''u1'' credited_db) + ci_amount sample_reversal < 0"
    "ci_amount sample_reversal < 0" "ci_status sample_reversal = LS_AVAILABLE" "ci_userId sample_reversal = ''u1''"
    by code_simp+
  ultimately show ?thesis using effect_never_overdraws [OF run] run by force
qed

lemma resolveSource_after_cutover:
  assumes "resolveSourceReservation w st si d = Inr (x, d1)" "admitted_source st si d = Some (at0, u, c, org)"
    and "\<forall>t. lc_at (resolveFundingCutover w d) = Some t \<longrightarrow> t \<le> at0"
  shows "\<exists>r l. x = Reservation r l"
  using assms by (force simp: resolveSourceReservation_def Let_def result_simps split: option.splits)



section \<open>What open debit cases hold back\<close>

text \<open>The largest open amount on one item.\<close>

definition largest_case :: "string \<Rightarrow> reward_case list \<Rightarrow> int" where
  "largest_case k cs = fold (\<lambda>c m. if case_key c = k then max m (rc_amount c) else m) cs 0"

lemma largest_case_snoc:
  "largest_case k (cs @ [c]) = (if case_key c = k then max (largest_case k cs) (rc_amount c) else largest_case k cs)"
  by (simp add: largest_case_def)

lemma largest_case_absent: "k \<notin> case_key ` set cs \<Longrightarrow> largest_case k cs = 0"
  by (induction cs rule: rev_induct) (auto simp: largest_case_snoc, simp add: largest_case_def)

lemma per_item_keys:
  "distinct (map fst (foldl per_item_step [] cs)) \<and> fst ` set (foldl per_item_step [] cs) = case_key ` set cs
   \<and> (\<forall>k \<in> case_key ` set cs. map_of (foldl per_item_step [] cs) k = Some (largest_case k cs))"
proof (induction cs rule: rev_induct)
  case (snoc c cs)
  let ?m = "foldl per_item_step [] cs"
  have get: "nullish (map_of ?m (case_key c)) 0 = largest_case (case_key c) cs"
  proof (cases "case_key c \<in> case_key ` set cs")
    case True
    then show ?thesis using snoc by auto
  next
    case False
    then have "map_of ?m (case_key c) = None" using snoc by (simp add: map_of_eq_None_iff)
    then show ?thesis using False by (simp add: largest_case_absent)
  qed
  have step: "foldl per_item_step [] (cs @ [c]) = AList.update (case_key c) (max (largest_case (case_key c) cs) (rc_amount c)) ?m"
    by (simp add: per_item_step_def [of ?m] get)
  show ?case
    unfolding step using snoc by (auto simp: distinct_update dom_update update_conv' largest_case_snoc)
qed simp

text \<open>
  C31: what open debit cases keep out of reach. The held amount is the sum, over the distinct
  deposit items (or the case itself when it names none), of the largest open case on that item: two
  cases on one item count once, and no case is left out.
\<close>

theorem held_counts_each_item_once:
  "heldByOpenDebitCases u d =
     (\<Sum>k \<in> case_key ` set (openDebitCases u d). largest_case k (openDebitCases u d))"
proof -
  let ?cs = "openDebitCases u d"
  let ?m = "foldl per_item_step [] ?cs"
  note keys = per_item_keys [of ?cs]
  have "map snd ?m = map (\<lambda>p. the (map_of ?m (fst p))) ?m"
    using keys by (auto simp: map_of_is_SomeI)
  then have "heldByCases ?cs = (\<Sum>p\<leftarrow>?m. the (map_of ?m (fst p)))"
    unfolding heldByCases_def by (rule arg_cong)
  also have "\<dots> = (\<Sum>k\<leftarrow>map fst ?m. the (map_of ?m k))" by (simp add: comp_def)
  also have "\<dots> = (\<Sum>k\<in>case_key ` set ?cs. the (map_of ?m k))"
    using keys by (subst sum_list_distinct_conv_sum_set) (auto simp del: map_map)
  also have "\<dots> = (\<Sum>k\<in>case_key ` set ?cs. largest_case k ?cs)"
    using keys by (intro sum.cong) auto
  finally show ?thesis by (simp add: heldByOpenDebitCases_def)
qed

end
