(* ===== verification/Wallet_Inv.thy ===== *)
theory Wallet_Inv
  imports Wallet Credit_Props
begin

text \<open>
  The invariant of the wallet: every payout request has exactly one live reserve in the ledger,
  in the status its own status calls for, and no available balance is negative. Requests,
  transitions, flags, proofs and reward effects keep it.
\<close>

section \<open>The invariant\<close>

definition backed_by :: "redemption \<Rightarrow> ledger \<Rightarrow> bool" where
  "backed_by r l \<longleftrightarrow> reserve_for (red_id r) l \<and> led_userId l = red_userId r \<and> led_amount l = - red_amount r
     \<and> led_status l = expectedReserveStatus (red_status r)"

definition wallet_rows :: "db \<Rightarrow> bool" where
  "wallet_rows d \<longleftrightarrow> ledger_wf (ledgers d) \<and> uniq red_id (redemptions d)
     \<and> (\<forall>r \<in> set (redemptions d). 0 < red_amount r \<and> (\<exists>l \<in> set (ledgers d). backed_by r l))
     \<and> (\<forall>l \<in> set (ledgers d). \<forall>i. reserve_for i l \<longrightarrow> i \<in> red_id ` set (redemptions d))"

definition solvent :: "db \<Rightarrow> bool" where
  "solvent d \<longleftrightarrow> (\<forall>u. 0 \<le> wb_available (getWalletBalance u d))"

text \<open>No earning takes money away.\<close>

definition earnings_nonneg :: "ledger list \<Rightarrow> bool" where
  "earnings_nonneg t \<longleftrightarrow> (\<forall>r \<in> set t. led_entryType r = EARN \<longrightarrow> 0 \<le> led_amount r)"

definition wallet_inv :: "db \<Rightarrow> bool" where
  "wallet_inv d \<longleftrightarrow> wallet_rows d \<and> solvent d \<and> earnings_nonneg (ledgers d)"

lemma earnings_nonneg_simps [simp]:
  "earnings_nonneg []"
  "earnings_nonneg (t @ [r]) \<longleftrightarrow> earnings_nonneg t \<and> (led_entryType r = EARN \<longrightarrow> 0 \<le> led_amount r)"
  by (auto simp: earnings_nonneg_def)

lemma earnings_nonneg_map:
  "earnings_nonneg t \<Longrightarrow> (\<And>r. led_entryType (f r) = led_entryType r \<and> led_amount (f r) = led_amount r) \<Longrightarrow> earnings_nonneg (map f t)"
  by (simp add: earnings_nonneg_def)

lemma earnings_nonneg_upd:
  "earnings_nonneg t \<Longrightarrow> earnings_nonneg (upd_by led_id i (set_status s) t)"
  unfolding upd_by_def by (rule earnings_nonneg_map) (simp_all add: set_status_def)

lemma wallet_inv_cong:
  "ledgers d' = ledgers d \<Longrightarrow> redemptions d' = redemptions d \<Longrightarrow> wallet_inv d' = wallet_inv d"
  by (simp add: wallet_inv_def wallet_rows_def solvent_def wallet_sums)

lemma wallet_inv_simps [simp]:
  "wallet_inv (acquire l d) = wallet_inv d" "wallet_inv (committed d) = wallet_inv d"
  "wallet_inv (bump_seq d) = wallet_inv d"
  by (rule wallet_inv_cong; simp add: committed_def bump_seq_def)+

lemma wallet_inv_same: "same_wallet d d' \<Longrightarrow> wallet_inv d \<Longrightarrow> wallet_inv d'"
  using wallet_inv_cong [of d' d] by (simp add: same_wallet_def)

lemma runWalletTransaction_Inr [result_simps]:
  "runWalletTransaction fn d = Inr (x, d') \<longleftrightarrow> (\<exists>d1. fn (committed d) = Inr (x, d1) \<and> d' = committed d1)"
  by (auto simp: runWalletTransaction_def split: sum.splits if_splits)

text \<open>The reserve that \<^verbatim>\<open>loadRedeemReserve\<close> finds is the one the invariant names.\<close>

lemma load_backed:
  assumes inv: "wallet_rows d" and r: "r \<in> set (redemptions d)" and res: "loadRedeemReserve r d = Inr l"
  shows "backed_by r l \<and> l \<in> set (ledgers d)"
proof -
  from inv r obtain k where k: "k \<in> set (ledgers d)" "backed_by r k" by (auto simp: wallet_rows_def)
  note l = loadRedeemReserve_Inr [OF res]
  have "led_status k \<noteq> LS_REJECTED" using k(2) by (cases "red_status r") (auto simp: backed_by_def)
  with k l inv have "l = k"
    by (intro wf_one_reserve [of "ledgers d" l k "red_id r"]) (auto simp: wallet_rows_def backed_by_def)
  with k show ?thesis by simp
qed

lemma load_exists:
  assumes inv: "wallet_rows d" and r: "r \<in> set (redemptions d)"
  shows "\<exists>l. loadRedeemReserve r d = Inr l \<and> backed_by r l \<and> l \<in> set (ledgers d)"
proof -
  from inv r obtain k where k: "k \<in> set (ledgers d)" "backed_by r k" by (auto simp: wallet_rows_def)
  have "led_status k \<noteq> LS_REJECTED" using k(2) by (cases "red_status r") (auto simp: backed_by_def)
  with k inv have "live_reserves (red_id r) d = [k]"
    by (intro live_reserves_singleton) (auto simp: wallet_rows_def backed_by_def)
  then show ?thesis using k by (auto simp: loadRedeemReserve_def backed_by_def)
qed

section \<open>Reward effects\<close>

lemma effect_not_reserve: "credit_typed inp \<Longrightarrow> \<not> reserve_for i (effect_row w d inp)"
  by (auto simp: credit_typed_def reserve_for_def effect_row_def)

lemma applyRewardEffect_wallet_inv:
  assumes run: "applyRewardEffect w inp d = Inr (res, d')" and typed: "credit_typed inp" and inv: "wallet_inv d"
  shows "wallet_inv d'"
proof -
  have "solvent d'" using inv effect_keeps_solvent [OF run typed] by (auto simp: wallet_inv_def solvent_def)
  moreover have "wallet_rows d'"
    using run
  proof (cases rule: applyRewardEffect_Inr)
    case zero
    with inv wallet_inv_same show ?thesis by (auto simp: wallet_inv_def)
  next
    case (credited fc d2)
    have L: "ledgers d' = ledgers d @ [effect_row w d2 inp]" and R: "redemptions d' = redemptions d"
      using credited(7) by (simp_all add: credited(10) bump_seq_def same_wallet_def)
    have "ledger_wf (ledgers d')"
      using ledger_wf_append [OF _ credited(8)] inv by (simp add: wallet_inv_def wallet_rows_def)
    then show ?thesis
      using inv effect_not_reserve [OF typed] by (auto simp: wallet_inv_def wallet_rows_def L R)
  qed (use inv in \<open>auto simp: wallet_inv_def wallet_rows_def\<close>)
  moreover have "earnings_nonneg (ledgers d')"
    using run
  proof (cases rule: applyRewardEffect_Inr)
    case (credited fc d2)
    have "effect_type inp = EARN \<Longrightarrow> 0 \<le> ci_amount inp"
      using run by (auto simp: applyRewardEffect_def assertEffect_def rbind_Inr_iff split: if_splits)
    with inv show ?thesis by (simp add: credited(10) bump_seq_def wallet_inv_def effect_row_def)
  qed (use inv in \<open>auto simp: wallet_inv_def same_wallet_def\<close>)
  ultimately show ?thesis by (simp add: wallet_inv_def)
qed

section \<open>Requests\<close>

lemma heldByCases_nonneg: "0 \<le> heldByOpenDebitCases u d"
proof -
  have "0 \<le> largest_case k cs" for k cs
    by (induction cs rule: rev_induct) (auto simp: largest_case_snoc, simp add: largest_case_def)
  then show ?thesis unfolding held_counts_each_item_once by (simp add: sum_nonneg)
qed

lemma request_new_effect:
  assumes run: "request_body w u amt pac key d = Inr ((red, False), d')" and inv: "wallet_rows d"
  obtains l p s ls where "find_request u key d = None"
    "find_by pac_id pac (payoutAccounts d) = Some p" "pac_userId p = u" "pac_status p \<noteq> PA_DISABLED"
    "request_refusal u amt d = None"
    "red_id red \<notin> red_id ` set (redemptions d)" "red_userId red = u" "red_amount red = amt" "red_status red = RS_REQUESTED"
    "red_idempotencyKey red = key" "red_destination red = destinationSnapshotData w p REQUEST_SNAPSHOT"
    "red_requestHash red = Some (redemptionRequestHash w amt pac)"
    "l = reserve_row w (d\<lparr>seq := Suc (seq d)\<rparr>) u amt (red_id red)"
    "create_row ledger_ok ledger_clash l (ledgers d) = Inr (ledgers d')"
    "d' = d\<lparr>redemptions := redemptions d @ [red], ledgers := ledgers d @ [l], seq := s, held_locks := ls\<rparr>"
proof -
  let ?d1 = "acquire (LUser u) d"
  let ?d2 = "acquire (LPayoutAccount pac) ?d1"
  have refusal: "request_refusal u amt ?d2 = request_refusal u amt d"
    by (simp add: request_refusal_def getMinRedemption_def getConfigInt_def getConfig_def heldByOpenDebitCases_def
        openDebitCases_def Let_def cong: option.case_cong)
  from run obtain p r0 d3 x where none: "find_request u key d = None"
    and p: "find_by pac_id pac (payoutAccounts d) = Some p" "pac_userId p = u" "pac_status p \<noteq> PA_DISABLED"
    and ok: "request_refusal u amt d = None"
    and ins: "insert_redemption (new_redemption w ?d2 u amt key p) ?d2 = Inr (red, d3)"
    and res: "createRedeemReserve w u amt (red_id red) d3 = Inr (x, d')"
    unfolding request_body_def
    by (auto simp: result_simps find_request_def refusal [symmetric] Let_def split: option.splits if_splits)
  have pid: "pac_id p = pac" using find_by_SomeD [OF p(1)] by blast
  have red: "red = new_redemption w ?d2 u amt key p"
    and fresh: "red_id red \<notin> red_id ` set (redemptions d)"
    and d3: "d3 = bump_seq (?d2\<lparr>redemptions := redemptions d @ [red]\<rparr>)"
    using ins by (auto simp: insert_redemption_def result_simps list_ex_iff redemption_clash_def)
  have L: "ledgers d3 = ledgers d" by (simp add: d3 bump_seq_def)
  have "List.find (reserve_for (red_id red)) (ledgers d3) = None"
    using inv fresh by (auto simp: wallet_rows_def L find_None_iff)
  with res have ins2: "insert_ledger (reserve_row w d3 u amt (red_id red)) d3 = Inr (x, d')"
    by (simp add: createRedeemReserve_def)
  define l where "l = reserve_row w d3 u amt (red_id red)"
  have l_eq: "l = reserve_row w (d\<lparr>seq := Suc (seq d)\<rparr>) u amt (red_id red)"
    by (simp add: l_def reserve_row_def newId_def d3 bump_seq_def)
  from ins2 have d': "d' = bump_seq (d3\<lparr>ledgers := ledgers d @ [l]\<rparr>)"
    and row: "create_row ledger_ok ledger_clash l (ledgers d) = Inr (ledgers d @ [l])"
    by (auto simp: insert_ledger_def result_simps L l_def)
  have "\<exists>s ls. d' = d\<lparr>redemptions := redemptions d @ [red], ledgers := ledgers d @ [l], seq := s, held_locks := ls\<rparr>"
    by (intro exI [of _ "Suc (Suc (seq d))"] exI [of _ "held_locks ?d2"])
      (simp add: d' d3 bump_seq_def acquire_cases)
  then obtain s ls where final: "d' = d\<lparr>redemptions := redemptions d @ [red], ledgers := ledgers d @ [l], seq := s, held_locks := ls\<rparr>"
    by blast
  show ?thesis
    by (rule that [OF none p ok fresh _ _ _ _ _ _ l_eq _ final])
      (use row final in \<open>simp_all add: red new_redemption_def pid\<close>)
qed

lemma reserve_row_fields [simp]:
  "led_userId (reserve_row w d u a i) = u" "led_entryType (reserve_row w d u a i) = REDEEM"
  "led_amount (reserve_row w d u a i) = - \<bar>a\<bar>" "led_status (reserve_row w d u a i) = LS_PENDING"
  "reserve_for j (reserve_row w d u a i) \<longleftrightarrow> j = i"
  "avail_of v (reserve_row w d u a i) = (if v = u then - \<bar>a\<bar> else 0)"
  by (auto simp: reserve_row_def reserve_for_def avail_of_def)

lemma request_body_inv:
  assumes run: "request_body w u amt pac key d = Inr ((red, ex), d')" and inv: "wallet_inv d" and amt: "0 < amt"
  shows "wallet_inv d'"
proof (cases ex)
  case True
  with run have "d' = acquire (LUser u) d"
    by (auto simp: request_body_def result_simps Let_def split: option.splits if_splits)
  with inv show ?thesis by simp
next
  case False
  from inv have rows: "wallet_rows d" and solv: "solvent d" by (auto simp: wallet_inv_def)
  from run False have "request_body w u amt pac key d = Inr ((red, False), d')" by simp
  then obtain l p s ls where
    ok: "request_refusal u amt d = None" and fresh: "red_id red \<notin> red_id ` set (redemptions d)"
    and red: "red_userId red = u" "red_amount red = amt" "red_status red = RS_REQUESTED"
    and l: "l = reserve_row w (d\<lparr>seq := Suc (seq d)\<rparr>) u amt (red_id red)"
    and row: "create_row ledger_ok ledger_clash l (ledgers d) = Inr (ledgers d')"
    and d': "d' = d\<lparr>redemptions := redemptions d @ [red], ledgers := ledgers d @ [l], seq := s, held_locks := ls\<rparr>"
    by (rule request_new_effect [OF _ rows])
  have "ledger_wf (ledgers d')" using ledger_wf_append [OF _ row] rows by (simp add: wallet_rows_def)
  moreover have "backed_by red l" using red amt by (simp add: backed_by_def l)
  ultimately have "wallet_rows d'"
    using rows fresh red amt by (auto simp: wallet_rows_def d' uniq_append l)
  moreover have "solvent d'"
    unfolding solvent_def
  proof
    fix v
    have "amt \<le> wb_available (getWalletBalance u d)"
      using ok heldByCases_nonneg [of u d] by (auto simp: request_refusal_def Let_def split: if_splits)
    moreover have "0 \<le> wb_available (getWalletBalance v d)" using solv by (simp add: solvent_def)
    ultimately show "0 \<le> wb_available (getWalletBalance v d')"
      using amt by (auto simp: wallet_sums d' l)
  qed
  moreover have "earnings_nonneg (ledgers d')" using inv by (simp add: wallet_inv_def d' l)
  ultimately show ?thesis by (simp add: wallet_inv_def)
qed

section \<open>Transitions\<close>

lemma image_key_upd_by:
  assumes "\<And>r. g (f r) = g r"
  shows "g ` set (upd_by key k f t) = g ` set t"
  using arg_cong [OF map_key_upd_by [of g f key k t, OF assms], of set] by simp

lemma compareAndSet_Inr:
  assumes run: "compareAndSet i cond f d = Inr d'" and u: "uniq red_id (redemptions d)"
  obtains r where "find_by red_id i (redemptions d) = Some r" "cond r"
    "d' = d\<lparr>redemptions := upd_by red_id i f (redemptions d)\<rparr>"
proof -
  let ?hit = "\<lambda>r. red_id r = i \<and> cond r"
  from run have one: "length (filter ?hit (redemptions d)) = 1"
    and d': "d' = d\<lparr>redemptions := map (\<lambda>r. if ?hit r then f r else r) (redemptions d)\<rparr>"
    by (auto simp: compareAndSet_def Let_def split: if_splits)
  then obtain r where "r \<in> set (filter ?hit (redemptions d))" by (cases "filter ?hit (redemptions d)") auto
  then have r: "r \<in> set (redemptions d)" "red_id r = i" "cond r" by auto
  have find: "find_by red_id i (redemptions d) = Some r" using find_by_uniqI [OF u r(1)] r(2) by simp
  have "x = r" if "x \<in> set (redemptions d)" "red_id x = i" for x
    using find_by_uniqI [OF u that(1)] that(2) find by simp
  then have "map (\<lambda>r. if ?hit r then f r else r) (redemptions d) = upd_by red_id i f (redemptions d)"
    unfolding upd_by_def using r(3) by (intro map_cong) auto
  with find r(3) d' that show ?thesis by simp
qed

lemma lockRedemptionForChange_Inr:
  assumes "lockRedemptionForChange actr i ex lf d = Inr (r, d')"
  shows "find_by red_id i (redemptions d) = Some r \<and> committed d' = committed d
    \<and> (act_role actr = USER \<longrightarrow> red_userId r = act_id actr) \<and> (ex = None \<or> ex = Some (red_userId r))"
proof -
  from assms obtain owner d2 where owner: "find_by red_id i (redemptions d) = Some owner"
    "\<not> (act_role actr = USER \<and> red_userId owner \<noteq> act_id actr)" "\<not> (ex \<noteq> None \<and> ex \<noteq> Some (red_userId owner))"
    and d2: "(if lf then lockFundingAccounts (fundingAccountsForPayout (red_userId owner) (acquire (LUser (red_userId owner)) d))
          (acquire (LUser (red_userId owner)) d) else Inr (acquire (LUser (red_userId owner)) d)) = Inr d2"
    and rest: "find_by red_id i (redemptions d2) = Some r" "d' = acquire (LRedemption i) d2"
    by (auto simp: lockRedemptionForChange_def result_simps)
  have same: "committed d2 = committed d"
    using d2 by (auto dest: lockFundingAccounts_committed split: if_splits)
  then have "redemptions d2 = redemptions d" by (cases d; cases d2) (simp add: committed_def)
  with owner rest same show ?thesis by auto
qed

lemma committed_fields:
  "committed d' = committed d \<Longrightarrow> \<exists>ls. d' = d\<lparr>held_locks := ls\<rparr>"
  by (cases d; cases d') (simp add: committed_def)

lemma transition_row_fields [simp]:
  "red_id (transition_row a inp rule c dest r) = red_id r" "red_userId (transition_row a inp rule c dest r) = red_userId r"
  "red_amount (transition_row a inp rule c dest r) = red_amount r"
  "red_status (transition_row a inp rule c dest r) = tr_to rule"
  "red_idempotencyKey (transition_row a inp rule c dest r) = red_idempotencyKey r"
  "red_destination (transition_row a inp rule c dest r) = nullish dest (red_destination r)"
  by (simp_all add: transition_row_def)

lemma rule_reserve_target:
  "tr_reserve (TRANSITIONS act) = Some oc \<Longrightarrow> settle_target oc = expectedReserveStatus (tr_to (TRANSITIONS act))"
  "tr_reserve (TRANSITIONS act) = None \<Longrightarrow> expectedReserveStatus (tr_to (TRANSITIONS act)) = LS_PENDING"
  by (cases act; auto simp: settle_target_def)+

lemma set_status_same: "led_status l = s \<Longrightarrow> set_status s l = l"
  by (cases l) (simp add: set_status_def)

text \<open>Settling the reserve \<open>l\<close> of the request \<open>current\<close>, whose row was already rewritten.\<close>

lemma settle_reserve_Inr:
  assumes run: "settle_reserve w actr current act d = Inr (fund, d')"
    and wf: "ledger_wf (ledgers d)" and row: "find_by red_id (red_id current) (redemptions d) = Some r"
    and r: "red_userId r = red_userId current" "red_amount r = red_amount current" "red_id r = red_id current"
    and l: "loadRedeemReserve current d = Inr l" "led_status l = LS_PENDING"
  shows "\<exists>d1. same_wallet d1 d'
    \<and> d1 = settled_db l (expectedReserveStatus (tr_to (TRANSITIONS act))) d
    \<and> (act = Succeed \<longrightarrow> (\<exists>att. settlePayoutFunding w (red_id current) (red_userId current) (red_amount current)
         (Some (act_id actr)) d1 = Inr (att, d') \<and> fund = Some (pa_attributedRupiah att, pa_legacyRupiah att)))
    \<and> (act \<noteq> Succeed \<longrightarrow> d' = d1 \<and> fund = None)"
proof (cases "tr_reserve (TRANSITIONS act)")
  case None
  then have "act \<noteq> Succeed" by auto
  moreover have "d' = d" "fund = None" using run None by (auto simp: settle_reserve_def)
  moreover have "settled_db l LS_PENDING d = d"
  proof -
    have "l \<in> set (ledgers d)" using loadRedeemReserve_Inr [OF l(1)] by blast
    then have "x = l" if "x \<in> set (ledgers d)" "led_id x = led_id l" for x
      using find_by_uniqI [OF ledger_wf_uniq [OF wf]] that by (metis option.inject)
    then have "upd_by led_id (led_id l) (set_status LS_PENDING) (ledgers d) = ledgers d"
      unfolding upd_by_def using set_status_same [OF l(2)] by (intro map_idI) auto
    then show ?thesis by (simp add: settled_db_def)
  qed
  ultimately show ?thesis using rule_reserve_target(2) [OF None] by auto
next
  case (Some oc)
  have load: "loadRedeemReserve r d = Inr l"
    using l(1) unfolding loadRedeemReserve_def r .
  note target = rule_reserve_target(1) [OF Some]
  have neq: "settle_target oc \<noteq> LS_PENDING" by (cases oc) (auto simp: settle_target_def)
  let ?d1 = "settled_db l (settle_target oc) d"
  have settle: "settleRedeemLedger (red_id current) oc d = Inr ((set_status (settle_target oc) l, True), ?d1)"
    using settleRedeemLedger_eq [OF wf row load, of oc] l(2) neq by simp
  show ?thesis
  proof (cases "act = Succeed")
    case True
    with run Some settle obtain att where
      "settlePayoutFunding w (red_id current) (red_userId current) (red_amount current) (Some (act_id actr)) ?d1 = Inr (att, d')"
      "fund = Some (pa_attributedRupiah att, pa_legacyRupiah att)"
      by (auto simp: settle_reserve_def result_simps)
    then show ?thesis using settlePayoutFunding_frame target True by auto
  next
    case False
    with run Some settle have "d' = ?d1" "fund = None" by (auto simp: settle_reserve_def result_simps)
    then show ?thesis using False target by auto
  qed
qed

text \<open>What a transition that is not a replay does.\<close>

lemma transition_effect:
  assumes run: "transition_body w actr i inp d = Inr (out, d')" and new: "\<not> to_idempotent out" and inv: "wallet_rows d"
  obtains current l dest ls d1 where
    "find_by red_id i (redemptions d) = Some current" "backed_by current l" "l \<in> set (ledgers d)"
    "red_status current \<in> set (tr_from (TRANSITIONS (ti_action inp)))" "led_status l = LS_PENDING"
    "act_role actr = USER \<longrightarrow> red_userId current = act_id actr"
    "ti_action inp = Succeed \<longrightarrow> ti_providerReference inp \<noteq> None \<or> hasOwnProof current"
    "ti_action inp = Fail \<longrightarrow> red_reconciliationRequired current \<longrightarrow> ti_note inp \<noteq> None"
    "tr_destination (TRANSITIONS (ti_action inp)) = Untouched \<longrightarrow> dest = None"
    "tr_destination (TRANSITIONS (ti_action inp)) \<noteq> Untouched \<longrightarrow>
       destinationForChange w current (tr_destination (TRANSITIONS (ti_action inp))) (d\<lparr>held_locks := ls\<rparr>) = Inr dest"
    "d1 = d\<lparr>held_locks := ls,
       redemptions := upd_by red_id i (transition_row actr inp (TRANSITIONS (ti_action inp)) current dest) (redemptions d),
       ledgers := upd_by led_id (led_id l) (set_status (expectedReserveStatus (tr_to (TRANSITIONS (ti_action inp))))) (ledgers d)\<rparr>"
    "same_wallet d1 d'"
    "ti_action inp = Succeed \<longrightarrow> (\<exists>att. settlePayoutFunding w i (red_userId current) (red_amount current)
         (Some (act_id actr)) d1 = Inr (att, d') \<and> to_funding out = Some (pa_attributedRupiah att, pa_legacyRupiah att))"
    "ti_action inp \<noteq> Succeed \<longrightarrow> d' = d1"
    "to_redemption out = transition_row actr inp (TRANSITIONS (ti_action inp)) current dest current"
proof -
  let ?rule = "TRANSITIONS (ti_action inp)"
  from run obtain current d0 where lock: "lockRedemptionForChange actr i None (ti_action inp = Succeed) d = Inr (current, d0)"
    by (auto simp: transition_body_def Let_def result_simps)
  note cur = lockRedemptionForChange_Inr [OF lock]
  from cur committed_fields obtain ls where d0: "d0 = d\<lparr>held_locks := ls\<rparr>" by blast
  have cur_in: "current \<in> set (redemptions d)" "red_id current = i" using cur find_by_SomeD by (fast, fast)
  have load_eq: "loadRedeemReserve current d0 = loadRedeemReserve current d"
    by (simp add: loadRedeemReserve_def live_reserves_def d0)
  from load_exists [OF inv cur_in(1)] obtain l where l: "loadRedeemReserve current d = Inr l" "backed_by current l" "l \<in> set (ledgers d)"
    by blast
  have from_to: "tr_to ?rule \<notin> set (tr_from ?rule)" by (cases "ti_action inp") auto
  from run lock load_eq l(1) new obtain dest d2 fund where
    nto: "red_status current \<noteq> tr_to ?rule" and frm: "red_status current \<in> set (tr_from ?rule)"
    and pend: "led_status l = LS_PENDING"
    and succ: "\<not> (ti_action inp = Succeed \<and> ti_providerReference inp = None \<and> \<not> hasOwnProof current)"
    and fl: "\<not> (ti_action inp = Fail \<and> red_reconciliationRequired current \<and> ti_note inp = None)"
    and dest: "(if tr_destination ?rule = Untouched then Inr None else destinationForChange w current (tr_destination ?rule) d0) = Inr dest"
    and cas: "compareAndSet i (\<lambda>r. red_status r = red_status current) (transition_row actr inp ?rule current dest) d0 = Inr d2"
    and settle: "settle_reserve w actr current (ti_action inp) d2 = Inr (fund, d')"
    and out: "find_by red_id i (redemptions d') = Some (to_redemption out)" "to_funding out = fund"
    unfolding transition_body_def Let_def
    by (simp add: rbind_Inr_iff case_prod_eq_Inr if_Inl_eq_Inr case_option_Inl_eq_Inr split: if_splits)
      (auto simp: result_simps)
  have "uniq red_id (redemptions d0)" using inv by (simp add: d0 wallet_rows_def)
  from cas this obtain r0 where d2: "d2 = d0\<lparr>redemptions := upd_by red_id i (transition_row actr inp ?rule current dest) (redemptions d0)\<rparr>"
    by (rule compareAndSet_Inr)
  let ?new = "transition_row actr inp ?rule current dest current"
  have find2: "find_by red_id (red_id current) (redemptions d2) = Some ?new"
    using cur by (simp add: d2 d0 find_by_upd_by cur_in(2))
  have wf2: "ledger_wf (ledgers d2)" using inv by (simp add: d2 d0 wallet_rows_def)
  have load2: "loadRedeemReserve current d2 = Inr l" using l(1) by (simp add: loadRedeemReserve_def live_reserves_def d2 d0)
  from settle_reserve_Inr [OF settle wf2 find2 _ _ _ load2 pend] obtain d1 where
    same: "same_wallet d1 d'" and d1: "d1 = settled_db l (expectedReserveStatus (tr_to ?rule)) d2"
    and s1: "ti_action inp = Succeed \<longrightarrow> (\<exists>att. settlePayoutFunding w (red_id current) (red_userId current) (red_amount current)
         (Some (act_id actr)) d1 = Inr (att, d') \<and> fund = Some (pa_attributedRupiah att, pa_legacyRupiah att))"
    and s2: "ti_action inp \<noteq> Succeed \<longrightarrow> d' = d1 \<and> fund = None"
    by auto
  have "redemptions d' = redemptions d2" using same by (simp add: same_wallet_def d1 settled_db_def)
  with out find2 cur_in(2) have new_row: "to_redemption out = ?new" by simp
  show ?thesis
    by (rule that [of current l dest ls d1])
      (use cur l frm pend succ fl dest s1 s2 same new_row cur_in(2) out(2) in
        \<open>auto simp: d1 settled_db_def d2 d0 split: if_splits\<close>)
qed

lemma avail_settled:
  assumes "led_entryType l = REDEEM" "led_status l = LS_PENDING" "led_amount l \<le> 0"
  shows "avail_of u l \<le> avail_of u (set_status s l)"
  using assms by (auto simp: avail_of_def)

lemma avail_settled_unless:
  assumes "led_entryType l = REDEEM" "led_status l = LS_PENDING"
  shows "avail_of u (set_status s l) = avail_of u l - (if led_userId l = u \<and> s \<notin> {LS_PENDING, LS_REDEEMED} then led_amount l else 0)"
  using assms by (cases s) (auto simp: avail_of_def)

text \<open>The rows after request \<open>current\<close> moved to status \<open>st\<close> together with its reserve \<open>l\<close>.\<close>

lemma move_request_rows:
  assumes inv: "wallet_rows d" and cur: "find_by red_id i (redemptions d) = Some current"
    and l: "backed_by current l" "l \<in> set (ledgers d)" "led_status l = LS_PENDING"
    and f: "\<And>r. red_id (f r) = red_id r" "\<And>r. red_userId (f r) = red_userId r" "\<And>r. red_amount (f r) = red_amount r"
      "red_status (f current) = st"
    and R: "redemptions d' = upd_by red_id i f (redemptions d)"
    and L: "ledgers d' = upd_by led_id (led_id l) (set_status (expectedReserveStatus st)) (ledgers d)"
  shows "wallet_rows d'"
proof -
  have wf: "ledger_wf (ledgers d)" and u: "uniq red_id (redemptions d)" using inv by (auto simp: wallet_rows_def)
  have wf': "ledger_wf (ledgers d')"
    using settled_wf [OF wf l(2,3)] by (simp add: L settled_db_def)
  have cur_in: "current \<in> set (redemptions d)" "red_id current = i" using find_by_SomeD [OF cur] by auto
  have only_l: "x = l" if "x \<in> set (ledgers d)" "led_id x = led_id l" for x
    using find_by_uniqI [OF ledger_wf_uniq [OF wf]] that l(2) by (metis option.inject)
  have only_cur: "x = current" if "x \<in> set (redemptions d)" "red_id x = i" for x
    using find_by_uniqI [OF u that(1)] that(2) cur by simp
  have "0 < red_amount r' \<and> (\<exists>k \<in> set (ledgers d'). backed_by r' k)" if r': "r' \<in> set (redemptions d')" for r'
  proof -
    obtain r where r: "r \<in> set (redemptions d)" "r' = (if red_id r = i then f r else r)"
      using r' by (auto simp: R set_upd_by)
    have pos: "0 < red_amount r" using inv r(1) by (auto simp: wallet_rows_def)
    show ?thesis
    proof (cases "red_id r = i")
      case True
      then have "r' = f current" using r only_cur by simp
      moreover have "set_status (expectedReserveStatus st) l \<in> set (ledgers d')"
        using l(2) by (force simp: L set_upd_by)
      moreover have "backed_by (f current) (set_status (expectedReserveStatus st) l)"
        using l(1) f by (simp add: backed_by_def)
      ultimately show ?thesis using pos True r only_cur f by auto
    next
      case False
      from inv r(1) obtain k where k: "k \<in> set (ledgers d)" "backed_by r k" by (auto simp: wallet_rows_def)
      have "led_id k \<noteq> led_id l"
      proof
        assume "led_id k = led_id l"
        then have "k = l" using only_l k(1) by blast
        then have "red_id r = red_id current" using k(2) l(1) by (simp add: backed_by_def reserve_for_def)
        with False cur_in show False by simp
      qed
      then have "k \<in> set (ledgers d')" using k(1) by (force simp: L set_upd_by)
      then show ?thesis using k(2) pos r(2) False by auto
    qed
  qed
  moreover have "red_id ` set (redemptions d') = red_id ` set (redemptions d)"
    using f(1) by (simp add: R image_key_upd_by)
  moreover have "\<forall>k \<in> set (ledgers d'). \<forall>j. reserve_for j k \<longrightarrow> j \<in> red_id ` set (redemptions d)"
    using inv by (auto simp: L set_upd_by wallet_rows_def)
  moreover have "uniq red_id (redemptions d')" using u f(1) by (simp add: R uniq_upd_by)
  ultimately show ?thesis using wf' by (simp add: wallet_rows_def)
qed

lemma transition_balance:
  assumes wf: "ledger_wf (ledgers d)" and l: "backed_by r l" "l \<in> set (ledgers d)" "led_status l = LS_PENDING"
    and L: "ledgers d' = upd_by led_id (led_id l) (set_status s) (ledgers d)"
  shows "wb_available (getWalletBalance u d') = wb_available (getWalletBalance u d)
    + (if u = red_userId r \<and> s \<notin> {LS_PENDING, LS_REDEEMED} then red_amount r else 0)"
proof -
  have "tsum (avail_of u) (ledgers d') = tsum (avail_of u) (ledgers d) - avail_of u l + avail_of u (set_status s l)"
    using settled_sums [OF wf l(2), of "avail_of u" s] by (simp add: L settled_db_def)
  moreover have "led_entryType l = REDEEM" "led_amount l = - red_amount r" "led_userId l = red_userId r"
    using l(1) by (simp_all add: backed_by_def reserve_for_def)
  ultimately show ?thesis
    using avail_settled_unless [of l u s] l(3) by (auto simp: wallet_sums)
qed

lemma transition_body_inv:
  assumes run: "transition_body w actr i inp d = Inr (out, d')" and inv: "wallet_inv d"
  shows "wallet_inv d'"
proof (cases "to_idempotent out")
  case True
  from run obtain current d0 where "lockRedemptionForChange actr i None (ti_action inp = Succeed) d = Inr (current, d0)"
    and "d' = d0"
    using True by (auto simp: transition_body_def Let_def result_simps split: if_splits)
  with lockRedemptionForChange_Inr have "committed d' = committed d" by blast
  with committed_fields obtain ls where "d' = d\<lparr>held_locks := ls\<rparr>" by blast
  with inv wallet_inv_cong [of d' d] show ?thesis by simp
next
  case False
  from inv have rows: "wallet_rows d" and solv: "solvent d" by (auto simp: wallet_inv_def)
  let ?to = "tr_to (TRANSITIONS (ti_action inp))"
  from run False rows obtain current l dest ls d1 where
    cur: "find_by red_id i (redemptions d) = Some current" and l: "backed_by current l" "l \<in> set (ledgers d)"
      "led_status l = LS_PENDING"
    and d1: "d1 = d\<lparr>held_locks := ls,
       redemptions := upd_by red_id i (transition_row actr inp (TRANSITIONS (ti_action inp)) current dest) (redemptions d),
       ledgers := upd_by led_id (led_id l) (set_status (expectedReserveStatus ?to)) (ledgers d)\<rparr>"
    and same: "same_wallet d1 d'"
    by (rule transition_effect)
  have "wallet_rows d1"
    by (rule move_request_rows [OF rows cur l, of "transition_row actr inp (TRANSITIONS (ti_action inp)) current dest"])
      (simp_all add: d1)
  moreover have "solvent d1"
    unfolding solvent_def
  proof
    fix u
    have "ledger_wf (ledgers d)" "0 < red_amount current"
      using rows find_by_SomeD [OF cur] by (auto simp: wallet_rows_def)
    with transition_balance [OF _ l, of d1 "expectedReserveStatus ?to" u] solv
    show "0 \<le> wb_available (getWalletBalance u d1)" by (auto simp: d1 solvent_def)
  qed
  moreover have "earnings_nonneg (ledgers d1)" using inv by (simp add: wallet_inv_def d1 earnings_nonneg_upd)
  ultimately show ?thesis using wallet_inv_same [OF same] by (simp add: wallet_inv_def)
qed

section \<open>Flags and proofs\<close>

text \<open>Rewriting columns of one request that are not its owner, amount or status.\<close>

lemma touch_request_inv:
  assumes inv: "wallet_inv d"
    and f: "\<And>r. red_id (f r) = red_id r" "\<And>r. red_userId (f r) = red_userId r" "\<And>r. red_amount (f r) = red_amount r"
      "\<And>r. red_status (f r) = red_status r"
    and d': "redemptions d' = upd_by red_id i f (redemptions d)" "ledgers d' = ledgers d"
  shows "wallet_inv d'"
proof -
  have "backed_by (f r) l = backed_by r l" for r l using f by (simp add: backed_by_def)
  moreover have "red_id ` set (upd_by red_id i f (redemptions d)) = red_id ` set (redemptions d)"
    using f(1) by (rule image_key_upd_by)
  ultimately show ?thesis
    using inv f by (auto simp: wallet_inv_def wallet_rows_def solvent_def wallet_sums d' uniq_upd_by set_upd_by)
qed

lemma flag_body_Inr:
  assumes run: "flag_body w actr i note d = Inr ((red, ex), d')" and u: "uniq red_id (redemptions d)"
  obtains (replay) ls where "ex" "d' = d\<lparr>held_locks := ls\<rparr>"
  | (flagged) ls dest r where "\<not> ex" "find_by red_id i (redemptions d) = Some r" "red_status r = RS_PROCESSING"
      "d' = d\<lparr>held_locks := ls, redemptions := upd_by red_id i (flag_row w actr note dest) (redemptions d)\<rparr>"
proof -
  from run obtain current d0 where lock: "lockRedemptionForChange actr i None False d = Inr (current, d0)"
    by (auto simp: flag_body_def result_simps)
  then obtain ls where d0: "d0 = d\<lparr>held_locks := ls\<rparr>" using lockRedemptionForChange_Inr committed_fields by blast
  show ?thesis
  proof (cases ex)
    case True
    with run lock d0 show ?thesis
      by (intro replay) (auto simp: flag_body_def result_simps split: if_splits)
  next
    case False
    from run lock False obtain dest d2 where
      cas: "compareAndSet i (\<lambda>r. red_status r = RS_PROCESSING \<and> \<not> red_reconciliationRequired r)
              (flag_row w actr note dest) d0 = Inr d2" and "d' = d2"
      by (auto simp: flag_body_def result_simps split: if_splits)
    moreover have "uniq red_id (redemptions d0)" using u by (simp add: d0)
    ultimately show ?thesis using False flagged
      by (auto elim!: compareAndSet_Inr simp: d0)
  qed
qed

lemma flag_body_inv:
  assumes run: "flag_body w actr i note d = Inr ((red, ex), d')" and inv: "wallet_inv d"
  shows "wallet_inv d'"
proof -
  have "uniq red_id (redemptions d)" using inv by (simp add: wallet_inv_def wallet_rows_def)
  with run show ?thesis
  proof (cases rule: flag_body_Inr)
    case (replay ls)
    with inv wallet_inv_cong [of d' d] show ?thesis by simp
  next
    case (flagged ls dest r)
    then show ?thesis by (intro touch_request_inv [OF inv, of "flag_row w actr note dest"]) (simp_all add: flag_row_def)
  qed
qed

lemma proof_body_inv:
  assumes run: "proof_body w actr i path u d = Inr (red, d')" and inv: "wallet_inv d"
  shows "wallet_inv d'"
proof -
  from run obtain current d0 dest where lock: "lockRedemptionForChange actr i (Some u) False d = Inr (current, d0)"
    and cas: "compareAndSet i (\<lambda>r. red_userId r = u \<and> red_status r = red_status current) (proof_row path dest) d0 = Inr d'"
    by (auto simp: proof_body_def result_simps)
  from lock obtain ls where d0: "d0 = d\<lparr>held_locks := ls\<rparr>" using lockRedemptionForChange_Inr committed_fields by blast
  have "uniq red_id (redemptions d0)" using inv by (simp add: wallet_inv_def wallet_rows_def d0)
  from cas this have "d' = d0\<lparr>redemptions := upd_by red_id i (proof_row path dest) (redemptions d0)\<rparr>"
    by (rule compareAndSet_Inr)
  then show ?thesis by (intro touch_request_inv [OF inv, of "proof_row path dest"]) (simp_all add: proof_row_def d0)
qed

section \<open>The wallet as a state machine\<close>

inductive wallet_step :: "world \<Rightarrow> db \<Rightarrow> db \<Rightarrow> bool" for w where
  request: "requestRedemption w actr raw d = Inr (x, d') \<Longrightarrow> wallet_step w d d'"
| transition: "transitionRedemption w actr i inp d = Inr (x, d') \<Longrightarrow> wallet_step w d d'"
| flag: "flagRedemptionForReconciliation w actr i note d = Inr (x, d') \<Longrightarrow> wallet_step w d d'"
| attach_proof: "attachRedemptionProof w actr i path u d = Inr (x, d') \<Longrightarrow> wallet_step w d d'"
| effect: "applyRewardEffect w inp d = Inr (x, d') \<Longrightarrow> credit_typed inp \<Longrightarrow> wallet_step w d d'"
| elsewhere: "ledgers d' = ledgers d \<Longrightarrow> redemptions d' = redemptions d \<Longrightarrow> wallet_step w d d'"

inductive_cases wallet_stepE: "wallet_step w d d'"

definition wallet_start :: "db \<Rightarrow> bool" where
  "wallet_start d \<longleftrightarrow> ledgers d = [] \<and> redemptions d = []"

lemma rupiahAmount_pos: "rupiahAmountSchema x = Inr n \<Longrightarrow> 0 < n \<and> n \<le> MAX_RUPIAH"
  by (auto simp: rupiahAmountSchema_def split: if_splits)

lemma requestRedemption_inv:
  assumes "requestRedemption w actr raw d = Inr ((red, ex), d')" "wallet_inv d"
  shows "wallet_inv d'"
proof -
  from assms(1) obtain amt pac key d1 where
    "requestRedemptionInputSchema raw = Inr (amt, pac, key)"
    and run: "request_body w (act_id actr) amt pac key (committed d) = Inr ((red, ex), d1)" and d': "d' = committed d1"
    by (auto simp: requestRedemption_def result_simps)
  then have "0 < amt" by (auto simp: requestRedemptionInputSchema_def result_simps dest: rupiahAmount_pos)
  with request_body_inv [OF run] assms(2) show ?thesis by (simp add: d')
qed

lemma wallet_step_inv:
  assumes "wallet_step w d d'" "wallet_inv d"
  shows "wallet_inv d'"
  using assms(1)
proof (cases rule: wallet_step.cases)
  case (request actr raw x)
  with assms(2) show ?thesis by (cases x) (auto intro: requestRedemption_inv)
next
  case (transition actr i inp x)
  then obtain inp' d1 where run: "transition_body w actr i inp' (committed d) = Inr (x, d1)" and d': "d' = committed d1"
    by (auto simp: transitionRedemption_def result_simps)
  from transition_body_inv [OF run] assms(2) show ?thesis by (simp add: d')
next
  case (flag actr i text0 x)
  then obtain n d1 where run: "flag_body w actr i n (committed d) = Inr ((fst x, snd x), d1)" and d': "d' = committed d1"
    by (auto simp: flagRedemptionForReconciliation_def result_simps)
  from flag_body_inv [OF run] assms(2) show ?thesis by (simp add: d')
next
  case (attach_proof actr i path u x)
  then obtain d1 where run: "proof_body w actr i path u (committed d) = Inr (x, d1)" and d': "d' = committed d1"
    by (auto simp: attachRedemptionProof_def result_simps)
  from proof_body_inv [OF run] assms(2) show ?thesis by (simp add: d')
next
  case (effect inp x)
  with assms(2) show ?thesis by (auto intro: applyRewardEffect_wallet_inv)
next
  case elsewhere
  with assms(2) show ?thesis using wallet_inv_cong [of d' d] by simp
qed

interpretation wallet: invariant_system wallet_start "wallet_step w" wallet_inv for w
proof
  show "wallet_inv d" if "wallet_start d" for d
    using that by (simp add: wallet_start_def wallet_inv_def wallet_rows_def solvent_def wallet_sums uniq_def ledger_wf_def)
qed (rule wallet_step_inv)

end
