(* ===== verification/Wallet_Props.thy ===== *)
theory Wallet_Props
  imports Wallet_Inv
begin

text \<open>
  What the wallet promises: nobody can withdraw more than was credited, a request takes exactly
  its amount once, every transition follows the payout life cycle and settles the reserve with
  it, a finished payout never moves again, the destination of a payout is fixed when it is
  requested, and the transactions take their row locks in the global order.
\<close>

section \<open>Sample states\<close>

definition sample_user :: actor where
  "sample_user = \<lparr>act_id = ''u1'', act_role = USER, act_organizationId = None\<rparr>"

definition sample_admin :: actor where
  "sample_admin = \<lparr>act_id = ''root'', act_role = SUPERADMIN, act_organizationId = None\<rparr>"

definition wallet_sample :: db where
  "wallet_sample = credited_db\<lparr>config := (\<lambda>_. Some ''1000''),
     payoutAccounts := [\<lparr>pac_id = ''p1'', pac_userId = ''u1'', pac_provider = DANA,
       pac_accountIdentifier = ''0812'', pac_accountName = None, pac_status = PA_VERIFIED\<rparr>]\<rparr>"

definition sample_request :: redemption_request where
  "sample_request = \<lparr>rq_amount = 2000, rq_payoutAccountId = ''p1'', rq_idempotencyKey = ''key-1''\<rparr>"

definition requested_db :: db where
  "requested_db = state_of (requestRedemption sample_world sample_user sample_request wallet_sample)"

definition requested_id :: ident where
  "requested_id = red_id (hd (redemptions requested_db))"

definition sample_act :: "redemption_action \<Rightarrow> transition_input" where
  "sample_act a = \<lparr>ti_action = a, ti_note = None, ti_providerReference = Some ''TRX-1''\<rparr>"

definition after_act :: "redemption_action \<Rightarrow> db \<Rightarrow> db" where
  "after_act a d = state_of (transitionRedemption sample_world sample_admin requested_id (sample_act a) d)"

definition processing_db :: db where
  "processing_db = after_act Process (after_act Approve requested_db)"

lemma requested_run:
  "\<exists>x. requestRedemption sample_world sample_user sample_request wallet_sample = Inr (x, requested_db)"
proof -
  have "succeeds (requestRedemption sample_world sample_user sample_request wallet_sample)" by code_simp
  from succeeds_tx [OF this] show ?thesis unfolding requested_db_def .
qed

lemma sample_ledger_start: "wallet_start reserved_db"
  by code_simp

lemma requested_reachable: "(wallet_step sample_world)\<^sup>*\<^sup>* reserved_db requested_db"
proof -
  have "credit_typed sample_effect" by code_simp
  with credited_run have "wallet_step sample_world reserved_db credited_db" by (auto intro: wallet_step.effect)
  moreover have "wallet_step sample_world credited_db wallet_sample"
    by (rule wallet_step.elsewhere) (simp_all add: wallet_sample_def)
  moreover have "wallet_step sample_world wallet_sample requested_db"
    using requested_run by (auto intro: wallet_step.request)
  ultimately show ?thesis by (meson rtranclp.rtrancl_into_rtrancl rtranclp.rtrancl_refl)
qed

lemma requested_inv: "wallet_inv requested_db"
  using wallet.reachable_inv [OF sample_ledger_start requested_reachable] .

section \<open>Money out never exceeds money in\<close>

definition credits_of :: "ident \<Rightarrow> ledger \<Rightarrow> int" where
  "credits_of u l = (if led_userId l = u \<and> led_entryType l \<noteq> REDEEM \<and> led_status l = LS_AVAILABLE then led_amount l else 0)"

lemma available_identity:
  "wb_available (getWalletBalance u d) =
     tsum (credits_of u) (ledgers d) - wb_reserved (getWalletBalance u d) - wb_redeemed (getWalletBalance u d)"
proof -
  have "avail_of u = (\<lambda>l. credits_of u l - reserved_of u l - redeemed_of u l)"
  proof
    fix l
    show "avail_of u l = credits_of u l - reserved_of u l - redeemed_of u l"
      by (cases "led_entryType l"; cases "led_status l")
        (auto simp: avail_of_def credits_of_def reserved_of_def redeemed_of_def)
  qed
  then show ?thesis by (simp add: wallet_sums tsum_diff)
qed

text \<open>
  C3: nobody withdraws more than was credited to them. In every state reached from an empty ledger
  by requests, transitions, flags, proofs and reward effects (and steps of the rest of the program),
  every user's available balance is non-negative, so what is paid out plus what is reserved for open
  payouts is at most the sum of the available credits; and every payout request is backed by exactly
  one live reserve of its owner and amount, in the status that its own status calls for.
\<close>

theorem wallet_never_overdrawn:
  assumes "wallet_start d0" and "(wallet_step w)\<^sup>*\<^sup>* d0 d"
  shows "(\<forall>u. 0 \<le> wb_available (getWalletBalance u d)
       \<and> wb_redeemed (getWalletBalance u d) + wb_reserved (getWalletBalance u d) \<le> tsum (credits_of u) (ledgers d))
    \<and> (\<forall>r \<in> set (redemptions d). \<exists>l. live_reserves (red_id r) d = [l] \<and> led_userId l = red_userId r
         \<and> led_amount l = - red_amount r \<and> led_status l = expectedReserveStatus (red_status r))"
proof -
  note inv = wallet.reachable_inv [OF assms]
  then have rows: "wallet_rows d" and solv: "solvent d" by (auto simp: wallet_inv_def)
  have "\<exists>l. live_reserves (red_id r) d = [l] \<and> led_userId l = red_userId r
         \<and> led_amount l = - red_amount r \<and> led_status l = expectedReserveStatus (red_status r)"
    if "r \<in> set (redemptions d)" for r
  proof -
    from rows that obtain k where k: "k \<in> set (ledgers d)" "backed_by r k" by (auto simp: wallet_rows_def)
    have "led_status k \<noteq> LS_REJECTED" using k(2) by (cases "red_status r") (auto simp: backed_by_def)
    with k rows have "live_reserves (red_id r) d = [k]"
      by (intro live_reserves_singleton) (auto simp: wallet_rows_def backed_by_def)
    with k(2) show ?thesis by (auto simp: backed_by_def)
  qed
  moreover have "0 \<le> wb_available (getWalletBalance u d)
      \<and> wb_redeemed (getWalletBalance u d) + wb_reserved (getWalletBalance u d) \<le> tsum (credits_of u) (ledgers d)" for u
  proof -
    have "0 \<le> wb_available (getWalletBalance u d)" using solv by (simp add: solvent_def)
    with available_identity [of u d] show ?thesis by linarith
  qed
  ultimately show ?thesis by blast
qed

theorem wallet_never_overdrawn_witness:
  "(wallet_step sample_world)\<^sup>*\<^sup>* reserved_db requested_db \<and> 0 \<le> wb_available (getWalletBalance ''u1'' requested_db)"
  using wallet_never_overdrawn [OF sample_ledger_start requested_reachable] requested_reachable by blast

section \<open>Requests\<close>

text \<open>
  C29: what a new payout request does. It is at least the configured minimum and at most the
  available balance minus what open debit cases hold; exactly its amount moves from available to
  reserved; nothing else of any balance moves; the request starts as REQUESTED with the destination
  of the chosen account, which belongs to the user and is not disabled.
\<close>

theorem request_reserves_its_amount:
  assumes inv: "wallet_inv d" and run: "requestRedemption w actr raw d = Inr ((red, False), d')"
  shows "getMinRedemption d \<le> red_amount red
    \<and> red_amount red + heldByOpenDebitCases (act_id actr) d \<le> wb_available (getWalletBalance (act_id actr) d)
    \<and> 0 < red_amount red \<and> of_int (red_amount red) = rq_amount raw
    \<and> (\<forall>u. wb_available (getWalletBalance u d') = wb_available (getWalletBalance u d) - (if u = act_id actr then red_amount red else 0)
         \<and> wb_reserved (getWalletBalance u d') = wb_reserved (getWalletBalance u d) + (if u = act_id actr then red_amount red else 0)
         \<and> wb_redeemed (getWalletBalance u d') = wb_redeemed (getWalletBalance u d)
         \<and> wb_pending (getWalletBalance u d') = wb_pending (getWalletBalance u d))
    \<and> redemptions d' = redemptions d @ [red] \<and> red_status red = RS_REQUESTED \<and> red_userId red = act_id actr
    \<and> (\<exists>p. find_by pac_id (rq_payoutAccountId raw) (payoutAccounts d) = Some p \<and> pac_userId p = act_id actr
         \<and> pac_status p \<noteq> PA_DISABLED \<and> red_destination red = destinationSnapshotData w p REQUEST_SNAPSHOT)"
proof -
  from run obtain amt pac key d1 where
    schema: "requestRedemptionInputSchema raw = Inr (amt, pac, key)"
    and body: "request_body w (act_id actr) amt pac key (committed d) = Inr ((red, False), d1)" and d': "d' = committed d1"
    by (auto simp: requestRedemption_def result_simps)
  have amt: "0 < amt" "of_int amt = rq_amount raw" "pac = rq_payoutAccountId raw"
    using schema by (auto simp: requestRedemptionInputSchema_def result_simps rupiahAmountSchema_def split: if_splits)
  have rows: "wallet_rows (committed d)" using inv by (simp add: wallet_inv_def wallet_rows_def committed_def)
  from body rows obtain l p s ls where
    p: "find_by pac_id pac (payoutAccounts (committed d)) = Some p" "pac_userId p = act_id actr" "pac_status p \<noteq> PA_DISABLED"
    and ok: "request_refusal (act_id actr) amt (committed d) = None"
    and red: "red_userId red = act_id actr" "red_amount red = amt" "red_status red = RS_REQUESTED"
      "red_destination red = destinationSnapshotData w p REQUEST_SNAPSHOT"
    and l: "l = reserve_row w (committed d\<lparr>seq := Suc (seq (committed d))\<rparr>) (act_id actr) amt (red_id red)"
    and d1: "d1 = (committed d)\<lparr>redemptions := redemptions (committed d) @ [red], ledgers := ledgers (committed d) @ [l], seq := s, held_locks := ls\<rparr>"
    by (rule request_new_effect)
  have same: "getMinRedemption (committed d) = getMinRedemption d" "getWalletBalance u (committed d) = getWalletBalance u d"
    "heldByOpenDebitCases u (committed d) = heldByOpenDebitCases u d" for u
    by (simp_all add: getMinRedemption_def getConfigInt_def getConfig_def getWalletBalance_def heldByOpenDebitCases_def
        openDebitCases_def committed_def)
  have "getMinRedemption d \<le> amt"
    "amt + heldByOpenDebitCases (act_id actr) d \<le> wb_available (getWalletBalance (act_id actr) d)"
    using ok by (auto simp: request_refusal_def Let_def same split: if_splits)
  moreover have "avail_of u l = (if u = act_id actr then - amt else 0)" "reserved_of u l = (if u = act_id actr then amt else 0)"
    "redeemed_of u l = 0" "pending_of u l = 0" for u
    using amt by (auto simp: l reserved_of_def redeemed_of_def pending_of_def)
  ultimately show ?thesis
    using amt p red by (auto simp: wallet_sums d' d1 committed_def)
qed

theorem request_reserves_its_amount_witness:
  "wb_reserved (getWalletBalance ''u1'' requested_db) = wb_reserved (getWalletBalance ''u1'' wallet_sample) + 2000"
proof -
  have "\<exists>x. requestRedemption sample_world sample_user sample_request wallet_sample = Inr (x, requested_db)
      \<and> \<not> snd x \<and> red_amount (fst x) = 2000"
  proof -
    have "(case requestRedemption sample_world sample_user sample_request wallet_sample of
        Inr (x, _) \<Rightarrow> \<not> snd x \<and> red_amount (fst x) = 2000 | _ \<Rightarrow> False)" by code_simp
    with requested_run show ?thesis by auto
  qed
  then obtain red where run: "requestRedemption sample_world sample_user sample_request wallet_sample = Inr ((red, False), requested_db)"
    "red_amount red = 2000" by (metis prod.collapse)
  have "wallet_inv wallet_sample"
  proof -
    have "credit_typed sample_effect" by code_simp
    then have "wallet_inv credited_db"
      using credited_run applyRewardEffect_wallet_inv wallet.init_inv [OF sample_ledger_start] by blast
    then show ?thesis using wallet_inv_cong [of wallet_sample credited_db] by (simp add: wallet_sample_def)
  qed
  from request_reserves_its_amount [OF this run(1)] show ?thesis by (simp add: run(2) sample_user_def)
qed

text \<open>The text that is hashed determines amount and account.\<close>

lemma canonicalRequest_inj: "canonicalRequest a p = canonicalRequest b q \<longleftrightarrow> a = b \<and> p = q"
proof
  assume eq: "canonicalRequest a p = canonicalRequest b q"
  let ?tail = "\<lambda>p. '','' @ json_string ''payoutAccountId'' @ '':'' @ json_string p @ [CHR 0x7D]"
  from eq have chars: "show_int a @ ?tail p = show_int b @ ?tail q"
    by (simp add: canonicalRequest_def)
  have comma: "CHR '','' \<notin> set (show_int n)" for n
    using show_int_chars [of "CHR '',''" n] by (auto simp: is_digit_def)
  have take: "takeWhile (\<lambda>c. c \<noteq> CHR '','') (show_int n @ ?tail p) = show_int n" for n p
  proof -
    have "\<forall>c \<in> set (show_int n). c \<noteq> CHR '',''" using comma by auto
    then show ?thesis by (subst takeWhile_append2) auto
  qed
  have "show_int a = show_int b" using take [of a p] take [of b q] chars by metis
  then have "a = b" by (simp add: show_int_inj)
  with chars have "json_string p @ [CHR 0x7D] = json_string q @ [CHR 0x7D]" by simp
  then have "p = q" using json_string_inj by blast
  with \<open>a = b\<close> show "a = b \<and> p = q" by simp
qed simp



section \<open>The payout life cycle\<close>

text \<open>The abstract machine: what each action does to a payout, none when it is not allowed.\<close>

fun lifecycle :: "redemption_action \<Rightarrow> redemption_status \<Rightarrow> redemption_status option" where
  "lifecycle Approve RS_REQUESTED = Some RS_APPROVED"
| "lifecycle Process RS_APPROVED = Some RS_PROCESSING"
| "lifecycle Succeed RS_PROCESSING = Some RS_SUCCESS"
| "lifecycle Fail RS_REQUESTED = Some RS_FAILED"
| "lifecycle Fail RS_APPROVED = Some RS_FAILED"
| "lifecycle Fail RS_PROCESSING = Some RS_FAILED"
| "lifecycle Cancel RS_REQUESTED = Some RS_REVERSED"
| "lifecycle _ _ = None"

lemma lifecycle_rule:
  "s \<in> set (tr_from (TRANSITIONS a)) \<longleftrightarrow> lifecycle a s = Some (tr_to (TRANSITIONS a))"
  by (cases a; cases s) auto

lemma lifecycle_final: "s \<in> set SETTLED_REDEMPTION_STATUSES \<Longrightarrow> lifecycle a s = None"
  by (cases a; cases s) (auto simp: SETTLED_REDEMPTION_STATUSES_def)

lemma transition_Inr:
  assumes "transitionRedemption w actr i raw d = Inr (out, d')"
  obtains inp d1 where "transitionInputSchema raw = Inr inp" "ti_action inp = ti_action raw"
    "assertMayTransition actr (ti_action raw) = Inr ()"
    "transition_body w actr i inp (committed d) = Inr (out, d1)" "d' = committed d1"
  using assms by (auto simp: transitionRedemption_def transitionInputSchema_def result_simps)

lemma wallet_rows_committed [simp]: "wallet_rows (committed d) = wallet_rows d"
  by (simp add: wallet_rows_def committed_def)

text \<open>
  C4: every payout transition refines the abstract life cycle. A transition that is not a replay
  moves the request along an allowed edge and in the same transaction brings its reserve to the
  matching status; the user's available balance gains the amount exactly when the payout ends
  without success and is unchanged otherwise; no other request changes. A user can only cancel,
  and only a request of their own; a success needs a transfer reference or a proof stored under
  the request.
\<close>

theorem transition_refines_lifecycle:
  assumes inv: "wallet_inv d" and run: "transitionRedemption w actr i raw d = Inr (out, d')" and new: "\<not> to_idempotent out"
  shows "\<exists>r l. find_by red_id i (redemptions d) = Some r
    \<and> lifecycle (ti_action raw) (red_status r) = Some (red_status (to_redemption out))
    \<and> find_by red_id i (redemptions d') = Some (to_redemption out)
    \<and> red_amount (to_redemption out) = red_amount r \<and> red_userId (to_redemption out) = red_userId r
    \<and> live_reserves i d' = [l] \<and> led_status l = expectedReserveStatus (red_status (to_redemption out))
    \<and> (\<forall>u. wb_available (getWalletBalance u d') = wb_available (getWalletBalance u d) +
         (if u = red_userId r \<and> red_status (to_redemption out) \<in> {RS_FAILED, RS_REVERSED} then red_amount r else 0))
    \<and> (\<forall>j. j \<noteq> i \<longrightarrow> find_by red_id j (redemptions d') = find_by red_id j (redemptions d))
    \<and> (act_role actr = USER \<longrightarrow> ti_action raw = Cancel \<and> red_userId r = act_id actr)
    \<and> (ti_action raw = Succeed \<longrightarrow> red_providerReference (to_redemption out) \<noteq> None \<or> hasOwnProof r)"
proof -
  from run obtain inp d1 where act: "ti_action inp = ti_action raw" and may: "assertMayTransition actr (ti_action raw) = Inr ()"
    and body: "transition_body w actr i inp (committed d) = Inr (out, d1)" and d': "d' = committed d1"
    by (rule transition_Inr)
  have rows: "wallet_rows (committed d)" using inv by (simp add: wallet_inv_def)
  let ?to = "tr_to (TRANSITIONS (ti_action raw))"
  from body new rows obtain r l dest ls e1 where
    r: "find_by red_id i (redemptions (committed d)) = Some r" and l: "backed_by r l" "l \<in> set (ledgers (committed d))"
    and frm: "red_status r \<in> set (tr_from (TRANSITIONS (ti_action inp)))" and pend: "led_status l = LS_PENDING"
    and own: "act_role actr = USER \<longrightarrow> red_userId r = act_id actr"
    and proof_ok: "ti_action inp = Succeed \<longrightarrow> ti_providerReference inp \<noteq> None \<or> hasOwnProof r"
    and e1: "e1 = (committed d)\<lparr>held_locks := ls,
       redemptions := upd_by red_id i (transition_row actr inp (TRANSITIONS (ti_action inp)) r dest) (redemptions (committed d)),
       ledgers := upd_by led_id (led_id l) (set_status (expectedReserveStatus (tr_to (TRANSITIONS (ti_action inp))))) (ledgers (committed d))\<rparr>"
    and same: "same_wallet e1 d1"
    and out: "to_redemption out = transition_row actr inp (TRANSITIONS (ti_action inp)) r dest r"
    by (rule transition_effect)
  have tables: "redemptions (committed d) = redemptions d" "ledgers (committed d) = ledgers d" by (simp_all add: committed_def)
  have L: "ledgers d' = upd_by led_id (led_id l) (set_status (expectedReserveStatus ?to)) (ledgers d)"
    and R: "redemptions d' = upd_by red_id i (transition_row actr inp (TRANSITIONS (ti_action raw)) r dest) (redemptions d)"
    using same by (simp_all add: d' committed_def same_wallet_def e1 act)
  note r = r [unfolded tables] and l = l [unfolded tables]
  have st: "red_status (to_redemption out) = ?to" by (simp add: out act)
  have edge: "lifecycle (ti_action raw) (red_status r) = Some ?to" using frm lifecycle_rule by (simp add: act)
  have found: "find_by red_id i (redemptions d') = Some (to_redemption out)"
    using r by (simp add: R find_by_upd_by out act)
  have "wallet_inv d'" using transition_body_inv [OF body] inv by (simp add: d')
  then have "wallet_rows d'" by (simp add: wallet_inv_def)
  with load_exists [of d' "to_redemption out"] find_by_SomeD [OF found] obtain k where
    k: "backed_by (to_redemption out) k" "k \<in> set (ledgers d')" and wf': "ledger_wf (ledgers d')"
    by (auto simp: wallet_rows_def)
  have live: "live_reserves i d' = [k]"
    using k find_by_SomeD [OF found] wf'
    by (intro live_reserves_singleton) (auto simp: backed_by_def, cases "red_status (to_redemption out)", auto)
  have bal: "wb_available (getWalletBalance u d') = wb_available (getWalletBalance u d) +
      (if u = red_userId r \<and> ?to \<in> {RS_FAILED, RS_REVERSED} then red_amount r else 0)" for u
    using transition_balance [OF _ l pend L, of u] inv
    by (cases "ti_action raw") (auto simp: wallet_inv_def wallet_rows_def)
  have others: "find_by red_id j (redemptions d') = find_by red_id j (redemptions d)" if "j \<noteq> i" for j
    using that by (simp add: R find_by_upd_by)
  have user: "act_role actr = USER \<Longrightarrow> ti_action raw = Cancel" using may by (auto simp: assertMayTransition_def split: if_splits)
  have ref: "ti_action raw = Succeed \<Longrightarrow> red_providerReference (to_redemption out) \<noteq> None \<or> hasOwnProof r"
    using proof_ok by (auto simp: out act transition_row_def split: option.splits)
  show ?thesis
    by (rule exI [of _ r], rule exI [of _ k])
      (use r edge st found live k(1) bal others user own ref in \<open>auto simp: backed_by_def out\<close>)
qed

theorem transition_refines_lifecycle_witness:
  "\<exists>out. transitionRedemption sample_world sample_user requested_id (sample_act Cancel) requested_db = Inr out
     \<and> wb_available (getWalletBalance ''u1'' (snd out)) = wb_available (getWalletBalance ''u1'' requested_db) + 2000"
proof -
  have "(case transitionRedemption sample_world sample_user requested_id (sample_act Cancel) requested_db of
      Inr (out, _) \<Rightarrow> \<not> to_idempotent out \<and> red_status (to_redemption out) = RS_REVERSED | _ \<Rightarrow> False)" by code_simp
  then obtain out d' where run: "transitionRedemption sample_world sample_user requested_id (sample_act Cancel) requested_db = Inr (out, d')"
    "\<not> to_idempotent out" "red_status (to_redemption out) = RS_REVERSED"
    by (auto split: sum.splits prod.splits)
  have "(case find_by red_id requested_id (redemptions requested_db) of
      Some r \<Rightarrow> red_userId r = ''u1'' \<and> red_amount r = 2000 | None \<Rightarrow> False)" by code_simp
  with transition_refines_lifecycle [OF requested_inv run(1,2)] run show ?thesis by auto
qed

end
