(* ===== verification/Events_Props.thy ===== *)
theory Events_Props
  imports Ingest Deposits_Props Wallet_Props Guards_Props "HOL-Library.Sublist"
begin

text \<open>
  What machine events can and cannot do. Every handler is shown to be one step of a preorder
  \<open>event_safe\<close>: sessions move only along the session life cycle, an item that passed the acceptance
  point or was rejected keeps everything it was priced from and paid, recorded events stay, and the
  funding books and wallets stay in order. The locale \<open>safe_runs\<close> carries such a preorder through the
  control structure of the handlers.
\<close>

section \<open>Runs that respect a preorder\<close>

locale safe_runs =
  fixes R :: "'s \<Rightarrow> 's \<Rightarrow> bool"
  assumes R_refl: "R s s"
    and R_trans: "R s t \<Longrightarrow> R t u \<Longrightarrow> R s u"
begin

definition safe :: "('s \<Rightarrow> 's result) \<Rightarrow> bool" where
  "safe m \<longleftrightarrow> (\<forall>s s'. m s = Inr s' \<longrightarrow> R s s')"

lemma safeI: "(\<And>s s'. m s = Inr s' \<Longrightarrow> R s s') \<Longrightarrow> safe m"
  by (simp add: safe_def)

lemma safeD: "safe m \<Longrightarrow> m s = Inr s' \<Longrightarrow> R s s'"
  by (simp add: safe_def)

lemma safe_ret: "safe Inr"
  by (simp add: safe_def R_refl)

lemma safe_fail: "safe (\<lambda>_. Inl e)"
  by (simp add: safe_def)

lemma safe_bind: "safe m \<Longrightarrow> safe k \<Longrightarrow> safe (\<lambda>s. rbind (m s) k)"
  unfolding safe_def rbind_Inr_iff by (blast intro: R_trans)

lemma safe_guard: "(\<And>x. safe (k x)) \<Longrightarrow> safe (\<lambda>s. rbind (g s) (\<lambda>x. k x s))"
  by (auto simp: safe_def rbind_Inr_iff)

lemma safe_if: "safe a \<Longrightarrow> safe b \<Longrightarrow> safe (\<lambda>s. if P s then a s else b s)"
  by (auto simp: safe_def)

lemma safe_option: "safe a \<Longrightarrow> (\<And>x. safe (b x)) \<Longrightarrow> safe (\<lambda>s. case f s of None \<Rightarrow> a s | Some x \<Rightarrow> b x s)"
  by (auto simp: safe_def split: option.splits)

lemmas safe_intros = safe_ret safe_fail safe_bind safe_if safe_option

end

section \<open>The preorder of machine events\<close>

definition ev_core :: "machine_event \<Rightarrow> ident \<times> ident \<times> ident option \<times> string \<times> event_type \<times> int" where
  "ev_core e = (mev_id e, mev_machineId e, mev_sessionId e, mev_localEventId e, mev_eventType e, mev_occurredAt e)"

text \<open>What an item was priced from and what it was paid.\<close>

definition priced :: "item \<Rightarrow> (ident \<times> ident \<times> int) \<times> (int option \<times> string option \<times> rat option \<times> string option)
    \<times> (ident option \<times> int \<times> rat \<times> int) \<times> int option \<times> ident option" where
  "priced i = ((itm_sessionId i, itm_wasteTypeId i, itm_quantity i),
     (itm_measuredWeightGrams i, itm_aiDetectedType i, itm_aiConfidence i, itm_barcodeValue i),
     (itm_rewardRateId i, itm_baseRewardAmount i, itm_complianceMultiplier i, itm_rewardAmount i),
     itm_acceptedAt i, itm_acceptanceEventId i)"

text \<open>Past the acceptance point, or rejected.\<close>

definition closed_item :: "item \<Rightarrow> bool" where
  "closed_item i \<longleftrightarrow> itm_acceptanceEventId i \<noteq> None \<or> itm_status i = IS_REJECTED"

definition frozen :: "item \<Rightarrow> item \<Rightarrow> bool" where
  "frozen i i' \<longleftrightarrow> itm_id i' = itm_id i \<and> itm_sessionId i' = itm_sessionId i
     \<and> (closed_item i \<longrightarrow> priced i' = priced i
        \<and> (itm_status i = IS_REJECTED \<longrightarrow> itm_status i' = IS_REJECTED)
        \<and> (isReviewFinal i \<longrightarrow> itm_status i' = itm_status i \<and> itm_validationReasonCode i' = itm_validationReasonCode i))"

definition items_kept :: "item list \<Rightarrow> item list \<Rightarrow> bool" where
  "items_kept t t' \<longleftrightarrow> (\<exists>u v. t' = u @ v \<and> list_all2 frozen t u)"

definition event_safe :: "db \<Rightarrow> db \<Rightarrow> bool" where
  "event_safe d d' \<longleftrightarrow>
     (uniq ses_id (sessions d) \<and> uniq itm_id (items d) \<longrightarrow>
        session_moves (sessions d) (sessions d') \<and> uniq itm_id (items d') \<and> items_kept (items d) (items d'))
     \<and> prefix (map ev_core (machineEvents d)) (map ev_core (machineEvents d'))
     \<and> (funding_inv d \<longrightarrow> funding_inv d') \<and> (wallet_inv d \<longrightarrow> wallet_inv d')"

lemma frozen_refl [simp]: "frozen i i"
  by (simp add: frozen_def)

lemma frozen_trans: "frozen i j \<Longrightarrow> frozen j k \<Longrightarrow> frozen i k"
  by (auto simp: frozen_def closed_item_def isReviewFinal_def priced_def)

lemma items_kept_refl [simp]: "items_kept t t"
  unfolding items_kept_def by (intro exI [of _ t] exI [of _ "[]"]) (simp add: list.rel_refl)

lemma items_kept_append: "items_kept t (t @ v)"
  unfolding items_kept_def by (intro exI [of _ t] exI [of _ v]) (simp add: list.rel_refl)

lemma items_kept_map: "(\<And>i. i \<in> set t \<Longrightarrow> frozen i (f i)) \<Longrightarrow> items_kept t (map f t)"
  unfolding items_kept_def by (intro exI [of _ "map f t"] exI [of _ "[]"]) (simp add: list_all2_conv_all_nth)

lemma items_kept_trans:
  assumes "items_kept t u" "items_kept u v"
  shows "items_kept t v"
proof -
  from assms obtain u1 u2 v1 v2 where u: "u = u1 @ u2" "list_all2 frozen t u1" and v: "v = v1 @ v2" "list_all2 frozen u v1"
    by (auto simp: items_kept_def)
  from v(2) u(1) obtain w1 w2 where "v1 = w1 @ w2" "list_all2 frozen u1 w1"
    by (auto simp: list_all2_append1)
  moreover have "list_all2 frozen t w1"
    by (rule list_all2_trans [OF _ u(2) calculation(2)]) (rule frozen_trans)
  ultimately show ?thesis using v(1) by (auto simp: items_kept_def)
qed

lemma row_moves_trans: "row_moves a b \<Longrightarrow> row_moves b c \<Longrightarrow> row_moves a c"
  by (auto simp: row_moves_def)

lemma session_moves_trans: "session_moves t u \<Longrightarrow> session_moves u v \<Longrightarrow> session_moves t v"
  unfolding session_moves_def by (rule list_all2_trans [OF row_moves_trans])

lemma session_moves_uniq: "session_moves t u \<Longrightarrow> uniq ses_id t \<Longrightarrow> uniq ses_id u"
  using session_moves_ids [of t u] by (simp add: uniq_def)

interpretation events: safe_runs event_safe
proof
  show "event_safe s s" for s by (simp add: event_safe_def)
  show "event_safe s u" if "event_safe s t" "event_safe t u" for s t u
    using that session_moves_uniq [of "sessions s" "sessions t"]
    by (auto simp: event_safe_def intro: session_moves_trans items_kept_trans prefix_order.trans)
qed

lemmas event_refl [simp] = events.R_refl

lemma rbind_InrE:
  assumes "rbind m k = Inr y"
  obtains x where "m = Inr x" "k x = Inr y"
  using assms by (auto simp: rbind_Inr_iff)

lemma found_key: "find_by key k t = Some r \<Longrightarrow> key r = k"
  using find_by_SomeD by fastforce

text \<open>A state that agrees on everything the preorder reads.\<close>

lemma event_safe_same:
  assumes "sessions d' = sessions d" "items d' = items d" "machineEvents d' = machineEvents d"
    "ledgers d' = ledgers d" "redemptions d' = redemptions d" "funding_inv d \<Longrightarrow> funding_inv d'"
  shows "event_safe d d'"
  using assms wallet_inv_cong [of d' d] by (simp add: event_safe_def)

lemma event_safe_wallet: "same_wallet d d' \<Longrightarrow> (funding_inv d \<Longrightarrow> funding_inv d') \<Longrightarrow> event_safe d d'"
  by (rule event_safe_same) (simp_all add: same_wallet_def)

lemma event_safe_acquire [simp]: "event_safe d (acquire l d)"
  by (rule event_safe_same) simp_all

lemma same_funding:
  "funding_inv (d\<lparr>sessions := a\<rparr>) = funding_inv d" "funding_inv (d\<lparr>items := b\<rparr>) = funding_inv d"
  "funding_inv (d\<lparr>machines := c\<rparr>) = funding_inv d" "funding_inv (d\<lparr>pickups := e\<rparr>) = funding_inv d"
  "funding_inv (d\<lparr>machineEvents := f\<rparr>) = funding_inv d" "funding_inv (d\<lparr>wasteTypes := g\<rparr>) = funding_inv d"
  "funding_inv (d\<lparr>ledgers := h\<rparr>) = funding_inv d" "funding_inv (d\<lparr>cases := k\<rparr>) = funding_inv d"
  "funding_inv (d\<lparr>seq := n\<rparr>) = funding_inv d"
  by (rule funding_inv_cong; simp)+

lemma event_safe_items:
  assumes "uniq itm_id (items d) \<Longrightarrow> uniq itm_id t \<and> items_kept (items d) t"
  shows "event_safe d (d\<lparr>items := t\<rparr>)"
  using assms wallet_inv_cong [of "d\<lparr>items := t\<rparr>" d] by (simp add: event_safe_def same_funding)

lemma event_safe_sessions:
  assumes "uniq ses_id (sessions d) \<Longrightarrow> session_moves (sessions d) t"
  shows "event_safe d (d\<lparr>sessions := t\<rparr>)"
  using assms wallet_inv_cong [of "d\<lparr>sessions := t\<rparr>" d] by (simp add: event_safe_def same_funding)

section \<open>Writes of one row\<close>

lemma upd_items_kept:
  assumes "\<And>i. i \<in> set t \<Longrightarrow> itm_id i = k \<Longrightarrow> frozen i (f i)"
  shows "items_kept t (upd_by itm_id k f t)"
  unfolding upd_by_def by (rule items_kept_map) (use assms in auto)

lemma touched_frozen [simp]: "frozen i (j\<lparr>itm_updatedAt := n\<rparr>) = frozen i j"
  by (simp add: frozen_def priced_def)

lemma cas_item_safe:
  assumes "\<And>i. uniq itm_id (items d) \<Longrightarrow> find_by itm_id k (items d) = Some i \<Longrightarrow> guard i \<Longrightarrow> frozen i (f i)"
  shows "event_safe d (snd (cas_item w k guard f d))"
proof -
  let ?g = "\<lambda>r. if guard r then (f r)\<lparr>itm_updatedAt := w_now w\<rparr> else r"
  have frozen: "frozen i (?g i)" if "uniq itm_id (items d)" "i \<in> set (items d)" "itm_id i = k" for i
    using assms [of i] that find_by_uniqI [OF that(1,2)] by auto
  have "uniq itm_id (upd_by itm_id k ?g (items d))" if "uniq itm_id (items d)"
  proof -
    have "map itm_id (upd_by itm_id k ?g (items d)) = map itm_id (items d)"
      unfolding upd_by_def using frozen [OF that] by (auto simp: frozen_def)
    with that show ?thesis by (simp add: uniq_def)
  qed
  moreover have "items_kept (items d) (upd_by itm_id k ?g (items d))" if "uniq itm_id (items d)"
    by (rule upd_items_kept) (rule frozen [OF that])
  ultimately show ?thesis by (simp add: cas_item_def event_safe_items)
qed

lemma update_item_safe:
  assumes run: "update_item w k f d = Inr d'"
    and frozen: "\<And>i. uniq itm_id (items d) \<Longrightarrow> find_by itm_id k (items d) = Some i \<Longrightarrow> frozen i (f i)"
  shows "event_safe d d'"
proof -
  have d': "d' = snd (cas_item w k (\<lambda>_. True) f d)"
    using run by (auto simp: update_item_def cas_item_def result_simps)
  show ?thesis unfolding d' by (rule cas_item_safe) (rule frozen)
qed

lemma update_session_safe:
  assumes run: "update_session k f d = Inr d'"
    and moves: "\<And>s. uniq ses_id (sessions d) \<Longrightarrow> find_by ses_id k (sessions d) = Some s \<Longrightarrow> row_moves s (f s)"
  shows "event_safe d d'"
proof -
  have d': "d' = d\<lparr>sessions := upd_by ses_id k f (sessions d)\<rparr>"
    using run by (auto simp: update_session_def result_simps)
  have "row_moves s (f s)" if "uniq ses_id (sessions d)" "s \<in> set (sessions d)" "ses_id s = k" for s
    using moves [of s] that find_by_uniqI [OF that(1,2)] by simp
  then show ?thesis unfolding d' upd_by_def by (auto intro!: event_safe_sessions session_moves_map)
qed

lemma update_machine_safe: "update_machine k f d = Inr d' \<Longrightarrow> event_safe d d'"
  by (auto simp: update_machine_def result_simps same_funding intro!: event_safe_same)

lemma set_event_item_safe: "set_event_item e i d = Inr d' \<Longrightarrow> event_safe d d'"
proof -
  assume "set_event_item e i d = Inr d'"
  then have d': "d' = d\<lparr>machineEvents := upd_by mev_id e (\<lambda>r. r\<lparr>mev_depositItemId := Some i\<rparr>) (machineEvents d)\<rparr>"
    by (auto simp: set_event_item_def result_simps)
  have "map ev_core (upd_by mev_id e (\<lambda>r. r\<lparr>mev_depositItemId := Some i\<rparr>) (machineEvents d)) = map ev_core (machineEvents d)"
    by (rule map_key_upd_by) (simp add: ev_core_def)
  then show ?thesis using wallet_inv_cong [of d' d] by (simp add: event_safe_def d' same_funding)
qed

lemma maybeCreateAutoPickup_safe: "maybeCreateAutoPickup w m d = Inr d' \<Longrightarrow> event_safe d d'"
  by (auto simp: maybeCreateAutoPickup_def result_simps same_funding bump_seq_def intro!: event_safe_same split: if_splits)

section \<open>Handlers\<close>

lemma transition_from_active: "transitionSession s a = Inr n \<Longrightarrow> isActiveSession s"
  by (cases s) (auto simp: transitionSession_def canTransitionSession_def SESSION_TRANSITIONS_def isActiveSession_def
      ACTIVE_SESSION_STATUSES_def)

lemma canTransition_from_active: "canTransitionSession s a = Some n \<Longrightarrow> isActiveSession s"
  by (cases s) (auto simp: canTransitionSession_def SESSION_TRANSITIONS_def isActiveSession_def ACTIVE_SESSION_STATUSES_def)

lemma row_moves_status [simp]:
  "row_moves s (s\<lparr>ses_status := n\<rparr>) = (isActiveSession n \<longrightarrow> isActiveSession (ses_status s))"
  "row_moves s (s\<lparr>ses_status := n, ses_anomalyCount := c\<rparr>) = (isActiveSession n \<longrightarrow> isActiveSession (ses_status s))"
  "row_moves s (s\<lparr>ses_timeoutAt := t\<rparr>)"
  "row_moves s (s\<lparr>ses_closeWatermarkAt := a, ses_closeWatermarkEventCount := b\<rparr>)"
  by (simp_all add: row_moves_def)

lemma row_moves_flag [simp]: "row_moves s (flag_session s)"
  by (auto simp: flag_session_def isActiveSession_def ACTIVE_SESSION_STATUSES_def)

lemma undecided_open: "undecided i \<Longrightarrow> \<not> closed_item i"
  by (auto simp: undecided_def closed_item_def)

lemma frozen_open: "\<not> closed_item i \<Longrightarrow> frozen i j \<longleftrightarrow> itm_id j = itm_id i \<and> itm_sessionId j = itm_sessionId i"
  by (simp add: frozen_def)

lemma frozen_sensor [simp]: "frozen i (i\<lparr>itm_sensorSequence := q\<rparr>)" "frozen i (i\<lparr>itm_externalFraudFlag := b\<rparr>)"
  "frozen i (i\<lparr>itm_compactionStatus := c\<rparr>)"
  by (simp_all add: frozen_def priced_def)

lemma flagAnomaly_safe:
  assumes "flagAnomaly w s i reason d = Inr d'"
  shows "event_safe d d'"
proof -
  from assms obtain d1 where one: "(case find_by ses_id s (sessions d) of None \<Rightarrow> Inr d
      | Some x \<Rightarrow> if ses_status x \<in> {SS_COMPLETED, SS_CANCELLED, SS_EXPIRED} then Inr d else update_session s flag_session d) = Inr d1"
    and two: "(case given i of None \<Rightarrow> Inr d1 | Some k \<Rightarrow> (case find_by itm_id k (items d1) of None \<Rightarrow> Inr d1
        | Some item \<Rightarrow> if undecided item then update_item w k (flag_item reason) d1 else Inr d1)) = Inr d'"
    unfolding flagAnomaly_def by (auto simp: rbind_Inr_iff)
  have "event_safe d d1"
    using one by (auto split: option.splits if_splits elim: update_session_safe)
  moreover have "event_safe d1 d'"
    using two by (auto split: option.splits if_splits elim!: update_item_safe simp: frozen_open undecided_open flag_item_def)
  ultimately show ?thesis by (rule events.R_trans)
qed

lemma lock_item_path_safe: "lock_item_path u s i d = Inr d' \<Longrightarrow> event_safe d d'"
  by (auto simp: lock_item_path_def result_simps intro!: event_safe_same)

lemma transition_row_safe:
  assumes "find_by ses_id k (sessions d) = Some s" "transitionSession (ses_status s) a = Inr n"
    and "update_session (ses_id s) (\<lambda>r. r\<lparr>ses_status := n, ses_anomalyCount := c r\<rparr>) d = Inr d'"
  shows "event_safe d d'"
  using assms(3) by (rule update_session_safe) (use assms(1,2) found_key [OF assms(1)] transition_from_active in auto)

lemma finish_item_safe: "finish_item s d = Inr d' \<Longrightarrow> event_safe d d'"
  by (auto simp: finish_item_def result_simps split: option.splits if_splits
      elim: transition_row_safe [where c = ses_anomalyCount, simplified])

lemma move_session_safe: "move_session from act s d = Inr d' \<Longrightarrow> event_safe d d'"
  by (auto simp: move_session_def result_simps split: option.splits if_splits
      elim: transition_row_safe [where c = ses_anomalyCount, simplified])

lemma on_safe_state_safe:
  assumes "on_safe_state m s d = Inr d'"
  shows "event_safe d d'"
proof -
  from assms obtain d1 where one: "update_machine (mac_id m) (\<lambda>r. r\<lparr>mac_status := MS_ERROR\<rparr>) d = Inr d1"
    unfolding on_safe_state_def by (auto simp: rbind_Inr_iff)
  have "event_safe d1 d'"
  proof (cases "d' = d1")
    case False
    with assms one obtain k r where r: "find_by ses_id k (sessions d1) = Some r"
      and up: "update_session (ses_id r) (\<lambda>x. x\<lparr>ses_status := nullish (canTransitionSession (ses_status r) ''SAFE_STATE'') (ses_status r),
          ses_anomalyCount := ses_anomalyCount x + 1\<rparr>) d1 = Inr d'"
      unfolding on_safe_state_def by (auto split: option.splits if_splits)
    from up show ?thesis
      by (rule update_session_safe) (use r found_key [OF r] canTransition_from_active in \<open>auto simp: nullish_def split: option.splits\<close>)
  qed simp
  with update_machine_safe [OF one] show ?thesis by (rule events.R_trans)
qed

lemma handleItemRejected_safe:
  assumes "handleItemRejected w s i reason d = Inr d'"
  shows "event_safe d d'"
proof (cases "item_ref i d")
  case None
  with assms show ?thesis by (simp add: handleItemRejected_def)
next
  case (Some p)
  obtain x u where p: "p = (x, u)" by (cases p)
  from assms Some p obtain d1 d2 where d1: "lock_item_path u x i d = Inr d1" and d2: "finish_item s d1 = Inr d2"
    and d': "d' = d2 \<or> d' = snd (cas_item w i undecided (\<lambda>r. r\<lparr>itm_status := IS_REJECTED, itm_validationReasonCode := Some reason\<rparr>) d2)"
    by (auto simp: handleItemRejected_def result_simps split: option.splits if_splits)
  have "event_safe d2 d'"
    using d' by (auto intro!: cas_item_safe simp: frozen_open undecided_open)
  with lock_item_path_safe [OF d1] finish_item_safe [OF d2] show ?thesis by (blast intro: events.R_trans)
qed

lemma write_reading_keeps:
  "write_reading g l c b i = Inr j \<Longrightarrow> itm_id j = itm_id i \<and> itm_sessionId j = itm_sessionId i"
  by (auto simp: write_reading_def result_simps)

lemma recordItemEvidence_safe:
  assumes "recordItemEvidence w i e d = Inr (x, d')"
  shows "event_safe d d'"
proof (cases "item_ref i d")
  case None
  with assms show ?thesis by (simp add: recordItemEvidence_def)
next
  case (Some p)
  obtain s u where p: "p = (s, u)" by (cases p)
  from assms Some p obtain d1 where d1: "lock_item_path u s i d = Inr d1"
    and rest: "(case find_by itm_id i (items d1) of None \<Rightarrow> Inr (False, d1) | Some item \<Rightarrow>
      (case e of Measurement g l c b \<Rightarrow> if \<not> undecided item then Inr (False, d1)
          else rbind (write_reading g l c b item) (\<lambda>written. let (count, d2) = cas_item w i undecided (\<lambda>_. written) d1 in Inr (count = 1, d2))
       | Compaction st \<Rightarrow> if \<not> compactable item then Inr (False, d1)
          else let (count, d2) = cas_item w i compactable (\<lambda>r. r\<lparr>itm_compactionStatus := st\<rparr>) d1 in Inr (count = 1, d2))) = Inr (x, d')"
    by (auto simp: recordItemEvidence_def rbind_Inr_iff)
  have "event_safe d1 d'"
  proof (cases "find_by itm_id i (items d1)")
    case None
    with rest show ?thesis by simp
  next
    case item: (Some item)
    show ?thesis
    proof (cases e)
      case (Measurement g l c b)
      show ?thesis
      proof (cases "undecided item")
        case True
        with rest item Measurement obtain j where j: "write_reading g l c b item = Inr j"
          and d': "d' = snd (cas_item w i undecided (\<lambda>_. j) d1)"
          by (auto simp: rbind_Inr_iff split_def Let_def)
        from write_reading_keeps [OF j] item show ?thesis
          unfolding d' by (intro cas_item_safe) (auto simp: frozen_open undecided_open)
      qed (use rest item Measurement in simp)
    next
      case (Compaction st)
      with rest item have "d' = d1 \<or> d' = snd (cas_item w i compactable (\<lambda>r. r\<lparr>itm_compactionStatus := st\<rparr>) d1)"
        by (auto simp: split_def Let_def split: if_splits)
      then show ?thesis by (auto intro!: cas_item_safe)
    qed
  qed
  with lock_item_path_safe [OF d1] show ?thesis by (rule events.R_trans)
qed

section \<open>Fraud holds\<close>

lemma openCase_safe:
  assumes "openRewardReconciliationCase w k d = Inr (c, d')"
  shows "event_safe d d' \<and> ledgers d' = ledgers d"
proof (cases "find_by rc_businessKey (ki_businessKey k) (cases d)")
  case None
  with assms obtain t where "d' = bump_seq (d\<lparr>cases := t\<rparr>)"
    by (auto simp: openRewardReconciliationCase_def result_simps Let_def)
  then show ?thesis by (auto simp: bump_seq_def same_funding intro!: event_safe_same)
qed (use assms in \<open>simp add: openRewardReconciliationCase_def\<close>)

text \<open>Holding an available earning moves its amount from available to pending.\<close>

lemma avail_held:
  assumes "led_entryType r = EARN" "led_status r = LS_AVAILABLE"
  shows "avail_of u (set_status LS_PENDING r) = avail_of u r - (if led_userId r = u then led_amount r else 0)"
    and "pending_of u (set_status LS_PENDING r) = pending_of u r + (if led_userId r = u then led_amount r else 0)"
  using assms by (simp_all add: avail_of_def pending_of_def)

lemma softens_refl: "softens r r"
  unfolding softens_def by (intro exI [of _ "led_status r"]) simp

lemma softens_set: "led_status r \<notin> {LS_REVERSED, LS_REJECTED} \<Longrightarrow> softens r (set_status s r)"
  unfolding softens_def set_status_def by (intro exI [of _ s]) simp

lemma hold_row:
  assumes wf: "ledger_wf (ledgers d)" and r: "r \<in> set (ledgers d)" "led_entryType r = EARN" "led_status r = LS_AVAILABLE"
  defines "d' \<equiv> d\<lparr>ledgers := upd_by led_id (led_id r) (set_status LS_PENDING) (ledgers d)\<rparr>"
  shows "ledger_wf (ledgers d')"
    and "wb_available (getWalletBalance u d') = wb_available (getWalletBalance u d) - (if led_userId r = u then led_amount r else 0)"
    and "wb_pending (getWalletBalance u d') = wb_pending (getWalletBalance u d) + (if led_userId r = u then led_amount r else 0)"
    and "wallet_rows d \<Longrightarrow> wallet_rows d'"
proof -
  have uniq: "uniq led_id (ledgers d)" by (rule ledger_wf_uniq [OF wf])
  have only: "x = r" if "x \<in> set (ledgers d)" "led_id x = led_id r" for x
    using uniq_row [OF uniq that(1) r(1) that(2)] .
  show wf': "ledger_wf (ledgers d')"
    unfolding d'_def upd_by_def
    by (simp, rule ledger_wf_map [OF wf]) (use r in \<open>auto simp: softens_refl intro!: softens_set dest: only\<close>)
  have found: "find_by led_id (led_id r) (ledgers d) = Some r" by (rule find_by_uniqI [OF uniq r(1)])
  show "wb_available (getWalletBalance u d') = wb_available (getWalletBalance u d) - (if led_userId r = u then led_amount r else 0)"
    using tsum_upd_by [OF uniq found, of "avail_of u" "set_status LS_PENDING"] avail_held [OF r(2,3)] by (simp add: wallet_sums d'_def)
  show "wb_pending (getWalletBalance u d') = wb_pending (getWalletBalance u d) + (if led_userId r = u then led_amount r else 0)"
    using tsum_upd_by [OF uniq found, of "pending_of u" "set_status LS_PENDING"] avail_held [OF r(2,3)] by (simp add: wallet_sums d'_def)
  show "wallet_rows d'" if "wallet_rows d"
  proof -
    have other: "x \<in> set (ledgers d')" if "x \<in> set (ledgers d)" "led_entryType x \<noteq> EARN" for x
      using that only r(2) by (auto simp: d'_def set_upd_by intro!: image_eqI [of _ _ x])
    have old: "x \<in> set (ledgers d)" if "x \<in> set (ledgers d')" "led_entryType x \<noteq> EARN" for x
      using that r(2) by (auto simp: d'_def set_upd_by set_status_def dest: only split: if_splits)
    have reserve: "led_entryType x \<noteq> EARN" if "reserve_for i x" for i x
      using that by (simp add: reserve_for_def)
    have red: "redemptions d' = redemptions d" by (simp add: d'_def)
    have "\<exists>l \<in> set (ledgers d'). backed_by q l" if "q \<in> set (redemptions d)" "\<exists>l \<in> set (ledgers d). backed_by q l" for q
      using that(2) other reserve by (auto simp: backed_by_def)
    moreover have "reserve_for i l \<longrightarrow> i \<in> red_id ` set (redemptions d)" if "l \<in> set (ledgers d')" for i l
      using \<open>wallet_rows d\<close> old [OF that] reserve unfolding wallet_rows_def by blast
    ultimately show ?thesis
      using \<open>wallet_rows d\<close> wf' red unfolding wallet_rows_def by (simp add: Ball_def)
  qed
qed

lemma openCase_tables:
  assumes "openRewardReconciliationCase w k d = Inr (c, d')"
  shows "sessions d' = sessions d" "items d' = items d" "machineEvents d' = machineEvents d" "ledgers d' = ledgers d"
    "redemptions d' = redemptions d" "funding_inv d' = funding_inv d"
  using assms
  by (auto simp: openRewardReconciliationCase_def result_simps Let_def bump_seq_def same_funding split: option.splits)

lemma hold_earnings_tables:
  assumes "hold_earnings w i u es h c d = Inr (x, d')"
  shows "sessions d' = sessions d \<and> items d' = items d \<and> machineEvents d' = machineEvents d
    \<and> redemptions d' = redemptions d \<and> funding_inv d' = funding_inv d"
  using assms
proof (induction w i u es h c d rule: hold_earnings.induct)
  case (2 w i u e es h c d)
  show ?case
  proof (cases "wb_available (getWalletBalance u d) \<ge> led_amount e")
    case True
    with "2.prems" "2.IH"(1) show ?thesis by (auto simp: same_funding split: if_splits)
  next
    case False
    with "2.prems" obtain k d1 where case1: "openRewardReconciliationCase w (fraud_case i u e) d = Inr (k, d1)"
      and rest: "hold_earnings w i u es h (Some (rc_id k)) d1 = Inr (x, d')"
      by (auto simp: result_simps)
    from "2.IH"(2) [OF False case1 refl rest] openCase_tables [OF case1] show ?thesis by simp
  qed
qed simp

lemma hold_earnings_nonneg:
  assumes "hold_earnings w i u es h c d = Inr (x, d')" "earnings_nonneg (ledgers d)"
  shows "earnings_nonneg (ledgers d')"
  using assms
proof (induction w i u es h c d rule: hold_earnings.induct)
  case (2 w i u e es h c d)
  show ?case
  proof (cases "wb_available (getWalletBalance u d) \<ge> led_amount e")
    case True
    with "2.prems" "2.IH"(1) show ?thesis by (auto simp: earnings_nonneg_upd split: if_splits)
  next
    case False
    with "2.prems" obtain k d1 where case1: "openRewardReconciliationCase w (fraud_case i u e) d = Inr (k, d1)"
      and rest: "hold_earnings w i u es h (Some (rc_id k)) d1 = Inr (x, d')"
      by (auto simp: result_simps)
    from "2.IH"(2) [OF False case1 refl rest] openCase_tables [OF case1] "2.prems"(2) show ?thesis by simp
  qed
qed simp

lemma hold_earnings_money:
  assumes "hold_earnings w i u es h c d = Inr ((h', c'), d')" and "ledger_wf (ledgers d)" and "distinct (map led_id es)"
    and "\<forall>e \<in> set es. e \<in> set (ledgers d) \<and> led_entryType e = EARN \<and> led_status e = LS_AVAILABLE \<and> led_userId e = u"
  shows "ledger_wf (ledgers d') \<and> (wallet_rows d \<longrightarrow> wallet_rows d')
    \<and> (\<forall>v. wb_available (getWalletBalance v d') = wb_available (getWalletBalance v d) - (if v = u then h' - h else 0)
         \<and> wb_pending (getWalletBalance v d') = wb_pending (getWalletBalance v d) + (if v = u then h' - h else 0))
    \<and> (0 \<le> wb_available (getWalletBalance u d) \<longrightarrow> 0 \<le> wb_available (getWalletBalance u d'))"
  using assms
proof (induction w i u es h c d rule: hold_earnings.induct)
  case (2 w i u e es h c d)
  show ?case
  proof (cases "wb_available (getWalletBalance u d) \<ge> led_amount e")
    case True
    let ?d = "d\<lparr>ledgers := upd_by led_id (led_id e) (set_status LS_PENDING) (ledgers d)\<rparr>"
    have e: "e \<in> set (ledgers d)" "led_entryType e = EARN" "led_status e = LS_AVAILABLE" "led_userId e = u" using "2.prems"(4) by auto
    note row = hold_row [OF "2.prems"(2) e(1-3)]
    have "x \<in> set (ledgers ?d)" if "x \<in> set es" for x
      using that "2.prems"(3,4) by (auto simp: set_upd_by intro!: image_eqI [of _ _ x])
    with "2.prems"(3,4) have others: "\<forall>x \<in> set es. x \<in> set (ledgers ?d) \<and> led_entryType x = EARN \<and> led_status x = LS_AVAILABLE \<and> led_userId x = u"
      by simp
    from True "2.prems"(1) have one: "\<not> length (filter (\<lambda>r. led_id r = led_id e \<and> led_status r = LS_AVAILABLE) (ledgers d)) \<noteq> 1"
      and rest: "hold_earnings w i u es (h + led_amount e) c ?d = Inr ((h', c'), d')"
      by (auto split: if_splits)
    from "2.IH"(1) [OF True one rest row(1)] "2.prems"(3) others True row(2-4) e(4) show ?thesis by auto
  next
    case False
    with "2.prems"(1) obtain k d1 where case1: "openRewardReconciliationCase w (fraud_case i u e) d = Inr (k, d1)"
      and rest: "hold_earnings w i u es h (Some (rc_id k)) d1 = Inr ((h', c'), d')"
      by (auto simp: result_simps)
    note tables = openCase_tables [OF case1]
    have "wallet_rows d1 = wallet_rows d" using tables by (simp add: wallet_rows_def)
    moreover have "getWalletBalance v d1 = getWalletBalance v d" for v using tables by (simp add: getWalletBalance_def)
    ultimately show ?thesis
      using "2.IH"(2) [OF False case1 refl rest] "2.prems"(2-4) tables(4) by auto
  qed
qed simp

lemma item_earnings_rows:
  assumes "ledger_wf (ledgers d)"
  shows "distinct (map led_id (item_earnings i u d))"
    and "\<forall>e \<in> set (item_earnings i u d). e \<in> set (ledgers d) \<and> led_entryType e = EARN \<and> led_status e = LS_AVAILABLE \<and> led_userId e = u"
  using ledger_wf_uniq [OF assms] by (auto simp: item_earnings_def uniq_def distinct_map intro: inj_on_subset)

lemma frozen_fraud: "itm_status i \<noteq> IS_REJECTED \<Longrightarrow> \<not> isReviewFinal i \<Longrightarrow> frozen i (fraud_item reason i)"
  by (simp add: frozen_def fraud_item_def priced_def)

lemma mark_tables [simp]:
  "sessions (markCommitReviewPending k d) = sessions d" "items (markCommitReviewPending k d) = items d"
  "machineEvents (markCommitReviewPending k d) = machineEvents d" "ledgers (markCommitReviewPending k d) = ledgers d"
  "redemptions (markCommitReviewPending k d) = redemptions d" "getWalletBalance u (markCommitReviewPending k d) = getWalletBalance u d"
  by (simp_all add: markCommitReviewPending_def getWalletBalance_def)

lemma hold_locked_cases:
  assumes "hold_locked w i s u reason d = Inr (res, d')"
  obtains (missing) "res = None" "d' = d"
  | (flagged) item where "find_by itm_id i (items d) = Some item" "itm_status item = IS_REJECTED \<or> isReviewFinal item"
      "update_item w i (\<lambda>r. r\<lparr>itm_externalFraudFlag := True\<rparr>) d = Inr d'"
      "res = Some \<lparr>fr_sessionId = s, fr_decided = True, fr_heldAmount = 0, fr_caseId = None\<rparr>"
  | (held) item d1 h c where "find_by itm_id i (items d) = Some item" "itm_status item \<noteq> IS_REJECTED" "\<not> isReviewFinal item"
      "update_item w i (fraud_item reason) d = Inr d1"
      "hold_earnings w i u (item_earnings i u (markCommitReviewPending (depositItemEarnKey i) d1)) 0 None
         (markCommitReviewPending (depositItemEarnKey i) d1) = Inr ((h, c), d')"
      "res = Some \<lparr>fr_sessionId = s, fr_decided = False, fr_heldAmount = h, fr_caseId = c\<rparr>"
proof (cases "find_by itm_id i (items d)")
  case None
  with assms missing show ?thesis by (simp add: hold_locked_def)
next
  case (Some item)
  show ?thesis
  proof (cases "itm_status item = IS_REJECTED \<or> isReviewFinal item")
    case True
    with assms Some flagged show ?thesis by (auto simp: hold_locked_def rbind_Inr_iff)
  next
    case False
    with assms Some held show ?thesis by (auto simp: hold_locked_def rbind_Inr_iff Let_def split_def)
  qed
qed

text \<open>The money of a hold: what was held left the available balance and became pending.\<close>

lemma hold_locked_money:
  assumes run: "hold_locked w i s u reason d = Inr (Some res, d')" and wf: "ledger_wf (ledgers d)"
  shows "ledger_wf (ledgers d') \<and> (wallet_rows d \<longrightarrow> wallet_rows d')
    \<and> (\<forall>v. wb_available (getWalletBalance v d') = wb_available (getWalletBalance v d) - (if v = u then fr_heldAmount res else 0)
         \<and> wb_pending (getWalletBalance v d') = wb_pending (getWalletBalance v d) + (if v = u then fr_heldAmount res else 0))
    \<and> (0 \<le> wb_available (getWalletBalance u d) \<longrightarrow> 0 \<le> wb_available (getWalletBalance u d'))"
  using run
proof (cases rule: hold_locked_cases)
  case (flagged item)
  then have "ledgers d' = ledgers d \<and> redemptions d' = redemptions d" by (auto simp: update_item_def result_simps)
  with flagged wf show ?thesis by (auto simp: wallet_rows_def wallet_sums)
next
  case (held item d1 h c)
  let ?d = "markCommitReviewPending (depositItemEarnKey i) d1"
  have d1: "ledgers d1 = ledgers d" "redemptions d1 = redemptions d" using held(4) by (auto simp: update_item_def result_simps)
  then have same: "getWalletBalance v ?d = getWalletBalance v d" "wallet_rows ?d = wallet_rows d" for v
    by (simp_all add: getWalletBalance_def wallet_rows_def)
  have wf1: "ledger_wf (ledgers ?d)" using wf d1 by simp
  from hold_earnings_money [OF held(5) wf1 item_earnings_rows [OF wf1]] held(6) show ?thesis
    unfolding same by auto
qed simp

lemma hold_locked_safe:
  assumes run: "hold_locked w i s u reason d = Inr (res, d')"
  shows "event_safe d d'"
  using run
proof (cases rule: hold_locked_cases)
  case (flagged item)
  from flagged(3) show ?thesis by (rule update_item_safe) simp
next
  case (held item d1 h c)
  have one: "event_safe d d1"
    using held(4) by (rule update_item_safe) (use held(1-3) in \<open>simp add: frozen_fraud\<close>)
  note tables = hold_earnings_tables [OF held(5)]
  have "ledgers d1 = ledgers d" using held(4) by (auto simp: update_item_def result_simps)
  then have "earnings_nonneg (ledgers d) \<Longrightarrow> earnings_nonneg (ledgers d')" using hold_earnings_nonneg [OF held(5)] by simp
  then have "wallet_inv d'" if "wallet_inv d"
    using hold_locked_money [OF run [unfolded held(6)]] that
    unfolding wallet_inv_def solvent_def wallet_rows_def by auto
  moreover have "funding_inv d'" if "funding_inv d"
  proof -
    have "funding_inv d1" using one that by (simp add: event_safe_def)
    then show ?thesis using markCommitReviewPending_inv [of d1] tables by simp
  qed
  ultimately show ?thesis
    using one tables by (simp add: event_safe_def)
qed simp

lemma holdItemForFraud_safe:
  assumes "holdItemForFraud w i reason d = Inr (res, d')"
  shows "event_safe d d'"
  using assms
  by (auto simp: holdItemForFraud_def result_simps split: option.splits prod.splits
      dest!: lock_item_path_safe hold_locked_safe intro: events.R_trans)

section \<open>The acceptance point\<close>

lemma applyRewardEffect_tables:
  assumes "applyRewardEffect w inp d = Inr (res, d')"
  shows "sessions d' = sessions d \<and> items d' = items d \<and> machineEvents d' = machineEvents d"
  using assms
proof (cases rule: applyRewardEffect_Inr)
  case (credited fc d2)
  from credited(7) show ?thesis unfolding credited(10) by (simp add: bump_seq_def same_wallet_def)
qed (auto simp: same_wallet_def)

lemma creditReward_safe:
  assumes "creditReward w inp d = Inr (x, d')" "credit_typed inp"
  shows "event_safe d d'"
proof -
  from assms(1) obtain res where run: "applyRewardEffect w inp d = Inr (res, d')"
    by (auto simp: creditReward_def result_simps)
  show ?thesis
    using applyRewardEffect_tables [OF run] applyRewardEffect_funding_inv [OF run] applyRewardEffect_wallet_inv [OF run assms(2)]
    by (auto simp: event_safe_def)
qed

lemma decideReward_ledger: "decideReward inp = Inr dec \<Longrightarrow> dec_ledgerStatus dec \<in> {LS_AVAILABLE, LS_PENDING}"
  by (auto simp: decideReward_def Let_def split: if_splits)

lemma acceptance_credit_typed: "acceptance_decision v = Inr dec \<Longrightarrow> credit_typed (acceptance_credit v dec org)"
  using decideReward_ledger
  by (auto simp: credit_typed_def acceptance_credit_def Let_def effect_type_def acceptance_decision_def)

lemma advance_session_safe:
  assumes run: "advance_session s st d = Inr d'" and s: "find_by ses_id k (sessions d) = Some s"
  shows "event_safe d d'"
proof (cases "ses_status s = SS_PROCESSING_ITEM")
  case True
  with run obtain n where n: "transitionSession (ses_status s) (if st = R_REVIEW then ''ANOMALY'' else ''ITEM_DONE'') = Inr n"
    and up: "update_session (ses_id s) (\<lambda>r. r\<lparr>ses_status := n,
        ses_anomalyCount := (if st = R_REVIEW then ses_anomalyCount r + 1 else ses_anomalyCount r)\<rparr>) d = Inr d'"
    unfolding advance_session_def by (auto simp: rbind_Inr_iff simp del: if_split)
  from transition_row_safe [OF s n up] show ?thesis .
qed (use run in \<open>simp add: advance_session_def\<close>)

lemma accepted_item_ids [simp]:
  "itm_id (accepted_item w v dec e hc i) = itm_id i" "itm_sessionId (accepted_item w v dec e hc i) = itm_sessionId i"
  by (simp_all add: accepted_item_def)

lemma write_acceptance_safe:
  assumes run: "write_acceptance w m v dec e d = Inr d'" and dec: "acceptance_decision v = Inr dec"
    and s: "find_by ses_id k (sessions d) = Some (av_session v)"
  shows "event_safe d d'"
proof -
  let ?d1 = "snd (cas_item w (itm_id (av_item v)) undecided (accepted_item w v dec e (mac_hasCompactor m)) d)"
  from run obtain d2 where d2: "d2 = ?d1 \<or> (\<exists>x. creditReward w (acceptance_credit v dec (mac_organizationId m)) ?d1 = Inr (x, d2))"
    and adv: "advance_session (av_session v) (dec_status dec) d2 = Inr d'"
    by (auto simp: write_acceptance_def Let_def split_def rbind_Inr_iff split: if_splits)
  have one: "event_safe d ?d1" by (rule cas_item_safe) (simp add: frozen_open undecided_open)
  have two: "event_safe ?d1 d2" using d2 creditReward_safe [OF _ acceptance_credit_typed [OF dec]] by auto
  have "sessions ?d1 = sessions d" by (simp add: cas_item_def)
  moreover have "sessions d2 = sessions ?d1"
    using d2 applyRewardEffect_tables by (auto simp: creditReward_def result_simps)
  ultimately have "find_by ses_id k (sessions d2) = Some (av_session v)" using s by simp
  from advance_session_safe [OF adv this] one two show ?thesis by (blast intro: events.R_trans)
qed

lemma view_of_fields [simp]:
  "av_session (view_of w m s i t e d) = s" "av_item (view_of w m s i t e d) = i" "av_wasteType (view_of w m s i t e d) = t"
  by (simp_all add: view_of_def Let_def)

lemma accept_locked_cases:
  assumes "accept_locked w m ref i e d = Inr d'"
  obtains (untouched) "d' = d"
  | (written) session item wt dec where "find_by ses_id (ses_id ref) (sessions d) = Some session"
      "find_by itm_id i (items d) = Some item" "itm_sessionId item = ses_id ref" "undecided item"
      "find_by wt_id (itm_wasteTypeId item) (wasteTypes d) = Some wt"
      "ses_userId session = ses_userId ref" "ses_campaignId session = ses_campaignId ref"
      "acceptance_decision (view_of w m session item wt e d) = Inr dec"
      "write_acceptance w m (view_of w m session item wt e d) dec e d = Inr d'"
proof (cases "d' = d")
  case False
  with assms show ?thesis
    by (auto simp: accept_locked_def result_simps Let_def split: option.splits if_splits intro: written)
qed (rule untouched)

lemma accept_locked_safe:
  assumes "accept_locked w m ref i e d = Inr d'"
  shows "event_safe d d'"
  using assms
proof (cases rule: accept_locked_cases)
  case (written session item wt dec)
  from written(9,8) show ?thesis by (rule write_acceptance_safe) (simp, rule written(1))
qed simp

lemma acceptance_locks_safe:
  assumes "acceptance_locks w m ref i d = Inr d'"
  shows "event_safe d d'" and "same_wallet d d'"
proof -
  from assms obtain a d2 d3 where acc: "lockFundingAccountForOrganization w (mac_organizationId m) (acquire (LUser (ses_userId ref)) d) = Inr (a, d2)"
    and cmp: "lockCampaignOpt (given (ses_campaignId ref)) d2 = Inr d3"
    and d': "d' = acquire (LDepositItem i) (acquire (LDepositSession (ses_id ref)) d3)"
    by (auto simp: acceptance_locks_def result_simps)
  from lockCampaignOpt_Inr [OF cmp] obtain ls where d3: "d3 = d2\<lparr>held_locks := ls\<rparr>" using committed_fields by blast
  show same: "same_wallet d d'"
    using lockFundingAccountForOrganization_frame [OF acc] by (simp add: d' d3)
  have "funding_inv d2" if "funding_inv d"
    using lockFundingAccountForOrganization_inv [OF acc] that by simp
  then show "event_safe d d'" by (intro event_safe_wallet [OF same]) (simp add: d' d3)
qed

lemma handleAcceptance_safe:
  assumes "handleAcceptance w m s i e d = Inr d'"
  shows "event_safe d d'"
  using assms
  by (auto simp: handleAcceptance_def result_simps split: option.splits if_splits
      dest!: acceptance_locks_safe(1) accept_locked_safe intro: events.R_trans)

section \<open>The close watermark\<close>

lemma apply_release_frame: "apply_release w r n opts d = Inr d' \<Longrightarrow> same_wallet d d'"
  by (auto simp: apply_release_def result_simps split: if_splits dest!: bumpAccount_frame bumpCampaign_frame
      intro: same_wallet_trans)

lemma releaseUnusedRewardBudget_frame:
  assumes "releaseUnusedRewardBudget w i n opts d = Inr (x, d')"
  shows "same_wallet d d'"
proof -
  from assms obtain ref ls where "release_locked w ref n opts (d\<lparr>held_locks := ls\<rparr>) = Inr (x, d')"
    by (auto simp: releaseUnusedRewardBudget_def assertRupiah_def result_simps elim: with_funding_locks_Inr)
  then show ?thesis
    by (auto simp: release_locked_def result_simps Let_def split: option.splits if_splits dest!: apply_release_frame)
qed

text \<open>A release under a new key gives back exactly its amount.\<close>

lemma release_new:
  assumes run: "releaseUnusedRewardBudget w i amount opts d = Inr ((n, replay), d')" and inv: "funding_inv d"
    and r: "find_by rsv_id i (reservations d) = Some r" "rsv_status r \<noteq> RES_RELEASED"
    and amount: "0 \<le> amount" "amount \<le> rsv_remainingRupiah r" "ro_close opts \<Longrightarrow> amount = rsv_remainingRupiah r"
    and key: "ro_businessKey opts = Some k" "find_by rel_businessKey k (releases d) = None"
  shows "n = amount \<and> funding_inv d' \<and> acct_shift (rsv_accountId r) 0 (- n) (accounts d) (accounts d')
    \<and> reservations d' = upd_by rsv_id i (release_reservation w n opts) (reservations d)
    \<and> find_by rel_businessKey k (releases d') \<noteq> None"
proof -
  from run obtain ls where locked: "release_locked w r amount opts (d\<lparr>held_locks := ls\<rparr>) = Inr ((n, replay), d')"
    using r(1) by (auto simp: releaseUnusedRewardBudget_def assertRupiah_def result_simps elim: with_funding_locks_Inr)
  have id: "rsv_id r = i" using find_by_SomeD [OF r(1)] by simp
  have min: "min amount (rsv_remainingRupiah r) = amount" using amount by simp
  from locked key r id min obtain d1 where d1: "apply_release w r amount opts (d\<lparr>held_locks := ls\<rparr>) = Inr d1" and n: "n = amount"
    and d': "d' = bump_seq (d1\<lparr>releases := releases d1 @ [new_release w d1 r amount opts k]\<rparr>)"
    by (auto simp: release_locked_def find_or_throw_def Let_def result_simps)
  from apply_release_Inr [OF d1 amount(1) r(2)] obtain X Y where
    d1': "d1 = d\<lparr>held_locks := ls, accounts := X, campaigns := Y,
      reservations := upd_by rsv_id i (release_reservation w amount opts) (reservations d)\<rparr>"
    and X: "acct_shift (rsv_accountId r) 0 (- amount) (accounts d) X" by (auto simp: id)
  have "funding_inv d'" using run inv by (rule releaseUnusedRewardBudget_inv) (use r amount(3) in simp)
  moreover have "find_by rel_businessKey k (releases d') \<noteq> None"
    by (simp add: d' bump_seq_def find_by_None_iff new_release_def)
  ultimately show ?thesis using n d1' X by (simp add: d' bump_seq_def)
qed

lemma reservation_row:
  assumes "funding_inv d" "findReservationByKey k d = Some r"
  shows "find_by rsv_id (rsv_id r) (reservations d) = Some r" "0 \<le> rsv_remainingRupiah r"
  using assms find_by_SomeD [OF assms(2) [unfolded findReservationByKey_def]]
  by (auto simp: funding_inv_def keys_unique_def funding_rows_def reservation_inv_def intro!: find_by_uniqI)

lemma exposure_nonneg: "fst (sessionReviewExposure sid d) = Some e \<Longrightarrow> 0 \<le> e"
proof -
  have "0 \<le> foldl (\<lambda>s i. s + item_exposure cap d i) n its" if "0 \<le> n" for n cap its
    using that by (induction its arbitrary: n) (auto simp: item_exposure_def)
  moreover assume "fst (sessionReviewExposure sid d) = Some e"
  ultimately show ?thesis by (auto simp: sessionReviewExposure_def Let_def split: option.splits if_splits)
qed

lemma kept_bounds: "0 \<le> rsv_remainingRupiah r \<Longrightarrow> 0 \<le> kept_for_review r sid d \<and> kept_for_review r sid d \<le> rsv_remainingRupiah r"
  using exposure_nonneg by (auto simp: kept_for_review_def min_def split: option.splits)

lemma watermark_release_safe:
  assumes "watermark_release w sid ref d = Inr (n, d')"
  shows "event_safe d d'"
proof (cases "d' = d")
  case False
  with assms obtain r replay where r: "findReservationByKey (sessionAdmissionKey sid) d = Some r"
    and rel: "releaseUnusedRewardBudget w (rsv_id r) (rsv_remainingRupiah r - kept_for_review r sid d)
      \<lparr>ro_close = (kept_for_review r sid d = 0), ro_releasedById = None, ro_reason = Some CLOSE_WATERMARK_RELEASE_REASON,
       ro_businessKey = Some (sessionCloseWatermarkKey sid)\<rparr> d = Inr ((n, replay), d')"
    by (auto simp: watermark_release_def result_simps Let_def split: option.splits if_splits)
  show ?thesis
  proof (rule event_safe_wallet [OF releaseUnusedRewardBudget_frame [OF rel]])
    assume inv: "funding_inv d"
    show "funding_inv d'"
      using rel inv by (rule releaseUnusedRewardBudget_inv) (use reservation_row [OF inv r] in simp)
  qed
qed simp

lemma expire_frame:
  assumes "expireTimedOutSessions w ids idle now d = Inr (es, d')"
  shows "\<exists>t u ls. d' = d\<lparr>held_locks := ls, items := t, sessions := u\<rparr>"
proof -
  let ?ids = "sort (distinct_first ids)"
  from assms obtain d1 where d1: "lock_sessions ?ids d = Inr d1"
    and rest: "(let closing = closing_sessions ?ids idle now d1 in
      if closing = [] then Inr ([], d1)
      else let un = undecided_items (map ses_id closing) d1 in
        rbind (lock_items (map itm_id un) d1) (\<lambda>d2. let (held, d3) = hold_items w un d2 in
        rbind (close_sessions now (map ses_id closing) d3) (\<lambda>d4.
        Inr (map (\<lambda>s. \<lparr>exp_sessionId = ses_id s, exp_userId = ses_userId s,
                exp_heldItemIds = map snd (filter (\<lambda>h. fst h = ses_id s) held)\<rparr>) closing, d4)))) = Inr (es, d')"
    by (auto simp: expireTimedOutSessions_def Let_def rbind_Inr_iff)
  from lock_sessions_Inr [OF d1] obtain ls where ls: "d1 = d\<lparr>held_locks := ls\<rparr>" by blast
  show ?thesis
  proof (cases "closing_sessions ?ids idle now d1 = []")
    case True
    with rest ls have "d' = d\<lparr>held_locks := ls\<rparr>" by simp
    then have "d' = d\<lparr>held_locks := ls, items := items d, sessions := sessions d\<rparr>" by (cases d) simp
    then show ?thesis by blast
  next
    case False
    let ?un = "undecided_items (map ses_id (closing_sessions ?ids idle now d1)) d1"
    from rest False obtain d2 where d2: "lock_items (map itm_id ?un) d1 = Inr d2"
      and close: "close_sessions now (map ses_id (closing_sessions ?ids idle now d1)) (snd (hold_items w ?un d2)) = Inr d'"
      by (auto simp: Let_def rbind_Inr_iff split_def)
    from lock_items_Inr [OF d2] obtain ls2 where "d2 = d1\<lparr>held_locks := ls2\<rparr>" by blast
    moreover from hold_items_frame obtain t where "snd (hold_items w ?un d2) = d2\<lparr>items := t\<rparr>" by blast
    ultimately have "\<exists>u. d' = d\<lparr>held_locks := ls2, items := t, sessions := u\<rparr>"
      using close_sessions_Inr [OF close] ls by auto
    then show ?thesis by blast
  qed
qed

lemma expire_safe:
  assumes run: "expireTimedOutSessions w ids idle now d = Inr (es, d')"
  shows "event_safe d d'"
proof -
  from expire_frame [OF run] obtain t u ls where d': "d' = d\<lparr>held_locks := ls, items := t, sessions := u\<rparr>" by blast
  have "session_moves (sessions d) (sessions d') \<and> uniq itm_id (items d') \<and> items_kept (items d) (items d')"
    if "uniq ses_id (sessions d)" "uniq itm_id (items d)"
  proof -
    let ?f = "\<lambda>i. if itm_sessionId i \<in> exp_sessionId ` set es \<and> itm_status i = IS_PENDING \<and> itm_acceptanceEventId i = None
      then hold_item w i else i"
    have "items d' = map ?f (items d)" by (rule expire_items [OF run that])
    moreover have "items_kept (items d) (map ?f (items d))"
      by (rule items_kept_map) (simp add: frozen_open closed_item_def)
    moreover have "uniq itm_id (map ?f (items d))"
    proof -
      have "map itm_id (map ?f (items d)) = map itm_id (items d)" by simp
      with that(2) show ?thesis unfolding uniq_def by metis
    qed
    ultimately show ?thesis using expire_moves [OF run that(1)] by simp
  qed
  moreover have "funding_inv d' = funding_inv d" "wallet_inv d' = wallet_inv d"
    using funding_inv_cong [of d' d] wallet_inv_cong [of d' d] by (simp_all add: d')
  ultimately show ?thesis by (auto simp: event_safe_def d')
qed

lemma expireIfTimedOut_safe: "expireIfTimedOut w i idle now d = Inr (e, d') \<Longrightarrow> event_safe d d'"
  by (auto simp: expireIfTimedOut_def result_simps dest: expire_safe)

lemma watermark_close_first_safe: "watermark_close_first w m s d = Inr d' \<Longrightarrow> event_safe d d'"
  by (auto simp: watermark_close_first_def result_simps split: if_splits option.splits dest: expireIfTimedOut_safe)

lemma watermark_locks_safe:
  assumes "watermark_locks m ref r d = Inr d'"
  shows "\<exists>ls. d' = d\<lparr>held_locks := ls\<rparr>"
proof -
  from assms obtain d2 d3 where d2: "d2 = acquire (LUser (ses_userId ref)) d
      \<or> (\<exists>a. d2 = acquire (LFundingAccount a) (acquire (LUser (ses_userId ref)) d))"
    and d3: "lockCampaignOpt (given (ses_campaignId ref)) d2 = Inr d3"
    and d': "d' = acquire (LDepositSession (ses_id ref)) (acquire (LMachine (mac_id m)) d3)"
    by (auto simp: watermark_locks_def result_simps split: option.splits)
  have "committed d' = committed d"
    using d2 lockCampaignOpt_Inr [OF d3] d' by auto
  then show ?thesis by (rule committed_fields)
qed

lemma mark_sessions_safe:
  "event_safe d (d\<lparr>sessions := upd_by ses_id k (mark_watermark w p) (sessions d)\<rparr>)"
  unfolding upd_by_def by (auto intro!: event_safe_sessions session_moves_map simp: mark_watermark_def)

lemma watermark_locked_cases:
  assumes "watermark_locked w m p sid ref d = Inr (n, d')"
  obtains (nothing_done) "d' = d" "n = 0"
  | (marked) session d1 where "find_by ses_id sid (sessions d) = Some session" "ses_closeWatermarkAt session = None"
      "watermark_owner m ref d = Inr ()" "watermark_close_first w m session d = Inr d1" "watermark_confirmed m sid p d1"
      "watermark_release w sid ref (d1\<lparr>sessions := upd_by ses_id sid (mark_watermark w p) (sessions d1)\<rparr>) = Inr (n, d')"
proof (cases "find_by ses_id sid (sessions d)")
  case None
  with assms show ?thesis by (intro nothing_done) (auto simp: watermark_locked_def rbind_Inr_iff)
next
  case (Some session)
  show ?thesis
  proof (cases "ses_closeWatermarkAt session = None")
    case True
    from assms Some True show ?thesis
      by (auto simp: watermark_locked_def rbind_Inr_iff update_row_Inr split: if_splits intro!: marked [OF Some True])
  next
    case False
    with assms Some show ?thesis by (intro nothing_done) (auto simp: watermark_locked_def rbind_Inr_iff)
  qed
qed

lemma watermark_locked_safe:
  assumes "watermark_locked w m p sid ref d = Inr (n, d')"
  shows "event_safe d d'"
  using assms
proof (cases rule: watermark_locked_cases)
  case (marked session d1)
  from watermark_close_first_safe [OF marked(4)] mark_sessions_safe watermark_release_safe [OF marked(6)]
  show ?thesis by (blast intro: events.R_trans)
qed simp

lemma handleCloseWatermark_safe:
  assumes "handleCloseWatermark w m inp d = Inr (n, d')"
  shows "event_safe d d'"
proof (cases "d' = d")
  case False
  with assms obtain p sid ref r d1 where "watermark_locks m ref r d = Inr d1" and run: "watermark_locked w m p sid r d1 = Inr (n, d')"
    by (auto simp: handleCloseWatermark_def rbind_Inr_iff Let_def split: option.splits if_splits)
  from watermark_locks_safe [OF this(1)] obtain ls where "d1 = d\<lparr>held_locks := ls\<rparr>" by blast
  then have "event_safe d d1" by (auto intro!: event_safe_same)
  with watermark_locked_safe [OF run] show ?thesis by (blast intro: events.R_trans)
qed simp

section \<open>The dispatch\<close>

lemma on_heartbeat_safe: "on_heartbeat w m p d = Inr d' \<Longrightarrow> event_safe d d'"
  by (auto simp: on_heartbeat_def rbind_Inr_iff Let_def split: if_splits
      dest!: update_machine_safe maybeCreateAutoPickup_safe intro: events.R_trans)

lemma on_status_safe: "on_status w m p d = Inr d' \<Longrightarrow> event_safe d d'"
  by (auto simp: on_status_def rbind_Inr_iff split: if_splits option.splits
      dest!: update_machine_safe maybeCreateAutoPickup_safe intro: events.R_trans)

lemma on_fill_safe: "on_fill w m p d = Inr d' \<Longrightarrow> event_safe d d'"
  by (auto simp: on_fill_def rbind_Inr_iff split: if_splits option.splits
      dest!: update_machine_safe maybeCreateAutoPickup_safe intro: events.R_trans)

lemma resolveUnknown_safe:
  assumes "resolveOrCreateUnknownWasteType w d = Inr (t, d')"
  shows "event_safe d d'"
  using assms
  by (auto simp: resolveOrCreateUnknownWasteType_def result_simps bump_seq_def same_funding split: option.splits
      intro!: event_safe_same)

lemma insert_item_safe:
  assumes "insert_item i d = Inr d'"
  shows "event_safe d d'"
proof -
  from assms have d': "d' = bump_seq (d\<lparr>items := items d @ [i]\<rparr>)" and new: "itm_id i \<notin> itm_id ` set (items d)"
    by (auto simp: insert_item_def result_simps list_ex_iff)
  have "event_safe d (d\<lparr>items := items d @ [i]\<rparr>)"
    by (rule event_safe_items) (use new in \<open>auto simp: uniq_def items_kept_append\<close>)
  moreover have "event_safe (d\<lparr>items := items d @ [i]\<rparr>) d'"
    unfolding d' by (auto simp: bump_seq_def same_funding intro!: event_safe_same)
  ultimately show ?thesis by (rule events.R_trans)
qed

lemma extend_deadline_safe: "extend_deadline w m s d = Inr d' \<Longrightarrow> event_safe d d'"
  by (auto simp: extend_deadline_def Let_def split: if_splits elim!: update_session_safe)

lemma extend_deadline_status:
  assumes "extend_deadline w m s d = Inr d'" "find_by ses_id k (sessions d) = Some r"
  shows "\<exists>r'. find_by ses_id k (sessions d') = Some r' \<and> ses_status r' = ses_status r"
  using assms
  by (auto simp: extend_deadline_def Let_def update_session_def result_simps find_by_upd_by split: if_splits)

lemma insert_item_sessions: "insert_item i d = Inr d' \<Longrightarrow> sessions d' = sessions d"
  by (auto simp: insert_item_def result_simps bump_seq_def)

lemma set_event_item_sessions: "set_event_item e i d = Inr d' \<Longrightarrow> sessions d' = sessions d"
  by (auto simp: set_event_item_def result_simps)

lemma resolveUnknown_sessions: "resolveOrCreateUnknownWasteType w d = Inr (t, d') \<Longrightarrow> sessions d' = sessions d"
  by (auto simp: resolveOrCreateUnknownWasteType_def result_simps bump_seq_def split: option.splits)

lemma create_detected_safe:
  assumes "create_detected w p s kiosk d = Inr (i, d')"
  shows "event_safe d d'" and "sessions d' = sessions d"
proof -
  from assms obtain t fb q d1 where one: "d1 = d \<or> resolveOrCreateUnknownWasteType w d = Inr (t, d1)"
    and two: "insert_item (new_item w d1 s t q fb) d1 = Inr d'"
    by (cases "detected_type kiosk p d") (auto simp: create_detected_def rbind_Inr_iff)
  have "event_safe d d1" "sessions d1 = sessions d" using one resolveUnknown_safe resolveUnknown_sessions by auto
  with insert_item_safe [OF two] insert_item_sessions [OF two]
  show "event_safe d d'" "sessions d' = sessions d" by (auto intro: events.R_trans)
qed

lemma on_detected_safe:
  assumes "on_detected w m p sid e d = Inr (x, d')"
  shows "event_safe d d'"
proof (cases "find_by ses_id sid (sessions d)")
  case None
  with assms show ?thesis by (simp add: on_detected_def)
next
  case (Some session)
  let ?d0 = "acquire (LDepositSession sid) d"
  let ?past = "sessionDeadline session (mac_sessionIdleTimeoutMinutes m) \<le> w_now w"
  let ?ext = "if \<not> isTerminalSession (ses_status session) \<and> \<not> ?past then extend_deadline w m session ?d0 else Inr ?d0"
  let ?up = "\<lambda>d3. if ses_status session = SS_ACTIVE \<and> \<not> ?past
    then update_session (ses_id session) (\<lambda>s. s\<lparr>ses_status := SS_PROCESSING_ITEM\<rparr>) d3 else Inr d3"
  have run: "rbind ?ext (\<lambda>d1. rbind (kiosk_type m p d1) (\<lambda>k. rbind (create_detected w p session k d1) (\<lambda>(i, d2).
      rbind (set_event_item e i d2) (\<lambda>d3. rbind (?up d3) (\<lambda>d4. Inr (Some i, d4)))))) = Inr (x, d')"
    using assms Some unfolding on_detected_def Let_def by (simp only: option.case)
  then obtain d1 where ext: "?ext = Inr d1" by (rule rbind_InrE)
  with run obtain kiosk where k: "kiosk_type m p d1 = Inr kiosk"
    by (cases "kiosk_type m p d1") (simp_all only: rbind_simps, simp_all)
  with run ext obtain i d2 where two: "create_detected w p session kiosk d1 = Inr (i, d2)"
    by (cases "create_detected w p session kiosk d1") (simp_all only: rbind_simps, auto)
  with run ext k obtain d3 where three: "set_event_item e i d2 = Inr d3"
    by (cases "set_event_item e i d2") (simp_all only: rbind_simps prod.case, auto)
  from run have "?up d3 = Inr d'"
    unfolding ext k two three rbind_simps prod.case by (auto simp: rbind_Inr_iff)
  then have four: "d' = d3 \<or> ses_status session = SS_ACTIVE \<and> update_session (ses_id session) (\<lambda>s. s\<lparr>ses_status := SS_PROCESSING_ITEM\<rparr>) d3 = Inr d'"
    by (auto split: if_splits)
  have one: "d1 = ?d0 \<or> extend_deadline w m session ?d0 = Inr d1" using ext by (auto split: if_splits)
  have "\<exists>r. find_by ses_id sid (sessions d1) = Some r \<and> ses_status r = ses_status session"
    using one extend_deadline_status [of w m session ?d0 d1 sid session] Some by auto
  then obtain r where r: "find_by ses_id sid (sessions d3) = Some r" "ses_status r = ses_status session"
    using create_detected_safe(2) [OF two] set_event_item_sessions [OF three] by auto
  have "event_safe d d1" using one events.R_trans [OF event_safe_acquire extend_deadline_safe] by auto
  moreover have "event_safe d1 d3" using create_detected_safe(1) [OF two] set_event_item_safe [OF three] by (rule events.R_trans)
  moreover have "event_safe d3 d'"
    using four
  proof
    assume up: "ses_status session = SS_ACTIVE \<and> update_session (ses_id session) (\<lambda>s. s\<lparr>ses_status := SS_PROCESSING_ITEM\<rparr>) d3 = Inr d'"
    with r have "isActiveSession (ses_status r)" by (simp add: isActiveSession_def ACTIVE_SESSION_STATUSES_def)
    with up [THEN conjunct2] show ?thesis
      by (elim update_session_safe) (use r(1) found_key [OF Some] in simp)
  qed simp
  ultimately show ?thesis by (blast intro: events.R_trans)
qed

lemma on_sensor_safe:
  assumes "on_sensor w p sid i d = Inr d'"
  shows "event_safe d d'"
proof -
  from assms obtain sq d1 where sq: "read_sensor p = Inr sq"
    and one: "update_item w i (\<lambda>r. r\<lparr>itm_sensorSequence := Some sq\<rparr>) d = Inr d1"
    by (auto simp: on_sensor_def rbind_Inr_iff)
  have "event_safe d d1" using one by (rule update_item_safe) simp
  moreover have "event_safe d1 d'"
    using assms sq one by (cases "validateSensorSequence (Some sq)"; cases "given sid") (auto simp: on_sensor_def dest: flagAnomaly_safe)
  ultimately show ?thesis by (rule events.R_trans)
qed

lemma on_fraud_safe:
  assumes "on_fraud w inp e d = Inr d'"
  shows "event_safe d d'"
proof -
  from assms obtain d2 i reason r d1 where one: "d2 = d \<or> holdItemForFraud w i reason d = Inr (r, d1) \<and> set_event_item e i d1 = Inr d2"
    and two: "d' = d2 \<or> (\<exists>s. flagAnomaly w s None reason d2 = Inr d')"
    by (auto simp: on_fraud_def rbind_Inr_iff Let_def split: option.splits) blast+
  have "event_safe d d2" using one events.R_trans [OF holdItemForFraud_safe set_event_item_safe] by auto
  moreover have "event_safe d2 d'" using two flagAnomaly_safe by auto
  ultimately show ?thesis by (rule events.R_trans)
qed

lemma on_item_safe: "on_item w m inp e i d = Inr d' \<Longrightarrow> event_safe d d'"
  by (auto simp: on_item_def on_evidence_def rbind_Inr_iff Let_def split: event_type.splits option.splits
      dest: on_sensor_safe handleAcceptance_safe handleItemRejected_safe recordItemEvidence_safe)

lemmas handler_safe = on_heartbeat_safe on_status_safe on_fill_safe move_session_safe on_detected_safe on_fraud_safe
  on_safe_state_safe handleCloseWatermark_safe

lemma machine_event_effect_safe: "machine_event_effect w m inp e d = Inr (x, d') \<Longrightarrow> event_safe d d'"
  by (auto simp: machine_event_effect_def done_with_def rbind_Inr_iff Let_def split: event_type.splits option.splits
      dest: handler_safe)

lemma processEventSideEffects_safe:
  assumes "processEventSideEffects w m inp e c d = (Inr (x, d'), c')"
  shows "event_safe d d'"
  using assms
  by (auto simp: processEventSideEffects_def done_with_def rbind_Inr_iff Let_def split_def split: if_splits option.splits
      dest: on_item_safe machine_event_effect_safe)

section \<open>Ingestion\<close>

inductive ingest_step :: "world \<Rightarrow> db \<Rightarrow> db \<Rightarrow> bool" for w where
  ingest: "ingestMachineEvent w preloaded inp cache d = ((r, d'), cache') \<Longrightarrow> ingest_step w d d'"

inductive_cases ingest_stepE: "ingest_step w d d'"

lemma event_safe_committed [simp]: "event_safe d (committed d)" "event_safe (committed d) d"
  by (auto simp: committed_def intro!: event_safe_same)

lemma insert_event_safe:
  assumes "insert_event e d = Inr d'"
  shows "event_safe d d'"
proof -
  from assms have d': "d' = bump_seq (d\<lparr>machineEvents := machineEvents d @ [e]\<rparr>)"
    by (auto simp: insert_event_def result_simps)
  show ?thesis
    using wallet_inv_cong [of d' d] by (simp add: event_safe_def d' bump_seq_def same_funding)
qed

lemma event_transaction_cases:
  assumes "event_transaction w m inp c d = (Inr ((eid, created), d'), c')"
  obtains t d1 d2 where "occurred_at w (in_occurredAt inp) = Inr t" "insert_event (new_event w m inp t d) d = Inr d1"
    "processEventSideEffects w m inp (newId w d) c d1 = (Inr (created, d2), c')" "eid = newId w d" "d' = committed d2"
proof (cases "occurred_at w (in_occurredAt inp)")
  case (Inr t)
  show ?thesis
  proof (cases "insert_event (new_event w m inp t d) d")
    case ins: (Inr d1)
    obtain run c1 where p: "processEventSideEffects w m inp (newId w d) c d1 = (run, c1)" by force
    with assms Inr ins show ?thesis
      by (auto simp: event_transaction_def rbind_Inr_iff intro!: that [of t d1])
  qed (use assms Inr in \<open>simp add: event_transaction_def\<close>)
qed (use assms in \<open>simp add: event_transaction_def\<close>)

lemma ingest_cases:
  assumes "ingestMachineEvent w preloaded inp c d = ((r, d'), c')"
  obtains (refused) e where "r = Inl e" "d' = d"
  | (repeated) m e where "first_some preloaded (find_by mac_machineCode (in_machineCode inp) (machines d)) = Some m"
      "find_event (mac_id m) (in_localEventId inp) d = Some e" "r = Inr (duplicate_of e)" "d' = d"
  | (ingested) m t d1 d2 created res where
      "first_some preloaded (find_by mac_machineCode (in_machineCode inp) (machines d)) = Some m"
      "find_event (mac_id m) (in_localEventId inp) d = None"
      "insert_event (new_event w m (fst (sanitizeInput m inp d)) t (committed d)) (committed d) = Inr d1"
      "processEventSideEffects w m (fst (sanitizeInput m inp d)) (newId w d) c d1 = (Inr (created, d2), c')"
      "d' = committed d2" "r = Inr res" "ir_eventId res = newId w d" "\<not> ir_duplicate res"
proof (cases "first_some preloaded (find_by mac_machineCode (in_machineCode inp) (machines d))")
  case None
  with assms show ?thesis by (intro refused) (auto simp: ingestMachineEvent_def)
next
  case m: (Some m)
  show ?thesis
  proof (cases "find_event (mac_id m) (in_localEventId inp) d")
    case (Some e)
    with assms m show ?thesis by (intro repeated [OF m Some]) (auto simp: ingestMachineEvent_def)
  next
    case None
    with assms m have run: "ingest_new w m inp c d = ((r, d'), c')" by (simp add: ingestMachineEvent_def)
    obtain tr c1 where tr: "event_transaction w m (fst (sanitizeInput m inp d)) c (committed d) = (tr, c1)" by force
    show ?thesis
    proof (cases tr)
      case (Inl e)
      with run tr None show ?thesis
        by (intro refused [of e]) (auto simp: ingest_new_def split_def Let_def split: if_splits)
    next
      case (Inr y)
      obtain eid created d2 where y: "y = ((eid, created), d2)" by (metis surj_pair)
      with run tr Inr obtain res where res: "r = Inr res" "ir_eventId res = eid" "\<not> ir_duplicate res" "d' = d2" "c1 = c'"
        by (auto simp: ingest_new_def split_def Let_def)
      from tr [unfolded Inr y res(5)] show ?thesis
        by (rule event_transaction_cases) (use res in \<open>auto intro!: ingested [OF m None] simp: newId_def committed_def\<close>)
    qed
  qed
qed

lemma ingest_safe:
  assumes "ingestMachineEvent w preloaded inp c d = ((r, d'), c')"
  shows "event_safe d d'"
  using assms
proof (cases rule: ingest_cases)
  case (ingested m t d1 d2 created res)
  have "event_safe d d1" using event_safe_committed(1) insert_event_safe [OF ingested(3)] by (rule events.R_trans)
  moreover have "event_safe d1 d'"
    using processEventSideEffects_safe [OF ingested(4)] event_safe_committed(1) unfolding ingested(5) by (rule events.R_trans)
  ultimately show ?thesis by (rule events.R_trans)
qed simp_all

lemma ingest_steps_safe: "(ingest_step w)\<^sup>*\<^sup>* d d' \<Longrightarrow> event_safe d d'"
  by (induction rule: rtranclp_induct) (auto elim!: ingest_stepE dest!: ingest_safe intro: events.R_trans)

end
