(* ===== verification/Machine_Props.thy ===== *)
theory Machine_Props
  imports Events_Props Policy_Props
begin

text \<open>
  The contract of the machine-event interface, as properties: any sequence of ingested events keeps
  the sessions, the books and the wallets in order; an item past its acceptance point is fixed; the
  acceptance point pays exactly what the policy decides; a fraud hold never overdraws; an
  acknowledged event is recorded and applied once; a batch keeps a session's order; and the close
  watermark keeps what reviews may still draw.
\<close>

section \<open>Sample states\<close>

definition sample_item :: item where
  "sample_item = \<lparr>itm_id = ''i1'', itm_sessionId = ''s1'', itm_status = IS_PENDING, itm_acceptanceEventId = None,
     itm_wasteTypeId = ''w1'', itm_quantity = 1, itm_measuredWeightGrams = Some 40, itm_aiDetectedType = None,
     itm_aiConfidence = None, itm_barcodeValue = None, itm_rewardRateId = None, itm_baseRewardAmount = 0,
     itm_complianceMultiplier = 1, itm_rewardAmount = 0, itm_validationReasonCode = None, itm_sensorSequence = None,
     itm_acceptedAt = None, itm_externalFraudFlag = False, itm_compactionStatus = CP_NOT_REQUIRED,
     itm_createdAt = 950, itm_updatedAt = 950\<rparr>"

definition sample_event :: machine_event where
  "sample_event = \<lparr>mev_id = ''v1'', mev_machineId = ''m1'', mev_sessionId = Some ''s1'', mev_localEventId = ''e1'',
     mev_eventType = EV_ITEM_ACCEPTED_POINT, mev_depositItemId = None, mev_occurredAt = 1000\<rparr>"

definition weighed_db :: db where
  "weighed_db = priced_db\<lparr>items := [sample_item], machineEvents := [sample_event]\<rparr>"

definition sample_input :: "string \<Rightarrow> event_type \<Rightarrow> payload \<Rightarrow> ingest_input" where
  "sample_input l t p = \<lparr>in_machineCode = ''RVM-1'', in_localEventId = l, in_eventType = t, in_payload = Some p,
     in_sessionId = Some ''s1'', in_depositItemId = None, in_occurredAt = None, in_itemReferenceRejected = False\<rparr>"

definition after_event :: "string \<Rightarrow> event_type \<Rightarrow> payload \<Rightarrow> db \<Rightarrow> db" where
  "after_event l t p d = snd (fst (ingestMachineEvent sample_world None (sample_input l t p) None d))"

lemma sample_step: "(ingest_step sample_world)\<^sup>*\<^sup>* d (after_event l t p d)"
proof -
  obtain r d' c where run: "ingestMachineEvent sample_world None (sample_input l t p) None d = ((r, d'), c)" by (metis surj_pair)
  then show ?thesis by (auto simp: after_event_def intro!: r_into_rtranclp ingest_step.ingest)
qed

lemma weighed_inv: "sessions_inv weighed_db" "uniq itm_id (items weighed_db)" "funding_inv weighed_db" "wallet_inv weighed_db"
proof -
  show "sessions_inv weighed_db" "uniq itm_id (items weighed_db)" by code_simp+
  show "funding_inv weighed_db"
    using funding_inv_cong [of weighed_db sample_db] sample_inv(1) by (simp add: weighed_db_def priced_db_def)
  have "wallet_start weighed_db" by code_simp
  then show "wallet_inv weighed_db" by (rule wallet.reachable_inv [OF _ rtranclp.rtrancl_refl])
qed

section \<open>Sequences of events\<close>

text \<open>
  Whatever a machine sends, the books stay in order. After any sequence of ingested events, of any
  types, with any payloads and however often an event is refused or repeated, a machine still has at most
  one active session, no session appeared or vanished, the funding books balance, and nobody's available balance
  is negative.
\<close>

theorem machine_events_keep_the_books:
  assumes steps: "(ingest_step w)\<^sup>*\<^sup>* d d'"
    and inv: "sessions_inv d" "uniq itm_id (items d)" "funding_inv d" "wallet_inv d"
  shows "length (filter (active_on m) (sessions d')) \<le> 1 \<and> map ses_id (sessions d') = map ses_id (sessions d)
    \<and> funding_inv d' \<and> (\<forall>u. 0 \<le> wb_available (getWalletBalance u d'))"
proof -
  have safe: "event_safe d d'" by (rule ingest_steps_safe [OF steps])
  moreover have "uniq ses_id (sessions d)" using inv(1) by (simp add: sessions_inv_def)
  ultimately have moves: "session_moves (sessions d) (sessions d')" and rest: "funding_inv d'" "wallet_inv d'"
    using inv by (auto simp: event_safe_def)
  from session_moves_inv [OF inv(1) moves] session_moves_ids [OF moves] rest show ?thesis
    by (simp add: sessions_inv_iff wallet_inv_def solvent_def)
qed

theorem machine_events_keep_the_books_witness:
  "length (filter (active_on ''m1'') (sessions (after_event ''e3'' EV_ITEM_ACCEPTED_POINT [] weighed_db))) \<le> 1
    \<and> funding_inv (after_event ''e3'' EV_ITEM_ACCEPTED_POINT [] weighed_db)"
  using machine_events_keep_the_books [OF sample_step weighed_inv] by blast

text \<open>
  C22: a decided item is fixed. Once an item passed the acceptance point or was rejected, no later sequence of
  machine events changes what it was priced from, what it was paid or which event accepted it; a
  rejected item stays rejected and a reviewer's decision keeps its status and reason.
\<close>

theorem decided_items_are_frozen:
  assumes steps: "(ingest_step w)\<^sup>*\<^sup>* d d'" and uniq: "uniq ses_id (sessions d)" "uniq itm_id (items d)"
    and i: "i \<in> set (items d)" "closed_item i"
  shows "\<exists>i'. find_by itm_id (itm_id i) (items d') = Some i' \<and> priced i' = priced i
    \<and> (itm_status i = IS_REJECTED \<longrightarrow> itm_status i' = IS_REJECTED)
    \<and> (isReviewFinal i \<longrightarrow> itm_status i' = itm_status i \<and> itm_validationReasonCode i' = itm_validationReasonCode i)"
proof -
  from ingest_steps_safe [OF steps] uniq have kept: "items_kept (items d) (items d')" and uniq': "uniq itm_id (items d')"
    by (auto simp: event_safe_def)
  from kept obtain u v where u: "items d' = u @ v" "list_all2 frozen (items d) u" by (auto simp: items_kept_def)
  from i(1) obtain n where n: "n < length (items d)" "items d ! n = i" by (auto simp: in_set_conv_nth)
  with u(2) have "frozen i (u ! n)" "n < length u" by (auto simp: list_all2_conv_all_nth)
  moreover from this(2) have "u ! n \<in> set (items d')" by (simp add: u(1))
  ultimately show ?thesis
    using find_by_uniqI [OF uniq', of "u ! n"] i(2) by (auto simp: frozen_def)
qed

theorem decided_items_are_frozen_witness:
  "\<exists>i'. find_by itm_id ''i1'' (items (after_event ''e3'' EV_ITEM_ACCEPTED_POINT []
       (weighed_db\<lparr>items := [sample_item\<lparr>itm_status := IS_REJECTED\<rparr>]\<rparr>))) = Some i' \<and> itm_status i' = IS_REJECTED"
proof -
  let ?i = "sample_item\<lparr>itm_status := IS_REJECTED\<rparr>"
  let ?d = "weighed_db\<lparr>items := [?i]\<rparr>"
  have "uniq ses_id (sessions ?d)" "uniq itm_id (items ?d)" "itm_id ?i = ''i1''" by code_simp+
  moreover have "?i \<in> set (items ?d)" "closed_item ?i" "itm_status ?i = IS_REJECTED" by (simp_all add: closed_item_def)
  ultimately show ?thesis using decided_items_are_frozen [OF sample_step [of ?d "''e3''" EV_ITEM_ACCEPTED_POINT "[]"], of ?i] by auto
qed

section \<open>Acknowledged events\<close>

lemma find_event_core:
  "map_option mev_id (find_event m l d) =
     map_option fst (List.find (\<lambda>c. fst (snd c) = m \<and> fst (snd (snd (snd c))) = l) (map ev_core (machineEvents d)))"
proof -
  have "map_option mev_id (List.find (\<lambda>e. mev_machineId e = m \<and> mev_localEventId e = l) t) =
     map_option fst (List.find (\<lambda>c. fst (snd c) = m \<and> fst (snd (snd (snd c))) = l) (map ev_core t))" for t
    by (induction t) (auto simp: ev_core_def)
  then show ?thesis by (simp add: find_event_def)
qed

lemma find_append: "List.find P (xs @ ys) = (case List.find P xs of Some x \<Rightarrow> Some x | None \<Rightarrow> List.find P ys)"
  by (induction xs) auto

lemma recorded_stays:
  assumes "event_safe d d'" "map_option mev_id (find_event m l d) = Some i"
  shows "map_option mev_id (find_event m l d') = Some i"
proof -
  from assms(1) obtain es where "map ev_core (machineEvents d') = map ev_core (machineEvents d) @ es"
    by (auto simp: event_safe_def prefix_def)
  with assms(2) show ?thesis by (auto simp: find_event_core find_append split: option.splits)
qed

lemma inserted_event_found:
  assumes ins: "insert_event e d = Inr d'" and new: "find_event (mev_machineId e) (mev_localEventId e) d = None"
  shows "map_option mev_id (find_event (mev_machineId e) (mev_localEventId e) d') = Some (mev_id e)"
  using assms by (auto simp: insert_event_def result_simps bump_seq_def find_event_def find_append)

lemma ingested_is_recorded:
  assumes run: "ingestMachineEvent w (Some m) inp c d = ((rr, d'), c')" and ok: "rr = Inr r"
  shows "map_option mev_id (find_event (mac_id m) (in_localEventId inp) d') = Some (ir_eventId r)"
  using run
proof (cases rule: ingest_cases)
  case (refused e)
  with ok show ?thesis by simp
next
  case (repeated m' e)
  with ok show ?thesis by (auto simp: first_some_def duplicate_of_def)
next
  case (ingested m' t d1 d2 created res)
  have m: "m' = m" using ingested(1) by (simp add: first_some_def)
  have local: "in_localEventId (fst (sanitizeInput m inp d)) = in_localEventId inp" by (simp add: sanitizeInput_def Let_def)
  from inserted_event_found [OF ingested(3)] ingested(2) m local
  have "map_option mev_id (find_event (mac_id m) (in_localEventId inp) d1) = Some (newId w d)"
    by (simp add: new_event_def newId_def committed_def find_event_def)
  moreover have "event_safe d1 d'"
    using processEventSideEffects_safe [OF ingested(4)] event_safe_committed(1) unfolding ingested(5) by (rule events.R_trans)
  ultimately show ?thesis using recorded_stays ingested(6,7) ok by auto
qed

section \<open>The acceptance point\<close>

lemma view_same:
  assumes "same_wallet d d'" "campaigns d' = campaigns d"
  shows "view_of w m s i t e d' = view_of w m s i t e d"
  using assms by (simp add: view_of_def same_wallet_def resolveRewardRate_def Let_def)

lemma acceptance_locks_campaigns: "acceptance_locks w m ref i d = Inr d' \<Longrightarrow> campaigns d' = campaigns d"
  by (auto simp: acceptance_locks_def result_simps dest!: lockFundingAccountForOrganization_Inr lockCampaignOpt_Inr committed_fields)

lemma accept_undecided:
  assumes run: "handleAcceptance w m s i e d = Inr d'" and ref: "find_by ses_id s (sessions d) = Some session"
    "find_by itm_id i (items d) = Some item" "itm_sessionId item = s" "undecided item"
    "find_by wt_id (itm_wasteTypeId item) (wasteTypes d) = Some wt"
  obtains d1 dec where "same_wallet d d1" "acceptance_decision (view_of w m session item wt e d) = Inr dec"
    "write_acceptance w m (view_of w m session item wt e d) dec e d1 = Inr d'"
proof -
  have id: "ses_id session = s" by (rule found_key [OF ref(1)])
  from run ref obtain d1 where locks: "acceptance_locks w m session i d = Inr d1"
    and rest: "accept_locked w m session i e d1 = Inr d'"
    by (auto simp: handleAcceptance_def result_simps)
  have same: "same_wallet d d1" by (rule acceptance_locks_safe(2) [OF locks])
  then have rows: "sessions d1 = sessions d" "items d1 = items d" "wasteTypes d1 = wasteTypes d" by (simp_all add: same_wallet_def)
  have "rbind (acceptance_decision (view_of w m session item wt e d)) (\<lambda>dec.
      write_acceptance w m (view_of w m session item wt e d) dec e d1) = Inr d'"
    using rest ref id unfolding accept_locked_def rows
    by (simp add: find_or_throw_def Let_def view_same [OF same acceptance_locks_campaigns [OF locks]])
  then show ?thesis using that [OF same] by (auto simp: rbind_Inr_iff)
qed

lemma advance_session_ledger: "advance_session s st d = Inr d' \<Longrightarrow> ledgers d' = ledgers d \<and> items d' = items d \<and> cases d' = cases d"
  by (auto simp: advance_session_def result_simps update_session_def split: if_splits)

lemma cas_item_found:
  assumes "find_by itm_id i (items d) = Some item" "guard item" "\<And>r. itm_id (f r) = itm_id r"
  shows "find_by itm_id i (items (snd (cas_item w i guard f d))) = Some ((f item)\<lparr>itm_updatedAt := w_now w\<rparr>)"
  using assms by (simp add: cas_item_def find_by_upd_by)

lemma write_acceptance_cases:
  assumes "write_acceptance w m v dec e d = Inr d'"
  obtains d1 d2 where "d1 = snd (cas_item w (itm_id (av_item v)) undecided (accepted_item w v dec e (mac_hasCompactor m)) d)"
    "dec_status dec = R_REJECTED \<longrightarrow> d2 = d1"
    "dec_status dec \<noteq> R_REJECTED \<longrightarrow> (\<exists>res. applyRewardEffect w (acceptance_credit v dec (mac_organizationId m)) d1 = Inr (res, d2))"
    "ledgers d' = ledgers d2" "items d' = items d2" "cases d' = cases d2"
proof -
  let ?d1 = "snd (cas_item w (itm_id (av_item v)) undecided (accepted_item w v dec e (mac_hasCompactor m)) d)"
  from assms obtain d2 where d2: "(if dec_status dec = R_REJECTED then Inr ?d1
      else rbind (creditReward w (acceptance_credit v dec (mac_organizationId m)) ?d1) (\<lambda>(_, d2). Inr d2)) = Inr d2"
    and adv: "advance_session (av_session v) (dec_status dec) d2 = Inr d'"
    by (auto simp: write_acceptance_def Let_def split_def rbind_Inr_iff split: if_splits)
  from d2 advance_session_ledger [OF adv] show ?thesis
    by (intro that [of ?d1 d2]) (auto simp: creditReward_def result_simps)
qed

lemma acceptance_credit_fields [simp]:
  "ci_businessKey (acceptance_credit v dec org) = depositItemEarnKey (itm_id (av_item v))"
  "ci_amount (acceptance_credit v dec org) = dec_amount dec" "ci_status (acceptance_credit v dec org) = dec_ledgerStatus dec"
  "ci_userId (acceptance_credit v dec org) = ses_userId (av_session v)"
  "ci_depositItemId (acceptance_credit v dec org) = Some (itm_id (av_item v))"
  "effect_type (acceptance_credit v dec org) = EARN"
  by (simp_all add: acceptance_credit_def Let_def effect_type_def)

text \<open>A first, non-negative effect under its key: one row, a case for an erased recipient, or nothing for a zero amount.\<close>

lemma first_effect:
  assumes run: "applyRewardEffect w inp d = Inr (res, d')" and pos: "0 \<le> ci_amount inp"
    and new: "find_by led_businessKey (Some (ci_businessKey inp)) (ledgers d) = None"
      "find_by rc_businessKey (ci_businessKey inp) (cases d) = None"
  shows "if ci_amount inp = 0 then ledgers d' = ledgers d
    else if isRecipientErased (ci_userId inp) d
    then ledgers d' = ledgers d \<and> find_by rc_businessKey (ci_businessKey inp) (cases d') \<noteq> None
    else \<exists>i. ledgers d' = ledgers d @ [effect_row w (d\<lparr>seq := i\<rparr>) inp]"
  using run
proof (cases rule: applyRewardEffect_Inr)
  case zero
  then show ?thesis by (simp add: same_wallet_def)
next
  case (refused reason c s)
  then have "isRecipientErased (ci_userId inp) d" using pos by (auto simp: effect_refusal_def split: if_splits)
  with refused show ?thesis by (auto simp: find_by_None_iff new_case_def case_for_def)
next
  case (credited fc d2)
  then have "\<not> isRecipientErased (ci_userId inp) d" by (auto simp: effect_refusal_def split: if_splits)
  moreover have "ledgers d' = ledgers d @ [effect_row w (d\<lparr>seq := seq d2\<rparr>) inp]"
    by (simp add: credited(10) bump_seq_def effect_row_def newId_def)
  ultimately show ?thesis using credited(1) by auto
qed (use new in auto)

lemma erased_same: "users d' = users d \<Longrightarrow> erasureSteps d' = erasureSteps d \<Longrightarrow> isRecipientErased u d' = isRecipientErased u d"
  by (simp add: isRecipientErased_def split: option.splits)

text \<open>
  C7: the acceptance point pays exactly what the policy decides. On an item that was neither
  accepted nor rejected, the handler decides once from the session, the item's readings, the price
  list and the clock; the amount never exceeds the item's price; a late, unpriceable or
  unverified item is not accepted outright; the item row records the decision under the
  event's id; and the wallet gets one earning of that amount, available exactly when the item was
  accepted and held otherwise, or a case when the recipient's account was erased.
\<close>

theorem acceptance_pays_the_decision:
  assumes run: "handleAcceptance w m s i e d = Inr d'" and ref: "find_by ses_id s (sessions d) = Some session"
    "find_by itm_id i (items d) = Some item" "itm_sessionId item = s" "undecided item"
    "find_by wt_id (itm_wasteTypeId item) (wasteTypes d) = Some wt"
    and new: "find_by led_businessKey (Some (depositItemEarnKey i)) (ledgers d) = None"
      "find_by rc_businessKey (depositItemEarnKey i) (cases d) = None"
  defines "v \<equiv> view_of w m session item wt e d"
  shows "\<exists>dec item'. acceptance_decision v = Inr dec \<and> 0 \<le> dec_amount dec \<and> dec_amount dec \<le> acceptance_base v
    \<and> (acceptance_late v \<or> unpriceable v \<or> acceptance_weight v \<noteq> None \<longrightarrow> dec_status dec \<noteq> R_ACCEPTED)
    \<and> find_by itm_id i (items d') = Some item' \<and> itm_status item' = item_status_of (dec_status dec)
    \<and> itm_rewardAmount item' = dec_amount dec \<and> itm_acceptanceEventId item' = Some e
    \<and> (if dec_amount dec = 0 then ledgers d' = ledgers d
       else if isRecipientErased (ses_userId session) d
       then ledgers d' = ledgers d \<and> find_by rc_businessKey (depositItemEarnKey i) (cases d') \<noteq> None
       else \<exists>row. ledgers d' = ledgers d @ [row] \<and> led_amount row = dec_amount dec \<and> led_userId row = ses_userId session
         \<and> led_entryType row = EARN \<and> led_depositItemId row = Some i
         \<and> led_status row = (if dec_status dec = R_ACCEPTED then LS_AVAILABLE else LS_PENDING))"
proof -
  from accept_undecided [OF run ref] obtain d1 dec where same: "same_wallet d d1" and dec: "acceptance_decision v = Inr dec"
    and wr: "write_acceptance w m v dec e d1 = Inr d'" unfolding v_def by blast
  note bounds = decision_bounds [OF dec [unfolded acceptance_decision_def], simplified]
  have v: "av_item v = item" "av_session v = session" "itm_id item = i"
    using found_key [OF ref(2)] by (simp_all add: v_def)
  let ?d2 = "snd (cas_item w i undecided (accepted_item w v dec e (mac_hasCompactor m)) d1)"
  let ?credit = "acceptance_credit v dec (mac_organizationId m)"
  from write_acceptance_cases [OF wr] v obtain d3 where rej: "dec_status dec = R_REJECTED \<longrightarrow> d3 = ?d2"
    and cred: "dec_status dec \<noteq> R_REJECTED \<longrightarrow> (\<exists>res. applyRewardEffect w ?credit ?d2 = Inr (res, d3))"
    and d': "ledgers d' = ledgers d3" "items d' = items d3" "cases d' = cases d3" by metis
  have d2: "ledgers ?d2 = ledgers d" "cases ?d2 = cases d" "users ?d2 = users d" "erasureSteps ?d2 = erasureSteps d"
    using same by (simp_all add: cas_item_def same_wallet_def)
  have "items d3 = items ?d2" using rej cred applyRewardEffect_tables by metis
  then have row: "find_by itm_id i (items d') = Some ((accepted_item w v dec e (mac_hasCompactor m) item)\<lparr>itm_updatedAt := w_now w\<rparr>)"
    using cas_item_found [of i d1 item undecided] ref(2,4) same d'(2) by (simp add: same_wallet_def)
  have paid: "if dec_amount dec = 0 then ledgers d' = ledgers d
    else if isRecipientErased (ses_userId session) d
    then ledgers d' = ledgers d \<and> find_by rc_businessKey (depositItemEarnKey i) (cases d') \<noteq> None
    else \<exists>n. ledgers d' = ledgers d @ [effect_row w (?d2\<lparr>seq := n\<rparr>) ?credit]"
  proof (cases "dec_status dec = R_REJECTED")
    case True
    with rej bounds(4) d2 d' show ?thesis by simp
  next
    case False
    with cred obtain res where eff: "applyRewardEffect w ?credit ?d2 = Inr (res, d3)" by blast
    from first_effect [OF eff] new bounds(1) show ?thesis
      unfolding d' d2 acceptance_credit_fields v erased_same [OF d2(3,4)] by simp
  qed
  show ?thesis
  proof (intro exI conjI)
    show "acceptance_decision v = Inr dec" by (rule dec)
    show "0 \<le> dec_amount dec" "dec_amount dec \<le> acceptance_base v" using bounds(1,2) by simp_all
    show "acceptance_late v \<or> unpriceable v \<or> acceptance_weight v \<noteq> None \<longrightarrow> dec_status dec \<noteq> R_ACCEPTED"
      using bounds(8) by (auto simp: has_anomaly_def acceptance_material_def)
    show "find_by itm_id i (items d') = Some ((accepted_item w v dec e (mac_hasCompactor m) item)\<lparr>itm_updatedAt := w_now w\<rparr>)" by (rule row)
    show "if dec_amount dec = 0 then ledgers d' = ledgers d
       else if isRecipientErased (ses_userId session) d
       then ledgers d' = ledgers d \<and> find_by rc_businessKey (depositItemEarnKey i) (cases d') \<noteq> None
       else \<exists>row. ledgers d' = ledgers d @ [row] \<and> led_amount row = dec_amount dec \<and> led_userId row = ses_userId session
         \<and> led_entryType row = EARN \<and> led_depositItemId row = Some i
         \<and> led_status row = (if dec_status dec = R_ACCEPTED then LS_AVAILABLE else LS_PENDING)"
      using paid bounds(6,7) v by (auto simp: effect_row_def split: if_splits)
  qed (simp_all add: accepted_item_def)
qed

theorem acceptance_pays_the_decision_witness:
  "\<exists>d' row. handleAcceptance sample_world sample_machine ''s1'' ''i1'' ''v1'' weighed_db = Inr d'
     \<and> ledgers d' = ledgers weighed_db @ [row] \<and> led_amount row = 150 \<and> led_status row = LS_AVAILABLE"
proof -
  have "succeeds (handleAcceptance sample_world sample_machine ''s1'' ''i1'' ''v1'' weighed_db)" by code_simp
  then obtain d' where run: "handleAcceptance sample_world sample_machine ''s1'' ''i1'' ''v1'' weighed_db = Inr d'"
    by (auto simp: succeeds_def split: sum.splits)
  let ?wt = "sample_type ''w1'' ITEM 100"
  let ?v = "view_of sample_world sample_machine sample_session sample_item ?wt ''v1'' weighed_db"
  have ref: "find_by ses_id ''s1'' (sessions weighed_db) = Some sample_session"
    "find_by itm_id ''i1'' (items weighed_db) = Some sample_item" "itm_sessionId sample_item = ''s1''" "undecided sample_item"
    "find_by wt_id (itm_wasteTypeId sample_item) (wasteTypes weighed_db) = Some ?wt"
    "find_by led_businessKey (Some (depositItemEarnKey ''i1'')) (ledgers weighed_db) = None"
    "find_by rc_businessKey (depositItemEarnKey ''i1'') (cases weighed_db) = None"
    by code_simp+
  have "\<not> isRecipientErased ''u1'' weighed_db" by code_simp
  moreover have "acceptance_decision ?v = Inr \<lparr>dec_status = R_ACCEPTED, dec_amount = 150, dec_ledgerStatus = LS_AVAILABLE, dec_reason = ''ACCEPTED''\<rparr>"
    by code_simp
  moreover have "ses_userId sample_session = ''u1''" by (simp add: sample_session_def)
  ultimately show ?thesis using acceptance_pays_the_decision [OF run ref] run by auto
qed

section \<open>Fraud\<close>

text \<open>
  A fraud hold never overdraws. What a hold takes from the recipient's available balance is
  exactly what it reports as held and exactly what becomes pending; nobody else's balance changes, an
  item that was already decided is only flagged, and a balance that was not negative stays so.
\<close>

theorem fraud_hold_never_overdraws:
  assumes run: "holdItemForFraud w i reason d = Inr (Some res, d')" and wf: "ledger_wf (ledgers d)"
  shows "\<exists>u. item_ref i d = Some (fr_sessionId res, u)
    \<and> (\<forall>v. wb_available (getWalletBalance v d') = wb_available (getWalletBalance v d) - (if v = u then fr_heldAmount res else 0)
         \<and> wb_pending (getWalletBalance v d') = wb_pending (getWalletBalance v d) + (if v = u then fr_heldAmount res else 0))
    \<and> (0 \<le> wb_available (getWalletBalance u d) \<longrightarrow> 0 \<le> wb_available (getWalletBalance u d'))
    \<and> (fr_decided res \<longrightarrow> ledgers d' = ledgers d)"
proof -
  from run obtain s u d1 where ref: "item_ref i d = Some (s, u)" and locks: "lock_item_path u s i d = Inr d1"
    and rest: "hold_locked w i s u reason d1 = Inr (Some res, d')"
    by (auto simp: holdItemForFraud_def result_simps split: option.splits)
  have d1: "ledgers d1 = ledgers d" using locks by (auto simp: lock_item_path_def result_simps)
  then have same: "getWalletBalance v d1 = getWalletBalance v d" for v by (simp add: getWalletBalance_def)
  have "fr_sessionId res = s \<and> (fr_decided res \<longrightarrow> ledgers d' = ledgers d1)"
    using rest by (cases rule: hold_locked_cases) (auto simp: update_item_def result_simps)
  with hold_locked_money [OF rest] wf ref show ?thesis unfolding d1 same by auto
qed

definition sample_earning :: ledger where
  "sample_earning = \<lparr>led_id = ''l1'', led_userId = ''u1'', led_organizationId = Some ''o1'', led_sessionId = Some ''s1'',
     led_depositItemId = Some ''i1'', led_campaignId = Some ''c1'', led_entryType = EARN, led_amount = 150,
     led_status = LS_AVAILABLE, led_reasonCode = Some ''ACCEPTED'', led_referenceType = Some ''DepositItem'',
     led_referenceId = Some ''i1'', led_actorId = None, led_businessKey = Some ''deposit-item:i1:earn'', led_createdAt = 1000\<rparr>"

theorem fraud_hold_never_overdraws_witness:
  "\<exists>res d'. holdItemForFraud sample_world ''i1'' ''FRAUD'' (weighed_db\<lparr>ledgers := [sample_earning]\<rparr>) = Inr (Some res, d')
     \<and> fr_heldAmount res = 150
     \<and> wb_pending (getWalletBalance ''u1'' d') = wb_pending (getWalletBalance ''u1'' (weighed_db\<lparr>ledgers := [sample_earning]\<rparr>)) + 150"
proof -
  let ?d = "weighed_db\<lparr>ledgers := [sample_earning]\<rparr>"
  have "map_option (\<lambda>x. map_option fr_heldAmount (fst x)) (case holdItemForFraud sample_world ''i1'' ''FRAUD'' ?d of Inr x \<Rightarrow> Some x | Inl _ \<Rightarrow> None)
    = Some (Some 150)" by code_simp
  then obtain res d' where run: "holdItemForFraud sample_world ''i1'' ''FRAUD'' ?d = Inr (Some res, d')" "fr_heldAmount res = 150"
    by (auto split: sum.splits)
  have "ledger_wf (ledgers ?d)" "map_option snd (item_ref ''i1'' ?d) = Some ''u1''" by code_simp+
  with fraud_hold_never_overdraws [OF run(1)] run show ?thesis by auto
qed

section \<open>Applied once\<close>

text \<open>
  C23: an event is applied once. After an event was ingested, and after any further events whatever
  they were, a repetition under the same local id answers as a duplicate with the id of the first
  row and changes nothing.
\<close>

theorem ingest_applied_once:
  assumes run: "ingestMachineEvent w (Some m) inp c d = ((Inr r, d1), c1)" and later: "(ingest_step w)\<^sup>*\<^sup>* d1 d2"
    and same: "in_localEventId again = in_localEventId inp"
  shows "\<exists>r'. ingestMachineEvent w (Some m) again c2 d2 = ((Inr r', d2), c2) \<and> ir_duplicate r' \<and> ir_eventId r' = ir_eventId r"
proof -
  have "map_option mev_id (find_event (mac_id m) (in_localEventId inp) d2) = Some (ir_eventId r)"
    using recorded_stays [OF ingest_steps_safe [OF later] ingested_is_recorded [OF run refl]] .
  then obtain x where "find_event (mac_id m) (in_localEventId again) d2 = Some x" "mev_id x = ir_eventId r"
    using same by auto
  then show ?thesis by (simp add: ingestMachineEvent_def first_some_def duplicate_of_def)
qed

theorem ingest_applied_once_witness:
  "\<exists>r d1 c1 r'. ingestMachineEvent sample_world (Some sample_machine) (sample_input ''e2'' EV_HEARTBEAT []) None weighed_db = ((Inr r, d1), c1)
     \<and> \<not> ir_duplicate r
     \<and> ingestMachineEvent sample_world (Some sample_machine) (sample_input ''e2'' EV_HEARTBEAT []) None d1 = ((Inr r', d1), None)
     \<and> ir_duplicate r' \<and> ir_eventId r' = ir_eventId r"
proof -
  have "(case ingestMachineEvent sample_world (Some sample_machine) (sample_input ''e2'' EV_HEARTBEAT []) None weighed_db of
      ((Inr r, d1), c1) \<Rightarrow> \<not> ir_duplicate r | _ \<Rightarrow> False)" by code_simp
  then obtain r d1 c1 where run: "ingestMachineEvent sample_world (Some sample_machine) (sample_input ''e2'' EV_HEARTBEAT []) None weighed_db
      = ((Inr r, d1), c1)" "\<not> ir_duplicate r"
    by (auto split: prod.splits sum.splits)
  from ingest_applied_once [OF run(1) rtranclp.rtrancl_refl refl, of None] run show ?thesis by blast
qed

section \<open>Batches\<close>

definition known_ok :: "machine \<Rightarrow> batch_state \<Rightarrow> bool" where
  "known_ok m b \<longleftrightarrow> (\<forall>l e. bs_known b l = Some e \<longrightarrow> map_option mev_id (find_event (mac_id m) l (bs_db b)) = Some e)"

definition acknowledged :: "machine \<Rightarrow> db \<Rightarrow> event_answer \<Rightarrow> bool" where
  "acknowledged m d a = (case a of
      Accepted l e \<Rightarrow> map_option mev_id (find_event (mac_id m) l d) = Some e
    | Duplicate l e \<Rightarrow> map_option mev_id (find_event (mac_id m) l d) = Some e
    | Refused _ _ _ \<Rightarrow> True)"

lemma acknowledged_stays: "acknowledged m d a \<Longrightarrow> event_safe d d' \<Longrightarrow> acknowledged m d' a"
  by (auto simp: acknowledged_def split: event_answer.splits dest: recorded_stays)

lemma batch_attempt_ok:
  assumes run: "batch_attempt w m evt b = (a, b')" and known: "known_ok m b"
  shows "event_safe (bs_db b) (bs_db b')" "known_ok m b'" "acknowledged m (bs_db b') a" "set (bs_held b) \<subseteq> set (bs_held b')"
proof -
  obtain rr d1 c1 where ing: "ingestMachineEvent w (Some m) evt (bs_cache b) (bs_db b) = ((rr, d1), c1)" by (metis surj_pair)
  have b': "bs_db b' = d1" using run ing by (cases rr) (auto simp: batch_attempt_def split_def Let_def)
  show safe: "event_safe (bs_db b) (bs_db b')" using ingest_safe [OF ing] b' by simp
  have old: "map_option mev_id (find_event (mac_id m) l d1) = Some e" if "bs_known b l = Some e" for l e
    using known that recorded_stays [OF ingest_safe [OF ing]] by (simp add: known_ok_def)
  have "known_ok m b' \<and> acknowledged m (bs_db b') a \<and> set (bs_held b) \<subseteq> set (bs_held b')"
  proof (cases rr)
    case (Inl e)
    with run ing have "bs_known b' = bs_known b" "set (bs_held b) \<subseteq> set (bs_held b')" "\<exists>l x y. a = Refused l x y"
      by (auto simp: batch_attempt_def split_def Let_def split: option.splits)
    with old b' show ?thesis by (auto simp: known_ok_def acknowledged_def)
  next
    case (Inr r)
    with run ing have "bs_known b' = (bs_known b)(in_localEventId evt \<mapsto> ir_eventId r)" "bs_held b' = bs_held b"
      "a = Accepted (in_localEventId evt) (ir_eventId r) \<or> a = Duplicate (in_localEventId evt) (ir_eventId r)"
      by (auto simp: batch_attempt_def)
    with old b' ingested_is_recorded [OF ing Inr] show ?thesis by (auto simp: known_ok_def acknowledged_def)
  qed
  then show "known_ok m b'" "acknowledged m (bs_db b') a" "set (bs_held b) \<subseteq> set (bs_held b')" by simp_all
qed

lemma batch_event_ok:
  assumes run: "batch_event w m re b = (a, b')" and known: "known_ok m b"
  shows "event_safe (bs_db b) (bs_db b') \<and> known_ok m b' \<and> acknowledged m (bs_db b') a \<and> set (bs_held b) \<subseteq> set (bs_held b')"
proof (cases "b' = b")
  case True
  have "acknowledged m (bs_db b) a"
    using run known True batch_attempt_ok(3) [OF _ known]
    by (fastforce simp: batch_event_def acknowledged_def known_ok_def split: option.splits if_splits prod.splits)
  with True known show ?thesis by simp
next
  case False
  with run obtain evt where "batch_attempt w m evt b = (a, b')"
    by (auto simp: batch_event_def split: option.splits if_splits prod.splits)
  from batch_attempt_ok [OF this known] show ?thesis by simp
qed

lemma batch_loop_ok:
  assumes "batch_loop w m es b = (as, b')" "known_ok m b"
  shows "event_safe (bs_db b) (bs_db b') \<and> length as = length es \<and> (\<forall>a \<in> set as. acknowledged m (bs_db b') a)"
  using assms
proof (induction es arbitrary: b as)
  case (Cons e es)
  obtain a b1 where one: "batch_event w m e b = (a, b1)" by force
  obtain as' where rest: "batch_loop w m es b1 = (as', b')" "as = a # as'"
    using Cons.prems(1) one by (auto split: prod.splits)
  note ok = batch_event_ok [OF one Cons.prems(2)]
  from Cons.IH [OF rest(1)] ok have IH: "event_safe (bs_db b1) (bs_db b')" "length as' = length es" "\<forall>a \<in> set as'. acknowledged m (bs_db b') a"
    by auto
  with ok rest(2) show ?case by (auto intro: events.R_trans acknowledged_stays)
qed simp

text \<open>
  A batch answers every event, and what it acknowledges is durable. A batch that is not oversized
  gets one answer per event, in order; every event answered as accepted or as a duplicate has a row of
  this machine under that local id in the final state, with the id the answer names.
\<close>

theorem batch_acknowledges_recorded:
  assumes run: "postMachineEvents w m events d = (Inr answers, d')"
  shows "length answers = length events
    \<and> (\<forall>a \<in> set answers. case a of
         Accepted l e \<Rightarrow> map_option mev_id (find_event (mac_id m) l d') = Some e
       | Duplicate l e \<Rightarrow> map_option mev_id (find_event (mac_id m) l d') = Some e
       | Refused l code retry \<Rightarrow> True)"
proof -
  let ?b = "\<lparr>bs_known = known_events (mac_id m) (map fst events) d, bs_cache = createDepositItemCache, bs_held = [], bs_db = d\<rparr>"
  have "known_ok m ?b" by (simp add: known_ok_def known_events_def)
  moreover from run obtain b where "batch_loop w m events ?b = (answers, b)" "bs_db b = d'"
    by (auto simp: postMachineEvents_def Let_def split: if_splits prod.splits)
  ultimately show ?thesis using batch_loop_ok [of w m events ?b answers b] by (simp add: acknowledged_def)
qed

definition raw_event :: "string \<Rightarrow> string \<Rightarrow> payload \<Rightarrow> string \<times> payload" where
  "raw_event l t p = (l, [(''localEventId'', JStr l), (''eventType'', JStr t), (''sessionId'', JStr ''s1''), (''payload'', JObj p)])"

text \<open>A watermark for a session that is still open, which the machine may retry, and an event of the same session after it.\<close>

definition sample_batch :: "(string \<times> payload) list" where
  "sample_batch = [raw_event ''e7'' ''SESSION_CLOSE_WATERMARK'' [(''eventCount'', JNum 0 ''0'')], raw_event ''e8'' ''HEARTBEAT'' []]"

lemma sample_batch_run:
  "\<exists>a1 a2 d' l code. postMachineEvents sample_world sample_machine sample_batch weighed_db = (Inr [a1, a2], d')
     \<and> a1 = Refused l code True"
proof -
  have "(case postMachineEvents sample_world sample_machine sample_batch weighed_db of
      (Inr [Refused l code True, a2], d') \<Rightarrow> True | _ \<Rightarrow> False)" by code_simp
  then show ?thesis by (auto split: prod.splits sum.splits list.splits event_answer.splits bool.splits)
qed

theorem batch_acknowledges_recorded_witness:
  "\<exists>answers d'. postMachineEvents sample_world sample_machine sample_batch weighed_db = (Inr answers, d') \<and> length answers = 2"
proof -
  from sample_batch_run obtain answers d' where run: "postMachineEvents sample_world sample_machine sample_batch weighed_db = (Inr answers, d')"
    by blast
  moreover have "length sample_batch = 2" by (simp add: sample_batch_def)
  ultimately show ?thesis using batch_acknowledges_recorded [OF run] by auto
qed

text \<open>The session an event of a batch names, once it parses.\<close>

definition batch_session :: "world \<Rightarrow> machine \<Rightarrow> string \<times> payload \<Rightarrow> ident option" where
  "batch_session w m re = Option.bind (parse_event w (mac_machineCode m) (snd re)) (\<lambda>evt. given (in_sessionId evt))"

lemma batch_attempt_held:
  assumes "batch_attempt w m evt b = (a, b')"
  shows "set (bs_held b) \<subseteq> set (bs_held b')"
    and "a = Refused l code True \<Longrightarrow> given (in_sessionId evt) = Some s \<Longrightarrow> s \<in> set (bs_held b')"
proof -
  obtain rr d1 c1 where "ingestMachineEvent w (Some m) evt (bs_cache b) (bs_db b) = ((rr, d1), c1)" by (metis surj_pair)
  with assms show "set (bs_held b) \<subseteq> set (bs_held b')"
    "a = Refused l code True \<Longrightarrow> given (in_sessionId evt) = Some s \<Longrightarrow> s \<in> set (bs_held b')"
    by (cases rr; auto simp: batch_attempt_def split_def Let_def split: option.splits if_splits)+
qed

lemma batch_event_held:
  assumes run: "batch_event w m re b = (a, b')"
  shows "set (bs_held b) \<subseteq> set (bs_held b')"
    and "a = Refused l code True \<Longrightarrow> batch_session w m re = Some s \<Longrightarrow> s \<in> set (bs_held b')"
    and "batch_session w m re = Some s \<Longrightarrow> s \<in> set (bs_held b) \<Longrightarrow> a \<noteq> Accepted l' e"
proof -
  obtain x raw where re: "re = (x, raw)" by force
  show "set (bs_held b) \<subseteq> set (bs_held b')"
    using run re batch_attempt_held(1) by (auto simp: batch_event_def split: option.splits if_splits)
  show "s \<in> set (bs_held b')" if "a = Refused l code True" "batch_session w m re = Some s"
    using run re that batch_attempt_held(2)
    by (auto simp: batch_event_def batch_session_def bind_eq_Some_conv split: option.splits if_splits)
  show "a \<noteq> Accepted l' e" if "batch_session w m re = Some s" "s \<in> set (bs_held b)"
    using run re that by (auto simp: batch_event_def batch_session_def bind_eq_Some_conv split: option.splits if_splits)
qed

lemma batch_loop_held:
  assumes "batch_loop w m es b = (as, b')" "k < length es" "batch_session w m (es ! k) = Some s" "s \<in> set (bs_held b)"
  shows "as ! k \<noteq> Accepted l e"
  using assms
proof (induction es arbitrary: b as k)
  case (Cons x es)
  obtain a b1 where one: "batch_event w m x b = (a, b1)" by force
  obtain as' where rest: "batch_loop w m es b1 = (as', b')" "as = a # as'"
    using Cons.prems(1) one by (auto split: prod.splits)
  show ?case
  proof (cases k)
    case 0
    with batch_event_held(3) [OF one] Cons.prems(3,4) rest(2) show ?thesis by simp
  next
    case (Suc n)
    with Cons.IH [OF rest(1), of n] Cons.prems(2-4) batch_event_held(1) [OF one] rest(2) show ?thesis by auto
  qed
qed simp

lemma batch_loop_order:
  assumes "batch_loop w m es b = (as, b')" "j < k" "k < length es" "as ! j = Refused l code True"
    "batch_session w m (es ! j) = Some s" "batch_session w m (es ! k) = Some s"
  shows "as ! k \<noteq> Accepted l' e"
  using assms
proof (induction es arbitrary: b as j k)
  case (Cons x es)
  obtain a b1 where one: "batch_event w m x b = (a, b1)" by force
  obtain as' where rest: "batch_loop w m es b1 = (as', b')" "as = a # as'"
    using Cons.prems(1) one by (auto split: prod.splits)
  obtain k' where k: "k = Suc k'" using Cons.prems(2) by (cases k) auto
  show ?case
  proof (cases j)
    case 0
    with batch_event_held(2) [OF one] Cons.prems(4,5) rest(2) have "s \<in> set (bs_held b1)" by simp
    with batch_loop_held [OF rest(1), of k' s] Cons.prems(3,6) k rest(2) show ?thesis by simp
  next
    case (Suc n)
    with Cons.IH [OF rest(1), of n k'] Cons.prems(2-6) k rest(2) show ?thesis by simp
  qed
qed simp

text \<open>
  C26: a batch keeps the order of a session. Once an event of a session is refused with leave to
  retry, no later event of that session is accepted in the same batch, so the machine can resend from
  the refused one on without a later event having overtaken it.
\<close>

theorem batch_keeps_session_order:
  assumes run: "postMachineEvents w m events d = (Inr answers, d')" and "j < k" "k < length events"
    and "parse_event w (mac_machineCode m) (snd (events ! j)) = Some ej" "given (in_sessionId ej) = Some s"
    and "parse_event w (mac_machineCode m) (snd (events ! k)) = Some ek" "given (in_sessionId ek) = Some s"
    and "answers ! j = Refused l code True"
  shows "answers ! k \<noteq> Accepted l' e"
proof -
  from run obtain b b' where "batch_loop w m events b = (answers, b')"
    by (auto simp: postMachineEvents_def Let_def split: if_splits prod.splits)
  then show ?thesis
    using assms(2-) by (intro batch_loop_order [of w m events b answers b' j k]) (auto simp: batch_session_def)
qed

theorem batch_keeps_session_order_witness:
  "\<exists>a1 a2 d'. postMachineEvents sample_world sample_machine sample_batch weighed_db = (Inr [a1, a2], d')
     \<and> a2 \<noteq> Accepted ''e8'' ''idx''"
proof -
  from sample_batch_run obtain a1 a2 d' l code where
    run: "postMachineEvents sample_world sample_machine sample_batch weighed_db = (Inr [a1, a2], d')" and a1: "a1 = Refused l code True"
    by blast
  have s: "map (batch_session sample_world sample_machine) sample_batch = [Some ''s1'', Some ''s1'']" by code_simp
  then have one: "batch_session sample_world sample_machine (sample_batch ! 0) = Some ''s1''"
    and two: "batch_session sample_world sample_machine (sample_batch ! 1) = Some ''s1''"
    by (simp_all add: sample_batch_def)
  from one obtain e0 where e0: "parse_event sample_world (mac_machineCode sample_machine) (snd (sample_batch ! 0)) = Some e0"
    "given (in_sessionId e0) = Some ''s1''" by (auto simp: batch_session_def bind_eq_Some_conv)
  from two obtain e1 where e1: "parse_event sample_world (mac_machineCode sample_machine) (snd (sample_batch ! 1)) = Some e1"
    "given (in_sessionId e1) = Some ''s1''" by (auto simp: batch_session_def bind_eq_Some_conv)
  have "1 < length sample_batch" by (simp add: sample_batch_def)
  with batch_keeps_session_order [OF run zero_less_one _ e0 e1, of l code] a1 run show ?thesis by auto
qed

section \<open>The close watermark\<close>

lemma exposure_same:
  assumes "items d' = items d" "sessions d' = sessions d" "commits d' = commits d"
  shows "kept_for_review r sid d' = kept_for_review r sid d"
proof -
  have e: "item_exposure cap d' = item_exposure cap d" for cap by (rule ext) (simp add: item_exposure_def assms(3))
  have i: "exposed_items sid d' = exposed_items sid d" by (simp add: exposed_items_def assms(1))
  show ?thesis unfolding kept_for_review_def sessionReviewExposure_def e i assms(2) ..
qed

lemma watermark_close_first_funding:
  assumes "watermark_close_first w m s d = Inr d'"
  shows "\<exists>t u ls. d' = d\<lparr>held_locks := ls, items := t, sessions := u\<rparr>"
proof (cases "d' = d")
  case True
  have "d = d\<lparr>held_locks := held_locks d, items := items d, sessions := sessions d\<rparr>" by simp
  with True show ?thesis by blast
next
  case False
  with assms obtain x where "expireIfTimedOut w (ses_id s) (mac_sessionIdleTimeoutMinutes m) (w_now w) d = Inr (x, d')"
    by (auto simp: watermark_close_first_def result_simps split: if_splits option.splits)
  then obtain es where "expireTimedOutSessions w [ses_id s] (mac_sessionIdleTimeoutMinutes m) (w_now w) d = Inr (es, d')"
    by (auto simp: expireIfTimedOut_def result_simps)
  then show ?thesis by (rule expire_frame)
qed

lemma release_keeps_commits:
  assumes "releaseUnusedRewardBudget w i amount opts d = Inr (x, d')"
  shows "commits d' = commits d"
proof -
  have "commits d2 = commits d1" if "apply_release w r n opts d1 = Inr d2" for r n d1 d2
    using that by (auto simp: apply_release_def result_simps split: if_splits dest!: bumpAccount_Inr bumpCampaign_Inr)
  moreover from assms obtain ref ls where "release_locked w ref amount opts (d\<lparr>held_locks := ls\<rparr>) = Inr (x, d')"
    by (auto simp: releaseUnusedRewardBudget_def assertRupiah_def result_simps elim: with_funding_locks_Inr)
  ultimately show ?thesis
    by (fastforce simp: release_locked_def result_simps Let_def bump_seq_def split: option.splits if_splits)
qed

text \<open>
  C25: the close watermark keeps what reviews may still draw. When a machine's watermark closes the books of
  a session whose reservation is active, exactly the remainder above the review exposure leaves the
  account's held amount; what stays on the reservation is that exposure (all of it when it cannot be
  bounded), the reservation is closed only when nothing stays, the session carries the mark, and the
  funding books still balance.
\<close>

theorem watermark_keeps_review_money:
  assumes run: "handleCloseWatermark w m inp d = Inr (n, d')" and inv: "funding_inv d"
    and sid: "given (in_sessionId inp) = Some sid" "find_by ses_id sid (sessions d) = Some session"
      "ses_machineId session = mac_id m" "ses_closeWatermarkAt session = None"
    and r: "findReservationByKey (sessionAdmissionKey sid) d = Some r" "rsv_status r = RES_ACTIVE"
    and new: "find_by rel_businessKey (sessionCloseWatermarkKey sid) (releases d) = None"
  shows "\<exists>session' r'. find_by ses_id sid (sessions d') = Some session' \<and> ses_closeWatermarkAt session' = Some (w_now w)
    \<and> find_by rsv_id (rsv_id r) (reservations d') = Some r'
    \<and> rsv_remainingRupiah r' = kept_for_review r sid d' \<and> n = rsv_remainingRupiah r - kept_for_review r sid d'
    \<and> 0 \<le> kept_for_review r sid d' \<and> 0 \<le> n
    \<and> (rsv_status r' = RES_RELEASED \<longleftrightarrow> kept_for_review r sid d' = 0)
    \<and> acct_shift (rsv_accountId r) 0 (- n) (accounts d) (accounts d') \<and> funding_inv d'"
proof -
  from run sid r(1) obtain p d0 where d0: "watermark_locks m session (Some r) d = Inr d0"
    and rest: "watermark_locked w m p sid (Some r) d0 = Inr (n, d')"
    by (auto simp: handleCloseWatermark_def rbind_Inr_iff Let_def)
  from watermark_locks_safe [OF d0] obtain ls where ls: "d0 = d\<lparr>held_locks := ls\<rparr>" by blast
  from rest ls sid obtain d1 where d1: "watermark_close_first w m session d0 = Inr d1"
    and conf: "watermark_release w sid (Some r) (d1\<lparr>sessions := upd_by ses_id sid (mark_watermark w p) (sessions d1)\<rparr>) = Inr (n, d')"
    and row: "find_by ses_id sid (sessions d1) \<noteq> None"
    by (auto simp: watermark_locked_def rbind_Inr_iff update_row_Inr split: if_splits)
  let ?d = "d1\<lparr>sessions := upd_by ses_id sid (mark_watermark w p) (sessions d1)\<rparr>"
  from watermark_close_first_funding [OF d1] ls obtain t u ls' where
    "d1 = d\<lparr>held_locks := ls', items := t, sessions := u\<rparr>" by auto
  then have same: "reservations ?d = reservations d" "releases ?d = releases d" "accounts ?d = accounts d"
    "funding_inv ?d = funding_inv d" by (simp_all add: same_funding)
  have inv': "funding_inv ?d" using inv same by simp
  have r': "findReservationByKey (sessionAdmissionKey sid) ?d = Some r" using r(1) same by (simp add: findReservationByKey_def)
  note res = reservation_row [OF inv' r']
  let ?k = "kept_for_review r sid ?d"
  let ?opts = "\<lparr>ro_close = (?k = 0), ro_releasedById = None, ro_reason = Some CLOSE_WATERMARK_RELEASE_REASON,
     ro_businessKey = Some (sessionCloseWatermarkKey sid)\<rparr>"
  from conf r' r(2) obtain replay where rel: "releaseUnusedRewardBudget w (rsv_id r) (rsv_remainingRupiah r - ?k) ?opts ?d = Inr ((n, replay), d')"
    by (auto simp: watermark_release_def result_simps Let_def)
  have bounds: "0 \<le> ?k" "?k \<le> rsv_remainingRupiah r" using kept_bounds [OF res(2)] by simp_all
  have given_back: "n = rsv_remainingRupiah r - ?k \<and> funding_inv d' \<and> acct_shift (rsv_accountId r) 0 (- n) (accounts ?d) (accounts d')
    \<and> reservations d' = upd_by rsv_id (rsv_id r) (release_reservation w n ?opts) (reservations ?d)"
    using release_new [OF rel inv' res(1)] r(2) bounds new same by auto
  have tables: "items d' = items ?d" "sessions d' = sessions ?d" "commits d' = commits ?d"
    using releaseUnusedRewardBudget_frame [OF rel] release_keeps_commits [OF rel] by (simp_all add: same_wallet_def)
  have kept: "kept_for_review r sid d' = ?k" by (rule exposure_same [OF tables])
  from row obtain s1 where "find_by ses_id sid (sessions d1) = Some s1" by blast
  then have marked: "find_by ses_id sid (sessions d') = Some (mark_watermark w p s1)"
    using tables(2) by (simp add: find_by_upd_by mark_watermark_def)
  have released: "find_by rsv_id (rsv_id r) (reservations d') = Some (release_reservation w n ?opts r)"
    using given_back res(1) by (simp add: find_by_upd_by release_reservation_def draw_reservation_def Let_def)
  have fields: "rsv_remainingRupiah (release_reservation w n ?opts r) = rsv_remainingRupiah r - n"
    "rsv_status (release_reservation w n ?opts r) = RES_RELEASED \<longleftrightarrow> ?k = 0"
    using r(2) by (auto simp: release_reservation_def draw_reservation_def Let_def)
  have mark: "ses_closeWatermarkAt (mark_watermark w p s1) = Some (w_now w)" by (simp add: mark_watermark_def)
  from given_back have n: "n = rsv_remainingRupiah r - ?k" and acct: "acct_shift (rsv_accountId r) 0 (- n) (accounts d) (accounts d')"
    and "funding_inv d'" unfolding same by blast+
  with marked mark released fields bounds show ?thesis unfolding kept by fastforce
qed

theorem watermark_keeps_review_money_witness:
  "\<exists>n d' session'. handleCloseWatermark sample_world sample_machine
       (sample_input ''e9'' EV_SESSION_CLOSE_WATERMARK [(''eventCount'', JNum 0 ''0'')])
       (reserved_db\<lparr>sessions := [sample_session\<lparr>ses_status := SS_COMPLETED\<rparr>]\<rparr>) = Inr (n, d')
     \<and> find_by ses_id ''s1'' (sessions d') = Some session' \<and> ses_closeWatermarkAt session' = Some 1000 \<and> funding_inv d'"
proof -
  let ?s = "sample_session\<lparr>ses_status := SS_COMPLETED\<rparr>"
  let ?d = "reserved_db\<lparr>sessions := [?s]\<rparr>"
  let ?inp = "sample_input ''e9'' EV_SESSION_CLOSE_WATERMARK [(''eventCount'', JNum 0 ''0'')]"
  have "succeeds (handleCloseWatermark sample_world sample_machine ?inp ?d)" by code_simp
  from succeeds_tx [OF this] obtain n d' where run: "handleCloseWatermark sample_world sample_machine ?inp ?d = Inr (n, d')" by blast
  have inv: "funding_inv ?d" using sample_inv(3) by (simp add: same_funding)
  have sid: "given (in_sessionId ?inp) = Some ''s1''" "find_by ses_id ''s1'' (sessions ?d) = Some ?s"
    "ses_machineId ?s = mac_id sample_machine" "ses_closeWatermarkAt ?s = None"
    by (simp_all add: sample_input_def given_def sample_session_def sample_machine_def)
  have "map_option rsv_status (findReservationByKey (sessionAdmissionKey ''s1'') reserved_db) = Some RES_ACTIVE"
    and new: "find_by rel_businessKey (sessionCloseWatermarkKey ''s1'') (releases reserved_db) = None" by code_simp+
  then obtain r where r: "findReservationByKey (sessionAdmissionKey ''s1'') reserved_db = Some r" "rsv_status r = RES_ACTIVE" by auto
  then have "findReservationByKey (sessionAdmissionKey ''s1'') ?d = Some r" by (simp add: findReservationByKey_def)
  from watermark_keeps_review_money [OF run inv sid this r(2)] new run show ?thesis by (auto simp: sample_world_def)
qed

end
