(* ===== verification/Review_Props.thy ===== *)
theory Review_Props
  imports Review Machine_Props "HOL-Library.Multiset"
begin

text \<open>
  The contract of a review decision: it brings what the item was paid to the decided amount, exactly and once,
  it keeps the books and the wallets in order, it can be repeated but not contradicted, and a reviewer
  approves only what passed the acceptance point, with the one fenced exception for rows before the cutover.
\<close>

section \<open>The settlement plan\<close>

text \<open>What the wallet of an item has been paid: its available earnings and corrections.\<close>

definition paid_of :: "ident \<Rightarrow> ledger \<Rightarrow> int" where
  "paid_of i r = (if led_depositItemId r = Some i \<and> led_status r = LS_AVAILABLE \<and> led_entryType r \<in> {EARN, ADJUST, REVERSE, PENALTY}
     then led_amount r else 0)"

definition is_hold :: "ident \<Rightarrow> ledger \<Rightarrow> bool" where
  "is_hold i r \<longleftrightarrow> led_depositItemId r = Some i \<and> led_entryType r = EARN \<and> led_status r = LS_PENDING"

definition settled :: "ledger_status \<Rightarrow> ident \<Rightarrow> ledger \<Rightarrow> ledger" where
  "settled st i r = (if is_hold i r then set_status st r else r)"

definition hold_status :: "review_action \<Rightarrow> int \<Rightarrow> ledger_status" where
  "hold_status action target = (if action = Approve_item \<and> target > 0 then LS_AVAILABLE else LS_REJECTED)"

definition held_ids :: "ident \<Rightarrow> db \<Rightarrow> ident list" where
  "held_ids i d = map led_id (filter (is_hold i) (item_rows i d))"

lemma sum_filtered: "sum_list (map f (filter P xs)) = tsum (\<lambda>x. if P x then f x else 0) xs" for f :: "'a \<Rightarrow> int"
  by (induction xs) auto

lemma tsum_sort: "tsum f (sort_key k xs) = tsum f xs"
  unfolding tsum_def by (metis mset_map mset_sort sum_mset_sum_list)

lemma tsum_item_rows: "tsum f (item_rows i d) = tsum (\<lambda>r. if led_depositItemId r = Some i then f r else 0) (ledgers d)"
  unfolding item_rows_def tsum_sort by (simp add: tsum_def sum_list_map_filter')

lemma item_rows_set: "r \<in> set (item_rows i d) \<longleftrightarrow> r \<in> set (ledgers d) \<and> led_depositItemId r = Some i"
  by (auto simp: item_rows_def)

lemma plan_ids:
  "sp_releaseIds (planReviewSettlement action target (item_rows i d)) = (if hold_status action target = LS_AVAILABLE then held_ids i d else [])"
  "sp_rejectIds (planReviewSettlement action target (item_rows i d)) = (if hold_status action target = LS_AVAILABLE then [] else held_ids i d)"
proof -
  have "filter (\<lambda>r. led_status r = LS_PENDING) (filter (\<lambda>r. led_entryType r = EARN) (item_rows i d)) = filter (is_hold i) (item_rows i d)"
    unfolding filter_filter by (rule filter_cong) (auto simp: is_hold_def item_rows_set)
  then show "sp_releaseIds (planReviewSettlement action target (item_rows i d)) = (if hold_status action target = LS_AVAILABLE then held_ids i d else [])"
    "sp_rejectIds (planReviewSettlement action target (item_rows i d)) = (if hold_status action target = LS_AVAILABLE then [] else held_ids i d)"
    by (simp_all add: planReviewSettlement_def Let_def hold_status_def held_ids_def)
qed

lemma held_ids_iff:
  assumes "uniq led_id (ledgers d)" "r \<in> set (ledgers d)"
  shows "led_id r \<in> set (held_ids i d) \<longleftrightarrow> is_hold i r"
proof
  assume "led_id r \<in> set (held_ids i d)"
  then obtain x where "x \<in> set (ledgers d)" "is_hold i x" "led_id x = led_id r" by (auto simp: held_ids_def item_rows_set)
  with uniq_row [OF assms(1) this(1) assms(2)] show "is_hold i r" by simp
next
  assume "is_hold i r"
  with assms(2) show "led_id r \<in> set (held_ids i d)" by (auto simp: held_ids_def item_rows_set is_hold_def intro!: imageI)
qed

text \<open>The correction of the plan closes the gap between what will have been paid and the target.\<close>

lemma plan_delta:
  assumes uniq: "uniq led_id (ledgers d)"
  shows "sp_delta (planReviewSettlement action target (item_rows i d)) =
    target - tsum (paid_of i) (map (settled (hold_status action target) i) (ledgers d))"
proof -
  let ?rel = "sp_releaseIds (planReviewSettlement action target (item_rows i d))"
  let ?e = "\<lambda>r. if led_entryType r = EARN \<and> (review_counts r \<or> led_id r \<in> set ?rel) then led_amount r else 0"
  let ?c = "\<lambda>r. if led_entryType r \<in> set CORRECTION_TYPES \<and> review_counts r then led_amount r else 0"
  have "sp_delta (planReviewSettlement action target (item_rows i d)) =
      target - (sum_list (map led_amount (filter (\<lambda>r. review_counts r \<or> led_id r \<in> set ?rel) (filter (\<lambda>r. led_entryType r = EARN) (item_rows i d))))
        + sum_list (map led_amount (filter (\<lambda>r. led_entryType r \<in> set CORRECTION_TYPES \<and> review_counts r) (item_rows i d))))"
    by (simp add: planReviewSettlement_def Let_def)
  also have "\<dots> = target - (tsum ?e (item_rows i d) + tsum ?c (item_rows i d))"
    unfolding filter_filter sum_filtered by simp
  also have "tsum ?e (item_rows i d) + tsum ?c (item_rows i d) =
      tsum (\<lambda>r. if led_depositItemId r = Some i then ?e r + ?c r else 0) (ledgers d)"
    unfolding tsum_item_rows tsum_add [symmetric] by (rule tsum_cong) auto
  also have "\<dots> = tsum (\<lambda>r. paid_of i (settled (hold_status action target) i r)) (ledgers d)"
  proof (rule tsum_cong)
    fix r assume r: "r \<in> set (ledgers d)"
    have "led_id r \<in> set ?rel \<longleftrightarrow> hold_status action target = LS_AVAILABLE \<and> is_hold i r"
      using held_ids_iff [OF uniq r, of i] by (auto simp: plan_ids)
    then show "(if led_depositItemId r = Some i then ?e r + ?c r else 0) = paid_of i (settled (hold_status action target) i r)"
      by (cases "led_entryType r")
        (auto simp: paid_of_def settled_def is_hold_def review_counts_def CORRECTION_TYPES_def set_status_def)
  qed
  finally show ?thesis by (simp add: tsum_def comp_def)
qed

lemma settle_holds_ledgers:
  assumes "settle_holds st is d = Inr d'" "st \<noteq> LS_PENDING"
  shows "d' = d\<lparr>ledgers := map (\<lambda>r. if led_id r \<in> set is \<and> led_status r = LS_PENDING then set_status st r else r) (ledgers d)\<rparr>"
  using assms
proof (induction st "is" d rule: settle_holds.induct)
  case (1 st d)
  then show ?case by simp
next
  case (2 st i "is" d)
  then show ?case by (auto simp: upd_by_def set_status_def split: if_splits)
qed

lemma settle_plan_ledgers:
  assumes one: "settle_holds LS_AVAILABLE (sp_releaseIds plan) d = Inr d1" and two: "settle_holds LS_REJECTED (sp_rejectIds plan) d1 = Inr d2"
    and plan: "plan = planReviewSettlement action target (item_rows i d)" and uniq: "uniq led_id (ledgers d)"
  shows "d2 = d\<lparr>ledgers := map (settled (hold_status action target) i) (ledgers d)\<rparr>"
proof -
  have hit: "led_id r \<in> set (held_ids i d) \<and> led_status r = LS_PENDING \<longleftrightarrow> is_hold i r" if "r \<in> set (ledgers d)" for r
    using held_ids_iff [OF uniq that] by (auto simp: is_hold_def)
  have all: "map (\<lambda>r. if led_id r \<in> set (held_ids i d) \<and> led_status r = LS_PENDING then set_status st r else r) (ledgers d)
      = map (settled st i) (ledgers d)" for st
    by (rule map_cong) (use hit in \<open>auto simp: settled_def\<close>)
  show ?thesis
  proof (cases "hold_status action target = LS_AVAILABLE")
    case True
    with one two show ?thesis using settle_holds_ledgers [of LS_AVAILABLE "held_ids i d" d d1] by (simp add: plan plan_ids all)
  next
    case False
    then have "hold_status action target = LS_REJECTED" by (auto simp: hold_status_def)
    with one two settle_holds_ledgers [of LS_REJECTED "held_ids i d" d d2] all [of LS_REJECTED] show ?thesis
      by (simp add: plan plan_ids)
  qed
qed

section \<open>The wallets\<close>

text \<open>Changing the status of earnings leaves every reserve as it is.\<close>

lemma earn_rows_change:
  assumes rows: "wallet_rows d" and soft: "\<And>r. r \<in> set (ledgers d) \<Longrightarrow> softens r (f r)"
    and other: "\<And>r. led_entryType r \<noteq> EARN \<Longrightarrow> f r = r" and earn: "\<And>r. led_entryType (f r) = led_entryType r"
  shows "wallet_rows (d\<lparr>ledgers := map f (ledgers d)\<rparr>)"
proof -
  have wf: "ledger_wf (map f (ledgers d))" using rows soft by (auto simp: wallet_rows_def intro: ledger_wf_map)
  have no_earn: "led_entryType x \<noteq> EARN" if "reserve_for i x" for i x using that by (simp add: reserve_for_def)
  have "\<exists>l \<in> f ` set (ledgers d). backed_by q l" if "\<exists>l \<in> set (ledgers d). backed_by q l" for q
    using that other no_earn by (force simp: backed_by_def)
  moreover have "reserve_for i l \<longrightarrow> i \<in> red_id ` set (redemptions d)" if "l \<in> f ` set (ledgers d)" for i l
    using that rows other earn no_earn unfolding wallet_rows_def by (metis imageE)
  ultimately show ?thesis using rows wf by (simp add: wallet_rows_def)
qed

lemma settled_softens: "softens r (settled st i r)"
  unfolding settled_def is_hold_def by (auto intro: softens_refl softens_set)

lemma settled_avail:
  assumes "led_entryType r = EARN \<Longrightarrow> 0 \<le> led_amount r" "st = LS_AVAILABLE \<or> st = LS_REJECTED"
  shows "avail_of u r \<le> avail_of u (settled st i r)"
  using assms by (auto simp: settled_def is_hold_def avail_of_def)

lemma settled_wallet:
  assumes inv: "wallet_inv d"
  shows "wallet_inv (d\<lparr>ledgers := map (settled (hold_status action target) i) (ledgers d)\<rparr>)"
proof -
  let ?f = "settled (hold_status action target) i"
  have st: "hold_status action target = LS_AVAILABLE \<or> hold_status action target = LS_REJECTED" by (simp add: hold_status_def)
  have "wallet_rows (d\<lparr>ledgers := map ?f (ledgers d)\<rparr>)"
  proof (rule earn_rows_change)
    show "wallet_rows d" using inv by (simp add: wallet_inv_def)
  qed (auto simp: settled_softens, simp_all add: settled_def is_hold_def)
  moreover have "tsum (avail_of u) (ledgers d) \<le> tsum (avail_of u) (map ?f (ledgers d))" for u
    using tsum_mono [of "ledgers d" "avail_of u" "\<lambda>r. avail_of u (?f r)"] settled_avail [OF _ st] inv
    by (simp add: tsum_def comp_def wallet_inv_def earnings_nonneg_def)
  moreover have "earnings_nonneg (map ?f (ledgers d))"
    using inv by (intro earnings_nonneg_map) (simp_all add: wallet_inv_def settled_def set_status_def)
  ultimately show ?thesis using inv unfolding wallet_inv_def solvent_def wallet_sums by (auto intro: order_trans)
qed

section \<open>Frames\<close>

lemma settle_delta_frame:
  assumes "settle_delta ref delta d = Inr (u, d')"
  shows "same_wallet d d'"
  using assms
  by (auto simp: settle_delta_def result_simps Let_def split: if_splits
      dest!: draw_and_hold_frame bumpAccount_frame bumpCampaign_frame intro: same_wallet_trans)

lemma settleCommittedReward_frame:
  assumes "settleCommittedReward key target rp d = Inr (x, d')"
  shows "same_wallet d d'"
proof (cases "find_by com_businessKey key (commits d)")
  case None
  with assms show ?thesis by (auto simp: settleCommittedReward_def result_simps)
next
  case (Some ref)
  with assms obtain ls where "settle_locked ref target rp (d\<lparr>held_locks := ls\<rparr>) = Inr (x, d')"
    by (auto simp: settleCommittedReward_def assertRupiah_def result_simps elim: with_funding_locks_Inr)
  then show ?thesis by (auto simp: settle_locked_def result_simps Let_def dest!: settle_delta_frame)
qed

lemma settleOrCommitReward_frame:
  assumes run: "settleOrCommitReward w key st si target rp d = Inr (x, d')"
  shows "same_wallet d d'"
proof (cases "find_by com_businessKey key (commits d)")
  case (Some c)
  with run show ?thesis by (auto simp: settleOrCommitReward_def dest: settleCommittedReward_frame)
next
  case None
  show ?thesis
  proof (cases "target = None \<or> the target \<le> 0")
    case True
    with None run show ?thesis by (auto simp: settleOrCommitReward_def split: option.splits)
  next
    case False
    then obtain n where n: "target = Some n" "\<not> n \<le> 0" by auto
    obtain src d1 where src: "resolveSourceReservation w st si d = Inr (src, d1)"
      using None run n by (cases "resolveSourceReservation w st si d") (auto simp: settleOrCommitReward_def)
    have rest: "d' = d1 \<or> (\<exists>r n res. commitRewardAgainstBudget w r key n rp d1 = Inr (res, d'))"
      using None run n src by (cases src) (auto simp: settleOrCommitReward_def rbind_Inr_iff)
    from resolveSourceReservation_frame [OF src] rest show ?thesis
      by (auto dest: commitRewardAgainstBudget_frame intro: same_wallet_trans)
  qed
qed

lemma closeWatermarked_frame: "closeWatermarkedSessionIfSettled w s d = Inr (x, d') \<Longrightarrow> same_wallet d d'"
  by (auto simp: closeWatermarkedSessionIfSettled_def result_simps split: option.splits if_splits dest!: releaseUnusedRewardBudget_frame)

lemma closeWatermarked_inv:
  assumes run: "closeWatermarkedSessionIfSettled w s d = Inr (x, d')" and inv: "funding_inv d"
  shows "funding_inv d'"
proof (cases "d' = d")
  case False
  with run obtain r n replay where r: "findReservationByKey (sessionAdmissionKey s) d = Some r"
    and rel: "releaseUnusedRewardBudget w (rsv_id r) (rsv_remainingRupiah r)
      \<lparr>ro_close = True, ro_releasedById = None, ro_reason = Some REVIEW_SETTLED_RELEASE_REASON,
       ro_businessKey = Some (sessionReviewCloseKey s)\<rparr> d = Inr ((n, replay), d')"
    by (auto simp: closeWatermarkedSessionIfSettled_def result_simps split: option.splits if_splits)
  from rel inv show ?thesis
    by (rule releaseUnusedRewardBudget_inv) (use reservation_row [OF inv r] in simp)
qed (simp add: inv)

section \<open>The decision transaction\<close>

lemma review_locks_frame:
  assumes "review_locks w ref m i d = Inr (a, d')"
  shows "same_wallet d d'" "funding_inv d \<Longrightarrow> funding_inv d'" "campaigns d' = campaigns d"
    "reservations d' = reservations d" "commits d' = commits d" "fundingEntries d' = fundingEntries d"
proof -
  from assms obtain d2 d3 where one: "(case findReservationByKey (sessionAdmissionKey (ses_id ref)) d of
        Some r \<Rightarrow> rbind (lockFundingAccount (rsv_accountId r) (acquire (LUser (ses_userId ref)) d)) (\<lambda>d2. Inr (rsv_accountId r, d2))
      | None \<Rightarrow> rbind (lockFundingAccountForOrganization w (mac_organizationId m) (acquire (LUser (ses_userId ref)) d)) (\<lambda>(a, d2). Inr (acc_id a, d2)))
      = Inr (a, d2)"
    and cmp: "lockCampaignOpt (given (ses_campaignId ref)) d2 = Inr d3"
    and d': "d' = acquire (LDepositItem i) (acquire (LDepositSession (ses_id ref)) (acquire (LMachine (ses_machineId ref)) d3))"
    by (auto simp: review_locks_def result_simps)
  from lockCampaignOpt_Inr [OF cmp] obtain ls where d3: "d3 = d2\<lparr>held_locks := ls\<rparr>" using committed_fields by blast
  have "same_wallet d d2 \<and> (funding_inv d \<longrightarrow> funding_inv d2) \<and> campaigns d2 = campaigns d \<and> reservations d2 = reservations d
      \<and> commits d2 = commits d \<and> fundingEntries d2 = fundingEntries d"
  proof (cases "findReservationByKey (sessionAdmissionKey (ses_id ref)) d")
    case (Some r)
    with one show ?thesis by (auto simp: result_simps)
  next
    case None
    with one obtain acc where acc: "lockFundingAccountForOrganization w (mac_organizationId m) (acquire (LUser (ses_userId ref)) d) = Inr (acc, d2)"
      by (auto simp: result_simps)
    from lockFundingAccountForOrganization_frame [OF acc] lockFundingAccountForOrganization_inv [OF acc]
      lockFundingAccountForOrganization_Inr [OF acc] show ?thesis by auto
  qed
  then show "same_wallet d d'" "funding_inv d \<Longrightarrow> funding_inv d'" "campaigns d' = campaigns d"
    "reservations d' = reservations d" "commits d' = commits d" "fundingEntries d' = fundingEntries d"
    by (simp_all add: d' d3)
qed

lemma review_view_fields:
  assumes "review_view ref a i d = Inr l"
  shows "find_by itm_id i (items d) = Some (lk_item l)" "itm_id (lk_item l) = i"
    "find_by ses_id (itm_sessionId (lk_item l)) (sessions d) = Some (lk_session l)"
proof -
  from assms obtain l' where "locked_item_of i d = Inr (Some l')" "l = l'"
    by (auto simp: review_view_def rbind_Inr_iff split: option.splits if_splits)
  then show "find_by itm_id i (items d) = Some (lk_item l)" "find_by ses_id (itm_sessionId (lk_item l)) (sessions d) = Some (lk_session l)"
    by (auto simp: locked_item_of_def rbind_Inr_iff find_or_throw_def split: option.splits)
  then show "itm_id (lk_item l) = i" by (blast dest: found_key)
qed

text \<open>What a successful decision did: the locks, the row it saw, and either the recorded answer or a new decision.\<close>

lemma decideDepositReview_cases:
  assumes run: "decideDepositReview w actr i inp d = Inr (res, d')"
  obtains (replayed) l :: locked_item where "find_by itm_id i (items d) = Some (lk_item l)" "itm_status (lk_item l) \<noteq> IS_REVIEW"
      "isReviewFinal (lk_item l)" "sameDecision (lk_item l) inp" "vr_idempotent res" "vr_item res = lk_item l"
      "vr_targetAmount res = itm_rewardAmount (lk_item l)" "same_wallet d d'" "reservations d' = reservations d" "commits d' = commits d"
      "funding_inv d \<Longrightarrow> funding_inv d'"
  | (decided) l itemVersion d1 d2 where "find_by itm_id i (items d) = Some (lk_item l)" "itm_id (lk_item l) = i"
      "itm_status (lk_item l) = IS_REVIEW" "same_wallet d d1" "funding_inv d \<Longrightarrow> funding_inv d1" "campaigns d1 = campaigns d"
      "find_by ses_id (itm_sessionId (lk_item l)) (sessions d) = Some (lk_session l)"
      "vi_legacy inp \<longrightarrow> act_role actr = SUPERADMIN \<and> (\<exists>t. parseItemVersion w (vi_itemVersion inp) = Inr t \<and> itemVersion = Some t)"
      "take_decision w actr l inp itemVersion d1 = Inr (res, d2)" "d' = committed d2"
proof -
  from run obtain ref m iv d2 where legacy: "vi_legacy inp \<longrightarrow> act_role actr = SUPERADMIN \<and> (\<exists>t. parseItemVersion w (vi_itemVersion inp) = Inr t \<and> iv = Some t)"
    and tx: "review_transaction w actr ref m i inp iv (committed d) = Inr (res, d2)" and d': "d' = committed d2"
    by (auto simp: decideDepositReview_def result_simps split: option.splits if_splits)
  from tx obtain a d1 l where locks: "review_locks w ref m i (committed d) = Inr (a, d1)" and view: "review_view ref a i d1 = Inr l"
    and rest: "(if itm_status (lk_item l) \<noteq> IS_REVIEW then replay_decision l inp d1 else take_decision w actr l inp iv d1) = Inr (res, d2)"
    by (auto simp: review_transaction_def rbind_Inr_iff)
  note frame = review_locks_frame [OF locks]
  have same: "same_wallet d d1" using frame(1) by (simp add: committed_def)
  have inv: "funding_inv d1" if "funding_inv d" using frame(2) that by (simp add: committed_def)
  have rows: "items d1 = items d" "sessions d1 = sessions d" using same by (simp_all add: same_wallet_def)
  note l = review_view_fields [OF view, unfolded rows]
  show ?thesis
  proof (cases "itm_status (lk_item l) = IS_REVIEW")
    case True
    with rest show ?thesis using decided [OF l(1,2) True same inv _ l(3) legacy _ d'] frame(3) by (simp add: committed_def)
  next
    case False
    with rest have d2: "d2 = d1" and fin: "isReviewFinal (lk_item l)" "sameDecision (lk_item l) inp"
      and res: "vr_idempotent res" "vr_item res = lk_item l" "vr_targetAmount res = itm_rewardAmount (lk_item l)"
      by (auto simp: replay_decision_def Let_def split: if_splits)
    show ?thesis
      by (rule replayed [OF l(1) False fin res])
        (use same inv frame in \<open>simp_all add: d' d2 committed_def same_funding\<close>)
  qed
qed

lemma write_correction_inv:
  assumes run: "write_correction w actr l plan d = Inr (x, d')"
    and effect: "\<And>et reason. sp_effect plan = Some (et, reason) \<Longrightarrow> et \<in> {EARN, ADJUST, REVERSE}"
  shows "items d' = items d" "sessions d' = sessions d" "wallet_inv d \<Longrightarrow> wallet_inv d'" "funding_inv d \<Longrightarrow> funding_inv d'"
proof -
  have typed: "credit_typed (review_effect actr l (sp_delta plan) et reason)" if "et \<in> {EARN, ADJUST, REVERSE}" for et reason
    using that by (auto simp: credit_typed_def review_effect_def effect_type_def)
  from run show "items d' = items d" "sessions d' = sessions d" "wallet_inv d \<Longrightarrow> wallet_inv d'" "funding_inv d \<Longrightarrow> funding_inv d'"
    using applyRewardEffect_wallet_inv [OF _ typed [OF effect]] applyRewardEffect_funding_inv applyRewardEffect_tables
    by (auto simp: write_correction_def rbind_Inr_iff split: option.splits)
qed

lemma write_correction_cases:
  assumes run: "write_correction w actr l plan d = Inr ((entry, kase), d')"
    and effect: "\<And>et reason. sp_effect plan = Some (et, reason) \<Longrightarrow> et \<in> {EARN, ADJUST, REVERSE} \<and> sp_delta plan \<noteq> 0"
    and none: "sp_effect plan = None \<Longrightarrow> sp_delta plan = 0"
    and new: "find_by led_businessKey (Some (reviewDecisionKey (itm_id (lk_item l)))) (ledgers d) = None"
  shows "(if kase = None then tsum (paid_of (itm_id (lk_item l))) (ledgers d') = tsum (paid_of (itm_id (lk_item l))) (ledgers d) + sp_delta plan
      else ledgers d' = ledgers d)
    \<and> (\<forall>r \<in> set (ledgers d'). is_hold (itm_id (lk_item l)) r \<longrightarrow> r \<in> set (ledgers d))"
proof (cases "sp_effect plan")
  case None
  with run none show ?thesis by (simp add: write_correction_def)
next
  case (Some p)
  obtain et reason where p: "p = (et, reason)" by force
  let ?inp = "review_effect actr l (sp_delta plan) et reason"
  from run Some p obtain res where eff: "applyRewardEffect w ?inp d = Inr (res, d')" and kase: "kase = er_case res"
    by (auto simp: write_correction_def result_simps)
  have et: "et \<in> {EARN, ADJUST, REVERSE}" "sp_delta plan \<noteq> 0" using effect Some p by auto
  have fields: "ci_businessKey ?inp = reviewDecisionKey (itm_id (lk_item l))" "ci_amount ?inp = sp_delta plan"
    "effect_type ?inp = et" "ci_status ?inp = LS_AVAILABLE" "ci_depositItemId ?inp = Some (itm_id (lk_item l))"
    by (simp_all add: review_effect_def effect_type_def)
  from eff have "(if er_case res = None then \<exists>d2. ledgers d' = ledgers d @ [effect_row w d2 ?inp] else ledgers d' = ledgers d)"
  proof (cases rule: applyRewardEffect_Inr)
    case zero
    with et fields show ?thesis by simp
  next
    case (existing e)
    with new fields show ?thesis by simp
  next
    case (credited fc d2)
    from eff credited(1,2) have "er_case res = None"
      by (auto simp: applyRewardEffect_def result_simps split: option.splits if_splits)
    moreover have "ledgers d' = ledgers d @ [effect_row w d2 ?inp]" by (simp add: credited(10) bump_seq_def)
    ultimately show ?thesis by auto
  qed auto
  moreover have "paid_of (itm_id (lk_item l)) (effect_row w d2 ?inp) = sp_delta plan" "\<not> is_hold (itm_id (lk_item l)) (effect_row w d2 ?inp)" for d2
    using et fields by (auto simp: paid_of_def is_hold_def effect_row_def)
  ultimately show ?thesis by (auto simp: kase split: if_splits)
qed

lemma plan_effect:
  "sp_effect (planReviewSettlement action target rows) = Some (et, reason) \<Longrightarrow>
     et \<in> {EARN, ADJUST, REVERSE} \<and> sp_delta (planReviewSettlement action target rows) \<noteq> 0"
  "sp_effect (planReviewSettlement action target rows) = None \<Longrightarrow> sp_delta (planReviewSettlement action target rows) = 0"
  by (auto simp: planReviewSettlement_def Let_def split: if_splits)

lemma settle_decision_steps:
  assumes run: "settle_decision w actr l action target d = Inr ((entry, kase), d')"
  defines "plan \<equiv> planReviewSettlement action target (item_rows (itm_id (lk_item l)) d)"
  obtains d1 d2 d3 d4 d5 x y where "settle_holds LS_AVAILABLE (sp_releaseIds plan) d = Inr d1"
    "settle_holds LS_REJECTED (sp_rejectIds plan) d1 = Inr d2" "write_correction w actr l plan d2 = Inr ((entry, kase), d3)"
    "d4 = (if kase = None then snd (resolveItemDebitCases w (itm_id (lk_item l)) (act_id actr) d3) else d3)"
    "settleOrCommitReward w (depositItemEarnKey (itm_id (lk_item l))) SESSION (itm_sessionId (lk_item l))
       (if kase = None then Some target else None) False d4 = Inr (x, d5)"
    "closeWatermarkedSessionIfSettled w (itm_sessionId (lk_item l)) d5 = Inr (y, d')"
proof -
  from run obtain d1 d2 d3 where one: "settle_holds LS_AVAILABLE (sp_releaseIds plan) d = Inr d1"
    and two: "settle_holds LS_REJECTED (sp_rejectIds plan) d1 = Inr d2"
    and three: "write_correction w actr l plan d2 = Inr ((entry, kase), d3)"
    and rest: "let d4 = (if kase = None then snd (resolveItemDebitCases w (itm_id (lk_item l)) (act_id actr) d3) else d3) in
        rbind (settleOrCommitReward w (depositItemEarnKey (itm_id (lk_item l))) SESSION (itm_sessionId (lk_item l))
            (if kase = None then Some target else None) False d4) (\<lambda>(_, d5).
        rbind (closeWatermarkedSessionIfSettled w (itm_sessionId (lk_item l)) d5) (\<lambda>(_, d6). Inr ((entry, kase), d6))) = Inr ((entry, kase), d')"
    unfolding settle_decision_def plan_def Let_def by (auto simp: rbind_Inr_iff simp del: settle_holds.simps split: if_splits)
  define d4 where d4: "d4 = (if kase = None then snd (resolveItemDebitCases w (itm_id (lk_item l)) (act_id actr) d3) else d3)"
  from rest show ?thesis
    unfolding d4 [symmetric] Let_def by (auto simp: rbind_Inr_iff intro!: that [OF one two three d4])
qed

text \<open>The money of a decision keeps the wallets and the books, whatever was decided before.\<close>

lemma settle_decision_inv:
  assumes run: "settle_decision w actr l action target d = Inr ((entry, kase), d')"
    and wallet: "wallet_inv d" and inv: "funding_inv d"
  shows "wallet_inv d'" "funding_inv d'" "items d' = items d" "sessions d' = sessions d"
proof -
  let ?i = "itm_id (lk_item l)"
  define plan where plan: "plan = planReviewSettlement action target (item_rows ?i d)"
  from run obtain d1 d2 d3 d4 d5 x y where one: "settle_holds LS_AVAILABLE (sp_releaseIds plan) d = Inr d1"
    and two: "settle_holds LS_REJECTED (sp_rejectIds plan) d1 = Inr d2" and three: "write_correction w actr l plan d2 = Inr ((entry, kase), d3)"
    and d4: "d4 = (if kase = None then snd (resolveItemDebitCases w ?i (act_id actr) d3) else d3)"
    and soc: "settleOrCommitReward w (depositItemEarnKey ?i) SESSION (itm_sessionId (lk_item l)) (if kase = None then Some target else None) False d4 = Inr (x, d5)"
    and close: "closeWatermarkedSessionIfSettled w (itm_sessionId (lk_item l)) d5 = Inr (y, d')"
    unfolding plan by (rule settle_decision_steps)
  have uniq: "uniq led_id (ledgers d)" using wallet by (auto simp: wallet_inv_def wallet_rows_def intro: ledger_wf_uniq)
  have d2: "d2 = d\<lparr>ledgers := map (settled (hold_status action target) ?i) (ledgers d)\<rparr>"
    by (rule settle_plan_ledgers [OF one two plan uniq])
  have ok: "items d3 = items d2" "sessions d3 = sessions d2" "wallet_inv d3" "funding_inv d3"
    using write_correction_inv [OF three] plan_effect(1) settled_wallet [OF wallet] inv unfolding plan by (auto simp: d2 same_funding)
  have "same_wallet d4 d'" using settleOrCommitReward_frame [OF soc] closeWatermarked_frame [OF close] by (rule same_wallet_trans)
  then have same: "ledgers d' = ledgers d3" "items d' = items d3" "redemptions d' = redemptions d3" "sessions d' = sessions d3"
    by (auto simp: same_wallet_def d4 resolveItemDebitCases_def Let_def)
  have "funding_inv d4" using ok(4) by (auto simp: d4 resolveItemDebitCases_def Let_def same_funding)
  then show "funding_inv d'" using settleOrCommitReward_inv [OF soc] closeWatermarked_inv [OF close] by blast
  show "wallet_inv d'" using ok(3) wallet_inv_cong [of d' d3] same by simp
  show "items d' = items d" "sessions d' = sessions d" using same ok by (simp_all add: d2)
qed

lemma settle_decision_ok:
  assumes run: "settle_decision w actr l action target d = Inr ((entry, kase), d')"
    and wallet: "wallet_inv d"
    and new: "find_by led_businessKey (Some (reviewDecisionKey (itm_id (lk_item l)))) (ledgers d) = None"
  shows "(\<forall>r \<in> set (ledgers d'). \<not> is_hold (itm_id (lk_item l)) r)
    \<and> (kase = None \<longrightarrow> tsum (paid_of (itm_id (lk_item l))) (ledgers d') = target)"
proof -
  let ?i = "itm_id (lk_item l)"
  define plan where plan: "plan = planReviewSettlement action target (item_rows ?i d)"
  from run obtain d1 d2 d3 d4 d5 x y where one: "settle_holds LS_AVAILABLE (sp_releaseIds plan) d = Inr d1"
    and two: "settle_holds LS_REJECTED (sp_rejectIds plan) d1 = Inr d2" and three: "write_correction w actr l plan d2 = Inr ((entry, kase), d3)"
    and d4: "d4 = (if kase = None then snd (resolveItemDebitCases w ?i (act_id actr) d3) else d3)"
    and soc: "settleOrCommitReward w (depositItemEarnKey ?i) SESSION (itm_sessionId (lk_item l)) (if kase = None then Some target else None) False d4 = Inr (x, d5)"
    and close: "closeWatermarkedSessionIfSettled w (itm_sessionId (lk_item l)) d5 = Inr (y, d')"
    unfolding plan by (rule settle_decision_steps)
  have uniq: "uniq led_id (ledgers d)" using wallet by (auto simp: wallet_inv_def wallet_rows_def intro: ledger_wf_uniq)
  let ?settled = "d\<lparr>ledgers := map (settled (hold_status action target) ?i) (ledgers d)\<rparr>"
  have d2: "d2 = ?settled" by (rule settle_plan_ledgers [OF one two plan uniq])
  have "find_by led_businessKey (Some (reviewDecisionKey ?i)) (ledgers d2) = None"
    using new by (auto simp: d2 find_by_None_iff settled_def)
  then have ok: "if kase = None then tsum (paid_of ?i) (ledgers d3) = tsum (paid_of ?i) (ledgers d2) + sp_delta plan else ledgers d3 = ledgers d2"
      "\<forall>r \<in> set (ledgers d3). is_hold ?i r \<longrightarrow> r \<in> set (ledgers d2)"
    using write_correction_cases [OF three] plan_effect unfolding plan by blast+
  have "same_wallet d4 d'" using settleOrCommitReward_frame [OF soc] closeWatermarked_frame [OF close] by (rule same_wallet_trans)
  then have same: "ledgers d' = ledgers d3" by (auto simp: same_wallet_def d4 resolveItemDebitCases_def Let_def)
  have "\<not> is_hold ?i r" if "r \<in> set (ledgers d2)" for r
    using that by (auto simp: d2 settled_def is_hold_def hold_status_def split: if_splits)
  moreover have "tsum (paid_of ?i) (ledgers d2) + sp_delta plan = target"
    by (simp add: plan_delta [OF uniq] plan d2)
  ultimately show ?thesis using ok same by (auto simp: d2)
qed

lemma decide_item_write:
  assumes "decide_item w actr l inp iv d = Inr (target, write)"
  shows "itm_id (write x) = itm_id x" "itm_rewardAmount (write x) = target" "isReviewFinal (write x)" "itm_status (write x) \<noteq> IS_REVIEW"
    "itm_status (write x) = (if vi_action inp = Approve_item then IS_ACCEPTED else IS_REJECTED)"
    "vi_action inp = Approve_item \<Longrightarrow> sameDecision (write x) inp2 \<Longrightarrow> vi_action inp2 = Approve_item"
    "vi_action inp = Reject_item \<Longrightarrow> sameDecision (write x) inp2 \<Longrightarrow> vi_action inp2 = Reject_item"
  using assms
  by (cases "vi_action inp"; cases "vi_action inp2"; auto simp: decide_item_def approved_item_def rejected_item_def isReviewFinal_def Let_def result_simps
      sameDecision_def split: option.splits)+

lemma take_decision_cases:
  assumes "take_decision w actr l inp iv d = Inr (res, d')"
  obtains target wr entry kase d1 where "decide_item w actr l inp iv d = Inr (target, wr)"
    "d1 = snd (cas_item w (itm_id (lk_item l)) (\<lambda>i. itm_status i = IS_REVIEW) wr d)"
    "settle_decision w actr l (vi_action inp) target d1 = Inr ((entry, kase), d')"
    "\<not> vr_idempotent res" "vr_targetAmount res = target" "vr_case res = kase"
    "vr_item res = nullish (find_by itm_id (itm_id (lk_item l)) (items d')) (lk_item l)"
  using assms by (auto simp: take_decision_def rbind_Inr_iff Let_def split_def split: if_splits)

lemma settle_decision_items:
  assumes run: "settle_decision w actr l action target d = Inr (x, d')"
  shows "items d' = items d"
proof -
  have holds: "items d2 = items d1" if "settle_holds st is d1 = Inr d2" "st \<noteq> LS_PENDING" for st "is" d1 d2
    using settle_holds_ledgers [OF that] by simp
  obtain e k where x: "x = (e, k)" by force
  from run [unfolded x] show ?thesis
  proof (rule settle_decision_steps)
    let ?p = "planReviewSettlement action target (item_rows (itm_id (lk_item l)) d)"
    fix d1 d2 d3 d4 d5 y z
    assume one: "settle_holds LS_AVAILABLE (sp_releaseIds ?p) d = Inr d1" and two: "settle_holds LS_REJECTED (sp_rejectIds ?p) d1 = Inr d2"
      and three: "write_correction w actr l ?p d2 = Inr ((e, k), d3)"
      and four: "d4 = (if k = None then snd (resolveItemDebitCases w (itm_id (lk_item l)) (act_id actr) d3) else d3)"
      and five: "settleOrCommitReward w (depositItemEarnKey (itm_id (lk_item l))) SESSION (itm_sessionId (lk_item l))
        (if k = None then Some target else None) False d4 = Inr (y, d5)"
      and six: "closeWatermarkedSessionIfSettled w (itm_sessionId (lk_item l)) d5 = Inr (z, d')"
    have "items d3 = items d2"
      using three applyRewardEffect_tables by (auto simp: write_correction_def rbind_Inr_iff split: option.splits)
    moreover have "items d4 = items d3" by (simp add: four resolveItemDebitCases_def Let_def)
    moreover have "items d' = items d4" using settleOrCommitReward_frame [OF five] closeWatermarked_frame [OF six] by (simp add: same_wallet_def)
    ultimately show ?thesis using holds [OF one] holds [OF two] by simp
  qed
qed

text \<open>The decided row, as it is found afterwards.\<close>

lemma decided_row:
  assumes take: "take_decision w actr l inp iv d1 = Inr (res, d2)" and same: "items d1 = items d"
    and l: "find_by itm_id i (items d) = Some (lk_item l)" "itm_id (lk_item l) = i" "itm_status (lk_item l) = IS_REVIEW"
  obtains target wr where "decide_item w actr l inp iv d1 = Inr (target, wr)" "vr_targetAmount res = target"
    "find_by itm_id i (items d2) = Some ((wr (lk_item l))\<lparr>itm_updatedAt := w_now w\<rparr>)"
    "vr_item res = (wr (lk_item l))\<lparr>itm_updatedAt := w_now w\<rparr>"
proof -
  from take obtain target wr entry kase d3 where dec: "decide_item w actr l inp iv d1 = Inr (target, wr)"
    and d3: "d3 = snd (cas_item w i (\<lambda>i. itm_status i = IS_REVIEW) wr d1)"
    and set: "settle_decision w actr l (vi_action inp) target d3 = Inr ((entry, kase), d2)"
    and res: "vr_targetAmount res = target" "vr_item res = nullish (find_by itm_id i (items d2)) (lk_item l)"
    unfolding l(2) [symmetric] by (rule take_decision_cases) blast
  have "find_by itm_id i (items d2) = Some ((wr (lk_item l))\<lparr>itm_updatedAt := w_now w\<rparr>)"
    using cas_item_found [of i d1 "lk_item l" "\<lambda>i. itm_status i = IS_REVIEW" wr] same l decide_item_write(1) [OF dec]
      settle_decision_items [OF set] by (simp add: d3)
  with dec res show ?thesis by (intro that) (simp_all add: nullish_def)
qed

section \<open>Properties\<close>

text \<open>
  C19: a review settles an item to its decided amount. When a reviewer decides a held item, the item
  takes the decided status and amount; no earning of the item stays held; unless the
  correction was refused into a reconciliation case, the available earnings and corrections of
  the item add up to exactly the decided amount, whatever was paid, held or corrected before; and
  the funding books and the wallets stay in order.
\<close>

theorem review_settles_to_the_target:
  assumes run: "decideDepositReview w actr i inp d = Inr (res, d')" and fresh: "\<not> vr_idempotent res"
    and inv: "wallet_inv d" "funding_inv d"
    and new: "find_by led_businessKey (Some (reviewDecisionKey i)) (ledgers d) = None"
  shows "(\<exists>item'. find_by itm_id i (items d') = Some item' \<and> itm_rewardAmount item' = vr_targetAmount res
      \<and> itm_status item' = (if vi_action inp = Approve_item then IS_ACCEPTED else IS_REJECTED))
    \<and> (\<forall>r \<in> set (ledgers d'). led_depositItemId r = Some i \<and> led_entryType r = EARN \<longrightarrow> led_status r \<noteq> LS_PENDING)
    \<and> (vr_case res = None \<longrightarrow> tsum (paid_of i) (ledgers d') = vr_targetAmount res)
    \<and> wallet_inv d' \<and> funding_inv d'"
  using run
proof (cases rule: decideDepositReview_cases)
  case (replayed l)
  with fresh show ?thesis by simp
next
  case (decided l iv d1 d2)
  have same: "items d1 = items d" "ledgers d1 = ledgers d" "redemptions d1 = redemptions d" using decided(4) by (simp_all add: same_wallet_def)
  from decided(9) same(1) decided(1-3) obtain target wr where dec: "decide_item w actr l inp iv d1 = Inr (target, wr)"
    and target: "vr_targetAmount res = target" and row: "find_by itm_id i (items d2) = Some ((wr (lk_item l))\<lparr>itm_updatedAt := w_now w\<rparr>)"
    by (rule decided_row)
  from decided(9) obtain entry d3 where d3: "d3 = snd (cas_item w i (\<lambda>i. itm_status i = IS_REVIEW) wr d1)"
    and set: "settle_decision w actr l (vi_action inp) target d3 = Inr ((entry, vr_case res), d2)"
    by (rule take_decision_cases) (use dec target decided(2) in auto)
  have led: "ledgers d3 = ledgers d" "redemptions d3 = redemptions d" by (simp_all add: d3 cas_item_def same)
  have inv3: "wallet_inv d3" "funding_inv d3"
    using inv wallet_inv_cong [of d3 d] led decided(5) by (simp_all add: d3 cas_item_def same_funding)
  from settle_decision_ok [OF set inv3(1)] settle_decision_inv(1,2) [OF set inv3] new led decided(2)
  have "wallet_inv d2" "funding_inv d2" "\<forall>r \<in> set (ledgers d2). \<not> is_hold i r"
    "vr_case res = None \<longrightarrow> tsum (paid_of i) (ledgers d2) = target" by auto
  moreover have "wallet_inv d' = wallet_inv d2" "funding_inv d' = funding_inv d2" "items d' = items d2" "ledgers d' = ledgers d2"
    using wallet_inv_cong [of d' d2] by (simp_all add: decided(10) committed_def)
  ultimately show ?thesis
    using row decide_item_write(2,5) [OF dec] target by (auto simp: is_hold_def)
qed


lemma approval_tail:
  assumes "(if no_type then Inl e1 else if weight \<noteq> None then Inl e2 else if \<not> isSafeInteger b \<or> b < 0 \<or> b > MAX_REVIEW_RUPIAH then Inl e3
    else rbind (decideReward \<lparr>ri_mode = m, ri_baseAmount = b, ri_weightValid = True, ri_typeMatch = True, ri_hasAnomaly = False\<rparr>)
      (\<lambda>dec. Inr \<lparr>ap_wasteType = t, ap_quantity = q, ap_rateId = r, ap_baseAmount = c, ap_target = dec_amount dec\<rparr>)) = Inr a"
  shows "weight = None \<and> 0 \<le> ap_target a \<and> ap_target a \<le> MAX_REVIEW_RUPIAH"
  using assms decision_bounds(1,2) by (fastforce simp: rbind_Inr_iff split: if_splits)

lemma approval_target_facts:
  assumes "approvalTarget l inp pricedAt legacyRow d = Inr a"
  shows "0 \<le> ap_target a" "ap_target a \<le> MAX_REVIEW_RUPIAH" "itm_measuredWeightGrams (lk_item l) \<noteq> None"
proof -
  from assms have "\<exists>x y. validateWeight (itm_measuredWeightGrams (lk_item l)) x y = None \<and> 0 \<le> ap_target a \<and> ap_target a \<le> MAX_REVIEW_RUPIAH"
    unfolding approvalTarget_def Let_def by (elim rbind_InrE) (drule approval_tail, blast)
  then show "0 \<le> ap_target a" "ap_target a \<le> MAX_REVIEW_RUPIAH" "itm_measuredWeightGrams (lk_item l) \<noteq> None"
    by (auto simp: validateWeight_def split: option.splits)
qed

lemma approval_allowed:
  assumes "approval_refusal w l inp iv d = None"
  shows "(\<not> isLegacyReviewRow (lk_item l) \<and> \<not> vi_legacy inp)
    \<or> (vi_legacy inp \<and> isLegacyReviewRow (lk_item l)
       \<and> (itm_acceptanceEventId (lk_item l) \<noteq> None \<or> isTerminalSession (ses_status (lk_session l)))
       \<and> (\<exists>c. lc_at (resolveLegacyCutover w d) = Some c \<and> itm_createdAt (lk_item l) < c)
       \<and> iv = Some (itm_updatedAt (lk_item l)))"
  using assms by (auto simp: approval_refusal_def Let_def isBeforeCutover_def split: if_splits option.splits)

lemma cutover_same: "migrations d' = migrations d \<Longrightarrow> resolveLegacyCutover w d' = resolveLegacyCutover w d"
  by (simp add: resolveLegacyCutover_def resolveMigrationCutover_def)

text \<open>
  C24: a reviewer approves only what passed the acceptance point. An approval that goes through is of a
  weighed item the machine accepted, with its acceptance time; or it is a superadmin's explicit legacy
  approval of a row created before the cutover, of an ended session unless an acceptance event is
  recorded, in exactly the version the superadmin saw. The amount is a rupiah amount in range,
  a recorded acceptance event is never overwritten, and the item is priced at its recorded time, never at
  the time of the approval.
\<close>

theorem approval_needs_the_acceptance_point:
  assumes run: "decideDepositReview w actr i inp d = Inr (res, d')" and fresh: "\<not> vr_idempotent res"
    and approve: "vi_action inp = Approve_item"
    and row: "find_by itm_id i (items d) = Some item" "find_by ses_id (itm_sessionId item) (sessions d) = Some session"
  shows "((itm_acceptanceEventId item \<noteq> None \<and> itm_acceptedAt item \<noteq> None \<and> \<not> vi_legacy inp)
      \<or> (vi_legacy inp \<and> act_role actr = SUPERADMIN
         \<and> (itm_acceptanceEventId item \<noteq> None \<or> isTerminalSession (ses_status session))
         \<and> (\<exists>c. lc_at (resolveLegacyCutover w d) = Some c \<and> itm_createdAt item < c)
         \<and> parseItemVersion w (vi_itemVersion inp) = Inr (itm_updatedAt item)))
    \<and> itm_measuredWeightGrams item \<noteq> None \<and> 0 \<le> vr_targetAmount res \<and> vr_targetAmount res \<le> MAX_REVIEW_RUPIAH
    \<and> itm_acceptanceEventId (vr_item res) = Some (nullish (itm_acceptanceEventId item) (legacyAcceptanceMarker (act_id actr)))
    \<and> itm_acceptedAt (vr_item res) = Some (nullish (itm_acceptedAt item) (itm_createdAt item))"
  using run
proof (cases rule: decideDepositReview_cases)
  case (replayed l)
  with fresh show ?thesis by simp
next
  case (decided l iv d1 d2)
  have item: "lk_item l = item" "lk_session l = session" using decided(1,7) row by simp_all
  have same: "items d1 = items d" "migrations d1 = migrations d" using decided(4) by (simp_all add: same_wallet_def)
  from decided(9) same(1) decided(1-3) obtain target wr where dec: "decide_item w actr l inp iv d1 = Inr (target, wr)"
    and target: "vr_targetAmount res = target" and res: "vr_item res = (wr (lk_item l))\<lparr>itm_updatedAt := w_now w\<rparr>"
    by (rule decided_row)
  let ?at = "nullish (itm_acceptedAt item) (itm_createdAt item)"
  from dec approve obtain a where ok: "approval_refusal w l inp iv d1 = None"
    and a: "approvalTarget l inp ?at (isLegacyReviewRow item) d1 = Inr a" "target = ap_target a" "wr = approved_item (act_id actr) ?at a"
    by (auto simp: decide_item_def Let_def rbind_Inr_iff item split: option.splits)
  have "itm_acceptanceEventId (vr_item res) = Some (nullish (itm_acceptanceEventId item) (legacyAcceptanceMarker (act_id actr)))"
    "itm_acceptedAt (vr_item res) = Some ?at" by (simp_all add: res a(3) approved_item_def item)
  with approval_allowed [OF ok] approval_target_facts [OF a(1)] decided(8) target a(2) show ?thesis
    unfolding item cutover_same [OF same(2)] by (auto simp: isLegacyReviewRow_def)
qed

section \<open>Witnesses\<close>

definition held_item :: item where
  "held_item = sample_item\<lparr>itm_status := IS_REVIEW, itm_acceptanceEventId := Some ''v1'', itm_acceptedAt := Some 1000,
     itm_validationReasonCode := Some ''AI_LOW_CONFIDENCE'', itm_rewardRateId := Some ''r1'', itm_baseRewardAmount := 150,
     itm_rewardAmount := 75\<rparr>"

definition held_db :: db where
  "held_db = weighed_db\<lparr>items := [held_item], ledgers := [sample_earning\<lparr>led_amount := 75, led_status := LS_PENDING\<rparr>]\<rparr>"

definition sample_reviewer :: actor where
  "sample_reviewer = \<lparr>act_id = ''a1'', act_role = ADMIN, act_organizationId = Some ''o1''\<rparr>"

definition sample_approval :: review_input where
  "sample_approval = \<lparr>vi_action = Approve_item, vi_wasteTypeId = None, vi_quantity = None, vi_legacy = False, vi_itemVersion = None\<rparr>"

definition reviewed_db :: db where
  "reviewed_db = state_of (decideDepositReview sample_world sample_reviewer ''i1'' sample_approval held_db)"

lemma sample_review:
  "\<exists>res. decideDepositReview sample_world sample_reviewer ''i1'' sample_approval held_db = Inr (res, reviewed_db)
     \<and> \<not> vr_idempotent res \<and> vr_targetAmount res = 150 \<and> vr_case res = None"
proof -
  let ?run = "decideDepositReview sample_world sample_reviewer ''i1'' sample_approval held_db"
  have *: "(case ?run of Inr (res, _) \<Rightarrow> \<not> vr_idempotent res \<and> vr_targetAmount res = 150 \<and> vr_case res = None | Inl _ \<Rightarrow> False)"
    by code_simp
  then obtain res d where run: "?run = Inr (res, d)" "\<not> vr_idempotent res" "vr_targetAmount res = 150" "vr_case res = None"
    by (auto split: sum.splits prod.splits)
  then have "d = reviewed_db" by (simp add: reviewed_db_def state_of_def)
  with run show ?thesis by blast
qed

lemma held_inv: "wallet_inv held_db" "funding_inv held_db"
proof -
  have "ledger_wf (ledgers held_db)" "redemptions held_db = []" by code_simp+
  moreover have "\<not> reserve_for i l" if "l \<in> set (ledgers held_db)" for i l
    using that by (simp add: held_db_def reserve_for_def sample_earning_def)
  moreover have "avail_of u l = 0" if "l \<in> set (ledgers held_db)" for u l
    using that by (simp add: held_db_def avail_of_def sample_earning_def)
  then have "0 \<le> tsum (avail_of u) (ledgers held_db)" for u by (intro tsum_nonneg) simp
  moreover have "earnings_nonneg (ledgers held_db)" by (simp add: held_db_def earnings_nonneg_def)
  ultimately show "wallet_inv held_db" by (auto simp: wallet_inv_def wallet_rows_def solvent_def wallet_sums uniq_def)
  show "funding_inv held_db" using weighed_inv(3) by (simp add: held_db_def same_funding)
qed

theorem review_settles_to_the_target_witness:
  "tsum (paid_of ''i1'') (ledgers reviewed_db) = 150 \<and> wallet_inv reviewed_db \<and> funding_inv reviewed_db"
proof -
  from sample_review obtain res where run: "decideDepositReview sample_world sample_reviewer ''i1'' sample_approval held_db = Inr (res, reviewed_db)"
    "\<not> vr_idempotent res" "vr_targetAmount res = 150" "vr_case res = None" by blast
  have "find_by led_businessKey (Some (reviewDecisionKey ''i1'')) (ledgers held_db) = None" by code_simp
  then show ?thesis using review_settles_to_the_target [OF run(1,2) held_inv] run(3,4) by simp
qed


theorem approval_needs_the_acceptance_point_witness:
  "\<exists>res. decideDepositReview sample_world sample_reviewer ''i1'' sample_approval held_db = Inr (res, reviewed_db)
     \<and> itm_acceptanceEventId (vr_item res) = Some ''v1'' \<and> itm_acceptedAt (vr_item res) = Some 1000"
proof -
  from sample_review obtain res where run: "decideDepositReview sample_world sample_reviewer ''i1'' sample_approval held_db = Inr (res, reviewed_db)"
    "\<not> vr_idempotent res" by blast
  have approve: "vi_action sample_approval = Approve_item" by (simp add: sample_approval_def)
  have row: "find_by itm_id ''i1'' (items held_db) = Some held_item" "find_by ses_id (itm_sessionId held_item) (sessions held_db) = Some sample_session"
    by code_simp+
  have "itm_acceptanceEventId held_item = Some ''v1''" "itm_acceptedAt held_item = Some 1000" by (simp_all add: held_item_def)
  with approval_needs_the_acceptance_point [OF run approve row] run show ?thesis by (simp add: nullish_def)
qed

section \<open>Edges of the code\<close>

text \<open>
  Three places where the code does not do what its text says: an opened chamber admits a reserved
  session but the transition from there always throws; a key for organic waste also finds the type named
  ``Anorganik''; and an item of two pieces is priced above the cap that stands for the most one item can
  draw.
\<close>

lemma chamber_opened_from_reserved_throws: "\<not> succeeds (transitionSession SS_RESERVED ''START_ITEM'')"
  by code_simp

lemma organic_key_finds_inorganic: "contains_insensitive ''Anorganik'' (mapped_name ''organik'')"
  by code_simp

lemma two_pieces_exceed_the_item_cap:
  "map pt_maxRewardRupiah (ps_wasteTypes sample_policy) ! 0 = Some 150"
  "entry_price (ps_wasteTypes sample_policy ! 0) (ps_multiplierBps sample_policy) 2 (Some 40) = 300"
  by code_simp+

end
