(* ===== verification/Composition.thy ===== *)
theory Composition
  imports Review_Props
begin

text \<open>
  The services composed. Scans, owners, polls, machine events, reviews, payouts and cash entries all
  write to one database; here every one of them is a step of one relation, each at a moment and in a
  world of its own, and one invariant carries what the services rely on of each other: session and
  item ids are unique and a machine has one active session, the funding books balance, and the
  wallets are backed, solvent and free of negative earnings.
\<close>

section \<open>The invariant of the database\<close>

definition system_inv :: "db \<Rightarrow> bool" where
  "system_inv d \<longleftrightarrow> sessions_inv d \<and> uniq itm_id (items d) \<and> funding_inv d \<and> wallet_inv d"

lemma system_inv_cong:
  assumes "sessions d' = sessions d" "items d' = items d" "ledgers d' = ledgers d" "redemptions d' = redemptions d"
    "funding_inv d' = funding_inv d"
  shows "system_inv d' = system_inv d"
  using assms wallet_inv_cong [of d' d] by (simp add: system_inv_def sessions_inv_def)

lemma system_inv_simps [simp]:
  "system_inv (acquire l d) = system_inv d" "system_inv (committed d) = system_inv d"
  "system_inv (d\<lparr>held_locks := ls\<rparr>) = system_inv d"
  by (rule system_inv_cong; simp add: committed_def)+

lemma event_safe_system:
  assumes "event_safe d d'" "system_inv d"
  shows "system_inv d'"
proof -
  have "uniq ses_id (sessions d)" using assms(2) by (simp add: system_inv_def sessions_inv_def)
  with assms show ?thesis using session_moves_inv [of d d'] by (simp add: event_safe_def system_inv_def)
qed

lemma same_wallet_system: "same_wallet d d' \<Longrightarrow> (funding_inv d \<Longrightarrow> funding_inv d') \<Longrightarrow> system_inv d \<Longrightarrow> system_inv d'"
  by (rule event_safe_system [OF event_safe_wallet])

text \<open>A transaction keeps the invariant when its body does.\<close>

lemma transaction_system:
  assumes "runWalletTransaction fn d = Inr (x, d')" "system_inv d"
    and "\<And>d1. fn (committed d) = Inr (x, d1) \<Longrightarrow> system_inv (committed d) \<Longrightarrow> system_inv d1"
  shows "system_inv d'"
  using committed_transaction [OF assms(1)] assms(2,3) by auto

section \<open>Sessions\<close>

lemma hold_item_id: "itm_id (hold_item w i) = itm_id i"
  by (simp add: hold_item_def)

lemma expire_system:
  assumes run: "expireTimedOutSessions w ids idle now d = Inr (es, d')" and inv: "system_inv d"
  shows "system_inv d'"
proof -
  have uniq: "uniq ses_id (sessions d)" "uniq itm_id (items d)" using inv by (simp_all add: system_inv_def sessions_inv_def)
  from expireTimedOutSessions_Inr(1) [OF run uniq(1)] obtain t ls u where
    d': "d' = d\<lparr>held_locks := ls, items := t, sessions := u\<rparr>" by blast
  have "map itm_id (items d') = map itm_id (items d)"
    unfolding expire_items [OF run uniq] by (simp add: hold_item_id comp_def)
  moreover have "sessions_inv d'"
    using inv session_moves_inv [OF _ expire_moves [OF run uniq(1)]] by (simp add: system_inv_def)
  moreover have "funding_inv d' = funding_inv d" by (simp add: d' same_funding)
  ultimately show ?thesis using inv wallet_inv_cong [of d' d] by (simp add: system_inv_def uniq_def d')
qed

lemma expireIfTimedOut_system:
  "expireIfTimedOut w i idle now d = Inr (e, d') \<Longrightarrow> system_inv d \<Longrightarrow> system_inv d'"
  by (auto simp: expireIfTimedOut_def result_simps dest: expire_system)

lemma admit_session_tables:
  assumes "admit_session w a inp machine om campaign d = Inr (s, d')"
  shows "items d' = items d" "ledgers d' = ledgers d" "redemptions d' = redemptions d"
proof -
  from assms obtain s0 r where
    "reserveSessionCeiling w s machine om campaign (bump_seq (d\<lparr>sessions := sessions d @ [s0]\<rparr>)) = Inr (r, d')"
    by (auto simp: admit_session_def insert_session_def Let_def result_simps split: if_splits)
  then have "same_wallet (bump_seq (d\<lparr>sessions := sessions d @ [s0]\<rparr>)) d'"
    by (auto simp: reserveSessionCeiling_def Let_def result_simps split: if_splits dest!: reserveRewardBudget_frame)
  then show "items d' = items d" "ledgers d' = ledgers d" "redemptions d' = redemptions d"
    by (simp_all add: same_wallet_def bump_seq_def)
qed

lemma decideStart_system:
  assumes run: "decideStart w a inp ref d = Inr (dec, d')" and inv: "system_inv d"
    and fresh: "\<And>s es. dec = Created s es \<Longrightarrow> findReservationByKey (sessionAdmissionKey (ses_id s)) d = None"
  shows "system_inv d'"
proof -
  have uniq: "uniq ses_id (sessions d)" using inv by (simp add: system_inv_def sessions_inv_def)
  have locked: "system_inv d1" if "start_locks w a inp ref d = Inr d1" for d1
    using same_wallet_system [OF start_locks_frame [OF that] start_locks_inv [OF that]] inv by blast
  from run uniq show ?thesis
  proof (cases rule: decideStart_Inr)
    case (kept d1)
    then show ?thesis using locked expire_system by blast
  next
    case (created d1 d2 machine org campaign s es)
    from created(12) have inv2: "system_inv d2" using locked [OF created(2)] expire_system by blast
    from created(8) obtain t ls where "d2 = d1\<lparr>held_locks := ls, items := t, sessions := sessions d2\<rparr>" by blast
    from arg_cong [OF this, of reservations] have "reservations d2 = reservations d"
      using start_locks_reservations [OF created(2)] by simp
    with fresh [OF created(1)] have "find_by rsv_businessKey (sessionAdmissionKey (ses_id s)) (reservations d2) = None"
      by (simp add: findReservationByKey_def)
    with admit_session_holds [OF created(11)] inv2 have "funding_inv d'" by (simp add: system_inv_def)
    moreover have "sessions_inv d'" using decideStart_keeps [OF run] inv by (simp add: system_inv_def)
    ultimately show ?thesis
      using admit_session_tables [OF created(11)] inv2 wallet_inv_cong [of d' d2] by (simp add: system_inv_def)
  qed
qed

lemma start_attempts_run:
  "start_attempts n w a inp ref d = (r, d') \<Longrightarrow>
   d' = d \<or> (\<exists>dec. runWalletTransaction (decideStart w a inp ref) d = Inr (dec, d') \<and> r = answer_start dec)"
proof (induction n)
  case 0
  then show ?case by (auto split: sum.splits prod.splits list.splits if_splits)
next
  case (Suc n)
  then show ?case by (auto split: sum.splits prod.splits list.splits if_splits)
qed

lemma start_attempts_system:
  assumes run: "start_attempts n w a inp ref d = (r, d')" and inv: "system_inv d"
    and fresh: "\<And>s. r = Inr (s, False) \<Longrightarrow> findReservationByKey (sessionAdmissionKey (ses_id s)) d = None"
  shows "system_inv d'"
  using start_attempts_run [OF run]
proof (elim disjE exE conjE)
  fix dec
  assume tx: "runWalletTransaction (decideStart w a inp ref) d = Inr (dec, d')" and r: "r = answer_start dec"
  from committed_transaction [OF tx] obtain d1 where body: "decideStart w a inp ref (committed d) = Inr (dec, d1)" and d': "d' = committed d1"
    by blast
  have key: "findReservationByKey (sessionAdmissionKey (ses_id s)) (committed d) = None" if "dec = Created s es" for s es
    using fresh [of s] that r by (simp add: answer_start_def findReservationByKey_def)
  have "system_inv (committed d)" using inv by simp
  from decideStart_system [OF body this key] show ?thesis by (simp only: d' system_inv_simps)
qed (use inv in simp)

lemma end_locked_system:
  assumes run: "end_locked w sid mid action d = Inr (x, d')" and inv: "system_inv d"
  shows "system_inv d'"
proof -
  have "uniq ses_id (sessions d)" using inv by (simp add: system_inv_def sessions_inv_def)
  then have moves: "session_moves (sessions d) (sessions d')" by (rule end_locked_moves [OF run])
  from run consider "d' = d" | m :: machine and e where "expireIfTimedOut w sid (mac_sessionIdleTimeoutMinutes m) (w_now w) d = Inr (e, d')"
    | t where "d' = d\<lparr>sessions := t\<rparr>"
    by (auto simp: end_locked_def result_simps Let_def split: option.splits if_splits sum.splits)
  then show ?thesis
  proof cases
    case 2
    then show ?thesis using expireIfTimedOut_system inv by blast
  next
    case 3
    with moves inv show ?thesis by (auto intro: event_safe_system [OF event_safe_sessions])
  qed (use inv in simp)
qed

lemma endDepositByOwner_system:
  assumes "endDepositByOwner w a sid action d = Inr (x, d')" "system_inv d"
  shows "system_inv d'"
proof -
  from endDepositByOwner_Inr [OF assms(1)] obtain ref :: session and d1 d2 where d1: "committed d1 = committed d"
    and run: "end_locked w sid (ses_machineId ref) action d1 = Inr (x, d2)" and d': "d' = committed d2" by metis
  from d1 assms(2) have "system_inv d1" by (metis system_inv_simps(2))
  with end_locked_system [OF run] show ?thesis by (simp add: d')
qed

lemma ensureSessionPolicy_system:
  assumes "ensureSessionPolicy w sid d = Inr (x, d')" "system_inv d"
  shows "system_inv d'"
proof (cases "d' = d")
  case False
  with assms(1) obtain ref d0 acc d1 d2 c l u v where
    locks: "lockFundingAccountForOrganization w (mac_organizationId ref) (acquire l (committed d)) = Inr (acc, d1)"
    "lockCampaignOpt c d1 = Inr d2" and body: "ensure_locked w sid ref (acquire u (acquire v d2)) = Inr (x, d0)" and d': "d' = committed d0"
    by (auto simp: ensureSessionPolicy_def result_simps split: option.splits dest!: committed_transaction)
  have "system_inv d1"
    using same_wallet_system [OF lockFundingAccountForOrganization_frame [OF locks(1)] lockFundingAccountForOrganization_inv [OF locks(1)]]
      assms(2) by simp
  then have "system_inv (acquire u (acquire v d2))" using lockCampaignOpt_Inr [OF locks(2)] by (metis system_inv_simps(1,2))
  moreover from body have "d0 = acquire u (acquire v d2) \<or> (\<exists>t. d0 = (acquire u (acquire v d2))\<lparr>sessions := t\<rparr>)"
    by (auto simp: ensure_locked_def result_simps Let_def split: option.splits if_splits)
  ultimately have "system_inv d0"
    using ensure_locked_moves [OF body] by (auto intro: event_safe_system [OF event_safe_sessions])
  then show ?thesis by (simp add: d')
qed (use assms(2) in simp)

lemma poll_sessions_system:
  "poll_sessions w machine cs d = (r, d') \<Longrightarrow> system_inv d \<Longrightarrow> system_inv d'"
proof (induction cs arbitrary: d r d')
  case (Cons c cs)
  let ?tx = "\<lambda>d0. rbind (lockUser (ses_userId c) d0) (\<lambda>d1. rbind (lockMachine (mac_id machine) d1) (\<lambda>d2.
                expireIfTimedOut w (ses_id c) (mac_sessionIdleTimeoutMinutes machine) (w_now w) d2))"
  have tx: "system_inv d1" if "runWalletTransaction ?tx d = Inr (e, d1)" for e d1
    using that Cons.prems(2) by (rule transaction_system) (auto simp: result_simps dest: expireIfTimedOut_system)
  from Cons.prems(1) consider (live) r1 where "poll_sessions w machine cs d = (r1, d')" | (same) "d' = d"
    | (closed) e d1 r1 where "runWalletTransaction ?tx d = Inr (e, d1)" "poll_sessions w machine cs d1 = (r1, d')"
    by (auto simp: Let_def split: if_splits sum.splits prod.splits option.splits)
  then show ?case using Cons.IH Cons.prems(2) tx by cases blast+
qed simp

section \<open>Reviews\<close>

lemma take_decision_system:
  assumes run: "take_decision w actr l inp iv d = Inr (res, d')" and inv: "system_inv d"
  shows "system_inv d'"
  using run
proof (rule take_decision_cases)
  fix target wr entry kase d1
  assume dec: "decide_item w actr l inp iv d = Inr (target, wr)"
    and d1: "d1 = snd (cas_item w (itm_id (lk_item l)) (\<lambda>i. itm_status i = IS_REVIEW) wr d)"
    and set: "settle_decision w actr l (vi_action inp) target d1 = Inr ((entry, kase), d')"
  have "wallet_inv d1" "funding_inv d1" using inv wallet_inv_cong [of d1 d] by (simp_all add: d1 cas_item_def same_funding system_inv_def)
  note money = settle_decision_inv [OF set this]
  have "map itm_id (items d1) = map itm_id (items d)"
    unfolding d1 cas_item_def by (simp, rule map_key_upd_by) (simp add: decide_item_write(1) [OF dec])
  moreover have "sessions d1 = sessions d" by (simp add: d1 cas_item_def)
  ultimately show ?thesis using inv money by (simp add: system_inv_def sessions_inv_def uniq_def)
qed

lemma decideDepositReview_system:
  assumes "decideDepositReview w actr i inp d = Inr (res, d')" "system_inv d"
  shows "system_inv d'"
  using assms(1)
proof (cases rule: decideDepositReview_cases)
  case (replayed l)
  then show ?thesis using same_wallet_system [OF replayed(8)] assms(2) by blast
next
  case (decided l iv d1 d2)
  then show ?thesis using same_wallet_system [OF decided(4)] take_decision_system [OF decided(9)] assms(2) by simp
qed

section \<open>Payouts and cash\<close>

text \<open>A payout operation writes requests and reserves; only a success also moves funding.\<close>

lemma payout_system:
  assumes "sessions d' = sessions d" "items d' = items d" "funding_inv d \<Longrightarrow> funding_inv d'" "wallet_inv d \<Longrightarrow> wallet_inv d'" "system_inv d"
  shows "system_inv d'"
  using assms by (simp add: system_inv_def sessions_inv_def)

lemma payout_tables:
  "funding_inv (d\<lparr>redemptions := r\<rparr>) = funding_inv d" "funding_inv (d\<lparr>ledgers := l\<rparr>) = funding_inv d"
  "funding_inv (d\<lparr>held_locks := ls\<rparr>) = funding_inv d" "funding_inv (d\<lparr>seq := n\<rparr>) = funding_inv d"
  by (rule funding_inv_cong; simp)+

lemma requestRedemption_system:
  assumes "requestRedemption w actr raw d = Inr (x, d')" "system_inv d"
  shows "system_inv d'"
proof -
  obtain red ex where x: "x = (red, ex)" by force
  have inv: "wallet_inv d" using assms(2) by (simp add: system_inv_def)
  have "wallet_inv d'" using assms(1) inv unfolding x by (rule requestRedemption_inv)
  moreover from assms(1) obtain amt pac key d1 where
    run: "request_body w (act_id actr) amt pac key (committed d) = Inr ((red, ex), d1)" and d': "d' = committed d1"
    by (auto simp: requestRedemption_def result_simps x)
  have "sessions d1 = sessions d \<and> items d1 = items d \<and> funding_inv d1 = funding_inv d"
  proof (cases ex)
    case True
    with run have "d1 = acquire (LUser (act_id actr)) (committed d)"
      by (auto simp: request_body_def result_simps Let_def split: option.splits if_splits)
    then show ?thesis by simp
  next
    case False
    have rows: "wallet_rows (committed d)" using inv wallet_inv_simps(2) [of d] by (simp add: wallet_inv_def)
    from run False have "request_body w (act_id actr) amt pac key (committed d) = Inr ((red, False), d1)" by simp
    from this rows obtain l :: ledger and s ls where
      "d1 = (committed d)\<lparr>redemptions := redemptions (committed d) @ [red], ledgers := ledgers (committed d) @ [l], seq := s, held_locks := ls\<rparr>"
      by (rule request_new_effect)
    then show ?thesis by (simp add: payout_tables)
  qed
  ultimately show ?thesis using assms(2) by (intro payout_system [OF _ _ _ _ assms(2)]) (simp_all add: d')
qed

lemma transition_funding:
  assumes run: "transition_body w actr i inp d = Inr (out, d')" and rows: "wallet_rows d" and inv: "funding_inv d"
  shows "sessions d' = sessions d" "items d' = items d" "funding_inv d'"
proof -
  have "sessions d' = sessions d \<and> items d' = items d \<and> funding_inv d'"
  proof (cases "to_idempotent out")
    case True
    with run obtain current where "lockRedemptionForChange actr i None (ti_action inp = Succeed) d = Inr (current, d')"
      by (auto simp: transition_body_def Let_def result_simps split: if_splits)
    with lockRedemptionForChange_Inr committed_fields obtain ls where "d' = d\<lparr>held_locks := ls\<rparr>" by blast
    with inv show ?thesis by simp
  next
    case False
    from run False rows obtain current :: redemption and l :: ledger and dest ls d1 where
      d1: "d1 = d\<lparr>held_locks := ls,
         redemptions := upd_by red_id i (transition_row actr inp (TRANSITIONS (ti_action inp)) current dest) (redemptions d),
         ledgers := upd_by led_id (led_id l) (set_status (expectedReserveStatus (tr_to (TRANSITIONS (ti_action inp))))) (ledgers d)\<rparr>"
      and same: "same_wallet d1 d'"
      and paid: "ti_action inp = Succeed \<longrightarrow> (\<exists>att. settlePayoutFunding w i (red_userId current) (red_amount current)
           (Some (act_id actr)) d1 = Inr (att, d') \<and> to_funding out = Some (pa_attributedRupiah att, pa_legacyRupiah att))"
      and other: "ti_action inp \<noteq> Succeed \<longrightarrow> d' = d1"
      by (rule transition_effect)
    have "funding_inv d1" using inv funding_inv_cong [of d1 d] by (simp add: d1)
    then have "funding_inv d'" using paid other settlePayoutFunding_inv by metis
    with same show ?thesis by (simp add: d1 same_wallet_def)
  qed
  then show "sessions d' = sessions d" "items d' = items d" "funding_inv d'" by blast+
qed

lemma transitionRedemption_system:
  assumes "transitionRedemption w actr i inp d = Inr (x, d')" "system_inv d"
  shows "system_inv d'"
proof -
  from assms(1) obtain inp' d1 where run: "transition_body w actr i inp' (committed d) = Inr (x, d1)" and d': "d' = committed d1"
    by (auto simp: transitionRedemption_def result_simps)
  have inv: "wallet_inv (committed d)" "funding_inv (committed d)" using assms(2) by (simp_all add: system_inv_def)
  then have "wallet_rows (committed d)" by (simp add: wallet_inv_def)
  note frame = transition_funding [OF run this inv(2)]
  show ?thesis
    by (rule payout_system [OF _ _ _ _ assms(2)]) (use frame transition_body_inv [OF run inv(1)] in \<open>simp_all add: d'\<close>)
qed

lemma flag_system:
  assumes "flagRedemptionForReconciliation w actr i note d = Inr (x, d')" "system_inv d"
  shows "system_inv d'"
proof -
  from assms(1) obtain n d1 where run: "flag_body w actr i n (committed d) = Inr ((fst x, snd x), d1)" and d': "d' = committed d1"
    by (auto simp: flagRedemptionForReconciliation_def result_simps)
  have inv: "wallet_inv (committed d)" using assms(2) by (simp add: system_inv_def)
  then have "uniq red_id (redemptions (committed d))" by (simp add: wallet_inv_def wallet_rows_def)
  with run have "sessions d1 = sessions d \<and> items d1 = items d \<and> funding_inv d1 = funding_inv d"
    by (rule flag_body_Inr) (simp_all add: payout_tables)
  with flag_body_inv [OF run inv] show ?thesis by (intro payout_system [OF _ _ _ _ assms(2)]) (simp_all add: d')
qed

lemma proof_system:
  assumes "attachRedemptionProof w actr i path u d = Inr (x, d')" "system_inv d"
  shows "system_inv d'"
proof -
  from assms(1) obtain d1 where run: "proof_body w actr i path u (committed d) = Inr (x, d1)" and d': "d' = committed d1"
    by (auto simp: attachRedemptionProof_def result_simps)
  have inv: "wallet_inv (committed d)" using assms(2) by (simp add: system_inv_def)
  from run obtain current d0 dest where lock: "lockRedemptionForChange actr i (Some u) False (committed d) = Inr (current, d0)"
    and cas: "compareAndSet i (\<lambda>r. red_userId r = u \<and> red_status r = red_status current) (proof_row path dest) d0 = Inr d1"
    by (auto simp: proof_body_def result_simps)
  from lock obtain ls where d0: "d0 = (committed d)\<lparr>held_locks := ls\<rparr>" using lockRedemptionForChange_Inr committed_fields by blast
  from cas obtain t where "d1 = d0\<lparr>redemptions := t\<rparr>" by (auto simp: compareAndSet_def Let_def split: if_splits)
  then have "sessions d1 = sessions d \<and> items d1 = items d \<and> funding_inv d1 = funding_inv d"
    by (simp add: d0 payout_tables)
  with proof_body_inv [OF run inv] show ?thesis by (intro payout_system [OF _ _ _ _ assms(2)]) (simp_all add: d')
qed

lemma recordFundingEntry_system:
  assumes "recordFundingEntry w inp d = Inr (x, d')" "system_inv d"
  shows "system_inv d'"
proof -
  obtain e a ex where x: "x = (e, a, ex)" by (metis surj_pair)
  note run = assms(1) [unfolded x]
  from run obtain a0 d1 where "lockFundingAccountForOrganization w (fi_organizationId inp) d = Inr (a0, d1)" "same_wallet d1 d'"
    by (rule recordFundingEntry_Inr) (auto simp: same_wallet_def split: if_splits)
  then have "same_wallet d d'" using lockFundingAccountForOrganization_frame same_wallet_trans by blast
  then show ?thesis using recordFundingEntry_inv [OF run] assms(2) by (rule same_wallet_system)
qed

lemma residual_system:
  assumes run: "releaseResidualReservation w org i who reason d = Inr (x, d')" and "system_inv d"
  shows "system_inv d'"
proof -
  from run have "same_wallet d d'"
    by (force simp: releaseResidualReservation_def Let_def result_simps split: if_splits
        elim!: with_funding_locks_Inr dest!: releaseUnusedRewardBudget_frame)
  then show ?thesis using releaseResidualReservation_inv [OF run] assms(2) by (rule same_wallet_system)
qed

section \<open>The program as one state machine\<close>

text \<open>
  Each step names its own world, so the clock, the environment and the generated ids differ from
  step to step. A scan that creates a session needs a session id whose admission key is unused, which
  the id generator promises; \<open>elsewhere\<close> is any write to other tables.
\<close>

inductive program_step :: "db \<Rightarrow> db \<Rightarrow> bool" where
  scan: "startOrResumeDeposit w a inp d = (r, d') \<Longrightarrow>
     (\<And>s. r = Inr (s, False) \<Longrightarrow> findReservationByKey (sessionAdmissionKey (ses_id s)) d = None) \<Longrightarrow> program_step d d'"
| owner_end: "endDepositByOwner w a sid action d = Inr (x, d') \<Longrightarrow> program_step d d'"
| poll: "currentMachineSession w machine d = (r2, d') \<Longrightarrow> program_step d d'"
| snapshot: "ensureSessionPolicy w sid d = Inr (p, d') \<Longrightarrow> program_step d d'"
| event: "ingestMachineEvent w preloaded ev cache d = ((r3, d'), cache') \<Longrightarrow> program_step d d'"
| review: "decideDepositReview w actr i rv d = Inr (res, d') \<Longrightarrow> program_step d d'"
| request: "requestRedemption w actr raw d = Inr (x2, d') \<Longrightarrow> program_step d d'"
| transition: "transitionRedemption w actr i act d = Inr (x3, d') \<Longrightarrow> program_step d d'"
| flag: "flagRedemptionForReconciliation w actr i note d = Inr (x4, d') \<Longrightarrow> program_step d d'"
| attach_proof: "attachRedemptionProof w actr i path u d = Inr (x5, d') \<Longrightarrow> program_step d d'"
| cash: "recordFundingEntry w entry d = Inr (x6, d') \<Longrightarrow> program_step d d'"
| residual: "releaseResidualReservation w org i who reason d = Inr (x7, d') \<Longrightarrow> program_step d d'"
| elsewhere: "sessions d' = sessions d \<Longrightarrow> items d' = items d \<Longrightarrow> ledgers d' = ledgers d \<Longrightarrow> redemptions d' = redemptions d \<Longrightarrow>
     accounts d' = accounts d \<Longrightarrow> campaigns d' = campaigns d \<Longrightarrow> reservations d' = reservations d \<Longrightarrow> commits d' = commits d \<Longrightarrow>
     fundingEntries d' = fundingEntries d \<Longrightarrow> program_step d d'"

lemmas operations_system = endDepositByOwner_system ensureSessionPolicy_system decideDepositReview_system requestRedemption_system
  transitionRedemption_system flag_system proof_system recordFundingEntry_system residual_system

lemma program_step_inv:
  assumes "program_step d d'" "system_inv d"
  shows "system_inv d'"
  using assms(1)
proof cases
  case (scan w a inp r)
  then show ?thesis using start_attempts_system [OF _ assms(2)] assms(2)
    by (auto simp: startOrResumeDeposit_def simp del: start_attempts.simps split: option.splits)
next
  case (poll w machine r2)
  then show ?thesis using poll_sessions_system [OF _ assms(2)]
    by (auto simp: currentMachineSession_def split: prod.splits sum.splits if_splits)
next
  case (event w preloaded ev cache r3 cache')
  then show ?thesis using event_safe_system [OF ingest_safe assms(2)] by blast
next
  case elsewhere
  then show ?thesis using system_inv_cong [of d' d] funding_inv_cong [of d' d] assms(2) by simp
qed (use assms(2) in \<open>auto intro: operations_system\<close>)

definition program_start :: "db \<Rightarrow> bool" where
  "program_start d \<longleftrightarrow> sessions d = [] \<and> items d = [] \<and> wallet_start d \<and> funding_start d"

lemma program_start_inv: "program_start d \<Longrightarrow> system_inv d"
  using session_machine.init_inv [of d] wallet.init_inv [of d] funding_start_inv [of d]
  by (simp add: program_start_def system_inv_def uniq_def)

interpretation program: invariant_system program_start program_step system_inv
  by unfold_locales (auto intro: program_start_inv program_step_inv)

lemma wallet_backed:
  assumes "wallet_inv d" "r \<in> set (redemptions d)"
  shows "\<exists>l. live_reserves (red_id r) d = [l] \<and> led_userId l = red_userId r \<and> led_amount l = - red_amount r
    \<and> led_status l = expectedReserveStatus (red_status r)"
proof -
  have rows: "wallet_rows d" using assms(1) by (simp add: wallet_inv_def)
  with assms(2) obtain k where k: "k \<in> set (ledgers d)" "backed_by r k" by (auto simp: wallet_rows_def)
  have "led_status k \<noteq> LS_REJECTED" using k(2) by (cases "red_status r") (auto simp: backed_by_def)
  with k rows have "live_reserves (red_id r) d = [k]"
    by (intro live_reserves_singleton) (auto simp: wallet_rows_def backed_by_def)
  with k(2) show ?thesis by (auto simp: backed_by_def)
qed

text \<open>
  C1: the services together keep the books. From an installation without sessions, items, ledger and
  funding, after any interleaving of scans, endings, polls, machine events, reviews, payout
  operations, cash entries and residual releases, at any times: no machine has two active sessions;
  nobody's available balance is negative, so that what was paid out and what is reserved for open
  payouts is covered by credits; every payout request is backed by one live reserve of its owner and
  amount; no earning is negative; every account's held and confirmed rupiah and every campaign's
  counters are the sums of the rows they summarise, and no obligation is paid more than it owes.
\<close>

theorem program_keeps_the_books:
  assumes "program_start d0" "program_step\<^sup>*\<^sup>* d0 d"
  shows "length (filter (active_on m) (sessions d)) \<le> 1
    \<and> 0 \<le> wb_available (getWalletBalance u d)
    \<and> wb_redeemed (getWalletBalance u d) + wb_reserved (getWalletBalance u d) \<le> tsum (credits_of u) (ledgers d)
    \<and> (\<forall>r \<in> set (redemptions d). \<exists>l. live_reserves (red_id r) d = [l] \<and> led_userId l = red_userId r
         \<and> led_amount l = - red_amount r \<and> led_status l = expectedReserveStatus (red_status r))
    \<and> (\<forall>l \<in> set (ledgers d). led_entryType l = EARN \<longrightarrow> 0 \<le> led_amount l)
    \<and> (\<forall>a \<in> set (accounts d). acc_heldRupiah a = held_due d (acc_id a) \<and> acc_confirmedRupiah a = cash_due d (acc_id a))
    \<and> (\<forall>c \<in> set (campaigns d). cmp_heldRupiah c = tsum (camp_res (cmp_id c)) (reservations d)
         \<and> cmp_spentRupiah c = tsum (camp_com (cmp_id c)) (commits d))
    \<and> (\<forall>c \<in> set (commits d). 0 \<le> com_paidRupiah c \<and> com_paidRupiah c \<le> com_heldRupiah c)"
proof -
  from program.reachable_inv [OF assms] have inv: "sessions_inv d" "funding_inv d" "wallet_inv d" by (simp_all add: system_inv_def)
  have avail: "0 \<le> wb_available (getWalletBalance u d)" using inv(3) by (simp add: wallet_inv_def solvent_def)
  then have "wb_redeemed (getWalletBalance u d) + wb_reserved (getWalletBalance u d) \<le> tsum (credits_of u) (ledgers d)"
    using available_identity [of u d] by linarith
  moreover have "\<forall>l \<in> set (ledgers d). led_entryType l = EARN \<longrightarrow> 0 \<le> led_amount l"
    using inv(3) by (simp add: wallet_inv_def earnings_nonneg_def)
  ultimately show ?thesis
    using inv(1,2) avail wallet_backed [OF inv(3)]
    by (simp add: sessions_inv_iff funding_inv_def funding_books_def funding_rows_def commit_inv_def)
qed

theorem program_keeps_the_books_witness:
  "program_step\<^sup>*\<^sup>* (priced_db\<lparr>sessions := []\<rparr>) scanned_db
    \<and> length (filter (active_on ''m1'') (sessions scanned_db)) \<le> 1 \<and> 0 \<le> wb_available (getWalletBalance ''u1'' scanned_db)"
proof -
  let ?d0 = "priced_db\<lparr>sessions := []\<rparr>"
  let ?d1 = "state_of (recordFundingEntry sample_world sample_topup ?d0)"
  have "succeeds (recordFundingEntry sample_world sample_topup ?d0)" by code_simp
  from succeeds_tx [OF this] have "program_step ?d0 ?d1" by (auto intro: program_step.cash)
  moreover have "program_step ?d1 scan_db" by (rule program_step.elsewhere) (simp_all add: scan_db_def committed_def)
  moreover have "program_step scan_db scanned_db"
  proof (rule program_step.scan)
    show "startOrResumeDeposit sample_world ''u1'' sample_scan scan_db = (fst (startOrResumeDeposit sample_world ''u1'' sample_scan scan_db), scanned_db)"
      by (simp add: scanned_db_def)
    have "reservations scan_db = []" by code_simp
    then show "findReservationByKey (sessionAdmissionKey (ses_id s)) scan_db = None" for s :: session
      by (simp add: findReservationByKey_def find_by_def)
  qed
  ultimately have steps: "program_step\<^sup>*\<^sup>* ?d0 scanned_db" by (meson rtranclp.rtrancl_into_rtrancl rtranclp.rtrancl_refl)
  have "program_start ?d0" by code_simp
  from program_keeps_the_books [OF this steps, of "''m1''" "''u1''"] have
    "length (filter (active_on ''m1'') (sessions scanned_db)) \<le> 1" "0 \<le> wb_available (getWalletBalance ''u1'' scanned_db)" by blast+
  with steps show ?thesis by blast
qed

end
