(* ===== verification/Audit_Log.thy ===== *)
theory Audit_Log
  imports Payload "HOL-Library.Product_Lexorder"
begin

text \<open>
  The audit log (\<^verbatim>\<open>src/lib/audit.ts\<close>): redaction of metadata, the canonical text of a row, the
  HMAC chain of version 2, its verification in batches, the archive of version 1 and its checkpoint.
  The log is the list of rows of \<^verbatim>\<open>AuditLog\<close> in the order they were inserted. Appends run under one
  advisory lock, so each runs on the log the previous one committed. HMAC and SHA-256 are parameters.
\<close>

record audit_world = world +
  w_hmac :: "string \<Rightarrow> string \<Rightarrow> string" \<comment> \<open>\<^verbatim>\<open>createHmac("sha256", key).update(text).digest("hex")\<close>\<close>

definition AUDIT_CHAIN_VERSION :: int where
  "AUDIT_CHAIN_VERSION = 2"

definition LEGACY_AUDIT_CHAIN_VERSION :: int where
  "LEGACY_AUDIT_CHAIN_VERSION = 1"

definition AUDIT_CHECKPOINT_ACTION :: string where
  "AUDIT_CHECKPOINT_ACTION = ''AUDIT_CHAIN_CHECKPOINT''"

definition AUDIT_CHECKPOINT_ENTITY :: string where
  "AUDIT_CHECKPOINT_ENTITY = ''AuditChain''"

definition AUDIT_CHECKPOINT_ENTITY_ID :: string where
  "AUDIT_CHECKPOINT_ENTITY_ID = ''legacy-v1''"

section \<open>Metadata\<close>

text \<open>A JavaScript value a caller passes as metadata; numbers come with the text \<^verbatim>\<open>String\<close> prints.\<close>

datatype meta =
    MUndefined
  | MNull
  | MBool bool
  | MNum rat string
  | MNonFinite
  | MStr string
  | MDate int
  | MArr "meta list"
  | MObj "(string \<times> meta) list"

definition SENSITIVE_METADATA_KEYS :: "string list" where
  "SENSITIVE_METADATA_KEYS = [''password'', ''newpassword'', ''currentpassword'', ''token'', ''secret'', ''ingestsecret'',
     ''accountidentifier'', ''totpsecret'', ''qrcode'', ''email'', ''phone'']"

definition sensitive :: "string \<Rightarrow> bool" where
  "sensitive key \<longleftrightarrow> js_lower key \<in> set SENSITIVE_METADATA_KEYS"

text \<open>
  \<^verbatim>\<open>redactAuditMetadata\<close> on the value of a member: an object is redacted member by member, an array
  and a scalar are kept; a \<^verbatim>\<open>Date\<close> is an object without enumerable members.
\<close>

fun redact_value :: "meta \<Rightarrow> meta" where
  "redact_value (MObj ms) = MObj (map (\<lambda>(k, v). (k, if sensitive k then MStr ''[REDACTED]'' else redact_value v)) ms)"
| "redact_value (MDate t) = MObj []"
| "redact_value v = v"

definition redactAuditMetadata :: "(string \<times> meta) list option \<Rightarrow> meta" where
  "redactAuditMetadata metadata = (case metadata of None \<Rightarrow> MUndefined | Some ms \<Rightarrow> redact_value (MObj ms))"

text \<open>
  What \<^verbatim>\<open>JSON.parse(JSON.stringify(value))\<close> keeps: members that are \<^verbatim>\<open>undefined\<close> go, elements that
  are become null, dates become ISO text and non-finite numbers null.
\<close>

fun stored_json :: "audit_world \<Rightarrow> meta \<Rightarrow> jval" where
  "stored_json w MUndefined = JNull"
| "stored_json w MNull = JNull"
| "stored_json w (MBool b) = JBool b"
| "stored_json w (MNum q t) = JNum q t"
| "stored_json w MNonFinite = JNull"
| "stored_json w (MStr s) = JStr s"
| "stored_json w (MDate t) = JStr (w_isoDate w t)"
| "stored_json w (MArr vs) = JArr (map (stored_json w) vs)"
| "stored_json w (MObj ms) = JObj (map (\<lambda>(k, v). (k, stored_json w v)) (filter (\<lambda>(k, v). v \<noteq> MUndefined) ms))"

section \<open>Canonical text\<close>

text \<open>\<^verbatim>\<open>stableStringify\<close>: object keys sorted at every depth.\<close>

function stableStringify :: "jval \<Rightarrow> string" where
  "stableStringify JNull = ''null''"
| "stableStringify (JBool b) = (if b then ''true'' else ''false'')"
| "stableStringify (JNum q t) = t"
| "stableStringify (JStr s) = json_string s"
| "stableStringify (JArr vs) = ''['' @ join_comma (map stableStringify vs) @ '']''"
| "stableStringify (JObj ms) =
     ''{'' @ join_comma (map (\<lambda>(k, v). json_string k @ '':'' @ stableStringify v) (sort_key fst ms)) @ ''}''"
  by pat_completeness auto

termination
  by (relation "measure size") (auto simp: less_Suc_eq_le elim!: size_list_estimation' intro: order_trans)


text \<open>\<^verbatim>\<open>JSON.stringify\<close>: members in the order they are stored.\<close>

fun plain_json :: "jval \<Rightarrow> string" where
  "plain_json JNull = ''null''"
| "plain_json (JBool b) = (if b then ''true'' else ''false'')"
| "plain_json (JNum q t) = t"
| "plain_json (JStr s) = json_string s"
| "plain_json (JArr vs) = ''['' @ join_comma (map plain_json vs) @ '']''"
| "plain_json (JObj ms) = ''{'' @ join_comma (map (\<lambda>(k, v). json_string k @ '':'' @ plain_json v) ms) @ ''}''"

definition json_opt :: "string option \<Rightarrow> jval" where
  "json_opt s = (case s of None \<Rightarrow> JNull | Some t \<Rightarrow> JStr t)"

definition json_int :: "int \<Rightarrow> jval" where
  "json_int n = JNum (of_int n) (show_int n)"

section \<open>Rows\<close>

text \<open>A row of \<^verbatim>\<open>AuditLog\<close>; \<open>JNull\<close> is a null column.\<close>

record audit_row =
  au_id :: ident
  au_createdAt :: int
  au_actorId :: "ident option"
  au_action :: string
  au_entityType :: string
  au_entityId :: "ident option"
  au_metadataJson :: jval
  au_chainVersion :: int
  au_chainSequence :: "int option"
  au_previousHash :: "string option"
  au_checksum :: "string option"

type_synonym audit_log = "audit_row list"

record audit_input =
  ai_actorId :: "ident option"
  ai_action :: string
  ai_entityType :: string
  ai_entityId :: "ident option"
  ai_metadata :: "(string \<times> meta) list option"

definition canonicalAuditPayload :: "audit_world \<Rightarrow> audit_row \<Rightarrow> string" where
  "canonicalAuditPayload w r = stableStringify (JObj
     [(''v'', json_int AUDIT_CHAIN_VERSION), (''createdAt'', JStr (w_isoDate w (au_createdAt r))),
      (''actorId'', json_opt (au_actorId r)), (''action'', JStr (au_action r)), (''entityType'', JStr (au_entityType r)),
      (''entityId'', json_opt (au_entityId r)), (''metadataJson'', au_metadataJson r)])"

text \<open>\<^verbatim>\<open>buildAuditRow\<close>: the columns the checksum covers; the others are set when the row is linked.\<close>

definition buildAuditRow :: "audit_world \<Rightarrow> audit_input \<Rightarrow> int \<Rightarrow> audit_row" where
  "buildAuditRow w inp createdAt =
     \<lparr>au_id = [], au_createdAt = createdAt, au_actorId = ai_actorId inp, au_action = ai_action inp,
      au_entityType = ai_entityType inp, au_entityId = ai_entityId inp,
      au_metadataJson = stored_json w (redactAuditMetadata (ai_metadata inp)),
      au_chainVersion = AUDIT_CHAIN_VERSION, au_chainSequence = None, au_previousHash = None, au_checksum = None\<rparr>"

definition INSECURE_DEFAULT :: string where
  "INSECURE_DEFAULT = ''audit-secret-change-me''"

definition getAuditSecret :: "audit_world \<Rightarrow> string result" where
  "getAuditSecret w =
     (case w_env w ''AUDIT_CHECKSUM_SECRET'' of
        Some s \<Rightarrow>
          if s \<noteq> [] \<and> s \<noteq> INSECURE_DEFAULT then Inr s
          else if w_env w ''NODE_ENV'' = Some ''production'' then Inl (JsError ''AUDIT_CHECKSUM_SECRET must be set in production'')
          else Inr INSECURE_DEFAULT
      | None \<Rightarrow>
          if w_env w ''NODE_ENV'' = Some ''production'' then Inl (JsError ''AUDIT_CHECKSUM_SECRET must be set in production'')
          else Inr INSECURE_DEFAULT)"

definition newline :: string where
  "newline = [CHR 0x0A]"

text \<open>The text a link signs: the position, the predecessor's checksum and the canonical row.\<close>

definition link_text :: "string option \<Rightarrow> int \<Rightarrow> string \<Rightarrow> string" where
  "link_text previousHash sequence canonical =
     ''reloop-audit-v2'' @ newline @ show_int sequence @ newline @ nullish previousHash [] @ newline @ canonical"

definition checksumV2 :: "audit_world \<Rightarrow> string option \<Rightarrow> int \<Rightarrow> string \<Rightarrow> string result" where
  "checksumV2 w previousHash sequence canonical =
     rbind (getAuditSecret w) (\<lambda>secret. Inr (w_hmac w secret (link_text previousHash sequence canonical)))"

section \<open>Appending\<close>

text \<open>The sequenced rows after a cursor, by position.\<close>

definition after_cursor :: "int option \<Rightarrow> audit_row \<Rightarrow> bool" where
  "after_cursor cursor r \<longleftrightarrow>
     (case au_chainSequence r of None \<Rightarrow> False | Some n \<Rightarrow> (case cursor of None \<Rightarrow> True | Some c \<Rightarrow> c < n))"

definition position :: "audit_row \<Rightarrow> int" where
  "position r = nullish (au_chainSequence r) 0"

definition v2_rows :: "int option \<Rightarrow> audit_log \<Rightarrow> audit_row list" where
  "v2_rows cursor entries = sort_key position (filter (after_cursor cursor) entries)"

definition chain_head :: "audit_log \<Rightarrow> audit_row option" where
  "chain_head entries = (case v2_rows None entries of [] \<Rightarrow> None | rows \<Rightarrow> Some (last rows))"

definition audit_clash :: "audit_row \<Rightarrow> audit_row \<Rightarrow> bool" where
  "audit_clash a b \<longleftrightarrow> au_id a = au_id b \<or> (au_chainSequence a \<noteq> None \<and> au_chainSequence a = au_chainSequence b)"

definition appendAuditEntry :: "audit_world \<Rightarrow> audit_input \<Rightarrow> int option \<Rightarrow> audit_log \<Rightarrow> ((ident \<times> int \<times> string) \<times> audit_log) result" where
  "appendAuditEntry w inp createdAt entries =
     (let head = chain_head entries;
          row = buildAuditRow w inp (nullish createdAt (w_now w));
          chainSequence = (case head of None \<Rightarrow> 0 | Some h \<Rightarrow> position h) + 1;
          previousHash = Option.bind head au_checksum
      in rbind (checksumV2 w previousHash chainSequence (canonicalAuditPayload w row)) (\<lambda>checksum.
         let created = row\<lparr>au_id := w_newId w (length entries), au_chainSequence := Some chainSequence,
               au_previousHash := previousHash, au_checksum := Some checksum\<rparr>
         in if list_ex (audit_clash created) entries then Inl (PrismaError ''P2002'')
            else Inr ((au_id created, chainSequence, checksum), entries @ [created])))"

text \<open>\<^verbatim>\<open>logAudit\<close>: a failure is printed, never thrown.\<close>

definition logAudit :: "audit_world \<Rightarrow> audit_input \<Rightarrow> audit_log \<Rightarrow> audit_log" where
  "logAudit w inp entries = (case appendAuditEntry w inp None entries of Inr (_, entries') \<Rightarrow> entries' | Inl _ \<Rightarrow> entries)"

definition logAuditInTransaction :: "audit_world \<Rightarrow> audit_input \<Rightarrow> audit_log \<Rightarrow> audit_log result" where
  "logAuditInTransaction w inp entries = rbind (appendAuditEntry w inp None entries) (\<lambda>(_, entries'). Inr entries')"

section \<open>Walking the chain\<close>

datatype chain_break = Break_version | Break_sequence | Break_previous_hash | Break_checksum

record recorded_checkpoint =
  ck_id :: ident
  ck_chainSequence :: int
  ck_legacyCount :: "jval option"
  ck_legacyDigest :: "jval option"

definition member :: "jval \<Rightarrow> string \<Rightarrow> jval option" where
  "member v key = (case v of JObj ms \<Rightarrow> map_of ms key | _ \<Rightarrow> None)"

definition readCheckpoint :: "audit_row \<Rightarrow> recorded_checkpoint" where
  "readCheckpoint r = \<lparr>ck_id = au_id r, ck_chainSequence = position r,
     ck_legacyCount = member (au_metadataJson r) ''legacyCount'', ck_legacyDigest = member (au_metadataJson r) ''legacyDigest''\<rparr>"

definition isCheckpointRow :: "audit_row \<Rightarrow> bool" where
  "isCheckpointRow r \<longleftrightarrow> au_action r = AUDIT_CHECKPOINT_ACTION \<and> au_entityType r = AUDIT_CHECKPOINT_ENTITY"

record walk_state =
  ws_previous :: "string option"
  ws_expected :: int
  ws_checkedCount :: int
  ws_checkpoint :: "recorded_checkpoint option"

definition walk_start :: walk_state where
  "walk_start = \<lparr>ws_previous = None, ws_expected = 1, ws_checkedCount = 0, ws_checkpoint = None\<rparr>"

text \<open>The reason a row breaks the chain, if it does; the secret is read only when a checksum is due.\<close>

definition row_break :: "audit_world \<Rightarrow> walk_state \<Rightarrow> audit_row \<Rightarrow> chain_break option result" where
  "row_break w st r =
     (if au_chainVersion r \<noteq> AUDIT_CHAIN_VERSION then Inr (Some Break_version)
      else if au_chainSequence r \<noteq> Some (ws_expected st) then Inr (Some Break_sequence)
      else if au_previousHash r \<noteq> ws_previous st then Inr (Some Break_previous_hash)
      else rbind (checksumV2 w (ws_previous st) (ws_expected st) (canonicalAuditPayload w r))
             (\<lambda>c. Inr (if au_checksum r \<noteq> Some c then Some Break_checksum else None)))"

definition walk_past :: "audit_row \<Rightarrow> walk_state \<Rightarrow> walk_state" where
  "walk_past r st = \<lparr>ws_previous = au_checksum r, ws_expected = ws_expected st + 1, ws_checkedCount = ws_checkedCount st + 1,
     ws_checkpoint = (if isCheckpointRow r then Some (readCheckpoint r) else ws_checkpoint st)\<rparr>"

fun walk_rows :: "audit_world \<Rightarrow> audit_row list \<Rightarrow> walk_state \<Rightarrow> (walk_state \<times> (ident \<times> chain_break) option) result" where
  "walk_rows w [] st = Inr (st, None)"
| "walk_rows w (r # rs) st =
     rbind (row_break w st r) (\<lambda>b. case b of
        Some reason \<Rightarrow> Inr (st, Some (au_id r, reason))
      | None \<Rightarrow> walk_rows w rs (walk_past r st))"

text \<open>The loop over batches; an empty batch that is not the last has no last row to read.\<close>

partial_function (option) walk_batches ::
  "audit_world \<Rightarrow> nat \<Rightarrow> audit_log \<Rightarrow> int option \<Rightarrow> walk_state \<Rightarrow> (walk_state \<times> (ident \<times> chain_break) option) result option" where
  "walk_batches w batchSize entries cursor st =
     (let rows = take batchSize (v2_rows cursor entries) in
      case walk_rows w rows st of
        Inl e \<Rightarrow> Some (Inl e)
      | Inr (st', broken) \<Rightarrow>
          if broken \<noteq> None \<or> length rows < batchSize then Some (Inr (st', broken))
          else if rows = [] then Some (Inl (JsError ''TypeError''))
          else walk_batches w batchSize entries (au_chainSequence (last rows)) st')"

record chain_result =
  cr_broken :: "(ident \<times> chain_break) option" \<comment> \<open>none: valid\<close>
  cr_checkedCount :: int
  cr_checkpoint :: "recorded_checkpoint option"

definition archive_order :: "audit_row \<Rightarrow> int \<times> ident" where
  "archive_order r = (au_createdAt r, au_id r)"

text \<open>A row that is neither legacy nor sequenced.\<close>

definition stray_row :: "audit_log \<Rightarrow> audit_row option" where
  "stray_row entries =
     (case sort_key archive_order (filter (\<lambda>r. au_chainSequence r = None \<and> au_chainVersion r \<noteq> LEGACY_AUDIT_CHAIN_VERSION) entries) of
        [] \<Rightarrow> None | r # _ \<Rightarrow> Some r)"

definition chain_outcome :: "audit_log \<Rightarrow> walk_state \<times> (ident \<times> chain_break) option \<Rightarrow> chain_result" where
  "chain_outcome entries = (\<lambda>(st, broken).
     \<lparr>cr_broken = (case broken of Some b \<Rightarrow> Some b | None \<Rightarrow> map_option (\<lambda>r. (au_id r, Break_sequence)) (stray_row entries)),
      cr_checkedCount = ws_checkedCount st, cr_checkpoint = ws_checkpoint st\<rparr>)"

definition walkV2Chain :: "audit_world \<Rightarrow> nat \<Rightarrow> audit_log \<Rightarrow> chain_result result option" where
  "walkV2Chain w batchSize entries =
     map_option (\<lambda>m. rbind m (\<lambda>x. Inr (chain_outcome entries x))) (walk_batches w batchSize entries None walk_start)"

section \<open>The legacy archive\<close>

datatype legacy_status = Legacy_not_present | Legacy_unverifiable | Legacy_valid

definition show_legacy_status :: "legacy_status \<Rightarrow> string" where
  "show_legacy_status s = (case s of
     Legacy_not_present \<Rightarrow> ''not-present'' | Legacy_unverifiable \<Rightarrow> ''unverifiable'' | Legacy_valid \<Rightarrow> ''valid'')"

record legacy_snapshot =
  lg_count :: int
  lg_digest :: string
  lg_status :: legacy_status

text \<open>The payload of the version 1 writer; a null entity id prints as \<^verbatim>\<open>null\<close> in its template.\<close>

definition legacyV1Payload :: "audit_world \<Rightarrow> audit_row \<Rightarrow> string" where
  "legacyV1Payload w r = plain_json (JObj
     [(''ts'', JStr (w_isoDate w (au_createdAt r))), (''actor'', json_opt (au_actorId r)), (''action'', JStr (au_action r)),
      (''entity'', JStr (au_entityType r @ '':'' @ nullish (au_entityId r) ''null'')), (''meta'', au_metadataJson r)])"

definition checksumV1 :: "audit_world \<Rightarrow> string option \<Rightarrow> string \<Rightarrow> string result" where
  "checksumV1 w previousHash payload =
     rbind (getAuditSecret w) (\<lambda>secret. Inr (w_sha256 w (nullish previousHash [] @ payload @ secret)))"

definition legacyDigestLine :: "audit_world \<Rightarrow> audit_row \<Rightarrow> string" where
  "legacyDigestLine w r = stableStringify (JArr
     [JStr (au_id r), JStr (w_isoDate w (au_createdAt r)), json_opt (au_actorId r), JStr (au_action r), JStr (au_entityType r),
      json_opt (au_entityId r), au_metadataJson r, json_opt (au_previousHash r), json_opt (au_checksum r)])"

record archive_state =
  as_text :: string \<comment> \<open>what was fed to the digest\<close>
  as_count :: int
  as_previous :: "string option"
  as_provable :: bool

definition archive_start :: archive_state where
  "archive_start = \<lparr>as_text = ''reloop-audit-legacy-v1'' @ newline, as_count = 0, as_previous = None, as_provable = True\<rparr>"

text \<open>Whether the stored checksum of a legacy row still matches the version 1 formula.\<close>

definition still_provable :: "audit_world \<Rightarrow> audit_row \<Rightarrow> archive_state \<Rightarrow> bool result" where
  "still_provable w r st =
     (if \<not> as_provable st \<or> au_previousHash r \<noteq> as_previous st then Inr False
      else rbind (checksumV1 w (as_previous st) (legacyV1Payload w r)) (\<lambda>c. Inr (au_checksum r = Some c)))"

fun read_archive :: "audit_world \<Rightarrow> audit_row list \<Rightarrow> archive_state \<Rightarrow> archive_state result" where
  "read_archive w [] st = Inr st"
| "read_archive w (r # rs) st =
     rbind (still_provable w r st) (\<lambda>ok.
     read_archive w rs \<lparr>as_text = as_text st @ legacyDigestLine w r @ newline, as_count = as_count st + 1,
       as_previous = au_checksum r, as_provable = ok\<rparr>)"

definition legacy_rows :: "(int \<times> ident) option \<Rightarrow> audit_log \<Rightarrow> audit_row list" where
  "legacy_rows cursor entries = sort_key archive_order (filter (\<lambda>r. au_chainVersion r = LEGACY_AUDIT_CHAIN_VERSION
     \<and> (case cursor of None \<Rightarrow> True | Some c \<Rightarrow> c < archive_order r)) entries)"

partial_function (option) archive_batches ::
  "audit_world \<Rightarrow> nat \<Rightarrow> audit_log \<Rightarrow> (int \<times> ident) option \<Rightarrow> archive_state \<Rightarrow> archive_state result option" where
  "archive_batches w batchSize entries cursor st =
     (let rows = take batchSize (legacy_rows cursor entries) in
      case read_archive w rows st of
        Inl e \<Rightarrow> Some (Inl e)
      | Inr st' \<Rightarrow>
          if length rows < batchSize then Some (Inr st')
          else if rows = [] then Some (Inl (JsError ''TypeError''))
          else archive_batches w batchSize entries (Some (archive_order (last rows))) st')"

definition snapshot_of :: "audit_world \<Rightarrow> archive_state \<Rightarrow> legacy_snapshot" where
  "snapshot_of w st = \<lparr>lg_count = as_count st, lg_digest = w_sha256 w (as_text st),
     lg_status = (if as_count st = 0 then Legacy_not_present else if as_provable st then Legacy_valid else Legacy_unverifiable)\<rparr>"

definition legacyAuditSnapshot :: "audit_world \<Rightarrow> nat \<Rightarrow> audit_log \<Rightarrow> legacy_snapshot result option" where
  "legacyAuditSnapshot w batchSize entries =
     map_option (\<lambda>m. rbind m (\<lambda>st. Inr (snapshot_of w st))) (archive_batches w batchSize entries None archive_start)"

section \<open>Verification\<close>

datatype checkpoint_status = Checkpoint_not_required | Checkpoint_missing | Checkpoint_matches | Checkpoint_mismatch

definition is_number :: "jval option \<Rightarrow> int \<Rightarrow> bool" where
  "is_number v n \<longleftrightarrow> (case v of Some (JNum q _) \<Rightarrow> q = of_int n | _ \<Rightarrow> False)"

definition checkpoint_fits :: "recorded_checkpoint \<Rightarrow> legacy_snapshot \<Rightarrow> bool" where
  "checkpoint_fits c legacy \<longleftrightarrow> is_number (ck_legacyCount c) (lg_count legacy) \<and> ck_legacyDigest c = Some (JStr (lg_digest legacy))"

definition checkpointStatus :: "recorded_checkpoint option \<Rightarrow> legacy_snapshot \<Rightarrow> checkpoint_status" where
  "checkpointStatus checkpoint legacy =
     (case checkpoint of
        None \<Rightarrow> if lg_count legacy = 0 then Checkpoint_not_required else Checkpoint_missing
      | Some c \<Rightarrow> if checkpoint_fits c legacy then Checkpoint_matches else Checkpoint_mismatch)"

record chain_verification =
  cv_broken :: "(ident \<times> chain_break) option"
  cv_checkedCount :: int
  cv_legacyStatus :: legacy_status
  cv_legacyCount :: int
  cv_legacyCheckpoint :: checkpoint_status

text \<open>Run one possibly unending computation after another.\<close>

definition then_run :: "'a result option \<Rightarrow> ('a \<Rightarrow> 'b result option) \<Rightarrow> 'b result option" where
  "then_run m k = (case m of None \<Rightarrow> None | Some (Inl e) \<Rightarrow> Some (Inl e) | Some (Inr x) \<Rightarrow> k x)"

definition verifyAuditChain :: "audit_world \<Rightarrow> nat \<Rightarrow> audit_log \<Rightarrow> chain_verification result option" where
  "verifyAuditChain w batchSize entries =
     then_run (walkV2Chain w batchSize entries) (\<lambda>chain.
     then_run (legacyAuditSnapshot w batchSize entries) (\<lambda>legacy.
     Some (Inr \<lparr>cv_broken = cr_broken chain, cv_checkedCount = cr_checkedCount chain, cv_legacyStatus = lg_status legacy,
       cv_legacyCount = lg_count legacy, cv_legacyCheckpoint = checkpointStatus (cr_checkpoint chain) legacy\<rparr>)))"

section \<open>The checkpoint of the archive\<close>

datatype checkpoint_outcome =
  Dry_run | Written | Already_recorded | Digest_mismatch | Checkpoint_conflict | Nothing_to_checkpoint

record checkpoint_report =
  kr_outcome :: checkpoint_outcome
  kr_legacy :: legacy_snapshot
  kr_checkpoint :: "recorded_checkpoint option"

definition latestCheckpoint :: "audit_log \<Rightarrow> recorded_checkpoint option" where
  "latestCheckpoint entries = (case filter isCheckpointRow (v2_rows None entries) of [] \<Rightarrow> None | rows \<Rightarrow> Some (readCheckpoint (last rows)))"

definition checkpoint_input :: "legacy_snapshot \<Rightarrow> audit_input" where
  "checkpoint_input legacy =
     \<lparr>ai_actorId = None, ai_action = AUDIT_CHECKPOINT_ACTION, ai_entityType = AUDIT_CHECKPOINT_ENTITY,
      ai_entityId = Some AUDIT_CHECKPOINT_ENTITY_ID,
      ai_metadata = Some [(''boundary'', MStr ''v1->v2''), (''legacyVersion'', MNum 1 ''1''),
        (''legacyCount'', MNum (of_int (lg_count legacy)) (show_int (lg_count legacy))), (''legacyDigest'', MStr (lg_digest legacy)),
        (''legacyStatus'', MStr (show_legacy_status (lg_status legacy)))]\<rparr>"

text \<open>The batch size of the scripts is the default of the reader.\<close>

definition DEFAULT_BATCH :: nat where
  "DEFAULT_BATCH = 500"

definition checkpoint_dry_run :: "audit_world \<Rightarrow> audit_log \<Rightarrow> checkpoint_report result option" where
  "checkpoint_dry_run w entries =
     then_run (legacyAuditSnapshot w DEFAULT_BATCH entries) (\<lambda>legacy.
     Some (Inr \<lparr>kr_outcome = Dry_run, kr_legacy = legacy, kr_checkpoint = latestCheckpoint entries\<rparr>))"

text \<open>With \<^verbatim>\<open>apply\<close>: append the checkpoint only for the digest an operator reviewed and only once.\<close>

definition checkpointLegacyAuditChain ::
  "audit_world \<Rightarrow> string \<Rightarrow> audit_log \<Rightarrow> (checkpoint_report \<times> audit_log) result option" where
  "checkpointLegacyAuditChain w expectedDigest entries =
     then_run (legacyAuditSnapshot w DEFAULT_BATCH entries) (\<lambda>legacy.
     case latestCheckpoint entries of
       Some existing \<Rightarrow> Some (Inr (\<lparr>kr_outcome = (if checkpoint_fits existing legacy then Already_recorded else Checkpoint_conflict),
         kr_legacy = legacy, kr_checkpoint = Some existing\<rparr>, entries))
     | None \<Rightarrow>
         if lg_count legacy = 0 then Some (Inr (\<lparr>kr_outcome = Nothing_to_checkpoint, kr_legacy = legacy, kr_checkpoint = None\<rparr>, entries))
         else if lg_digest legacy \<noteq> expectedDigest
         then Some (Inr (\<lparr>kr_outcome = Digest_mismatch, kr_legacy = legacy, kr_checkpoint = None\<rparr>, entries))
         else Some (rbind (appendAuditEntry w (checkpoint_input legacy) None entries) (\<lambda>((i, n, _), entries').
           Inr (\<lparr>kr_outcome = Written, kr_legacy = legacy,
             kr_checkpoint = Some \<lparr>ck_id = i, ck_chainSequence = n, ck_legacyCount = Some (json_int (lg_count legacy)),
               ck_legacyDigest = Some (JStr (lg_digest legacy))\<rparr>\<rparr>, entries'))))"

end
