(* ===== verification/Pickup.thy ===== *)
theory Pickup
  imports Review Audit_Log
begin

text \<open>
  The dispatch of pickups (\<^verbatim>\<open>src/lib/pickup.ts\<close>, \<^verbatim>\<open>src/lib/pickup-dispatch.ts\<close> and the endpoints under
  \<^verbatim>\<open>src/app/api/pickups\<close>): the rules of the life cycle, assignment, field work, cancellation, replacement,
  escalation, manual creation and material records. The state \<open>office\<close> holds the database, the columns of
  users the dispatch reads, the partnerships, the material records and the audit log; every operation ends with its
  audit row. An operation that reads outside its transaction takes that earlier state as an argument.
\<close>

section \<open>State\<close>

datatype partner_status =
  PS_INVITED | PS_REQUESTED | PS_PENDING_SUPERADMIN_APPROVAL | PS_ACTIVE | PS_SUSPENDED | PS_REMOVED | PS_REJECTED

record partner =
  par_id :: ident
  par_organizationId :: ident
  par_collectorUserId :: ident
  par_status :: partner_status

text \<open>The columns of \<^verbatim>\<open>User\<close> that name a role and an organization.\<close>

record staff =
  stf_userId :: ident
  stf_role :: role
  stf_organizationId :: "ident option"

datatype item_source = MACHINE_COUNT | MANUAL_WEIGHING

record pickup_item =
  pit_id :: ident
  pit_pickupRequestId :: ident
  pit_wasteTypeId :: "ident option"
  pit_itemCount :: "int option"
  pit_estimatedWeightKg :: "rat option"
  pit_actualWeightKg :: "rat option"
  pit_source :: item_source
  pit_notes :: "string option"

record office =
  of_db :: db
  of_staff :: "staff list"
  of_partners :: "partner list"
  of_items :: "pickup_item list"
  of_log :: audit_log

abbreviation of_pickups :: "office \<Rightarrow> pickup list" where
  "of_pickups o' \<equiv> pickups (of_db o')"

definition set_db :: "db \<Rightarrow> office \<Rightarrow> office" where
  "set_db d s = s\<lparr>of_db := d\<rparr>"

text \<open>\<^verbatim>\<open>runWalletTransaction\<close> on the whole state.\<close>

definition office_transaction :: "(office \<Rightarrow> ('a \<times> office) result) \<Rightarrow> office \<Rightarrow> ('a \<times> office) result" where
  "office_transaction fn s =
     (case fn (set_db (committed (of_db s)) s) of
        Inr (x, s') \<Rightarrow> Inr (x, set_db (committed (of_db s')) s')
      | Inl e \<Rightarrow> if isContention e then Inl (HttpError 503 WALLET_BUSY) else Inl e)"

definition office_audit :: "audit_world \<Rightarrow> audit_input \<Rightarrow> office \<Rightarrow> office result" where
  "office_audit w inp s = rbind (logAuditInTransaction w inp (of_log s)) (\<lambda>t. Inr (s\<lparr>of_log := t\<rparr>))"

section \<open>The life cycle\<close>

datatype pickup_action = Act_assign | Act_start | Act_arrive | Act_collect | Act_complete | Act_fail | Act_cancel

datatype rule_actor = By_collector | By_admin | By_any

record pickup_rule =
  rule_from :: "pickup_status list"
  rule_to :: pickup_status
  rule_roles :: "role list"
  rule_actor :: rule_actor

definition field_rule :: "pickup_status list \<Rightarrow> pickup_status \<Rightarrow> pickup_rule" where
  "field_rule from to = \<lparr>rule_from = from, rule_to = to, rule_roles = [PENGEPUL, SUPERADMIN], rule_actor = By_collector\<rparr>"

definition admin_rule :: "pickup_status list \<Rightarrow> pickup_status \<Rightarrow> pickup_rule" where
  "admin_rule from to = \<lparr>rule_from = from, rule_to = to, rule_roles = [ADMIN, SUPERADMIN], rule_actor = By_admin\<rparr>"

fun RULES :: "pickup_action \<Rightarrow> pickup_rule" where
  "RULES Act_assign = admin_rule [PK_REQUESTED, PK_ASSIGNED] PK_ASSIGNED"
| "RULES Act_start = field_rule [PK_ASSIGNED] PK_ON_THE_WAY"
| "RULES Act_arrive = field_rule [PK_ON_THE_WAY] PK_ARRIVED"
| "RULES Act_collect = field_rule [PK_ARRIVED] PK_COLLECTED"
| "RULES Act_complete = field_rule [PK_COLLECTED] PK_COMPLETED"
| "RULES Act_fail = field_rule [PK_ASSIGNED, PK_ON_THE_WAY, PK_ARRIVED, PK_COLLECTED] PK_FAILED"
| "RULES Act_cancel = admin_rule [PK_REQUESTED, PK_ASSIGNED, PK_ON_THE_WAY, PK_ARRIVED] PK_CANCELLED"

definition pickupActionRoles :: "pickup_action \<Rightarrow> role list" where
  "pickupActionRoles a = rule_roles (RULES a)"

definition show_action :: "pickup_action \<Rightarrow> string" where
  "show_action a = (case a of Act_assign \<Rightarrow> ''assign'' | Act_start \<Rightarrow> ''start'' | Act_arrive \<Rightarrow> ''arrive'' | Act_collect \<Rightarrow> ''collect''
     | Act_complete \<Rightarrow> ''complete'' | Act_fail \<Rightarrow> ''fail'' | Act_cancel \<Rightarrow> ''cancel'')"

definition show_pickup_status :: "pickup_status \<Rightarrow> string" where
  "show_pickup_status s = (case s of PK_REQUESTED \<Rightarrow> ''REQUESTED'' | PK_ASSIGNED \<Rightarrow> ''ASSIGNED'' | PK_ON_THE_WAY \<Rightarrow> ''ON_THE_WAY''
     | PK_ARRIVED \<Rightarrow> ''ARRIVED'' | PK_COLLECTED \<Rightarrow> ''COLLECTED'' | PK_COMPLETED \<Rightarrow> ''COMPLETED'' | PK_FAILED \<Rightarrow> ''FAILED''
     | PK_CANCELLED \<Rightarrow> ''CANCELLED'')"

definition show_pickup_reason :: "pickup_reason \<Rightarrow> string" where
  "show_pickup_reason r = (case r of PR_FULL \<Rightarrow> ''FULL'' | PR_SCHEDULED \<Rightarrow> ''SCHEDULED'' | PR_MANUAL \<Rightarrow> ''MANUAL'' | PR_ERROR \<Rightarrow> ''ERROR'')"

record pickup_context =
  ctx_status :: pickup_status
  ctx_role :: role
  ctx_isAssignedCollector :: bool
  ctx_isOrgAdmin :: bool

datatype refusal = Refused_status | Refused_forbidden

definition resolvePickupTransition :: "pickup_action \<Rightarrow> pickup_context \<Rightarrow> (refusal \<times> string) + pickup_status" where
  "resolvePickupTransition a ctx =
     (let rule = RULES a in
      if ctx_role ctx \<notin> set (rule_roles rule) then Inl (Refused_forbidden, ''Peran tidak diizinkan untuk aksi ini'')
      else if ctx_role ctx \<noteq> SUPERADMIN \<and> rule_actor rule = By_collector \<and> \<not> ctx_isAssignedCollector ctx
      then Inl (Refused_forbidden, ''Hanya pengepul yang ditugaskan dapat melakukan aksi ini'')
      else if ctx_role ctx \<noteq> SUPERADMIN \<and> rule_actor rule = By_admin \<and> \<not> ctx_isOrgAdmin ctx
      then Inl (Refused_forbidden, ''Hanya admin organisasi dapat melakukan aksi ini'')
      else if ctx_status ctx \<notin> set (rule_from rule)
      then Inl (Refused_status, ''Status '' @ show_pickup_status (ctx_status ctx) @ '' tidak bisa di-'' @ show_action a)
      else Inr (rule_to rule))"

definition PICKUP_TERMINAL :: "pickup_status list" where
  "PICKUP_TERMINAL = [PK_COMPLETED, PK_CANCELLED, PK_FAILED]"

definition PICKUP_REASSIGNABLE :: "pickup_status list" where
  "PICKUP_REASSIGNABLE = [PK_REQUESTED, PK_ASSIGNED]"

datatype next_actor = Next_admin | Next_collector

record dispatch_view =
  dv_nextStatus :: "pickup_status option"
  dv_nextActor :: "next_actor option"
  dv_nextLabel :: string
  dv_overdue :: bool
  dv_needsReplacement :: bool

definition NEXT_STEP :: "pickup_status \<Rightarrow> (pickup_status \<times> next_actor \<times> string) option" where
  "NEXT_STEP s = (case s of
     PK_REQUESTED \<Rightarrow> Some (PK_ASSIGNED, Next_admin, ''Menunggu admin menugaskan pengepul'')
   | PK_ASSIGNED \<Rightarrow> Some (PK_ON_THE_WAY, Next_collector, ''Menunggu pengepul berangkat'')
   | PK_ON_THE_WAY \<Rightarrow> Some (PK_ARRIVED, Next_collector, ''Pengepul menuju lokasi'')
   | PK_ARRIVED \<Rightarrow> Some (PK_COLLECTED, Next_collector, ''Pengepul mengambil material'')
   | PK_COLLECTED \<Rightarrow> Some (PK_COMPLETED, Next_collector, ''Pengepul menyelesaikan tugas'')
   | _ \<Rightarrow> None)"

definition describePickupDispatch :: "pickup_status \<Rightarrow> int option \<Rightarrow> ident option \<Rightarrow> ident option \<Rightarrow> int \<Rightarrow> dispatch_view" where
  "describePickupDispatch status expectedStartAt replacedBy replacedById now =
     (let overdue = status = PK_ASSIGNED \<and> (case expectedStartAt of None \<Rightarrow> False | Some t \<Rightarrow> t < now) in
      case NEXT_STEP status of
        Some (to, actor, label) \<Rightarrow>
          \<lparr>dv_nextStatus = Some to, dv_nextActor = Some actor,
           dv_nextLabel = (if overdue then ''Terlambat: pengepul belum berangkat'' else label), dv_overdue = overdue, dv_needsReplacement = False\<rparr>
      | None \<Rightarrow>
          (let replaced = (case (if replacedBy = None then replacedById else replacedBy) of None \<Rightarrow> False | Some i \<Rightarrow> i \<noteq> []);
               needsReplacement = status \<in> set PICKUP_REPLACEABLE \<and> \<not> replaced in
           \<lparr>dv_nextStatus = (if needsReplacement then Some PK_REQUESTED else None),
            dv_nextActor = (if needsReplacement then Some Next_admin else None),
            dv_nextLabel = (if needsReplacement then ''Menunggu admin membuat tugas pengganti''
              else if status = PK_COMPLETED then ''Selesai'' else ''Sudah diganti tugas baru''),
            dv_overdue = False, dv_needsReplacement = needsReplacement\<rparr>))"

definition withDispatch :: "pickup \<Rightarrow> ident option \<Rightarrow> int \<Rightarrow> pickup \<times> dispatch_view" where
  "withDispatch p replacedBy now = (p, describePickupDispatch (pck_status p) (pck_expectedStartAt p) replacedBy None now)"

section \<open>Input\<close>

definition PICKUP_VERSION_CONFLICT :: string where
  "PICKUP_VERSION_CONFLICT = ''Tugas telah diperbarui; muat ulang''"
definition PICKUP_VERSION_REQUIRED :: string where
  "PICKUP_VERSION_REQUIRED = ''Versi tugas tidak dikirim. Muat ulang halaman atau perbarui aplikasi ReLoop, lalu coba lagi.''"
definition PICKUP_FIELD_WORK_STARTED :: string where
  "PICKUP_FIELD_WORK_STARTED = ''Pengepul sudah memulai pekerjaan lapangan. Batalkan atau tandai gagal dengan alasan, lalu buat tugas pengganti.''"
definition PICKUP_CLOSED :: string where
  "PICKUP_CLOSED = ''Tugas pickup sudah ditutup. Buat tugas pengganti bila masih perlu diambil.''"
definition PICKUP_NOT_YOURS :: string where
  "PICKUP_NOT_YOURS = ''Tugas ini tidak lagi ditugaskan kepada Anda. Muat ulang daftar tugas.''"
definition PARTNERSHIP_INACTIVE :: string where
  "PARTNERSHIP_INACTIVE = ''Kemitraan pengepul belum aktif untuk organisasi ini''"
definition COLLECTOR_INACTIVE :: string where
  "COLLECTOR_INACTIVE = ''Akun pengepul tidak aktif''"
definition REASON_REQUIRED :: string where
  "REASON_REQUIRED = ''Alasan wajib diisi (3-500 karakter)''"
definition DEADLINE_INVALID :: string where
  "DEADLINE_INVALID = ''Tenggat mulai harus berupa waktu yang akan datang (paling lama satu tahun)''"

text \<open>\<^verbatim>\<open>PickupDispatchError\<close> is an \<^verbatim>\<open>HttpError\<close>; its code repeats what the message says.\<close>

definition versionConflict :: err where
  "versionConflict = HttpError 409 PICKUP_VERSION_CONFLICT"

definition versionRequired :: err where
  "versionRequired = HttpError 409 PICKUP_VERSION_REQUIRED"

definition VERSION_REQUIRED_ACTIONS :: "pickup_action list" where
  "VERSION_REQUIRED_ACTIONS = [Act_assign, Act_cancel, Act_fail]"

definition requiresExpectedVersion :: "pickup_action \<Rightarrow> role \<Rightarrow> bool" where
  "requiresExpectedVersion a r \<longleftrightarrow> a \<in> set VERSION_REQUIRED_ACTIONS \<or> r \<noteq> PENGEPUL"

definition MAX_DEADLINE_MS :: int where
  "MAX_DEADLINE_MS = 366 * 86400000"

definition parseExpectedVersion :: "jval option \<Rightarrow> int result" where
  "parseExpectedVersion value =
     (case value of
        Some (JNum q t) \<Rightarrow> if q = of_int (floor q) \<and> 0 \<le> q \<and> q \<le> 2147483647 then Inr (floor q) else Inl versionRequired
      | _ \<Rightarrow> Inl versionRequired)"

text \<open>\<open>is_datetime\<close> stands for \<^verbatim>\<open>z.string().datetime({ offset: true })\<close>.\<close>

definition parseExpectedStartAt :: "(string \<Rightarrow> bool) \<Rightarrow> audit_world \<Rightarrow> string option \<Rightarrow> int option result" where
  "parseExpectedStartAt is_datetime w value =
     (case given value of
        None \<Rightarrow> Inr None
      | Some v \<Rightarrow>
          if \<not> is_datetime v then Inl (HttpError 422 DEADLINE_INVALID)
          else case w_parseDate w v of
                 None \<Rightarrow> Inl (HttpError 422 DEADLINE_INVALID)
               | Some deadline \<Rightarrow>
                   if \<not> deadline - w_now w > 0 \<or> deadline - w_now w > MAX_DEADLINE_MS then Inl (HttpError 422 DEADLINE_INVALID)
                   else Inr (Some deadline))"

definition parseReason :: "string option \<Rightarrow> string result" where
  "parseReason value =
     (case value of
        None \<Rightarrow> Inl (HttpError 422 REASON_REQUIRED)
      | Some v \<Rightarrow> if 3 \<le> length (js_trim v) \<and> length (js_trim v) \<le> 500 then Inr (js_trim v) else Inl (HttpError 422 REASON_REQUIRED))"

section \<open>Notices\<close>

text \<open>A notification sent after the commit: recipient, type, title, task and version; the body is left out.\<close>

record notice =
  nt_userId :: ident
  nt_type :: string
  nt_title :: string
  nt_pickupId :: ident
  nt_version :: int

definition user_active :: "ident \<Rightarrow> office \<Rightarrow> bool" where
  "user_active i s \<longleftrightarrow> (case find_by usr_id i (users (of_db s)) of None \<Rightarrow> False | Some u \<Rightarrow> usr_status u = US_ACTIVE)"

definition organizationAdminIds :: "ident \<Rightarrow> office \<Rightarrow> ident list" where
  "organizationAdminIds organizationId s =
     sort (map stf_userId (filter (\<lambda>f. stf_organizationId f = Some organizationId \<and> stf_role f = ADMIN \<and> user_active (stf_userId f) s) (of_staff s)))"

definition notifyAdmins :: "ident \<Rightarrow> string \<Rightarrow> string \<Rightarrow> ident \<Rightarrow> int \<Rightarrow> office \<Rightarrow> notice list" where
  "notifyAdmins organizationId type title pickupId version s =
     map (\<lambda>u. \<lparr>nt_userId = u, nt_type = type, nt_title = title, nt_pickupId = pickupId, nt_version = version\<rparr>) (organizationAdminIds organizationId s)"

section \<open>Guards\<close>

definition lockedPartnership :: "ident \<Rightarrow> ident \<Rightarrow> office \<Rightarrow> partner option" where
  "lockedPartnership collectorUserId organizationId s =
     (case filter (\<lambda>p. par_organizationId p = organizationId \<and> par_collectorUserId p = collectorUserId) (of_partners s) of
        [] \<Rightarrow> None
      | row # _ \<Rightarrow> if par_status row = PS_ACTIVE then Some row else None)"

definition readImmutable :: "ident \<Rightarrow> office \<Rightarrow> pickup result" where
  "readImmutable pickupId s =
     (case find_by pck_id pickupId (of_pickups s) of None \<Rightarrow> Inl (HttpError 404 ''Pickup tidak ditemukan'') | Some p \<Rightarrow> Inr p)"

definition assertDispatcher :: "actor \<Rightarrow> ident \<Rightarrow> unit result" where
  "assertDispatcher actr organizationId =
     (if act_role actr = SUPERADMIN then Inr ()
      else if act_role actr = ADMIN \<and> act_organizationId actr = Some organizationId then Inr ()
      else if act_role actr = ADMIN then Inl (HttpError 403 ''Di luar scope organisasi Anda'')
      else Inl (HttpError 403 ''Hanya admin organisasi yang dapat menugaskan pengepul''))"

definition assertActionRole :: "actor \<Rightarrow> pickup_action \<Rightarrow> unit result" where
  "assertActionRole actr a =
     (if act_role actr \<in> set (pickupActionRoles a) then Inr ()
      else Inl (HttpError 403 (if a = Act_assign then ''Penugasan pengepul dilakukan oleh admin organisasi''
        else ''Peran tidak diizinkan untuk aksi ini'')))"

text \<open>\<^verbatim>\<open>lockPickupRequest\<close>: refuses a missing row; the row lock itself is the atomicity of the transaction.\<close>

definition lockPickupRequest :: "ident \<Rightarrow> office \<Rightarrow> unit result" where
  "lockPickupRequest pickupId s =
     (if find_by pck_id pickupId (of_pickups s) = None then Inl (HttpError 404 ''Pickup tidak ditemukan'') else Inr ())"

definition lock_office_machine :: "ident \<Rightarrow> office \<Rightarrow> office result" where
  "lock_office_machine m s = rbind (lockMachine m (of_db s)) (\<lambda>d. Inr (set_db d s))"

definition lockPickupForFieldWork :: "actor \<Rightarrow> ident \<Rightarrow> office \<Rightarrow> pickup result" where
  "lockPickupForFieldWork actr pickupId s =
     rbind (lockPickupRequest pickupId s) (\<lambda>_.
     rbind (find_or_throw pck_id pickupId (of_pickups s)) (\<lambda>current.
       if act_role actr = PENGEPUL then
         if pck_assignedCollectorId current \<noteq> Some (act_id actr) then Inl (HttpError 403 PICKUP_NOT_YOURS)
         else if lockedPartnership (act_id actr) (pck_organizationId current) s = None then Inl (HttpError 403 PARTNERSHIP_INACTIVE)
         else Inr current
       else if act_role actr \<noteq> SUPERADMIN then Inl (HttpError 403 ''Peran tidak diizinkan untuk aksi ini'')
       else Inr current))"

text \<open>The integer columns, and \<^verbatim>\<open>updateMany\<close> on the pickups.\<close>

definition pickup_ok :: "pickup \<Rightarrow> bool" where
  "pickup_ok p \<longleftrightarrow> int4 (pck_version p) \<and> int4 (pck_priority p)"

definition update_pickups :: "(pickup \<Rightarrow> bool) \<Rightarrow> (pickup \<Rightarrow> pickup) \<Rightarrow> office \<Rightarrow> (nat \<times> office) result" where
  "update_pickups cond f s =
     (if list_ex (\<lambda>p. cond p \<and> \<not> pickup_ok (f p)) (of_pickups s) then Inl (PgError ''22003'')
      else Inr (length (filter cond (of_pickups s)),
        set_db ((of_db s)\<lparr>pickups := map (\<lambda>p. if cond p then f p else p) (of_pickups s)\<rparr>) s))"

section \<open>Assignment\<close>

record assign_input =
  as_collectorId :: string
  as_expectedVersion :: "jval option"
  as_expectedStartAt :: "string option"

definition meta_opt :: "string option \<Rightarrow> meta" where
  "meta_opt v = (case v of None \<Rightarrow> MNull | Some t \<Rightarrow> MStr t)"

definition meta_int :: "int \<Rightarrow> meta" where
  "meta_int n = MNum (of_int n) (show_int n)"

definition assign_audit :: "audit_world \<Rightarrow> actor \<Rightarrow> pickup \<Rightarrow> pickup \<Rightarrow> ident \<Rightarrow> int option \<Rightarrow> audit_input" where
  "assign_audit w actr current updated collectorId deadline =
     \<lparr>ai_actorId = Some (act_id actr), ai_action = ''PICKUP_ASSIGN'', ai_entityType = ''PickupRequest'', ai_entityId = Some (pck_id current),
      ai_metadata = Some [(''from'', MStr (show_pickup_status (pck_status current))), (''to'', MStr (show_pickup_status (pck_status updated))),
        (''version'', meta_int (pck_version updated)), (''previousCollectorId'', meta_opt (pck_assignedCollectorId current)),
        (''assignedCollectorId'', MStr collectorId), (''expectedStartAt'', meta_opt (map_option (w_isoDate w) deadline))]\<rparr>"

definition dispatch_to :: "audit_world \<Rightarrow> ident \<Rightarrow> ident \<Rightarrow> int option \<Rightarrow> pickup \<Rightarrow> pickup" where
  "dispatch_to w collectorId partnerId deadline p =
     p\<lparr>pck_assignedCollectorId := Some collectorId, pck_collectorPartnerId := Some partnerId, pck_status := PK_ASSIGNED,
       pck_version := pck_version p + 1, pck_assignedAt := Some (w_now w), pck_expectedStartAt := deadline, pck_lastEscalatedAt := None\<rparr>"

definition role_of :: "ident \<Rightarrow> office \<Rightarrow> role option" where
  "role_of i s = map_option stf_role (find_by stf_userId i (of_staff s))"

definition assign_transaction ::
  "audit_world \<Rightarrow> actor \<Rightarrow> ident \<Rightarrow> ident \<Rightarrow> int \<Rightarrow> int option \<Rightarrow> office \<Rightarrow> ((pickup \<times> pickup) \<times> office) result" where
  "assign_transaction w actr pickupId collectorId expectedVersion deadline s =
     rbind (lockPickupRequest pickupId s) (\<lambda>_.
     rbind (find_or_throw pck_id pickupId (of_pickups s)) (\<lambda>current.
       if pck_status current \<notin> set PICKUP_REASSIGNABLE
       then Inl (HttpError 409 (if pck_status current \<in> set PICKUP_OPEN then PICKUP_FIELD_WORK_STARTED else PICKUP_CLOSED))
       else if pck_version current \<noteq> expectedVersion then Inl versionConflict
       else case find_by usr_id collectorId (users (of_db s)) of
         None \<Rightarrow> Inl (HttpError 422 ''Pengepul tidak ditemukan'')
       | Some collector \<Rightarrow>
           if role_of (usr_id collector) s \<noteq> Some PENGEPUL then Inl (HttpError 422 ''Pengepul tidak ditemukan'')
           else if usr_status collector \<noteq> US_ACTIVE then Inl (HttpError 422 COLLECTOR_INACTIVE)
           else case lockedPartnership (usr_id collector) (pck_organizationId current) s of
             None \<Rightarrow> Inl (HttpError 403 PARTNERSHIP_INACTIVE)
           | Some partner \<Rightarrow>
               rbind (update_pickups (\<lambda>p. pck_id p = pickupId \<and> pck_version p = expectedVersion \<and> pck_status p \<in> {PK_REQUESTED, PK_ASSIGNED})
                   (dispatch_to w (usr_id collector) (par_id partner) deadline) s) (\<lambda>(count, s1).
                 if count \<noteq> 1 then Inl (HttpError 409 ''Tugas telah diperbarui; muat ulang'')
                 else rbind (find_or_throw pck_id pickupId (of_pickups s1)) (\<lambda>updated.
                   rbind (office_audit w (assign_audit w actr current updated (usr_id collector) deadline) s1) (\<lambda>s2.
                     Inr ((updated, current), s2))))))"

definition assign_notices :: "pickup \<Rightarrow> pickup \<Rightarrow> notice list" where
  "assign_notices updated current =
     (let collector = nullish (pck_assignedCollectorId updated) []; previous = pck_assignedCollectorId current in
      \<lparr>nt_userId = collector, nt_type = ''PICKUP_ASSIGNED'',
       nt_title = (if previous = pck_assignedCollectorId updated then ''Tugas pickup diperbarui'' else ''Tugas pickup baru''),
       nt_pickupId = pck_id updated, nt_version = pck_version updated\<rparr>
      # (case previous of
           Some p \<Rightarrow> if Some p \<noteq> pck_assignedCollectorId updated
             then [\<lparr>nt_userId = p, nt_type = ''PICKUP_STATUS'', nt_title = ''Tugas pickup dialihkan'', nt_pickupId = pck_id updated, nt_version = pck_version updated\<rparr>]
             else []
         | None \<Rightarrow> []))"

definition assignPickup ::
  "(string \<Rightarrow> bool) \<Rightarrow> audit_world \<Rightarrow> office \<Rightarrow> actor \<Rightarrow> ident \<Rightarrow> assign_input \<Rightarrow> office \<Rightarrow> ((pickup \<times> notice list) \<times> office) result" where
  "assignPickup is_datetime w before actr pickupId inp s =
     rbind (assertActionRole actr Act_assign) (\<lambda>_.
     rbind (parseExpectedVersion (as_expectedVersion inp)) (\<lambda>expectedVersion.
       if \<not> (1 \<le> length (as_collectorId inp) \<and> length (as_collectorId inp) \<le> 128) then Inl (HttpError 422 ''collectorUserId wajib diisi'')
       else rbind (parseExpectedStartAt is_datetime w (as_expectedStartAt inp)) (\<lambda>deadline.
         rbind (readImmutable pickupId before) (\<lambda>ref.
         rbind (assertDispatcher actr (pck_organizationId ref)) (\<lambda>_.
         rbind (office_transaction (assign_transaction w actr pickupId (as_collectorId inp) expectedVersion deadline) s)
           (\<lambda>((updated, current), s'). Inr ((updated, assign_notices updated current), s')))))))"

section \<open>Field work and cancellation\<close>

record pickup_transition =
  tr_action :: pickup_action \<comment> \<open>never \<^verbatim>\<open>assign\<close>\<close>
  tr_expectedVersion :: "jval option"
  tr_reason :: "string option"
  tr_notes :: "string option"

definition closing :: "pickup_action \<Rightarrow> bool" where
  "closing a \<longleftrightarrow> a = Act_cancel \<or> a = Act_fail"

definition expected_version :: "actor \<Rightarrow> pickup_transition \<Rightarrow> int option result" where
  "expected_version actr inp =
     (case tr_expectedVersion inp of
        Some v \<Rightarrow> rbind (parseExpectedVersion (Some v)) (\<lambda>n. Inr (Some n))
      | None \<Rightarrow> if requiresExpectedVersion (tr_action inp) (act_role actr) then Inl versionRequired else Inr None)"

definition closing_reason :: "pickup_transition \<Rightarrow> string option result" where
  "closing_reason inp = (if closing (tr_action inp) then rbind (parseReason (tr_reason inp)) (\<lambda>r. Inr (Some r)) else Inr None)"

definition moved_to :: "pickup_status \<Rightarrow> string option \<Rightarrow> string option \<Rightarrow> pickup \<Rightarrow> pickup" where
  "moved_to to notes reason p =
     p\<lparr>pck_status := to, pck_version := pck_version p + 1,
       pck_notes := (if notes = None then pck_notes p else notes),
       pck_closedReason := (if reason = None then pck_closedReason p else reason)\<rparr>"

definition reset_machine :: "machine \<Rightarrow> machine" where
  "reset_machine m = m\<lparr>mac_fillLevelPercent := 0, mac_status := (if mac_status m = MS_FULL then MS_ONLINE else mac_status m)\<rparr>"

text \<open>The machine of a completed task accepts deposits again.\<close>

definition free_machine :: "pickup_action \<Rightarrow> pickup \<Rightarrow> office \<Rightarrow> office result" where
  "free_machine a current s =
     (case pck_machineId current of
        None \<Rightarrow> Inr s
      | Some m \<Rightarrow>
          if a \<noteq> Act_complete \<or> find_by mac_id m (machines (of_db s)) = None then Inr s
          else rbind (update_machine m reset_machine (of_db s)) (\<lambda>d. Inr (set_db d s)))"

definition transition_audit :: "actor \<Rightarrow> pickup_action \<Rightarrow> pickup \<Rightarrow> pickup \<Rightarrow> bool \<Rightarrow> string option \<Rightarrow> audit_input" where
  "transition_audit actr a current updated provided reason =
     \<lparr>ai_actorId = Some (act_id actr), ai_action = ''PICKUP_'' @ js_upper (show_action a), ai_entityType = ''PickupRequest'', ai_entityId = Some (pck_id current),
      ai_metadata = Some ([(''from'', MStr (show_pickup_status (pck_status current))), (''to'', MStr (show_pickup_status (pck_status updated))),
        (''version'', meta_int (pck_version updated)), (''assignedCollectorId'', meta_opt (pck_assignedCollectorId current)),
        (''expectedVersionProvided'', MBool provided)] @ (case reason of None \<Rightarrow> [] | Some r \<Rightarrow> [(''reason'', MStr r)]))\<rparr>"

definition transition_transaction ::
  "audit_world \<Rightarrow> actor \<Rightarrow> ident \<Rightarrow> pickup_transition \<Rightarrow> ident option \<Rightarrow> int option \<Rightarrow> string option \<Rightarrow> office \<Rightarrow> ((pickup \<times> pickup) \<times> office) result" where
  "transition_transaction w actr pickupId inp machineId expectedVersion reason s =
     (let a = tr_action inp in
      rbind (case machineId of Some m \<Rightarrow> if a = Act_complete then lock_office_machine m s else Inr s | None \<Rightarrow> Inr s) (\<lambda>s0.
      rbind (lockPickupRequest pickupId s0) (\<lambda>_.
      rbind (find_or_throw pck_id pickupId (of_pickups s0)) (\<lambda>current.
        let isAssignedCollector = act_role actr = PENGEPUL \<and> pck_assignedCollectorId current = Some (act_id actr);
            resolution = resolvePickupTransition a \<lparr>ctx_status = pck_status current, ctx_role = act_role actr,
              ctx_isAssignedCollector = isAssignedCollector,
              ctx_isOrgAdmin = (act_role actr = ADMIN \<and> act_organizationId actr = Some (pck_organizationId current))\<rparr>;
            forbidden = (case resolution of Inl (k, e) \<Rightarrow> if k = Refused_forbidden then Some e else None | Inr _ \<Rightarrow> None)
        in case forbidden of
             Some e \<Rightarrow> Inl (HttpError 403 (if act_role actr = PENGEPUL then PICKUP_NOT_YOURS else e))
           | None \<Rightarrow>
               if act_role actr = PENGEPUL \<and> lockedPartnership (act_id actr) (pck_organizationId current) s0 = None
               then Inl (HttpError 403 PARTNERSHIP_INACTIVE)
               else if expectedVersion \<noteq> None \<and> expectedVersion \<noteq> Some (pck_version current) then Inl versionConflict
               else case resolution of
                 Inl (k, e) \<Rightarrow> Inl (HttpError 409 e)
               | Inr to \<Rightarrow>
                   rbind (update_pickups (\<lambda>p. pck_id p = pickupId \<and> pck_version p = pck_version current \<and> pck_status p = pck_status current
                       \<and> pck_assignedCollectorId p = pck_assignedCollectorId current) (moved_to to (tr_notes inp) reason) s0) (\<lambda>(count, s1).
                     if count \<noteq> 1 then Inl versionConflict
                     else rbind (free_machine a current s1) (\<lambda>s2.
                       rbind (find_or_throw pck_id pickupId (of_pickups s2)) (\<lambda>updated.
                       rbind (office_audit w (transition_audit actr a current updated (expectedVersion \<noteq> None) reason) s2) (\<lambda>s3.
                         Inr ((updated, current), s3)))))))))"

definition transition_notices :: "pickup_action \<Rightarrow> pickup \<Rightarrow> pickup \<Rightarrow> office \<Rightarrow> notice list" where
  "transition_notices a updated current s =
     (case pck_assignedCollectorId current of
        Some c \<Rightarrow> if a = Act_cancel then [\<lparr>nt_userId = c, nt_type = ''PICKUP_STATUS'', nt_title = ''Tugas pickup dibatalkan'',
          nt_pickupId = pck_id updated, nt_version = pck_version updated\<rparr>] else []
      | None \<Rightarrow> [])
     @ (if a = Act_fail then notifyAdmins (pck_organizationId current) ''PICKUP_STATUS'' ''Tugas pickup gagal'' (pck_id updated) (pck_version updated) s else [])"

definition transitionPickup ::
  "audit_world \<Rightarrow> office \<Rightarrow> actor \<Rightarrow> ident \<Rightarrow> pickup_transition \<Rightarrow> office \<Rightarrow> ((pickup \<times> notice list) \<times> office) result" where
  "transitionPickup w before actr pickupId inp s =
     rbind (assertActionRole actr (tr_action inp)) (\<lambda>_.
     rbind (expected_version actr inp) (\<lambda>expectedVersion.
     rbind (closing_reason inp) (\<lambda>reason.
     rbind (readImmutable pickupId before) (\<lambda>ref.
       if act_role actr = ADMIN \<and> act_organizationId actr \<noteq> Some (pck_organizationId ref) then Inl (HttpError 403 ''Di luar scope organisasi Anda'')
       else if act_role actr = PENGEPUL \<and> pck_assignedCollectorId ref \<noteq> Some (act_id actr) then Inl (HttpError 403 PICKUP_NOT_YOURS)
       else rbind (office_transaction (transition_transaction w actr pickupId inp (pck_machineId ref) expectedVersion reason) s)
         (\<lambda>((updated, current), s'). Inr ((updated, transition_notices (tr_action inp) updated current s'), s'))))))"

section \<open>Replacement\<close>

definition open_pickup :: "ident \<Rightarrow> pickup \<Rightarrow> bool" where
  "open_pickup machineId p \<longleftrightarrow> pck_machineId p = Some machineId \<and> pck_status p \<in> set PICKUP_OPEN"

text \<open>\<^verbatim>\<open>create\<close>: the organization and the machine must exist (P2003).\<close>

definition pickup_refs :: "pickup \<Rightarrow> office \<Rightarrow> bool" where
  "pickup_refs p s \<longleftrightarrow> find_by org_id (pck_organizationId p) (organizations (of_db s)) \<noteq> None
     \<and> (case pck_machineId p of None \<Rightarrow> True | Some m \<Rightarrow> find_by mac_id m (machines (of_db s)) \<noteq> None)"

definition create_pickup :: "pickup \<Rightarrow> office \<Rightarrow> office result" where
  "create_pickup p s = (if \<not> pickup_refs p s then Inl (PrismaError ''P2003'') else rbind (create_row pickup_ok pickup_clash p (of_pickups s)) (\<lambda>t. Inr (set_db (bump_seq ((of_db s)\<lparr>pickups := t\<rparr>)) s)))"

definition new_pickup :: "audit_world \<Rightarrow> office \<Rightarrow> actor \<Rightarrow> ident option \<Rightarrow> ident \<Rightarrow> pickup_reason \<Rightarrow> int \<Rightarrow> string option \<Rightarrow> ident option \<Rightarrow> pickup" where
  "new_pickup w s actr machineId organizationId reason priority notes replaces =
     \<lparr>pck_id = newId (world.truncate w) (of_db s), pck_machineId = machineId, pck_organizationId = organizationId,
      pck_requestedById = Some (act_id actr), pck_assignedCollectorId = None, pck_collectorPartnerId = None, pck_status = PK_REQUESTED,
      pck_priority = priority, pck_reason = reason, pck_notes = notes, pck_version = 0, pck_assignedAt = None, pck_expectedStartAt = None,
      pck_lastEscalatedAt = None, pck_closedReason = None, pck_replacesPickupId = replaces, pck_createdAt = w_now w\<rparr>"

definition replacement_audit :: "actor \<Rightarrow> pickup \<Rightarrow> pickup \<Rightarrow> audit_input" where
  "replacement_audit actr old p =
     \<lparr>ai_actorId = Some (act_id actr), ai_action = ''PICKUP_CREATE'', ai_entityType = ''PickupRequest'', ai_entityId = Some (pck_id p),
      ai_metadata = Some [(''organizationId'', MStr (pck_organizationId old)), (''machineId'', meta_opt (pck_machineId old)),
        (''reason'', MStr (show_pickup_reason (pck_reason old))), (''replacesPickupId'', MStr (pck_id old)),
        (''replacedStatus'', MStr (show_pickup_status (pck_status old)))]\<rparr>"

definition replacement_transaction ::
  "audit_world \<Rightarrow> actor \<Rightarrow> ident \<Rightarrow> ident option \<Rightarrow> int option \<Rightarrow> string option \<Rightarrow> office \<Rightarrow> ((pickup \<times> bool) \<times> office) result" where
  "replacement_transaction w actr closedPickupId machineId priority notes s =
     rbind (case machineId of Some m \<Rightarrow> lock_office_machine m s | None \<Rightarrow> Inr s) (\<lambda>s0.
     rbind (lockPickupRequest closedPickupId s0) (\<lambda>_.
     rbind (find_or_throw pck_id closedPickupId (of_pickups s0)) (\<lambda>closed.
       case replacement_of (pck_id closed) (of_db s0) of
         Some p \<Rightarrow> Inr ((p, True), s0)
       | None \<Rightarrow>
           if pck_status closed \<notin> set PICKUP_REPLACEABLE then Inl (HttpError 409 ''Hanya tugas yang dibatalkan atau gagal yang dapat diganti'')
           else if (case pck_machineId closed of None \<Rightarrow> False | Some m \<Rightarrow> list_ex (open_pickup m) (of_pickups s0))
           then Inl (HttpError 409 ''Mesin ini sudah memiliki tugas pickup terbuka. Tugaskan tugas tersebut.'')
           else let p = new_pickup w s0 actr (pck_machineId closed) (pck_organizationId closed) (pck_reason closed)
                  (nullish priority (pck_priority closed)) (if notes = None then pck_notes closed else notes) (Some (pck_id closed))
                in rbind (create_pickup p s0) (\<lambda>s1.
                   rbind (office_audit w (replacement_audit actr closed p) s1) (\<lambda>s2. Inr ((p, False), s2))))))"

definition createReplacementPickup ::
  "audit_world \<Rightarrow> office \<Rightarrow> actor \<Rightarrow> ident \<Rightarrow> int option \<Rightarrow> string option \<Rightarrow> office \<Rightarrow> ((pickup \<times> bool) \<times> office) result" where
  "createReplacementPickup w before actr closedPickupId priority notes s =
     rbind (readImmutable closedPickupId before) (\<lambda>ref.
     rbind (assertDispatcher actr (pck_organizationId ref)) (\<lambda>_.
       office_transaction (replacement_transaction w actr closedPickupId (pck_machineId ref) priority notes) s))"

section \<open>Escalation\<close>

definition overdue :: "int \<Rightarrow> pickup \<Rightarrow> bool" where
  "overdue now p \<longleftrightarrow> pck_status p = PK_ASSIGNED \<and> (case pck_expectedStartAt p of None \<Rightarrow> False | Some t \<Rightarrow> t < now) \<and> pck_lastEscalatedAt p = None"

definition escalation_candidates :: "int \<Rightarrow> ident option \<Rightarrow> ident list option \<Rightarrow> nat \<Rightarrow> office \<Rightarrow> pickup list" where
  "escalation_candidates now organizationId pickupIds limit s =
     take limit (sort_key (\<lambda>p. (nullish (pck_expectedStartAt p) 0, pck_id p)) (filter (\<lambda>p. overdue now p
       \<and> (case given organizationId of None \<Rightarrow> True | Some i \<Rightarrow> pck_organizationId p = i)
       \<and> (case pickupIds of None \<Rightarrow> True | Some is \<Rightarrow> pck_id p \<in> set is)) (of_pickups s)))"

definition escalation_audit :: "audit_world \<Rightarrow> pickup \<Rightarrow> audit_input" where
  "escalation_audit w c =
     \<lparr>ai_actorId = None, ai_action = ''PICKUP_ESCALATE'', ai_entityType = ''PickupRequest'', ai_entityId = Some (pck_id c),
      ai_metadata = Some [(''version'', meta_int (pck_version c)), (''assignedCollectorId'', meta_opt (pck_assignedCollectorId c)),
        (''expectedStartAt'', meta_opt (map_option (w_isoDate w) (pck_expectedStartAt c)))]\<rparr>"

definition claim_escalation :: "audit_world \<Rightarrow> int \<Rightarrow> pickup \<Rightarrow> office \<Rightarrow> (bool \<times> office) result" where
  "claim_escalation w now c s =
     rbind (update_pickups (\<lambda>p. pck_id p = pck_id c \<and> pck_version p = pck_version c \<and> overdue now p) (\<lambda>p. p\<lparr>pck_lastEscalatedAt := Some now\<rparr>) s)
       (\<lambda>(count, s1). if count \<noteq> 1 then Inr (False, s1)
          else rbind (office_audit w (escalation_audit w c) s1) (\<lambda>s2. Inr (True, s2)))"

record escalation =
  es_pickupId :: ident
  es_version :: int
  es_organizationId :: ident

text \<open>The claims one after the other, each its own transaction; an error stops the loop and is thrown.\<close>

fun escalate_each :: "audit_world \<Rightarrow> int \<Rightarrow> pickup list \<Rightarrow> office \<Rightarrow> (escalation \<times> notice list) list \<times> err option \<times> office" where
  "escalate_each w now [] s = ([], None, s)"
| "escalate_each w now (c # cs) s =
     (case office_transaction (claim_escalation w now c) s of
        Inl e \<Rightarrow> ([], Some e, s)
      | Inr (claimed, s') \<Rightarrow>
          (let (rest, e, s'') = escalate_each w now cs s' in
           (if claimed
            then (\<lparr>es_pickupId = pck_id c, es_version = pck_version c, es_organizationId = pck_organizationId c\<rparr>,
                notifyAdmins (pck_organizationId c) ''PICKUP_OVERDUE'' ''Pickup terlambat dimulai'' (pck_id c) (pck_version c) s') # rest
            else rest, e, s'')))"

definition escalateOverduePickups ::
  "audit_world \<Rightarrow> ident option \<Rightarrow> ident list option \<Rightarrow> nat option \<Rightarrow> int option \<Rightarrow> office \<Rightarrow> (escalation \<times> notice list) list \<times> err option \<times> office" where
  "escalateOverduePickups w organizationId pickupIds limit now s =
     (let t = nullish now (w_now w) in
      escalate_each w t (escalation_candidates t organizationId pickupIds (nullish limit 50) s) s)"

text \<open>On an admin read: an error is printed, the read goes on.\<close>

definition escalateOnAdminRead :: "audit_world \<Rightarrow> actor \<Rightarrow> ident list option \<Rightarrow> office \<Rightarrow> office" where
  "escalateOnAdminRead w actr pickupIds s =
     (if act_role actr \<noteq> ADMIN \<and> act_role actr \<noteq> SUPERADMIN then s
      else if act_role actr = ADMIN \<and> given (act_organizationId actr) = None then s
      else let (_, _, s') = escalateOverduePickups w (if act_role actr = ADMIN then act_organizationId actr else None) pickupIds (Some 20) None s in s')"

section \<open>Endpoints\<close>

text \<open>\<^verbatim>\<open>requireApiUser\<close> for a user who is signed in.\<close>

definition require_role :: "role list \<Rightarrow> actor \<Rightarrow> unit result" where
  "require_role roles actr = (if act_role actr \<in> set roles then Inr () else Inl (HttpError 403 ''Akses ditolak untuk peran ini''))"

text \<open>The parsed body of \<^verbatim>\<open>POST /api/pickups\<close>; the reason has its default already.\<close>

record create_input =
  ci_machineId :: "ident option"
  ci_organizationId :: "ident option"
  ci_reason :: pickup_reason
  ci_priority :: "int option"
  ci_notes :: "string option"
  ci_replacesPickupId :: "ident option"

definition create_audit :: "actor \<Rightarrow> pickup \<Rightarrow> ident option \<Rightarrow> audit_input" where
  "create_audit actr p machineId =
     \<lparr>ai_actorId = Some (act_id actr), ai_action = ''PICKUP_CREATE'', ai_entityType = ''PickupRequest'', ai_entityId = Some (pck_id p),
      ai_metadata = Some [(''organizationId'', MStr (pck_organizationId p)), (''machineId'', case machineId of None \<Rightarrow> MUndefined | Some m \<Rightarrow> MStr m),
        (''reason'', MStr (show_pickup_reason (pck_reason p)))]\<rparr>"

text \<open>The organization of a manual request.\<close>

definition request_organization :: "actor \<Rightarrow> create_input \<Rightarrow> office \<Rightarrow> ident result" where
  "request_organization actr inp before =
     (let asked = (if act_role actr = ADMIN then act_organizationId actr else ci_organizationId inp) in
      rbind (case given (ci_machineId inp) of
          None \<Rightarrow> Inr asked
        | Some m \<Rightarrow>
            (case find_by mac_id m (machines (of_db before)) of
               None \<Rightarrow> Inl (HttpError 404 ''Mesin tidak ditemukan'')
             | Some machine \<Rightarrow>
                 let org = (if asked = None then Some (mac_organizationId machine) else asked) in
                 if org \<noteq> Some (mac_organizationId machine) then Inl (HttpError 422 ''Mesin bukan milik organisasi ini'') else Inr org)) (\<lambda>org.
      case given org of
        None \<Rightarrow> Inl (HttpError 422 ''organizationId wajib diisi'')
      | Some i \<Rightarrow> rbind (assertOrgScope actr i) (\<lambda>_. Inr i)))"

text \<open>
  \<^verbatim>\<open>POST /api/pickups\<close>. The machine and an open task are read in \<open>before\<close>, without a lock; the row is
  created later, on \<open>s\<close>.
\<close>

definition post_pickup :: "audit_world \<Rightarrow> office \<Rightarrow> actor \<Rightarrow> create_input \<Rightarrow> office \<Rightarrow> ((pickup \<times> bool) \<times> office) result" where
  "post_pickup w before actr inp s =
     rbind (require_role [ADMIN, SUPERADMIN] actr) (\<lambda>_.
       case given (ci_replacesPickupId inp) of
         Some old \<Rightarrow> createReplacementPickup w before actr old (ci_priority inp) (ci_notes inp) s
       | None \<Rightarrow>
           rbind (request_organization actr inp before) (\<lambda>organizationId.
             case (case given (ci_machineId inp) of None \<Rightarrow> None | Some m \<Rightarrow> List.find (open_pickup m) (of_pickups before)) of
               Some p \<Rightarrow> Inr ((p, True), s)
             | None \<Rightarrow>
                 let p = new_pickup w s actr (ci_machineId inp) organizationId (ci_reason inp) (nullish (ci_priority inp) 0) (ci_notes inp) None in
                 rbind (create_pickup p s) (\<lambda>s1. Inr ((p, False), s1\<lparr>of_log := logAudit w (create_audit actr p (ci_machineId inp)) (of_log s1)\<rparr>))))"

text \<open>The parsed body of \<^verbatim>\<open>PATCH /api/pickups/[id]\<close>.\<close>

record patch_input =
  pa_action :: pickup_action
  pa_collectorUserId :: "string option"
  pa_expectedVersion :: "jval option"
  pa_expectedStartAt :: "string option"
  pa_reason :: "string option"
  pa_notes :: "string option"

definition patch_pickup ::
  "(string \<Rightarrow> bool) \<Rightarrow> audit_world \<Rightarrow> office \<Rightarrow> actor \<Rightarrow> ident \<Rightarrow> patch_input \<Rightarrow> office \<Rightarrow> ((pickup \<times> notice list) \<times> office) result" where
  "patch_pickup is_datetime w before actr pickupId body s =
     rbind (require_role [ADMIN, PENGEPUL, SUPERADMIN] actr) (\<lambda>_.
       if pa_action body = Act_assign then
         if act_role actr \<noteq> ADMIN \<and> act_role actr \<noteq> SUPERADMIN then Inl (HttpError 403 ''Penugasan pengepul dilakukan oleh admin organisasi'')
         else if pa_expectedVersion body = None then Inl versionRequired
         else case given (pa_collectorUserId body) of
           None \<Rightarrow> Inl (HttpError 422 ''collectorUserId wajib diisi'')
         | Some c \<Rightarrow> assignPickup is_datetime w before actr pickupId
             \<lparr>as_collectorId = c, as_expectedVersion = pa_expectedVersion body, as_expectedStartAt = pa_expectedStartAt body\<rparr> s
       else transitionPickup w before actr pickupId
         \<lparr>tr_action = pa_action body, tr_expectedVersion = pa_expectedVersion body, tr_reason = pa_reason body, tr_notes = pa_notes body\<rparr> s)"

text \<open>\<^verbatim>\<open>POST /api/pickups/[id]/items\<close>: a material record.\<close>

definition RECORDABLE :: "pickup_status list" where
  "RECORDABLE = [PK_ARRIVED, PK_COLLECTED, PK_COMPLETED]"

record item_input =
  ii_wasteTypeId :: "ident option"
  ii_itemCount :: "int option"
  ii_estimatedWeightKg :: "rat option"
  ii_actualWeightKg :: "rat option"
  ii_source :: item_source
  ii_notes :: "string option"

definition item_audit :: "actor \<Rightarrow> pickup \<Rightarrow> pickup_item \<Rightarrow> audit_input" where
  "item_audit actr current item =
     \<lparr>ai_actorId = Some (act_id actr), ai_action = ''PICKUP_ITEM_RECORD'', ai_entityType = ''PickupItem'', ai_entityId = Some (pit_id item),
      ai_metadata = Some [(''pickupRequestId'', MStr (pck_id current)), (''pickupVersion'', meta_int (pck_version current)),
        (''status'', MStr (show_pickup_status (pck_status current)))]\<rparr>"

definition item_ok :: "office \<Rightarrow> pickup_item \<Rightarrow> err option" where
  "item_ok s item =
     (if \<not> opt_int4 (pit_itemCount item) then Some (PgError ''22003'')
      else if (case pit_wasteTypeId item of None \<Rightarrow> False | Some t \<Rightarrow> find_by wt_id t (wasteTypes (of_db s)) = None) then Some (PrismaError ''P2003'')
      else if list_ex (\<lambda>i. pit_id i = pit_id item) (of_items s) then Some (PrismaError ''P2002'')
      else None)"

definition record_item_transaction :: "audit_world \<Rightarrow> actor \<Rightarrow> ident \<Rightarrow> item_input \<Rightarrow> office \<Rightarrow> (pickup_item \<times> office) result" where
  "record_item_transaction w actr pickupId data s =
     rbind (lockPickupForFieldWork actr pickupId s) (\<lambda>current.
       if pck_status current \<notin> set RECORDABLE then Inl (HttpError 409 ''Material hanya dapat dicatat setelah tiba di lokasi'')
       else
         let item = \<lparr>pit_id = w_newId w (length (of_items s)), pit_pickupRequestId = pickupId, pit_wasteTypeId = ii_wasteTypeId data,
               pit_itemCount = ii_itemCount data, pit_estimatedWeightKg = ii_estimatedWeightKg data,
               pit_actualWeightKg = ii_actualWeightKg data, pit_source = ii_source data, pit_notes = ii_notes data\<rparr>
         in case item_ok s item of
              Some e \<Rightarrow> Inl e
            | None \<Rightarrow> rbind (office_audit w (item_audit actr current item) (s\<lparr>of_items := of_items s @ [item]\<rparr>)) (\<lambda>s1. Inr (item, s1)))"

definition post_pickup_item :: "audit_world \<Rightarrow> actor \<Rightarrow> ident \<Rightarrow> item_input \<Rightarrow> office \<Rightarrow> (pickup_item \<times> office) result" where
  "post_pickup_item w actr pickupId data s =
     rbind (require_role [PENGEPUL, SUPERADMIN] actr) (\<lambda>_. office_transaction (record_item_transaction w actr pickupId data) s)"

end
