(* ===== verification/Audit_Pages.thy ===== *)
theory Audit_Pages
  imports Audit_Log
begin

text \<open>
  Reading the log in batches: the pages of a table read by key, and that the batch loops of the
  verifier and of the archive reader end with the result of one pass over the whole table.
\<close>

section \<open>Reading a table in pages\<close>

text \<open>
  A table read by ascending key, a page at a time, each page after the last key of the previous one. The
  next page is what a single read would have had behind the page.
\<close>

locale paged_table =
  fixes key :: "'r \<Rightarrow> 'k::linorder" and keep :: "'r \<Rightarrow> bool" and pages :: "'k option \<Rightarrow> 'r list \<Rightarrow> 'r list"
  assumes pages_eq: "pages cursor t = sort_key key (filter (\<lambda>r. keep r \<and> (case cursor of None \<Rightarrow> True | Some c \<Rightarrow> c < key r)) t)"
begin

lemma pages_sorted: "distinct (map key (filter keep t)) \<Longrightarrow> sorted_wrt (\<lambda>a b. key a < key b) (pages cursor t)"
proof -
  assume distinct: "distinct (map key (filter keep t))"
  have "filter (\<lambda>r. keep r \<and> P r) t = filter P (filter keep t)" for P by (simp add: conj_commute)
  then have "distinct (map key (filter (\<lambda>r. keep r \<and> P r) t))" for P
    using distinct_map_filter [OF distinct, of P] by simp
  then have "distinct (map key (pages cursor t))" unfolding pages_eq by (simp add: distinct_map)
  moreover have "sorted (map key (pages cursor t))" by (simp add: pages_eq)
  ultimately have "sorted_wrt (<) (map key (pages cursor t))" by (simp add: strict_sorted_iff)
  then show ?thesis by (simp add: sorted_wrt_map)
qed

lemma page_after:
  "(case cursor of None \<Rightarrow> True | Some c \<Rightarrow> c < k) \<Longrightarrow> pages (Some k) t = filter (\<lambda>r. k < key r) (pages cursor t)"
  unfolding pages_eq by (simp add: filter_sort) (rule arg_cong [of _ _ "sort_key key"], rule filter_cong, auto split: option.splits)

lemma next_page:
  assumes distinct: "distinct (map key (filter keep t))" and n: "0 < n" "n \<le> length (pages cursor t)"
  shows "pages (Some (key (last (take n (pages cursor t))))) t = drop n (pages cursor t)"
proof -
  let ?v = "pages cursor t"
  let ?k = "key (last (take n ?v))"
  note sorted = pages_sorted [OF distinct, of cursor]
  have last: "last (take n ?v) = ?v ! (n - 1)" using n last_conv_nth [of "take n ?v"] by fastforce
  have "last (take n ?v) \<in> set ?v" using n last by simp
  then have cursor: "case cursor of None \<Rightarrow> True | Some c \<Rightarrow> c < ?k" by (auto simp: pages_eq split: option.splits)
  have before: "\<not> ?k < key r" if "r \<in> set (take n ?v)" for r
  proof -
    from that n obtain i where i: "i < n" "r = ?v ! i" by (auto simp: in_set_conv_nth)
    then have "i = n - 1 \<or> key r < key (?v ! (n - 1))"
      using sorted n by (cases "i = n - 1") (auto simp: sorted_wrt_iff_nth_less)
    with i show ?thesis unfolding last by auto
  qed
  have after: "?k < key r" if "r \<in> set (drop n ?v)" for r
  proof -
    from that obtain i where "i < length (drop n ?v)" "r = drop n ?v ! i" by (auto simp: in_set_conv_nth)
    then have i: "n + i < length ?v" "r = ?v ! (n + i)" using n by auto
    with sorted n show ?thesis unfolding last by (auto simp: sorted_wrt_iff_nth_less)
  qed
  have "pages (Some ?k) t = filter (\<lambda>r. ?k < key r) (take n ?v @ drop n ?v)" using page_after [OF cursor] by simp
  also have "\<dots> = drop n ?v" using before after by (simp only: filter_append) (simp add: filter_empty_conv filter_True)
  finally show ?thesis .
qed

lemma whole_page: "length (take n (pages cursor t)) < n \<Longrightarrow> take n (pages cursor t) = pages cursor t"
  by simp

end

definition sequenced :: "audit_row \<Rightarrow> bool" where
  "sequenced r \<longleftrightarrow> au_chainSequence r \<noteq> None"

definition legacy :: "audit_row \<Rightarrow> bool" where
  "legacy r \<longleftrightarrow> au_chainVersion r = LEGACY_AUDIT_CHAIN_VERSION"

interpretation chain: paged_table position sequenced v2_rows
proof
  fix cursor t
  have "after_cursor cursor = (\<lambda>r. sequenced r \<and> (case cursor of None \<Rightarrow> True | Some c \<Rightarrow> c < position r))"
    by (rule ext) (auto simp: after_cursor_def sequenced_def position_def split: option.splits)
  then show "v2_rows cursor t = sort_key position (filter (\<lambda>r. sequenced r \<and> (case cursor of None \<Rightarrow> True | Some c \<Rightarrow> c < position r)) t)"
    by (simp add: v2_rows_def)
qed

interpretation archive: paged_table archive_order legacy legacy_rows
  by unfold_locales (simp add: legacy_rows_def legacy_def)

section \<open>The verdict does not depend on the batches\<close>

text \<open>The unique index of the positions and the primary key.\<close>

definition log_keys :: "audit_log \<Rightarrow> bool" where
  "log_keys t \<longleftrightarrow> distinct (map au_id t) \<and> distinct (map au_chainSequence (filter sequenced t))"

lemma log_keys_positions:
  assumes "log_keys t"
  shows "distinct (map position (filter sequenced t))" "distinct (map archive_order (filter legacy t))"
proof -
  have "map au_chainSequence (filter sequenced t) = map Some (map position (filter sequenced t))"
    by (induction t) (auto simp: sequenced_def position_def)
  then have "distinct (map Some (map position (filter sequenced t)))" using assms unfolding log_keys_def by metis
  then show "distinct (map position (filter sequenced t))" by (simp only: distinct_map)
  have "distinct (map au_id (filter legacy t))" using assms by (simp add: log_keys_def distinct_map_filter)
  then have "distinct (map snd (map archive_order (filter legacy t)))" by (simp add: archive_order_def comp_def)
  then show "distinct (map archive_order (filter legacy t))" by (simp only: distinct_map)
qed

lemma walk_rows_append:
  "walk_rows w (a @ b) st = rbind (walk_rows w a st) (\<lambda>(st', broken). if broken = None then walk_rows w b st' else Inr (st', broken))"
proof (induction a arbitrary: st)
  case (Cons r a)
  show ?case
  proof (cases "row_break w st r")
    case (Inr b)
    with Cons show ?thesis by (cases b) simp_all
  qed simp
qed simp

lemma read_archive_append: "read_archive w (a @ b) st = rbind (read_archive w a st) (read_archive w b)"
proof (induction a arbitrary: st)
  case (Cons r a)
  then show ?case by (cases "still_provable w r st") simp_all
qed simp

lemma sequenced_position: "r \<in> set (v2_rows cursor t) \<Longrightarrow> au_chainSequence r = Some (position r)"
  by (auto simp: v2_rows_def after_cursor_def position_def split: option.splits)

lemma walk_batches_one_pass:
  assumes keys: "log_keys t" and n: "0 < n"
  shows "walk_batches w n t cursor st = Some (walk_rows w (v2_rows cursor t) st)"
proof (induction "length (v2_rows cursor t)" arbitrary: cursor st rule: less_induct)
  case less
  let ?v = "v2_rows cursor t" and ?p = "take n (v2_rows cursor t)"
  have split: "walk_rows w ?v st = rbind (walk_rows w ?p st) (\<lambda>(st', broken). if broken = None then walk_rows w (drop n ?v) st' else Inr (st', broken))"
    using walk_rows_append [of w ?p "drop n ?v" st] by simp
  show ?case
  proof (cases "walk_rows w ?p st")
    case (Inl e)
    then show ?thesis unfolding split by (subst walk_batches.simps) (simp add: Let_def)
  next
    case (Inr x)
    obtain st' broken where x: "x = (st', broken)" by force
    consider (broken) "broken \<noteq> None" | (last) "broken = None" "length ?p < n" | (more) "broken = None" "n \<le> length ?v"
      by fastforce
    then show ?thesis
    proof cases
      case broken
      then show ?thesis unfolding split Inr x by (subst walk_batches.simps) (auto simp: Inr x Let_def)
    next
      case last
      then have whole: "?p = ?v" "length ?v < n" by auto
      then have "walk_rows w ?v st = Inr (st', None)" using Inr x last by simp
      then show ?thesis using whole by (subst walk_batches.simps) (simp add: Let_def)
    next
      case more
      have p: "?p \<noteq> []" "last ?p \<in> set ?v" using more n last_in_set [of ?p] in_set_takeD by fastforce+
      have rest: "v2_rows (au_chainSequence (last ?p)) t = drop n ?v"
        using chain.next_page [OF log_keys_positions(1) [OF keys] n more(2)] sequenced_position [OF p(2)] by simp
      then have "length (v2_rows (au_chainSequence (last ?p)) t) < length ?v" using more n by simp
      from less [OF this, of st'] show ?thesis
        unfolding split Inr x using more p rest by (subst walk_batches.simps) (simp add: Inr x Let_def)
    qed
  qed
qed

lemma archive_batches_one_pass:
  assumes keys: "log_keys t" and n: "0 < n"
  shows "archive_batches w n t cursor st = Some (read_archive w (legacy_rows cursor t) st)"
proof (induction "length (legacy_rows cursor t)" arbitrary: cursor st rule: less_induct)
  case less
  let ?v = "legacy_rows cursor t" and ?p = "take n (legacy_rows cursor t)"
  have split: "read_archive w ?v st = rbind (read_archive w ?p st) (read_archive w (drop n ?v))"
    using read_archive_append [of w ?p "drop n ?v" st] by simp
  show ?case
  proof (cases "read_archive w ?p st")
    case (Inl e)
    then show ?thesis unfolding split by (subst archive_batches.simps) (simp add: Let_def)
  next
    case (Inr st')
    show ?thesis
    proof (cases "length ?p < n")
      case True
      then have whole: "?p = ?v" "length ?v < n" by auto
      then have "read_archive w ?v st = Inr st'" using Inr by simp
      then show ?thesis using whole by (subst archive_batches.simps) (simp add: Let_def)
    next
      case False
      then have more: "n \<le> length ?v" by simp
      have p: "?p \<noteq> []" using more n by auto
      have rest: "legacy_rows (Some (archive_order (last ?p))) t = drop n ?v"
        by (rule archive.next_page [OF log_keys_positions(2) [OF keys] n more])
      then have "length (legacy_rows (Some (archive_order (last ?p))) t) < length ?v" using more n by simp
      from less [OF this, of st'] show ?thesis
        unfolding split Inr using False p rest Inr by (subst archive_batches.simps) (simp add: Let_def)
    qed
  qed
qed

text \<open>The verdict of one pass.\<close>

definition verdict :: "audit_world \<Rightarrow> audit_log \<Rightarrow> chain_verification result" where
  "verdict w t =
     rbind (walk_rows w (v2_rows None t) walk_start) (\<lambda>x.
     rbind (read_archive w (legacy_rows None t) archive_start) (\<lambda>st.
     let chain = chain_outcome t x; legacy = snapshot_of w st in
     Inr \<lparr>cv_broken = cr_broken chain, cv_checkedCount = cr_checkedCount chain, cv_legacyStatus = lg_status legacy,
       cv_legacyCount = lg_count legacy, cv_legacyCheckpoint = checkpointStatus (cr_checkpoint chain) legacy\<rparr>))"

lemma legacyAuditSnapshot_one_pass:
  assumes "log_keys t" "0 < n"
  shows "legacyAuditSnapshot w n t = Some (rbind (read_archive w (legacy_rows None t) archive_start) (\<lambda>st. Inr (snapshot_of w st)))"
  by (simp add: legacyAuditSnapshot_def archive_batches_one_pass [OF assms])

lemma verify_one_pass:
  assumes "log_keys t" "0 < n"
  shows "verifyAuditChain w n t = Some (verdict w t)"
proof (cases "walk_rows w (v2_rows None t) walk_start")
  case (Inr x)
  then show ?thesis
    by (cases "read_archive w (legacy_rows None t) archive_start")
      (simp_all add: verifyAuditChain_def walkV2Chain_def walk_batches_one_pass [OF assms] legacyAuditSnapshot_one_pass [OF assms]
        verdict_def then_run_def Let_def)
qed (simp add: verifyAuditChain_def walkV2Chain_def walk_batches_one_pass [OF assms] verdict_def then_run_def)

end
