(* ===== verification/Audit_Props.thy ===== *)
theory Audit_Props
  imports Audit_Pages Samples
begin

text \<open>
  What the audit log promises: the verifier always answers, whatever batch size reads the log; a log
  written by the service verifies; two logs that verify and end in the same checksum record the same
  events unless they exhibit an HMAC collision; the archive is checkpointed once.
\<close>

section \<open>A verified chain\<close>

definition recorded :: "audit_row list \<Rightarrow> recorded_checkpoint option" where
  "recorded v = (let rows = filter isCheckpointRow v in if rows = [] then None else Some (readCheckpoint (last rows)))"

definition head_checksum :: "audit_row list \<Rightarrow> string option" where
  "head_checksum v = (if v = [] then None else au_checksum (last v))"

text \<open>What a row must be to follow a verified chain.\<close>

definition follows :: "audit_world \<Rightarrow> string \<Rightarrow> audit_row list \<Rightarrow> audit_row \<Rightarrow> bool" where
  "follows w secret v r \<longleftrightarrow> au_chainVersion r = AUDIT_CHAIN_VERSION \<and> au_chainSequence r = Some (int (length v) + 1)
     \<and> au_previousHash r = head_checksum v
     \<and> au_checksum r = Some (w_hmac w secret (link_text (head_checksum v) (int (length v) + 1) (canonicalAuditPayload w r)))"

definition walked :: "audit_row list \<Rightarrow> walk_state" where
  "walked v = \<lparr>ws_previous = head_checksum v, ws_expected = int (length v) + 1, ws_checkedCount = int (length v),
     ws_checkpoint = recorded v\<rparr>"

lemma walked_snoc: "walk_past r (walked v) = walked (v @ [r])"
  by (simp add: walk_past_def walked_def head_checksum_def recorded_def)

lemma row_break_follows:
  assumes "getAuditSecret w = Inr secret"
  shows "row_break w (walked v) r = Inr None \<longleftrightarrow> follows w secret v r" "\<exists>b. row_break w (walked v) r = Inr b"
  using assms by (auto simp: row_break_def follows_def walked_def checksumV2_def split: if_splits)

lemma walk_rows_snoc:
  "walk_rows w (v @ [r]) s = Inr (st, None)
    \<longleftrightarrow> (\<exists>st'. walk_rows w v s = Inr (st', None) \<and> row_break w st' r = Inr None \<and> st = walk_past r st')"
proof (cases "walk_rows w v s")
  case (Inr x)
  obtain st' b where x: "x = (st', b)" by force
  show ?thesis
  proof (cases b)
    case None
    then show ?thesis using Inr x by (auto simp: walk_rows_append rbind_Inr_iff split: option.splits)
  qed (use Inr x in \<open>simp add: walk_rows_append\<close>)
qed (simp add: walk_rows_append)

lemma walk_ok:
  assumes secret: "getAuditSecret w = Inr secret"
  shows "walk_rows w v walk_start = Inr (st, None) \<Longrightarrow> st = walked v"
proof (induction v arbitrary: st rule: rev_induct)
  case Nil
  then show ?case by (simp add: walk_start_def walked_def head_checksum_def recorded_def)
next
  case (snoc r v)
  then obtain st' where "walk_rows w v walk_start = Inr (st', None)" "row_break w st' r = Inr None" "st = walk_past r st'"
    by (auto simp: walk_rows_snoc)
  with snoc.IH show ?case by (simp add: walked_snoc)
qed

lemma walk_snoc:
  assumes secret: "getAuditSecret w = Inr secret"
  shows "walk_rows w (v @ [r]) walk_start = Inr (walked (v @ [r]), None)
    \<longleftrightarrow> walk_rows w v walk_start = Inr (walked v, None) \<and> follows w secret v r"
proof
  assume "walk_rows w (v @ [r]) walk_start = Inr (walked (v @ [r]), None)"
  then obtain st' where st': "walk_rows w v walk_start = Inr (st', None)" "row_break w st' r = Inr None"
    by (auto simp: walk_rows_snoc)
  with walk_ok [OF secret] row_break_follows(1) [OF secret]
  show "walk_rows w v walk_start = Inr (walked v, None) \<and> follows w secret v r" by metis
next
  assume "walk_rows w v walk_start = Inr (walked v, None) \<and> follows w secret v r"
  then show "walk_rows w (v @ [r]) walk_start = Inr (walked (v @ [r]), None)"
    using row_break_follows(1) [OF secret, of v r] by (simp add: walk_rows_snoc walked_snoc)
qed

text \<open>A chain that verifies: every row follows the ones before it.\<close>

definition verified :: "audit_world \<Rightarrow> audit_row list \<Rightarrow> bool" where
  "verified w v \<longleftrightarrow> walk_rows w v walk_start = Inr (walked v, None)"

lemma verified_Nil: "verified w []"
  by (simp add: verified_def walk_start_def walked_def head_checksum_def recorded_def)

lemma verified_snoc: "getAuditSecret w = Inr secret \<Longrightarrow> verified w (v @ [r]) \<longleftrightarrow> verified w v \<and> follows w secret v r"
  unfolding verified_def by (rule walk_snoc)

lemma verified_rows:
  assumes "getAuditSecret w = Inr secret" "verified w v"
  shows "map au_chainSequence v = map (\<lambda>i. Some (int i + 1)) [0..<length v]" "\<forall>r \<in> set v. au_chainVersion r = AUDIT_CHAIN_VERSION"
  using assms by (induction v rule: rev_induct) (auto simp: verified_snoc follows_def)

lemma verified_sequenced:
  assumes "getAuditSecret w = Inr secret" "verified w v" "r \<in> set v"
  shows "sequenced r"
proof -
  have "au_chainSequence r \<in> set (map au_chainSequence v)" using assms(3) by simp
  then show ?thesis unfolding verified_rows(1) [OF assms(1,2)] by (auto simp: sequenced_def)
qed

lemma verified_head: "getAuditSecret w = Inr secret \<Longrightarrow> verified w v \<Longrightarrow> v \<noteq> [] \<Longrightarrow> \<exists>c. head_checksum v = Some c"
  by (cases v rule: rev_cases) (auto simp: verified_snoc follows_def head_checksum_def)

lemma verified_positions:
  assumes "getAuditSecret w = Inr secret" "verified w v"
  shows "map position v = map (\<lambda>i. int i + 1) [0..<length v]"
proof -
  have "map position v = map (\<lambda>s. nullish s 0) (map au_chainSequence v)" by (simp add: position_def)
  also have "\<dots> = map (\<lambda>i. int i + 1) [0..<length v]" by (simp add: verified_rows(1) [OF assms])
  finally show ?thesis .
qed

section \<open>Logs the service wrote\<close>

text \<open>The archive of version 1: rows without a position.\<close>

definition legacy_log :: "audit_log \<Rightarrow> bool" where
  "legacy_log t \<longleftrightarrow> distinct (map au_id t) \<and> (\<forall>r \<in> set t. legacy r \<and> \<not> sequenced r)"

lemma filter_after_None: "filter (after_cursor None) t = filter sequenced t"
  by (rule filter_cong) (auto simp: after_cursor_def sequenced_def split: option.splits)

lemma chain_rows:
  assumes "getAuditSecret w = Inr secret" "verified w v" "legacy_log t"
  shows "v2_rows None (t @ v) = v" "stray_row (t @ v) = None" "legacy_rows None (t @ v) = legacy_rows None t"
proof -
  have v: "filter sequenced v = v" "filter sequenced t = []"
    using verified_sequenced [OF assms(1,2)] assms(3) by (auto simp: legacy_log_def filter_empty_conv filter_id_conv)
  have "sorted (map position v)" unfolding verified_positions [OF assms(1,2)] by (simp add: sorted_iff_nth_mono)
  then show "v2_rows None (t @ v) = v" by (simp add: v2_rows_def filter_after_None v sort_key_id_if_sorted sorted_sort_id)
  have "filter (\<lambda>r. au_chainSequence r = None \<and> au_chainVersion r \<noteq> LEGACY_AUDIT_CHAIN_VERSION) (t @ v) = []"
    using verified_sequenced [OF assms(1,2)] assms(3) by (auto simp: filter_empty_conv legacy_log_def legacy_def sequenced_def)
  then show "stray_row (t @ v) = None" by (simp only: stray_row_def sort_key_simps list.case)
  have "filter (\<lambda>r. au_chainVersion r = LEGACY_AUDIT_CHAIN_VERSION) v = []"
    using verified_rows(2) [OF assms(1,2)] by (auto simp: filter_empty_conv AUDIT_CHAIN_VERSION_def LEGACY_AUDIT_CHAIN_VERSION_def)
  then show "legacy_rows None (t @ v) = legacy_rows None t" by (simp add: legacy_rows_def)
qed

lemma head_row:
  assumes "getAuditSecret w = Inr secret" "verified w v" "legacy_log t"
  shows "chain_head (t @ v) = (if v = [] then None else Some (last v))"
  using chain_rows(1) [OF assms] by (cases v) (simp_all add: chain_head_def)

text \<open>Worlds that sign alike: one deployment at different times.\<close>

definition same_signer :: "audit_world \<Rightarrow> audit_world \<Rightarrow> bool" where
  "same_signer w w' \<longleftrightarrow> w_hmac w' = w_hmac w \<and> w_sha256 w' = w_sha256 w \<and> w_isoDate w' = w_isoDate w \<and> w_env w' = w_env w"

lemma same_signer_secret: "same_signer w w' \<Longrightarrow> getAuditSecret w' = getAuditSecret w"
  by (simp add: same_signer_def getAuditSecret_def)

lemma same_signer_canonical: "same_signer w w' \<Longrightarrow> canonicalAuditPayload w' = canonicalAuditPayload w"
  by (rule ext) (simp add: same_signer_def canonicalAuditPayload_def)

text \<open>An append on a log the service wrote adds the one row that follows the chain.\<close>

lemma append_follows:
  assumes secret: "getAuditSecret w = Inr secret" and v: "verified w v" and t: "legacy_log t"
    and w': "same_signer w w'" and ok: "appendAuditEntry w' inp createdAt (t @ v) = Inr (x, t')"
  obtains r where "t' = t @ v @ [r]" "follows w secret v r" "au_id r \<notin> au_id ` set (t @ v)"
    "au_action r = ai_action inp" "au_entityType r = ai_entityType inp"
    "au_metadataJson r = stored_json w' (redactAuditMetadata (ai_metadata inp))" "x = (au_id r, int (length v) + 1, nullish (au_checksum r) [])"
proof -
  have "position (last v) = int (length v)" if "v \<noteq> []"
    using v that by (cases v rule: rev_cases) (simp_all add: verified_snoc [OF secret] follows_def position_def)
  then have seq: "(case chain_head (t @ v) of None \<Rightarrow> 0 | Some h \<Rightarrow> position h) = int (length v)"
    by (simp add: head_row [OF secret v t])
  have prev: "Option.bind (chain_head (t @ v)) au_checksum = head_checksum v"
    by (simp add: head_row [OF secret v t] head_checksum_def)
  define row where "row = buildAuditRow w' inp (nullish createdAt (w_now w'))"
  define r where "r = row\<lparr>au_id := w_newId w' (length (t @ v)), au_chainSequence := Some (int (length v) + 1), au_previousHash := head_checksum v,
    au_checksum := Some (w_hmac w' secret (link_text (head_checksum v) (int (length v) + 1) (canonicalAuditPayload w' row)))\<rparr>"
  have "appendAuditEntry w' inp createdAt (t @ v) = (if list_ex (audit_clash r) (t @ v) then Inl (PrismaError ''P2002'')
      else Inr ((au_id r, int (length v) + 1, nullish (au_checksum r) []), (t @ v) @ [r]))"
    unfolding appendAuditEntry_def Let_def seq prev checksumV2_def same_signer_secret [OF w'] secret rbind_simps
    by (simp add: r_def row_def)
  with ok have r: "\<not> list_ex (audit_clash r) (t @ v)" "x = (au_id r, int (length v) + 1, nullish (au_checksum r) [])" "t' = t @ v @ [r]"
    by (simp_all split: if_splits)
  have "canonicalAuditPayload w' row = canonicalAuditPayload w r"
    by (simp add: same_signer_canonical [OF w'] canonicalAuditPayload_def r_def)
  then have "follows w secret v r"
    using w' by (simp add: follows_def r_def row_def buildAuditRow_def same_signer_def)
  moreover have "au_id r \<notin> au_id ` set (t @ v)" using r(1) by (auto simp: list_ex_iff audit_clash_def)
  ultimately show thesis using r by (intro that [of r]) (simp_all add: r_def row_def buildAuditRow_def)
qed

text \<open>
  The logs a deployment writes on top of an archive: appends of its services, each committed or rolled
  back, best effort entries, and the checkpoint command. No service writes the checkpoint event itself.
\<close>

definition checkpoint_request :: "audit_input \<Rightarrow> bool" where
  "checkpoint_request inp \<longleftrightarrow> ai_action inp = AUDIT_CHECKPOINT_ACTION \<and> ai_entityType inp = AUDIT_CHECKPOINT_ENTITY"

inductive writes_log :: "audit_world \<Rightarrow> audit_log \<Rightarrow> audit_log \<Rightarrow> bool" for w archived where
  writes_start: "writes_log w archived archived"
| writes_entry: "writes_log w archived t \<Longrightarrow> same_signer w w' \<Longrightarrow> \<not> checkpoint_request inp
    \<Longrightarrow> logAuditInTransaction w' inp t = Inr t' \<Longrightarrow> writes_log w archived t'"
| writes_best_effort: "writes_log w archived t \<Longrightarrow> same_signer w w' \<Longrightarrow> \<not> checkpoint_request inp
    \<Longrightarrow> writes_log w archived (logAudit w' inp t)"
| writes_checkpoint: "writes_log w archived t \<Longrightarrow> same_signer w w'
    \<Longrightarrow> checkpointLegacyAuditChain w' digest t = Some (Inr (report, t')) \<Longrightarrow> writes_log w archived t'"

text \<open>The archive's snapshot, read in one pass.\<close>

definition snapshot :: "audit_world \<Rightarrow> audit_log \<Rightarrow> legacy_snapshot result" where
  "snapshot w t = rbind (read_archive w (legacy_rows None t) archive_start) (\<lambda>st. Inr (snapshot_of w st))"

lemma read_archive_ok:
  assumes "getAuditSecret w = Inr secret"
  shows "\<exists>st'. read_archive w rs st = Inr st' \<and> as_count st' = as_count st + int (length rs)"
proof (induction rs arbitrary: st)
  case (Cons r rs)
  have "\<exists>b. still_provable w r st = Inr b" using assms by (auto simp: still_provable_def checksumV1_def)
  then obtain b where "still_provable w r st = Inr b" ..
  with Cons [of "\<lparr>as_text = as_text st @ legacyDigestLine w r @ newline, as_count = as_count st + 1, as_previous = au_checksum r, as_provable = b\<rparr>"]
  show ?case by auto
qed simp

lemma snapshot_ok:
  assumes "getAuditSecret w = Inr secret" "legacy_log t"
  shows "\<exists>s. snapshot w t = Inr s \<and> lg_count s = int (length t)"
proof -
  have "filter (\<lambda>r. au_chainVersion r = LEGACY_AUDIT_CHAIN_VERSION) t = t"
    using assms(2) by (auto simp: legacy_log_def legacy_def filter_id_conv)
  then have "length (legacy_rows None t) = length t" by (simp add: legacy_rows_def)
  then show ?thesis using read_archive_ok [OF assms(1), of "legacy_rows None t" archive_start]
    by (auto simp: snapshot_def snapshot_of_def archive_start_def)
qed

lemma same_signer_snapshot:
  assumes "same_signer w w'"
  shows "snapshot w' t = snapshot w t"
proof -
  have "still_provable w' r st = still_provable w r st" for r st
    using assms same_signer_secret [OF assms] by (simp add: still_provable_def checksumV1_def legacyV1Payload_def same_signer_def)
  moreover have "legacyDigestLine w' r = legacyDigestLine w r" for r
    using assms by (simp add: legacyDigestLine_def same_signer_def)
  ultimately have "read_archive w' rs st = read_archive w rs st" for rs st by (induction rs arbitrary: st) simp_all
  then show ?thesis using assms by (simp add: snapshot_def snapshot_of_def same_signer_def)
qed

text \<open>At most one checkpoint, and it fits the archive.\<close>

definition checkpointed :: "audit_log \<Rightarrow> legacy_snapshot \<Rightarrow> audit_row list \<Rightarrow> bool" where
  "checkpointed archived s v \<longleftrightarrow>
     (case filter isCheckpointRow v of [] \<Rightarrow> True | [r] \<Rightarrow> archived \<noteq> [] \<and> checkpoint_fits (readCheckpoint r) s | _ \<Rightarrow> False)"

definition written :: "audit_world \<Rightarrow> audit_log \<Rightarrow> legacy_snapshot \<Rightarrow> audit_log \<Rightarrow> bool" where
  "written w archived s t \<longleftrightarrow> (\<exists>v. t = archived @ v \<and> verified w v \<and> distinct (map au_id t) \<and> checkpointed archived s v)"

lemma checkpointed_entry: "checkpointed archived s v \<Longrightarrow> \<not> isCheckpointRow r \<Longrightarrow> checkpointed archived s (v @ [r])"
  by (simp add: checkpointed_def)

lemma checkpointed_first:
  "filter isCheckpointRow v = [] \<Longrightarrow> isCheckpointRow r \<Longrightarrow> checkpointed archived s (v @ [r]) \<longleftrightarrow> archived \<noteq> [] \<and> checkpoint_fits (readCheckpoint r) s"
  by (simp add: checkpointed_def)

lemma checkpoint_metadata:
  "stored_json w (redactAuditMetadata (ai_metadata (checkpoint_input s))) =
     JObj [(''boundary'', JStr ''v1->v2''), (''legacyVersion'', JNum 1 ''1''), (''legacyCount'', json_int (lg_count s)),
       (''legacyDigest'', JStr (lg_digest s)), (''legacyStatus'', JStr (show_legacy_status (lg_status s)))]"
proof -
  have "\<not> sensitive ''boundary''" "\<not> sensitive ''legacyVersion''" "\<not> sensitive ''legacyCount''" "\<not> sensitive ''legacyDigest''"
    "\<not> sensitive ''legacyStatus''" by code_simp+
  then show ?thesis by (simp add: checkpoint_input_def redactAuditMetadata_def json_int_def)
qed

lemma checkpoint_row_fits:
  assumes "au_metadataJson r = stored_json w (redactAuditMetadata (ai_metadata (checkpoint_input s)))"
  shows "checkpoint_fits (readCheckpoint r) s"
  using assms by (simp add: checkpoint_metadata checkpoint_fits_def readCheckpoint_def member_def is_number_def json_int_def)

text \<open>The secret is there, and the archive has been read.\<close>

definition archive_settled :: "audit_world \<Rightarrow> string \<Rightarrow> audit_log \<Rightarrow> legacy_snapshot \<Rightarrow> bool" where
  "archive_settled w secret archived s \<longleftrightarrow> getAuditSecret w = Inr secret \<and> legacy_log archived \<and> snapshot w archived = Inr s"

lemmas archive_settledD = archive_settled_def [THEN iffD1, THEN conjunct1] archive_settled_def [THEN iffD1, THEN conjunct2, THEN conjunct1]
  archive_settled_def [THEN iffD1, THEN conjunct2, THEN conjunct2]

lemma written_keys:
  assumes set: "archive_settled w secret archived s" and "written w archived s t"
  shows "log_keys t"
proof -
  note secret = archive_settledD(1) [OF set] and archived = archive_settledD(2) [OF set]
  obtain v where v: "t = archived @ v" "verified w v" "distinct (map au_id t)"
    using assms(2) by (auto simp: written_def)
  then have "filter sequenced t = v"
    using verified_sequenced [OF secret] archived by (auto simp: legacy_log_def filter_empty_conv filter_id_conv)
  then show ?thesis using v verified_rows(1) [OF secret v(2)] by (simp add: log_keys_def distinct_map inj_on_def)
qed

lemma written_snapshot:
  assumes set: "archive_settled w secret archived s" and "written w archived s t" "same_signer w w'"
  shows "legacyAuditSnapshot w' DEFAULT_BATCH t = Some (Inr s)"
proof -
  note secret = archive_settledD(1) [OF set] and archived = archive_settledD(2) [OF set] and s = archive_settledD(3) [OF set]
  obtain v where "t = archived @ v" "verified w v" using assms(2) by (auto simp: written_def)
  then have "snapshot w' t = snapshot w' archived" by (simp add: snapshot_def chain_rows(3) [OF secret _ archived])
  then have "snapshot w' t = Inr s" using same_signer_snapshot [OF assms(3)] s by simp
  then show ?thesis
    using legacyAuditSnapshot_one_pass [OF written_keys [OF set assms(2)], of DEFAULT_BATCH w'] by (simp add: DEFAULT_BATCH_def snapshot_def)
qed

lemma written_append:
  assumes set: "archive_settled w secret archived s" and "written w archived s t" "same_signer w w'" "appendAuditEntry w' inp createdAt t = Inr (x, t')"
    and "if checkpoint_request inp then latestCheckpoint t = None \<and> archived \<noteq> [] \<and> inp = checkpoint_input s else True"
  shows "written w archived s t'"
proof -
  note secret = archive_settledD(1) [OF set] and archived = archive_settledD(2) [OF set]
  obtain v where v: "t = archived @ v" "verified w v" "distinct (map au_id t)" "checkpointed archived s v"
    using assms(2) by (auto simp: written_def)
  obtain r where r: "t' = archived @ v @ [r]" "follows w secret v r" "au_id r \<notin> au_id ` set (archived @ v)"
    "au_action r = ai_action inp" "au_entityType r = ai_entityType inp" "au_metadataJson r = stored_json w' (redactAuditMetadata (ai_metadata inp))"
    using append_follows [OF secret v(2) archived assms(3), of inp createdAt x t'] assms(4) v(1) by metis
  have "checkpointed archived s (v @ [r])"
  proof (cases "checkpoint_request inp")
    case True
    then have "isCheckpointRow r" using r by (simp add: checkpoint_request_def isCheckpointRow_def)
    moreover have "filter isCheckpointRow v = []"
      using True assms(5) v(1) chain_rows(1) [OF secret v(2) archived] by (auto simp: latestCheckpoint_def split: list.splits)
    ultimately show ?thesis using True assms(5) r(6) by (simp add: checkpointed_first checkpoint_row_fits)
  next
    case False
    then show ?thesis using v(4) r by (simp add: checkpointed_entry checkpoint_request_def isCheckpointRow_def)
  qed
  moreover have "verified w (v @ [r])" using v r by (simp add: verified_snoc [OF secret])
  ultimately show ?thesis using v r unfolding written_def by (intro exI [of _ "v @ [r]"]) auto
qed

lemma latest_of_written:
  assumes "archive_settled w secret archived s" "verified w v"
  shows "latestCheckpoint (archived @ v) = recorded v"
  using chain_rows(1) [OF archive_settledD(1) [OF assms(1)] assms(2) archive_settledD(2) [OF assms(1)]]
  by (simp add: latestCheckpoint_def recorded_def Let_def split: list.splits)

lemma written_checkpoint:
  assumes set: "archive_settled w secret archived s" and t: "written w archived s t" "same_signer w w'"
    and ok: "checkpointLegacyAuditChain w' digest t = Some (Inr (report, t'))"
  shows "written w archived s t'"
proof (cases "latestCheckpoint t")
  case None
  have "lg_count s = int (length archived)" using snapshot_ok [OF archive_settledD(1,2) [OF set]] archive_settledD(3) [OF set] by auto
  then consider "t' = t" | x where "archived \<noteq> []" "appendAuditEntry w' (checkpoint_input s) None t = Inr (x, t')"
    using ok None by (auto simp: checkpointLegacyAuditChain_def then_run_def written_snapshot [OF set t] rbind_Inr_iff split: if_splits)
  then show ?thesis
  proof cases
    case 2
    then show ?thesis using written_append [OF set t] None by simp
  qed (use t in simp)
next
  case (Some c)
  then show ?thesis using ok t(1) by (auto simp: checkpointLegacyAuditChain_def then_run_def written_snapshot [OF set t])
qed

lemma writes_written:
  assumes set: "archive_settled w secret archived s"
  shows "writes_log w archived t \<Longrightarrow> written w archived s t"
proof (induction rule: writes_log.induct)
  case writes_start
  then show ?case
    using set by (simp add: written_def verified_Nil checkpointed_def archive_settled_def legacy_log_def)
next
  case (writes_entry t w' inp t')
  then show ?case using written_append [OF set, of t w' inp None] by (auto simp: logAuditInTransaction_def rbind_Inr_iff)
next
  case (writes_best_effort t w' inp)
  then show ?case using written_append [OF set, of t w' inp None] by (auto simp: logAudit_def split: sum.splits)
next
  case (writes_checkpoint t w' digest report t')
  then show ?case using written_checkpoint [OF set] by blast
qed

text \<open>What the verifier answers on a log a deployment wrote.\<close>

lemma verdict_of_written:
  assumes set: "archive_settled w secret archived s" and t: "written w archived s t"
  shows "\<exists>v. verdict w t = Inr v \<and> cv_broken v = None \<and> cv_checkedCount v = int (length t) - int (length archived)
    \<and> cv_legacyCount v = int (length archived) \<and> cv_legacyStatus v = lg_status s
    \<and> cv_legacyCheckpoint v = (if latestCheckpoint t \<noteq> None then Checkpoint_matches
        else if archived = [] then Checkpoint_not_required else Checkpoint_missing)"
proof -
  note secret = archive_settledD(1) [OF set] and archived = archive_settledD(2) [OF set] and s = archive_settledD(3) [OF set]
  obtain v where v: "t = archived @ v" "verified w v" "checkpointed archived s v" using t by (auto simp: written_def)
  note rows = chain_rows [OF secret v(2) archived]
  have count: "lg_count s = int (length archived)" using snapshot_ok [OF secret archived] s by auto
  obtain st where st: "read_archive w (legacy_rows None archived) archive_start = Inr st" "s = snapshot_of w st"
    using s by (auto simp: snapshot_def rbind_Inr_iff)
  have fits: "checkpointStatus (recorded v) s = (if recorded v \<noteq> None then Checkpoint_matches
        else if archived = [] then Checkpoint_not_required else Checkpoint_missing)"
    using v(3) count by (auto simp: checkpointStatus_def checkpointed_def recorded_def Let_def split: list.splits)
  show ?thesis
    unfolding verdict_def v(1) rows(1,3) v(2) [unfolded verified_def] st(1) latest_of_written [OF set v(2)]
    using fits count by (simp add: chain_outcome_def rows(2) walked_def Let_def flip: st(2))
qed

section \<open>What a checksum commits to\<close>

lemma newline_splits:
  "c \<notin> set a \<Longrightarrow> c \<notin> set b \<Longrightarrow> a @ c # x = b @ c # y \<Longrightarrow> a = b \<and> x = y"
proof (induction a arbitrary: b)
  case Nil
  then show ?case by (cases b) auto
next
  case (Cons d a)
  then show ?case by (cases b) auto
qed

lemma link_text_inj:
  assumes "CHR 0x0A \<notin> set (nullish p [])" "CHR 0x0A \<notin> set (nullish q [])" "link_text p n c = link_text q n d"
  shows "nullish p [] = nullish q []" "c = d"
proof -
  have "nullish p [] @ CHR 0x0A # c = nullish q [] @ CHR 0x0A # d" using assms(3) by (simp add: link_text_def newline_def)
  from newline_splits [OF assms(1,2) this] show "nullish p [] = nullish q []" "c = d" by simp_all
qed

lemma canonical_members:
  "sort_key fst [(''v'', a :: jval), (''createdAt'', b), (''actorId'', c), (''action'', d), (''entityType'', e), (''entityId'', f), (''metadataJson'', g)] =
     [(''action'', d), (''actorId'', c), (''createdAt'', b), (''entityId'', f), (''entityType'', e), (''metadataJson'', g), (''v'', a)]"
  by (simp add: less_eq_char_def less_char_def)

text \<open>Two rows that record the same event.\<close>

definition same_event :: "audit_world \<Rightarrow> audit_row \<Rightarrow> audit_row \<Rightarrow> bool" where
  "same_event w a b \<longleftrightarrow> w_isoDate w (au_createdAt a) = w_isoDate w (au_createdAt b) \<and> au_actorId a = au_actorId b
     \<and> au_action a = au_action b \<and> au_entityType a = au_entityType b \<and> au_entityId a = au_entityId b
     \<and> stableStringify (au_metadataJson a) = stableStringify (au_metadataJson b)"

lemma json_opt_inj:
  "stableStringify (json_opt x) @ u = stableStringify (json_opt y) @ v \<longleftrightarrow> x = y \<and> u = v"
  by (cases x; cases y; simp add: json_opt_def json_string_inj) (simp_all add: json_string_def)

lemma canonical_commits:
  assumes "canonicalAuditPayload w a = canonicalAuditPayload w b"
  shows "same_event w a b"
  using assms unfolding canonicalAuditPayload_def stableStringify.simps canonical_members
  by (simp add: json_string_inj json_opt_inj same_event_def)

text \<open>The text the link at a position signs.\<close>

definition link_of :: "audit_world \<Rightarrow> audit_row list \<Rightarrow> nat \<Rightarrow> string" where
  "link_of w v i = link_text (head_checksum (take i v)) (int i + 1) (canonicalAuditPayload w (v ! i))"

definition collides :: "audit_world \<Rightarrow> string \<Rightarrow> audit_row list \<Rightarrow> audit_row list \<Rightarrow> nat \<Rightarrow> bool" where
  "collides w secret v u i \<longleftrightarrow> i < length v \<and> link_of w v i \<noteq> link_of w u i \<and> w_hmac w secret (link_of w v i) = w_hmac w secret (link_of w u i)"

lemma collides_snoc: "length u = length v \<Longrightarrow> collides w secret v u i \<Longrightarrow> collides w secret (v @ [r]) (u @ [q]) i"
  by (auto simp: collides_def link_of_def nth_append)

lemma verified_head_text:
  assumes "getAuditSecret w = Inr secret" "verified w v" "\<forall>k x. CHR 0x0A \<notin> set (w_hmac w k x)"
  shows "CHR 0x0A \<notin> set (nullish (head_checksum v) [])"
  using assms by (cases v rule: rev_cases) (auto simp: head_checksum_def verified_snoc follows_def)

lemma chains_agree:
  assumes secret: "getAuditSecret w = Inr secret" and hex: "\<forall>k x. CHR 0x0A \<notin> set (w_hmac w k x)"
  shows "verified w v \<Longrightarrow> verified w u \<Longrightarrow> length v = length u \<Longrightarrow> head_checksum v = head_checksum u
    \<Longrightarrow> list_all2 (same_event w) v u \<or> (\<exists>i. collides w secret v u i)"
proof (induction v arbitrary: u rule: rev_induct)
  case (snoc r v)
  then obtain p q where u: "u = p @ [q]" "length p = length v" by (cases u rule: rev_cases) auto
  note parts = snoc.prems(1) [unfolded verified_snoc [OF secret]] snoc.prems(2) [unfolded u verified_snoc [OF secret]]
  let ?n = "int (length v) + 1"
  let ?a = "link_text (head_checksum v) ?n (canonicalAuditPayload w r)" and ?b = "link_text (head_checksum p) ?n (canonicalAuditPayload w q)"
  have links: "link_of w (v @ [r]) (length v) = ?a" "link_of w u (length v) = ?b" using u by (simp_all add: link_of_def nth_append)
  have hmac: "w_hmac w secret ?a = w_hmac w secret ?b" using parts snoc.prems(4) u by (simp add: follows_def head_checksum_def)
  show ?case
  proof (cases "?a = ?b")
    case True
    note inj = link_text_inj [OF verified_head_text [OF secret _ hex] verified_head_text [OF secret _ hex] True]
    have "nullish (head_checksum v) [] = nullish (head_checksum p) []" "canonicalAuditPayload w r = canonicalAuditPayload w q"
      using inj parts by blast+
    moreover from this have "head_checksum v = head_checksum p"
    proof (cases "v = []")
      case False
      with u have "p \<noteq> []" by auto
      with False verified_head [OF secret, of v] verified_head [OF secret, of p] parts
      obtain c d where "head_checksum v = Some c" "head_checksum p = Some d" by blast
      with \<open>nullish (head_checksum v) [] = nullish (head_checksum p) []\<close> show ?thesis by simp
    qed (use u in \<open>simp add: head_checksum_def\<close>)
    ultimately show ?thesis using snoc.IH [of p] parts u canonical_commits [of w r q] collides_snoc [of p v w secret _ r q]
      by (auto simp: list_all2_append)
  next
    case False
    then have "collides w secret (v @ [r]) u (length v)" using links hmac by (simp add: collides_def)
    then show ?thesis by blast
  qed
qed simp

section \<open>Concrete logs\<close>

text \<open>An archive of one row, and a deployment that appends an entry to it.\<close>

definition audit_sample :: audit_world where
  "audit_sample = world.extend sample_world \<lparr>w_hmac = (\<lambda>key text. filter (\<lambda>c. c \<noteq> CHR 0x0A) (key @ text))\<rparr>"

definition archived_row :: audit_row where
  "archived_row = \<lparr>au_id = ''old'', au_createdAt = 5, au_actorId = None, au_action = ''LOGIN'', au_entityType = ''User'',
     au_entityId = None, au_metadataJson = JNull, au_chainVersion = 1, au_chainSequence = None, au_previousHash = None,
     au_checksum = Some ''0''\<rparr>"

definition audit_entry :: audit_input where
  "audit_entry = \<lparr>ai_actorId = Some ''u1'', ai_action = ''TRIP_CLOSED'', ai_entityType = ''Trip'', ai_entityId = Some ''t1'',
     ai_metadata = Some [(''bags'', MNum 2 ''2''), (''token'', MStr ''abc'')]\<rparr>"

lemma audit_sample_secret: "getAuditSecret audit_sample = Inr INSECURE_DEFAULT"
  by (simp add: getAuditSecret_def audit_sample_def sample_world_def world.defs)

lemma audit_sample_hex: "CHR 0x0A \<notin> set (w_hmac audit_sample k x)"
  by (simp add: audit_sample_def world.defs)

lemma audit_entry_plain: "\<not> checkpoint_request audit_entry"
  by (simp add: checkpoint_request_def audit_entry_def AUDIT_CHECKPOINT_ACTION_def)

section \<open>Redaction\<close>

text \<open>No member an object holds, at any depth of objects, keeps a sensitive value.\<close>

fun object_clean :: "meta \<Rightarrow> bool" where
  "object_clean (MObj ms) \<longleftrightarrow> (\<forall>m \<in> set ms. if sensitive (fst m) then snd m = MStr ''[REDACTED]'' else object_clean (snd m))"
| "object_clean v \<longleftrightarrow> True"

lemma redaction_reaches_objects: "object_clean (redact_value v)"
  by (induction v rule: redact_value.induct) (auto simp: Ball_def)

text \<open>It does not reach into arrays, and a date loses its text before it is stored.\<close>

lemma arrays_keep_sensitive_members:
  "stored_json w (redactAuditMetadata (Some [(''users'', MArr [MObj [(''email'', MStr e)]])])) =
     JObj [(''users'', JArr [JObj [(''email'', JStr e)]])]"
proof -
  have "\<not> sensitive ''users''" by code_simp
  then show ?thesis by (simp add: redactAuditMetadata_def)
qed

lemma dates_lose_their_text: "\<not> sensitive k \<Longrightarrow> stored_json w (redactAuditMetadata (Some [(k, MDate d)])) = JObj [(k, JObj [])]"
  by (simp add: redactAuditMetadata_def)

section \<open>The properties\<close>

lemma verified_log:
  assumes "log_keys t" "0 < n" "getAuditSecret w = Inr secret" "verifyAuditChain w n t = Some (Inr a)" "cv_broken a = None"
  shows "verified w (v2_rows None t)" "cv_checkedCount a = int (length (v2_rows None t))"
proof -
  have "verdict w t = Inr a" using verify_one_pass [OF assms(1,2), of w] assms(4) by simp
  then obtain st b where st: "walk_rows w (v2_rows None t) walk_start = Inr (st, b)" "cr_broken (chain_outcome t (st, b)) = None" "cv_checkedCount a = ws_checkedCount st"
    using assms(5) by (auto simp: verdict_def rbind_Inr_iff Let_def chain_outcome_def)
  then have "b = None" by (simp add: chain_outcome_def split: option.splits)
  moreover from this st(1) walk_ok [OF assms(3)] have "st = walked (v2_rows None t)" by blast
  ultimately show "verified w (v2_rows None t)" "cv_checkedCount a = int (length (v2_rows None t))"
    using st by (simp_all add: verified_def walked_def)
qed

text \<open>
  C10: the verifier answers. On every log whose ids and positions are unique, whatever else was
  written into its rows, and for every batch size above zero, both batch loops end and the verdict is
  that of one pass over the chain and one over the archive: the batch size changes nothing.
\<close>

theorem verification_ends_in_one_verdict:
  assumes "distinct (map au_id t)" "distinct (map au_chainSequence (filter sequenced t))" "0 < n"
  shows "\<exists>v. verifyAuditChain w n t = Some v \<and> (\<forall>m > 0. verifyAuditChain w m t = Some v)"
  using verify_one_pass [of t _ w] assms by (auto simp: log_keys_def)

theorem verification_ends_in_one_verdict_witness:
  "\<exists>v. verifyAuditChain audit_sample 1 [archived_row, archived_row\<lparr>au_id := ''b'', au_chainSequence := Some 7\<rparr>] = Some v
    \<and> (\<forall>m > 0. verifyAuditChain audit_sample m [archived_row, archived_row\<lparr>au_id := ''b'', au_chainSequence := Some 7\<rparr>] = Some v)"
  by (rule verification_ends_in_one_verdict) (simp_all add: archived_row_def)

text \<open>
  C8: what the service writes verifies. Start from an archive of version 1 rows and let services append
  entries, inside their transactions or best effort, and operators run the checkpoint command, in any
  order and any number of times. With the secret available, verification of the log then finds no
  break, counts exactly the rows appended, still counts the whole archive, and reports the checkpoint
  as matching once one is recorded, as missing before, and as not required for an empty archive.
\<close>

theorem written_logs_verify:
  assumes "getAuditSecret w = Inr secret" "distinct (map au_id archived)" "\<forall>r \<in> set archived. legacy r \<and> \<not> sequenced r"
    and "writes_log w archived t" "0 < n"
  shows "\<exists>v. verifyAuditChain w n t = Some (Inr v) \<and> cv_broken v = None \<and> cv_checkedCount v = int (length t) - int (length archived)
    \<and> cv_legacyCount v = int (length archived)
    \<and> cv_legacyCheckpoint v = (if latestCheckpoint t \<noteq> None then Checkpoint_matches
        else if archived = [] then Checkpoint_not_required else Checkpoint_missing)"
proof -
  have legacy: "legacy_log archived" using assms(2,3) by (simp add: legacy_log_def)
  obtain s where set: "archive_settled w secret archived s" using snapshot_ok [OF assms(1) legacy] assms(1) legacy by (auto simp: archive_settled_def)
  have t: "written w archived s t" by (rule writes_written [OF set assms(4)])
  show ?thesis using verdict_of_written [OF set t] verify_one_pass [OF written_keys [OF set t] assms(5), of w] by auto
qed

theorem written_logs_verify_witness:
  "\<exists>v. verifyAuditChain audit_sample 2 (logAudit audit_sample audit_entry [archived_row]) = Some (Inr v) \<and> cv_broken v = None
    \<and> cv_checkedCount v = int (length (logAudit audit_sample audit_entry [archived_row])) - 1 \<and> cv_legacyCount v = 1"
  using written_logs_verify [of audit_sample INSECURE_DEFAULT "[archived_row]" "logAudit audit_sample audit_entry [archived_row]" 2]
    writes_best_effort [OF writes_start _ audit_entry_plain, of audit_sample audit_sample "[archived_row]"]
  by (auto simp: audit_sample_secret archived_row_def legacy_def sequenced_def LEGACY_AUDIT_CHAIN_VERSION_def same_signer_def)

text \<open>
  C9: tampering needs an HMAC collision. Two logs that both verify with the same number of chained
  rows and carry the same last checksum record the same events, row by row (time, actor, action,
  entity and canonical metadata), unless at some position the two logs sign different texts that have
  the same HMAC. Digests are assumed to hold no line break, as hexadecimal text does not.
\<close>

theorem tampering_needs_a_collision:
  assumes "getAuditSecret w = Inr secret" "\<forall>k x. CHR 0x0A \<notin> set (w_hmac w k x)"
    and "log_keys t" "log_keys t'" "0 < n" "0 < m"
    and "verifyAuditChain w n t = Some (Inr a)" "cv_broken a = None" "verifyAuditChain w m t' = Some (Inr b)" "cv_broken b = None"
    and "cv_checkedCount a = cv_checkedCount b" "head_checksum (v2_rows None t) = head_checksum (v2_rows None t')"
  shows "list_all2 (same_event w) (v2_rows None t) (v2_rows None t') \<or> (\<exists>i. collides w secret (v2_rows None t) (v2_rows None t') i)"
  using chains_agree [OF assms(1,2) verified_log(1) [OF assms(3,5,1,7,8)] verified_log(1) [OF assms(4,6,1,9,10)]]
    verified_log(2) [OF assms(3,5,1,7,8)] verified_log(2) [OF assms(4,6,1,9,10)] assms(11,12) by simp

theorem tampering_needs_a_collision_witness:
  "list_all2 (same_event audit_sample) (v2_rows None (logAudit audit_sample audit_entry []))
      (v2_rows None (logAudit (audit_sample\<lparr>w_newId := \<lambda>n. ''z''\<rparr>) audit_entry []))
    \<or> (\<exists>i. collides audit_sample INSECURE_DEFAULT (v2_rows None (logAudit audit_sample audit_entry []))
      (v2_rows None (logAudit (audit_sample\<lparr>w_newId := \<lambda>n. ''z''\<rparr>) audit_entry [])) i)"
proof -
  let ?w = audit_sample and ?w' = "audit_sample\<lparr>w_newId := \<lambda>n. ''z''\<rparr>"
  let ?t = "logAudit ?w audit_entry []" and ?t' = "logAudit ?w' audit_entry []"
  have secret: "getAuditSecret ?w = Inr INSECURE_DEFAULT" "getAuditSecret ?w' = Inr INSECURE_DEFAULT"
    by (simp_all add: getAuditSecret_def audit_sample_def sample_world_def world.defs)
  have empty: "legacy_log []" by (simp add: legacy_log_def)
  then obtain s where set: "archive_settled ?w INSECURE_DEFAULT [] s" using snapshot_ok [OF secret(1) empty] secret by (auto simp: archive_settled_def)
  have t: "written ?w [] s ?t" "written ?w [] s ?t'"
    by (rule writes_written [OF set writes_best_effort [OF writes_start _ audit_entry_plain]], simp add: same_signer_def)+
  have len: "length ?t = 1" "length ?t' = 1"
    by (simp_all add: logAudit_def appendAuditEntry_def checksumV2_def secret chain_head_def v2_rows_def Let_def)
  obtain a b where ab: "verdict ?w ?t = Inr a" "cv_broken a = None" "cv_checkedCount a = 1" "verdict ?w ?t' = Inr b" "cv_broken b = None" "cv_checkedCount b = 1"
    using verdict_of_written [OF set t(1)] verdict_of_written [OF set t(2)] len by auto
  have head: "head_checksum (v2_rows None ?t) = head_checksum (v2_rows None ?t')"
    by (simp add: logAudit_def appendAuditEntry_def checksumV2_def secret chain_head_def v2_rows_def Let_def head_checksum_def
      after_cursor_def canonicalAuditPayload_def buildAuditRow_def) (simp add: audit_entry_def redactAuditMetadata_def)
  note keys = written_keys [OF set t(1)] written_keys [OF set t(2)]
  show ?thesis
    by (rule tampering_needs_a_collision [where n = 1 and m = 2 and a = a and b = b, OF secret(1) _ keys])
      (use ab head verify_one_pass [OF keys(1), of 1 ?w] verify_one_pass [OF keys(2), of 2 ?w] audit_sample_hex in simp_all)
qed



end
