(* ===== verification/Pickup_Steps.thy ===== *)
theory Pickup_Steps
  imports Pickup Audit_Props
begin

text \<open>
  Every operation of the dispatch as a change of one of four kinds: a decision on one task, an
  escalation, a new task, or nothing about tasks. The relation \<open>office_change\<close> carries
  what each kind may do to the rows and to the log.
\<close>

section \<open>Rows\<close>

definition pickup_edge :: "pickup_status \<Rightarrow> pickup_status \<Rightarrow> bool" where
  "pickup_edge a b \<longleftrightarrow> (\<exists>act. a \<in> set (rule_from (RULES act)) \<and> b = rule_to (RULES act))"

text \<open>What never changes of a task.\<close>

definition same_task :: "pickup \<Rightarrow> pickup \<Rightarrow> bool" where
  "same_task p q \<longleftrightarrow> pck_id q = pck_id p \<and> pck_machineId q = pck_machineId p \<and> pck_organizationId q = pck_organizationId p
     \<and> pck_requestedById q = pck_requestedById p \<and> pck_priority q = pck_priority p \<and> pck_reason q = pck_reason p
     \<and> pck_replacesPickupId q = pck_replacesPickupId p \<and> pck_createdAt q = pck_createdAt p"

definition valid_reason :: "string option \<Rightarrow> bool" where
  "valid_reason r \<longleftrightarrow> (case r of None \<Rightarrow> False | Some t \<Rightarrow> 3 \<le> length t \<and> length t \<le> 500)"

text \<open>One decision: a dispatch opens a new escalation window, a closing has its reason.\<close>

definition decides :: "pickup \<Rightarrow> pickup \<Rightarrow> bool" where
  "decides p q \<longleftrightarrow> same_task p q \<and> pck_version q = pck_version p + 1 \<and> pickup_edge (pck_status p) (pck_status q)
     \<and> (if pck_status q = PK_ASSIGNED then pck_assignedCollectorId q \<noteq> None \<and> pck_lastEscalatedAt q = None
        else pck_assignedCollectorId q = pck_assignedCollectorId p \<and> pck_lastEscalatedAt q = pck_lastEscalatedAt p)
     \<and> (pck_status q \<in> set PICKUP_REPLACEABLE \<longrightarrow> valid_reason (pck_closedReason q))"

lemma pickup_edge_iff:
  "pickup_edge a b \<longleftrightarrow> (a, b) \<in> {(PK_REQUESTED, PK_ASSIGNED), (PK_ASSIGNED, PK_ASSIGNED), (PK_ASSIGNED, PK_ON_THE_WAY),
     (PK_ON_THE_WAY, PK_ARRIVED), (PK_ARRIVED, PK_COLLECTED), (PK_COLLECTED, PK_COMPLETED),
     (PK_ASSIGNED, PK_FAILED), (PK_ON_THE_WAY, PK_FAILED), (PK_ARRIVED, PK_FAILED), (PK_COLLECTED, PK_FAILED),
     (PK_REQUESTED, PK_CANCELLED), (PK_ASSIGNED, PK_CANCELLED), (PK_ON_THE_WAY, PK_CANCELLED), (PK_ARRIVED, PK_CANCELLED)}"
proof
  assume "pickup_edge a b"
  then obtain act where "a \<in> set (rule_from (RULES act))" "b = rule_to (RULES act)" by (auto simp: pickup_edge_def)
  then show "(a, b) \<in> {(PK_REQUESTED, PK_ASSIGNED), (PK_ASSIGNED, PK_ASSIGNED), (PK_ASSIGNED, PK_ON_THE_WAY),
     (PK_ON_THE_WAY, PK_ARRIVED), (PK_ARRIVED, PK_COLLECTED), (PK_COLLECTED, PK_COMPLETED),
     (PK_ASSIGNED, PK_FAILED), (PK_ON_THE_WAY, PK_FAILED), (PK_ARRIVED, PK_FAILED), (PK_COLLECTED, PK_FAILED),
     (PK_REQUESTED, PK_CANCELLED), (PK_ASSIGNED, PK_CANCELLED), (PK_ON_THE_WAY, PK_CANCELLED), (PK_ARRIVED, PK_CANCELLED)}"
    by (cases act) (auto simp: field_rule_def admin_rule_def)
next
  have act: "pickup_edge a b" if "a \<in> set (rule_from (RULES act))" "b = rule_to (RULES act)" for act
    using that by (auto simp: pickup_edge_def)
  assume "(a, b) \<in> {(PK_REQUESTED, PK_ASSIGNED), (PK_ASSIGNED, PK_ASSIGNED), (PK_ASSIGNED, PK_ON_THE_WAY),
     (PK_ON_THE_WAY, PK_ARRIVED), (PK_ARRIVED, PK_COLLECTED), (PK_COLLECTED, PK_COMPLETED),
     (PK_ASSIGNED, PK_FAILED), (PK_ON_THE_WAY, PK_FAILED), (PK_ARRIVED, PK_FAILED), (PK_COLLECTED, PK_FAILED),
     (PK_REQUESTED, PK_CANCELLED), (PK_ASSIGNED, PK_CANCELLED), (PK_ON_THE_WAY, PK_CANCELLED), (PK_ARRIVED, PK_CANCELLED)}"
  then show "pickup_edge a b"
    using act [of Act_assign] act [of Act_start] act [of Act_arrive] act [of Act_collect] act [of Act_complete] act [of Act_fail] act [of Act_cancel]
    by (auto simp: field_rule_def admin_rule_def)
qed

lemma terminal_no_edge: "a \<in> set PICKUP_TERMINAL \<Longrightarrow> \<not> pickup_edge a b"
  by (auto simp: pickup_edge_iff PICKUP_TERMINAL_def)

section \<open>Rows of the log\<close>

definition DECISION_ACTIONS :: "string list" where
  "DECISION_ACTIONS = map (\<lambda>a. ''PICKUP_'' @ js_upper (show_action a)) [Act_assign, Act_start, Act_arrive, Act_collect, Act_complete, Act_fail, Act_cancel]"

definition decision_of :: "ident \<Rightarrow> audit_row \<Rightarrow> bool" where
  "decision_of i r \<longleftrightarrow> au_entityType r = ''PickupRequest'' \<and> au_entityId r = Some i \<and> au_action r \<in> set DECISION_ACTIONS"

definition decision_input :: "ident \<Rightarrow> audit_input \<Rightarrow> bool" where
  "decision_input i inp \<longleftrightarrow> ai_entityType inp = ''PickupRequest'' \<and> ai_entityId inp = Some i \<and> ai_action inp \<in> set DECISION_ACTIONS"

definition decisions :: "ident \<Rightarrow> audit_log \<Rightarrow> int" where
  "decisions i t = int (length (filter (decision_of i) t))"

text \<open>An append of the deployment.\<close>

definition logs :: "audit_world \<Rightarrow> audit_input \<Rightarrow> audit_log \<Rightarrow> audit_log \<Rightarrow> bool" where
  "logs w inp t t' \<longleftrightarrow> \<not> checkpoint_request inp \<and> (\<exists>w'. same_signer w w' \<and> logAuditInTransaction w' inp t = Inr t')"

lemma append_row:
  "appendAuditEntry w inp c t = Inr (x, t') \<Longrightarrow>
    \<exists>r. t' = t @ [r] \<and> au_action r = ai_action inp \<and> au_entityType r = ai_entityType inp \<and> au_entityId r = ai_entityId inp"
  by (auto simp: appendAuditEntry_def Let_def rbind_Inr_iff buildAuditRow_def split: if_splits)

lemma decisions_append:
  assumes "logAuditInTransaction w inp t = Inr t'"
  shows "decisions i t' = decisions i t + (if decision_input i inp then 1 else 0)"
proof -
  obtain x where "appendAuditEntry w inp None t = Inr (x, t')" using assms by (auto simp: logAuditInTransaction_def rbind_Inr_iff)
  from append_row [OF this] show ?thesis by (auto simp: decisions_def decision_of_def decision_input_def)
qed

lemma logs_decisions: "logs w inp t t' \<Longrightarrow> decisions i t' = decisions i t + (if decision_input i inp then 1 else 0)"
  using decisions_append by (auto simp: logs_def)

text \<open>An entry that is no decision, or the checkpoint of the archive.\<close>

definition aside :: "audit_world \<Rightarrow> audit_log \<Rightarrow> audit_log \<Rightarrow> bool" where
  "aside w t t' \<longleftrightarrow> t' = t \<or> (\<exists>inp. logs w inp t t' \<and> (\<forall>i. \<not> decision_input i inp))
     \<or> (\<exists>w' digest report. same_signer w w' \<and> checkpointLegacyAuditChain w' digest t = Some (Inr (report, t')))"

lemma checkpoint_decisions:
  assumes "checkpointLegacyAuditChain w digest t = Some (Inr (report, t'))"
  shows "decisions i t' = decisions i t"
proof -
  consider "t' = t" | s x where "appendAuditEntry w (checkpoint_input s) None t = Inr (x, t')"
    using assms by (auto simp: checkpointLegacyAuditChain_def then_run_def rbind_Inr_iff split: option.splits sum.splits if_splits)
  then show ?thesis
  proof cases
    case 2
    from append_row [OF this] show ?thesis
      by (auto simp: decisions_def decision_of_def checkpoint_input_def AUDIT_CHECKPOINT_ENTITY_def)
  qed simp
qed

lemma aside_decisions: "aside w t t' \<Longrightarrow> decisions i t' = decisions i t"
  using checkpoint_decisions logs_decisions by (fastforce simp: aside_def)

section \<open>Changes\<close>

inductive office_change :: "audit_world \<Rightarrow> office \<Rightarrow> office \<Rightarrow> bool" for w where
  change_decision: "find_by pck_id i (of_pickups s) = Some p \<Longrightarrow> decides p q
    \<Longrightarrow> of_pickups s' = upd_by pck_id i (\<lambda>_. q) (of_pickups s)
    \<Longrightarrow> logs w inp (of_log s) (of_log s') \<Longrightarrow> decision_input i inp \<Longrightarrow> office_change w s s'"
| change_escalation: "find_by pck_id i (of_pickups s) = Some p \<Longrightarrow> overdue now p
    \<Longrightarrow> of_pickups s' = upd_by pck_id i (\<lambda>_. p\<lparr>pck_lastEscalatedAt := Some now\<rparr>) (of_pickups s)
    \<Longrightarrow> aside w (of_log s) (of_log s') \<Longrightarrow> office_change w s s'"
| change_creation: "of_pickups s' = of_pickups s @ [p] \<Longrightarrow> pck_version p = 0 \<Longrightarrow> pck_status p = PK_REQUESTED
    \<Longrightarrow> pck_closedReason p = None \<Longrightarrow> \<not> list_ex (pickup_clash p) (of_pickups s)
    \<Longrightarrow> (\<forall>i. pck_replacesPickupId p = Some i \<longrightarrow> (\<exists>q. find_by pck_id i (of_pickups s) = Some q \<and> pck_status q \<in> set PICKUP_REPLACEABLE))
    \<Longrightarrow> aside w (of_log s) (of_log s') \<Longrightarrow> office_change w s s'"
| change_aside: "of_pickups s' = of_pickups s \<Longrightarrow> aside w (of_log s) (of_log s') \<Longrightarrow> office_change w s s'"

text \<open>The ids of the tasks are unique.\<close>

definition pickup_keys :: "office \<Rightarrow> bool" where
  "pickup_keys s \<longleftrightarrow> uniq pck_id (of_pickups s)"

lemma change_keys: "office_change w s s' \<Longrightarrow> pickup_keys s \<Longrightarrow> pickup_keys s'"
proof (induction rule: office_change.induct)
  case (change_decision i s p q s' inp)
  then have "pck_id q = i" using find_by_SomeD [of pck_id i] by (force simp: decides_def same_task_def)
  with change_decision show ?case by (auto simp: pickup_keys_def uniq_def upd_by_def comp_def if_distrib cong: if_cong)
next
  case (change_escalation i s p now s')
  then have "pck_id p = i" using find_by_SomeD by fastforce
  with change_escalation show ?case by (auto simp: pickup_keys_def uniq_def upd_by_def comp_def if_distrib cong: if_cong)
next
  case (change_creation s' s p)
  then show ?case by (auto simp: pickup_keys_def uniq_append list_ex_iff pickup_clash_def)
qed (simp add: pickup_keys_def)

section \<open>Updates of one task\<close>

lemma update_pickups_one:
  assumes keys: "pickup_keys s" and found: "find_by pck_id i (of_pickups s) = Some p" and cond: "\<And>r. cond r \<Longrightarrow> pck_id r = i"
    and ok: "update_pickups cond f s = Inr (n, s')"
  shows "if cond p then n = 1 \<and> pickup_ok (f p) \<and> of_pickups s' = upd_by pck_id i (\<lambda>_. f p) (of_pickups s) else n = 0 \<and> of_pickups s' = of_pickups s"
    "s' = set_db ((of_db s)\<lparr>pickups := of_pickups s'\<rparr>) s"
proof -
  have p: "p \<in> set (of_pickups s)" "pck_id p = i" using find_by_SomeD [OF found] by auto
  have only: "r = p" if "r \<in> set (of_pickups s)" "pck_id r = i" for r
    using keys p that by (auto simp: pickup_keys_def uniq_def distinct_map inj_on_def)
  have s': "of_pickups s' = map (\<lambda>r. if cond r then f r else r) (of_pickups s)" "n = length (filter cond (of_pickups s))"
    and ok': "\<forall>r \<in> set (of_pickups s). cond r \<longrightarrow> pickup_ok (f r)"
    using ok by (auto simp: update_pickups_def set_db_def list_ex_iff split: if_splits)
  show "s' = set_db ((of_db s)\<lparr>pickups := of_pickups s'\<rparr>) s" using ok by (auto simp: update_pickups_def set_db_def split: if_splits)
  show "if cond p then n = 1 \<and> pickup_ok (f p) \<and> of_pickups s' = upd_by pck_id i (\<lambda>_. f p) (of_pickups s) else n = 0 \<and> of_pickups s' = of_pickups s"
  proof (cases "cond p")
    case True
    then have "filter cond (of_pickups s) = filter (\<lambda>r. r = p) (of_pickups s)" using only cond by (intro filter_cong) auto
    moreover have "distinct (of_pickups s)" using keys by (simp add: pickup_keys_def uniq_def distinct_map)
    ultimately have "n = 1" using s'(2) p distinct_length_filter [of "of_pickups s" "\<lambda>r. r = p"] by (simp add: Collect_conv_if Int_def conj_commute)
    moreover have "of_pickups s' = upd_by pck_id i (\<lambda>_. f p) (of_pickups s)"
      unfolding s'(1) upd_by_def using True only cond by (intro map_cong) auto
    ultimately show ?thesis using True ok' p by simp
  next
    case False
    then have "\<forall>r \<in> set (of_pickups s). \<not> cond r" using only cond by blast
    then have "filter cond (of_pickups s) = []" "of_pickups s' = of_pickups s"
      unfolding s'(1) by (auto simp: filter_empty_conv intro!: map_idI)
    then show ?thesis using False s'(2) by simp
  qed
qed

lemma office_audit_state:
  "office_audit w inp s = Inr s' \<Longrightarrow> s' = s\<lparr>of_log := of_log s'\<rparr> \<and> logAuditInTransaction w inp (of_log s) = Inr (of_log s')"
  by (auto simp: office_audit_def rbind_Inr_iff)

lemma office_audit_db: "office_audit w inp s = Inr s' \<Longrightarrow> of_db s' = of_db s"
  by (auto simp: office_audit_def rbind_Inr_iff)

lemma set_db_sel [simp]:
  "of_db (set_db d s) = d" "of_staff (set_db d s) = of_staff s" "of_partners (set_db d s) = of_partners s"
  "of_items (set_db d s) = of_items s" "of_log (set_db d s) = of_log s" "set_db (of_db s) s = s"
  by (simp_all add: set_db_def)

lemma office_transaction_ok:
  assumes "office_transaction fn s = Inr (x, s')"
  obtains s1 where "fn (set_db (committed (of_db s)) s) = Inr (x, s1)" "s' = set_db (committed (of_db s1)) s1"
  using assms by (auto simp: office_transaction_def split: sum.splits if_splits)

lemma lock_office_machine_ok: "lock_office_machine m s = Inr s' \<Longrightarrow> of_pickups s' = of_pickups s \<and> s' = set_db (of_db s') s"
  by (auto simp: lock_office_machine_def rbind_Inr_iff set_db_def lockMachine_def acquire_def split: if_splits)

section \<open>Operations\<close>

lemma find_after_other: "pck_id q = i \<Longrightarrow> j \<noteq> i \<Longrightarrow> find_by pck_id j (upd_by pck_id i (\<lambda>_. q) t) = find_by pck_id j t"
  by (induction t) auto

lemma find_after_same: "find_by pck_id i t = Some p \<Longrightarrow> pck_id q = i \<Longrightarrow> find_by pck_id i (upd_by pck_id i (\<lambda>_. q) t) = Some q"
  by (induction t) auto

lemma find_after: "find_by pck_id i t = Some p \<Longrightarrow> pck_id q = i \<Longrightarrow> find_by pck_id j (upd_by pck_id i (\<lambda>_. q) t) = (if j = i then Some q else find_by pck_id j t)"
  by (simp add: find_after_other find_after_same)

lemma DECISION_ACTIONS_mem: "''PICKUP_'' @ js_upper (show_action a) \<in> set DECISION_ACTIONS"
  by (cases a) (simp_all add: DECISION_ACTIONS_def)

lemma assign_action: "''PICKUP_ASSIGN'' \<in> set DECISION_ACTIONS"
  by code_simp

lemma logs_office_audit:
  "office_audit w' inp s = Inr s' \<Longrightarrow> same_signer w w' \<Longrightarrow> \<not> checkpoint_request inp \<Longrightarrow> logs w inp (of_log s) (of_log s')"
  using office_audit_state by (auto simp: logs_def)

text \<open>An assignment: what it required, and what it did.\<close>

lemma assign_transaction_ok:
  assumes keys: "pickup_keys s" and ok: "assign_transaction w actr i collectorId n deadline s = Inr ((q, p), s')"
  shows "find_by pck_id i (of_pickups s) = Some p" "pck_version p = n" "pck_status p \<in> set PICKUP_REASSIGNABLE"
    "\<exists>u t. find_by usr_id collectorId (users (of_db s)) = Some u \<and> usr_status u = US_ACTIVE \<and> role_of collectorId s = Some PENGEPUL
      \<and> lockedPartnership collectorId (pck_organizationId p) s = Some t \<and> q = dispatch_to w collectorId (par_id t) deadline p"
    "of_pickups s' = upd_by pck_id i (\<lambda>_. q) (of_pickups s)" "pickup_ok q"
    "office_audit w (assign_audit w actr p q collectorId deadline) (set_db ((of_db s)\<lparr>pickups := of_pickups s'\<rparr>) s) = Inr s'"
proof -
  obtain u t k s1 where p: "find_by pck_id i (of_pickups s) = Some p" and v: "pck_version p = n" and st: "pck_status p \<in> set PICKUP_REASSIGNABLE"
    and u: "find_by usr_id collectorId (users (of_db s)) = Some u" "usr_status u = US_ACTIVE" "role_of (usr_id u) s = Some PENGEPUL"
    and t: "lockedPartnership (usr_id u) (pck_organizationId p) s = Some t"
    and upd: "update_pickups (\<lambda>r. pck_id r = i \<and> pck_version r = n \<and> pck_status r \<in> {PK_REQUESTED, PK_ASSIGNED})
        (dispatch_to w (usr_id u) (par_id t) deadline) s = Inr (k, s1)"
    and q: "find_by pck_id i (of_pickups s1) = Some q" and audit: "office_audit w (assign_audit w actr p q (usr_id u) deadline) s1 = Inr s'"
    using ok unfolding assign_transaction_def
    by (auto simp: rbind_Inr_iff find_or_throw_def split: option.splits if_splits)
  have id: "usr_id u = collectorId" using find_by_SomeD [OF u(1)] by simp
  have cond: "pck_id p = i \<and> pck_version p = n \<and> pck_status p \<in> {PK_REQUESTED, PK_ASSIGNED}"
    using find_by_SomeD [OF p] v st by (auto simp: PICKUP_REASSIGNABLE_def)
  note one = update_pickups_one [OF keys p _ upd]
  from one(1) cond have row: "of_pickups s1 = upd_by pck_id i (\<lambda>_. dispatch_to w (usr_id u) (par_id t) deadline p) (of_pickups s)"
    and range: "pickup_ok (dispatch_to w (usr_id u) (par_id t) deadline p)" by auto
  have "find_by pck_id i (of_pickups s1) = Some (dispatch_to w (usr_id u) (par_id t) deadline p)"
    using find_after [OF p, of "dispatch_to w (usr_id u) (par_id t) deadline p" i] cond by (simp add: row dispatch_to_def)
  with q have q': "q = dispatch_to w collectorId (par_id t) deadline p" by (simp add: id)
  have s1: "s1 = set_db ((of_db s)\<lparr>pickups := of_pickups s1\<rparr>) s" using one(2) by blast
  have same: "of_pickups s' = of_pickups s1" using office_audit_db [OF audit] by simp
  show "find_by pck_id i (of_pickups s) = Some p" "pck_version p = n" "pck_status p \<in> set PICKUP_REASSIGNABLE" by fact+
  show "\<exists>u t. find_by usr_id collectorId (users (of_db s)) = Some u \<and> usr_status u = US_ACTIVE \<and> role_of collectorId s = Some PENGEPUL
      \<and> lockedPartnership collectorId (pck_organizationId p) s = Some t \<and> q = dispatch_to w collectorId (par_id t) deadline p"
    using u t q' by (simp add: id)
  show "of_pickups s' = upd_by pck_id i (\<lambda>_. q) (of_pickups s)" using row same q' by (simp add: id)
  show "pickup_ok q" using range q' by (simp add: id)
  show "office_audit w (assign_audit w actr p q collectorId deadline) (set_db ((of_db s)\<lparr>pickups := of_pickups s'\<rparr>) s) = Inr s'"
    using audit s1 same by (simp add: id)
qed

lemma free_machine_ok:
  assumes "free_machine a p s = Inr s'"
  shows "of_pickups s' = of_pickups s" "s' = set_db (of_db s') s"
    "\<lbrakk>a = Act_complete; pck_machineId p = Some m\<rbrakk> \<Longrightarrow> machines (of_db s') = upd_by mac_id m reset_machine (machines (of_db s))"
proof -
  show "of_pickups s' = of_pickups s" "s' = set_db (of_db s') s"
    using assms by (auto simp: free_machine_def update_machine_def rbind_Inr_iff set_db_def split: option.splits if_splits)
  show "machines (of_db s') = upd_by mac_id m reset_machine (machines (of_db s))" if "a = Act_complete" "pck_machineId p = Some m"
    using assms that
    by (auto simp: free_machine_def update_machine_def update_row_def rbind_Inr_iff set_db_def find_by_None_iff upd_by_absent split: option.splits if_splits)
qed

lemma free_machine_log: "free_machine a p s = Inr s' \<Longrightarrow> of_log s' = of_log s"
  using free_machine_ok(2) by (metis set_db_sel(5))

text \<open>The context a transition is resolved in.\<close>

definition context_of :: "actor \<Rightarrow> pickup \<Rightarrow> pickup_context" where
  "context_of actr p = \<lparr>ctx_status = pck_status p, ctx_role = act_role actr,
     ctx_isAssignedCollector = (act_role actr = PENGEPUL \<and> pck_assignedCollectorId p = Some (act_id actr)),
     ctx_isOrgAdmin = (act_role actr = ADMIN \<and> act_organizationId actr = Some (pck_organizationId p))\<rparr>"

lemma resolve_ok:
  "resolvePickupTransition a ctx = Inr to \<longleftrightarrow> ctx_role ctx \<in> set (rule_roles (RULES a)) \<and> ctx_status ctx \<in> set (rule_from (RULES a)) \<and> to = rule_to (RULES a)
    \<and> (ctx_role ctx = SUPERADMIN \<or> (rule_actor (RULES a) = By_collector \<longrightarrow> ctx_isAssignedCollector ctx) \<and> (rule_actor (RULES a) = By_admin \<longrightarrow> ctx_isOrgAdmin ctx))"
  by (auto simp: resolvePickupTransition_def Let_def)

lemma transition_transaction_ok:
  assumes keys: "pickup_keys s" and ok: "transition_transaction w actr i inp mid ev reason s = Inr ((q, p), s')"
  obtains to s1 s2 where "find_by pck_id i (of_pickups s) = Some p" "resolvePickupTransition (tr_action inp) (context_of actr p) = Inr to"
    "act_role actr = PENGEPUL \<Longrightarrow> lockedPartnership (act_id actr) (pck_organizationId p) s \<noteq> None"
    "ev = None \<or> ev = Some (pck_version p)" "q = moved_to to (tr_notes inp) reason p" "pickup_ok q"
    "of_pickups s1 = upd_by pck_id i (\<lambda>_. q) (of_pickups s)" "machines (of_db s1) = machines (of_db s)" "of_log s1 = of_log s"
    "free_machine (tr_action inp) p s1 = Inr s2"
    "office_audit w (transition_audit actr (tr_action inp) p q (ev \<noteq> None) reason) s2 = Inr s'"
proof -
  obtain s0 where s0: "(case mid of Some m \<Rightarrow> if tr_action inp = Act_complete then lock_office_machine m s else Inr s | None \<Rightarrow> Inr s) = Inr s0"
    using ok by (auto simp: transition_transaction_def Let_def rbind_Inr_iff)
  have same: "of_pickups s0 = of_pickups s" "of_partners s0 = of_partners s" "of_log s0 = of_log s" "machines (of_db s0) = machines (of_db s)"
    using s0 by (auto simp: lock_office_machine_def rbind_Inr_iff lockMachine_def acquire_def split: option.splits if_splits)
  have partner: "lockedPartnership c g s0 = lockedPartnership c g s" for c g by (simp add: lockedPartnership_def same)
  obtain to k s1 s2 where p: "find_by pck_id i (of_pickups s) = Some p"
    and res: "resolvePickupTransition (tr_action inp) (context_of actr p) = Inr to"
    and part: "act_role actr = PENGEPUL \<longrightarrow> lockedPartnership (act_id actr) (pck_organizationId p) s \<noteq> None"
    and ev: "ev = None \<or> ev = Some (pck_version p)"
    and upd: "update_pickups (\<lambda>r. pck_id r = i \<and> pck_version r = pck_version p \<and> pck_status r = pck_status p
                       \<and> pck_assignedCollectorId r = pck_assignedCollectorId p) (moved_to to (tr_notes inp) reason) s0 = Inr (k, s1)"
    and free: "free_machine (tr_action inp) p s1 = Inr s2" and q: "find_by pck_id i (of_pickups s2) = Some q"
    and audit: "office_audit w (transition_audit actr (tr_action inp) p q (ev \<noteq> None) reason) s2 = Inr s'"
    using ok unfolding transition_transaction_def Let_def s0 rbind_simps
    by (auto simp: rbind_Inr_iff find_or_throw_def same partner context_of_def split: option.splits if_splits sum.splits)
  have keys0: "pickup_keys s0" using keys by (simp add: pickup_keys_def same)
  have p0: "find_by pck_id i (of_pickups s0) = Some p" using p same by simp
  have id: "pck_id p = i" using find_by_SomeD [OF p] by simp
  note one = update_pickups_one [OF keys0 p0 _ upd]
  have row: "of_pickups s1 = upd_by pck_id i (\<lambda>_. moved_to to (tr_notes inp) reason p) (of_pickups s)"
    and range: "pickup_ok (moved_to to (tr_notes inp) reason p)" using one(1) id same by auto
  have "find_by pck_id i (of_pickups s1) = Some (moved_to to (tr_notes inp) reason p)"
    using find_after_same [OF p, of "moved_to to (tr_notes inp) reason p"] id by (simp add: row moved_to_def)
  then have q': "q = moved_to to (tr_notes inp) reason p" using q free_machine_ok(1) [OF free] by simp
  have s1: "s1 = set_db ((of_db s0)\<lparr>pickups := of_pickups s1\<rparr>) s0" using one(2) by blast
  have "machines (of_db s1) = machines (of_db s0)" "of_log s1 = of_log s0" by (subst s1, simp)+
  then show thesis using p res part ev q' range row free audit same by (intro that [of to s1 s2]) auto
qed

section \<open>Every operation is a change\<close>

lemma change_view:
  assumes "office_change w s s'" "of_pickups t = of_pickups s" "of_log t = of_log s" "of_pickups t' = of_pickups s'" "of_log t' = of_log s'"
  shows "office_change w t t'"
  using assms(1)
proof cases
  case (change_decision i p q inp)
  then show ?thesis using office_change.change_decision [of i t p q t' w inp] assms(2-5) by simp
next
  case (change_escalation i p now)
  then show ?thesis using office_change.change_escalation [of i t p now t' w] assms(2-5) by simp
next
  case (change_creation p)
  then show ?thesis using office_change.change_creation [of t' t p w] assms(2-5) by simp
next
  case change_aside
  then show ?thesis using office_change.change_aside [of t' t w] assms(2-5) by simp
qed

lemma committed_pickups [simp]: "pickups (committed d) = pickups d"
  by (simp add: committed_def)

lemma transaction_change:
  assumes "office_transaction fn s = Inr (x, s')" "pickup_keys s"
    and "\<And>t x t'. pickup_keys t \<Longrightarrow> fn t = Inr (x, t') \<Longrightarrow> office_change w t t'"
  shows "office_change w s s'"
proof -
  obtain s1 where s1: "fn (set_db (committed (of_db s)) s) = Inr (x, s1)" "s' = set_db (committed (of_db s1)) s1"
    by (rule office_transaction_ok [OF assms(1)])
  have "pickup_keys (set_db (committed (of_db s)) s)" using assms(2) by (simp add: pickup_keys_def)
  from assms(3) [OF this s1(1)] show ?thesis by (rule change_view) (simp_all add: s1)
qed

lemma pickup_entry_plain: "ai_entityType inp \<noteq> ''AuditChain'' \<Longrightarrow> \<not> checkpoint_request inp"
  by (simp add: checkpoint_request_def AUDIT_CHECKPOINT_ENTITY_def)

lemma assign_change:
  assumes keys: "pickup_keys s" and w: "same_signer w0 w" and ok: "assign_transaction w actr i c n deadline s = Inr (x, s')"
  shows "office_change w0 s s'"
proof -
  obtain q p where x: "x = (q, p)" by force
  note facts = assign_transaction_ok [OF keys ok [unfolded x]]
  have id: "pck_id p = i" using find_by_SomeD [OF facts(1)] by simp
  have st: "pck_status p = PK_REQUESTED \<or> pck_status p = PK_ASSIGNED" using facts(3) by (auto simp: PICKUP_REASSIGNABLE_def)
  then have "pickup_edge (pck_status p) PK_ASSIGNED" by (auto simp: pickup_edge_iff)
  moreover obtain t :: partner where "q = dispatch_to w c (par_id t) deadline p" using facts(4) by blast
  ultimately have "decides p q" by (simp add: decides_def same_task_def dispatch_to_def PICKUP_REPLACEABLE_def)
  moreover have "decision_input i (assign_audit w actr p q c deadline)"
    using assign_action by (simp add: decision_input_def assign_audit_def id)
  moreover have "logs w0 (assign_audit w actr p q c deadline) (of_log s) (of_log s')"
    using logs_office_audit [OF facts(7) w] by (simp add: pickup_entry_plain assign_audit_def)
  ultimately show ?thesis using facts(1,5) by (intro change_decision)
qed

lemma transition_change:
  assumes keys: "pickup_keys s" and w: "same_signer w0 w" and a: "tr_action inp \<noteq> Act_assign"
    and reason: "if closing (tr_action inp) then valid_reason reason else reason = None"
    and ok: "transition_transaction w actr i inp mid ev reason s = Inr (x, s')"
  shows "office_change w0 s s'"
proof -
  obtain q p where x: "x = (q, p)" by force
  obtain to s1 s2 where f: "find_by pck_id i (of_pickups s) = Some p" "resolvePickupTransition (tr_action inp) (context_of actr p) = Inr to"
    "q = moved_to to (tr_notes inp) reason p" "of_pickups s1 = upd_by pck_id i (\<lambda>_. q) (of_pickups s)" "of_log s1 = of_log s"
    "free_machine (tr_action inp) p s1 = Inr s2" "office_audit w (transition_audit actr (tr_action inp) p q (ev \<noteq> None) reason) s2 = Inr s'"
    by (rule transition_transaction_ok [OF keys ok [unfolded x]])
  have id: "pck_id p = i" using find_by_SomeD [OF f(1)] by simp
  have edge: "pck_status p \<in> set (rule_from (RULES (tr_action inp)))" "to = rule_to (RULES (tr_action inp))"
    using f(2) by (simp_all add: resolve_ok context_of_def)
  then have "pickup_edge (pck_status p) to" by (auto simp: pickup_edge_def)
  moreover have "to \<noteq> PK_ASSIGNED" using edge a by (cases "tr_action inp") (simp_all add: field_rule_def admin_rule_def)
  moreover have "to \<in> set PICKUP_REPLACEABLE \<longrightarrow> valid_reason reason"
    using edge reason by (cases "tr_action inp") (simp_all add: field_rule_def admin_rule_def PICKUP_REPLACEABLE_def closing_def)
  ultimately have "decides p q" unfolding f(3) by (cases reason) (simp_all add: decides_def same_task_def moved_to_def valid_reason_def)
  moreover have "decision_input i (transition_audit actr (tr_action inp) p q (ev \<noteq> None) reason)"
    using DECISION_ACTIONS_mem by (simp add: decision_input_def transition_audit_def id)
  moreover have "\<not> checkpoint_request (transition_audit actr (tr_action inp) p q (ev \<noteq> None) reason)"
    by (rule pickup_entry_plain) (simp add: transition_audit_def)
  then have "logs w0 (transition_audit actr (tr_action inp) p q (ev \<noteq> None) reason) (of_log s) (of_log s')"
    using logs_office_audit [OF f(7) w] f(5) free_machine_log [OF f(6)] by simp
  moreover have "of_pickups s' = upd_by pck_id i (\<lambda>_. q) (of_pickups s)"
    using office_audit_db [OF f(7)] free_machine_ok(1) [OF f(6)] f(4) by simp
  ultimately show ?thesis using f(1) by (intro change_decision)
qed

lemma replacement_change:
  assumes w: "same_signer w0 w" and ok: "replacement_transaction w actr i mid priority notes s = Inr (x, s')"
  shows "office_change w0 s s'"
proof -
  obtain s0 where s0: "(case mid of Some m \<Rightarrow> lock_office_machine m s | None \<Rightarrow> Inr s) = Inr s0"
    using ok by (auto simp: replacement_transaction_def rbind_Inr_iff)
  have same: "of_pickups s0 = of_pickups s" "of_log s0 = of_log s"
    using s0 by (auto simp: lock_office_machine_def rbind_Inr_iff lockMachine_def acquire_def split: option.splits if_splits)
  obtain p where p: "find_by pck_id i (of_pickups s0) = Some p"
    using ok unfolding replacement_transaction_def s0 rbind_simps by (auto simp: rbind_Inr_iff find_or_throw_def split: option.splits)
  note run = ok [unfolded replacement_transaction_def s0 rbind_simps lockPickupRequest_def find_or_throw_def p option.case, simplified]
  show ?thesis
  proof (cases "replacement_of (pck_id p) (of_db s0)")
    case (Some q)
    then have "s' = s0" using run by simp
    then show ?thesis by (intro change_aside) (simp_all add: same aside_def)
  next
    case None
    let ?q = "new_pickup w s0 actr (pck_machineId p) (pck_organizationId p) (pck_reason p)
      (nullish priority (pck_priority p)) (if notes = None then pck_notes p else notes) (Some (pck_id p))"
    from run None obtain s1 where st: "pck_status p \<in> set PICKUP_REPLACEABLE" and s1: "create_pickup ?q s0 = Inr s1"
      and audit: "office_audit w (replacement_audit actr p ?q) s1 = Inr s'"
      by (auto simp: Let_def rbind_Inr_iff split: if_splits)
    have rows: "of_pickups s1 = of_pickups s0 @ [?q]" "\<not> list_ex (pickup_clash ?q) (of_pickups s0)" "of_log s1 = of_log s0"
      using s1 by (auto simp: create_pickup_def create_row_def rbind_Inr_iff bump_seq_def split: if_splits)
    have "\<not> checkpoint_request (replacement_audit actr p ?q)" by (rule pickup_entry_plain) (simp add: replacement_audit_def)
    then have "logs w0 (replacement_audit actr p ?q) (of_log s) (of_log s')"
      using logs_office_audit [OF audit w] rows same by simp
    moreover have "\<not> decision_input j (replacement_audit actr p ?q)" for j
    proof -
      have "''PICKUP_CREATE'' \<notin> set DECISION_ACTIONS" by code_simp
      then show ?thesis by (simp add: decision_input_def replacement_audit_def)
    qed
    ultimately have "aside w0 (of_log s) (of_log s')" by (auto simp: aside_def)
    then show ?thesis using rows same st p office_audit_db [OF audit] find_by_SomeD [OF p]
      by (intro change_creation [of s' s ?q]) (simp_all add: new_pickup_def)
  qed
qed

lemma claim_change:
  assumes keys: "pickup_keys s" and w: "same_signer w0 w" and ok: "claim_escalation w now c s = Inr (x, s')"
  shows "office_change w0 s s'"
proof -
  let ?f = "\<lambda>p. p\<lparr>pck_lastEscalatedAt := Some now\<rparr>"
  let ?cond = "\<lambda>p. pck_id p = pck_id c \<and> pck_version p = pck_version c \<and> overdue now p"
  obtain k s1 where upd: "update_pickups ?cond ?f s = Inr (k, s1)"
    and rest: "if k \<noteq> 1 then s' = s1 else office_audit w (escalation_audit w c) s1 = Inr s'"
    using ok by (auto simp: claim_escalation_def rbind_Inr_iff split: if_splits)
  have log: "of_log s1 = of_log s" using upd by (auto simp: update_pickups_def split: if_splits)
  have aside: "aside w0 (of_log s) (of_log s')"
  proof (cases "k = 1")
    case True
    have "''PICKUP_ESCALATE'' \<notin> set DECISION_ACTIONS" by code_simp
    then have "\<not> decision_input j (escalation_audit w c)" for j by (simp add: decision_input_def escalation_audit_def)
    moreover have "\<not> checkpoint_request (escalation_audit w c)" by (rule pickup_entry_plain) (simp add: escalation_audit_def)
    ultimately show ?thesis using logs_office_audit [of w "escalation_audit w c" s1 s' w0] rest True w log by (auto simp: aside_def)
  qed (use rest log in \<open>simp add: aside_def\<close>)
  have db: "of_pickups s' = of_pickups s1" using rest office_audit_db by (cases "k = 1") fastforce+
  show ?thesis
  proof (cases "find_by pck_id (pck_id c) (of_pickups s)")
    case None
    then have "\<forall>p \<in> set (of_pickups s). \<not> ?cond p" by (auto simp: find_by_None_iff image_iff)
    then have "of_pickups s1 = of_pickups s" using upd by (auto simp: update_pickups_def split: if_splits intro!: map_idI)
    then show ?thesis using aside db by (intro change_aside) simp_all
  next
    case (Some p)
    note one = update_pickups_one(1) [OF keys Some _ upd]
    show ?thesis
    proof (cases "?cond p")
      case True
      then have "of_pickups s1 = upd_by pck_id (pck_id c) (\<lambda>_. ?f p) (of_pickups s)" using one by simp
      then show ?thesis using Some True aside db by (intro change_escalation) simp_all
    next
      case False
      then have "of_pickups s1 = of_pickups s" using one by auto
      then show ?thesis using aside db by (intro change_aside) simp_all
    qed
  qed
qed

abbreviation office_changes :: "audit_world \<Rightarrow> office \<Rightarrow> office \<Rightarrow> bool" where
  "office_changes w \<equiv> (office_change w)\<^sup>*\<^sup>*"

lemma changes_keys: "office_changes w s s' \<Longrightarrow> pickup_keys s \<Longrightarrow> pickup_keys s'"
  by (induction rule: rtranclp_induct) (auto intro: change_keys)

lemma escalate_each_changes:
  assumes "same_signer w0 w"
  shows "pickup_keys s \<Longrightarrow> escalate_each w now cs s = (es, e, s') \<Longrightarrow> office_changes w0 s s'"
proof (induction cs arbitrary: s es)
  case (Cons c cs)
  show ?case
  proof (cases "office_transaction (claim_escalation w now c) s")
    case (Inr x)
    obtain b s1 where x: "x = (b, s1)" by force
    have step: "office_change w0 s s1"
      using transaction_change [OF Inr [unfolded x] Cons.prems(1)] claim_change [OF _ assms] by blast
    obtain rest where "escalate_each w now cs s1 = (rest, e, s')"
      using Cons.prems(2) Inr x by (auto simp: Let_def split: prod.splits if_splits)
    from Cons.IH [OF change_keys [OF step Cons.prems(1)] this] step show ?thesis by (rule converse_rtranclp_into_rtranclp [rotated])
  qed (use Cons.prems in simp)
qed simp

lemma logAudit_aside:
  assumes "same_signer w0 w" "\<not> checkpoint_request inp" "\<And>i. \<not> decision_input i inp"
  shows "aside w0 t (logAudit w inp t)"
proof (cases "appendAuditEntry w inp None t")
  case (Inr x)
  then have "logAuditInTransaction w inp t = Inr (logAudit w inp t)"
    by (cases x) (simp add: logAuditInTransaction_def logAudit_def)
  then show ?thesis using assms by (auto simp: aside_def logs_def)
qed (simp add: logAudit_def aside_def)

lemma closing_reason_ok: "closing_reason inp = Inr r \<Longrightarrow> if closing (tr_action inp) then valid_reason r else r = None"
  by (auto simp: closing_reason_def rbind_Inr_iff parseReason_def valid_reason_def split: option.splits if_splits)

lemma transitionPickup_ok:
  assumes "transitionPickup w before actr i inp s = Inr ((q, ns), s')"
  obtains ev reason mid p where "assertActionRole actr (tr_action inp) = Inr ()" "expected_version actr inp = Inr ev" "closing_reason inp = Inr reason"
    "office_transaction (transition_transaction w actr i inp mid ev reason) s = Inr ((q, p), s')"
  using assms by (auto simp: transitionPickup_def rbind_Inr_iff split: if_splits)

lemma assignPickup_ok:
  assumes "assignPickup dt w before actr i inp s = Inr ((q, ns), s')"
  obtains n deadline p where "assertActionRole actr Act_assign = Inr ()" "parseExpectedVersion (as_expectedVersion inp) = Inr n"
    "\<exists>ref. readImmutable i before = Inr ref \<and> assertDispatcher actr (pck_organizationId ref) = Inr ()"
    "office_transaction (assign_transaction w actr i (as_collectorId inp) n deadline) s = Inr ((q, p), s')"
  using assms by (auto simp: assignPickup_def rbind_Inr_iff split: if_splits)

lemma patch_change:
  assumes keys: "pickup_keys s" and w: "same_signer w0 w" and ok: "patch_pickup dt w before actr i body s = Inr ((q, ns), s')"
  shows "office_change w0 s s'"
proof (cases "pa_action body = Act_assign")
  case True
  then obtain inp where "assignPickup dt w before actr i inp s = Inr ((q, ns), s')"
    using ok by (auto simp: patch_pickup_def rbind_Inr_iff split: if_splits option.splits)
  then obtain n deadline p where "office_transaction (assign_transaction w actr i (as_collectorId inp) n deadline) s = Inr ((q, p), s')"
    by (rule assignPickup_ok)
  then show ?thesis by (rule transaction_change [OF _ keys]) (rule assign_change [OF _ w])
next
  case False
  define inp where "inp = \<lparr>tr_action = pa_action body, tr_expectedVersion = pa_expectedVersion body, tr_reason = pa_reason body, tr_notes = pa_notes body\<rparr>"
  then have inp: "tr_action inp = pa_action body" "transitionPickup w before actr i inp s = Inr ((q, ns), s')"
    using ok False by (auto simp: patch_pickup_def rbind_Inr_iff)
  from inp(2) obtain ev reason mid p where "closing_reason inp = Inr reason"
    and tx: "office_transaction (transition_transaction w actr i inp mid ev reason) s = Inr ((q, p), s')"
    by (rule transitionPickup_ok)
  then have reason: "if closing (tr_action inp) then valid_reason reason else reason = None" by (intro closing_reason_ok)
  have "tr_action inp \<noteq> Act_assign" using False inp(1) by simp
  then show ?thesis by (intro transaction_change [OF tx keys] transition_change [OF _ w _ reason])
qed

lemma post_change:
  assumes keys: "pickup_keys s" and w: "same_signer w0 w" and ok: "post_pickup w before actr inp s = Inr (x, s')"
  shows "office_change w0 s s'"
proof (cases "given (ci_replacesPickupId inp)")
  case (Some old)
  then obtain mid where "office_transaction (replacement_transaction w actr old mid (ci_priority inp) (ci_notes inp)) s = Inr (x, s')"
    using ok by (auto simp: post_pickup_def createReplacementPickup_def rbind_Inr_iff)
  then show ?thesis by (rule transaction_change [OF _ keys]) (rule replacement_change [OF w])
next
  case None
  let ?p = "\<lambda>org. new_pickup w s actr (ci_machineId inp) org (ci_reason inp) (nullish (ci_priority inp) 0) (ci_notes inp) None"
  from ok None consider "s' = s"
    | org s1 where "create_pickup (?p org) s = Inr s1" "s' = s1\<lparr>of_log := logAudit w (create_audit actr (?p org) (ci_machineId inp)) (of_log s1)\<rparr>"
    by (auto simp: post_pickup_def rbind_Inr_iff Let_def split: option.splits)
  then show ?thesis
  proof cases
    case 1
    then show ?thesis by (intro change_aside) (simp_all add: aside_def)
  next
    case 2
    have "''PICKUP_CREATE'' \<notin> set DECISION_ACTIONS" by code_simp
    then have "aside w0 t (logAudit w (create_audit actr (?p org) (ci_machineId inp)) t)" for t
      using w by (intro logAudit_aside pickup_entry_plain) (simp_all add: create_audit_def decision_input_def)
    moreover have "of_pickups s1 = of_pickups s @ [?p org]" "\<not> list_ex (pickup_clash (?p org)) (of_pickups s)" "of_log s1 = of_log s"
      using 2(1) by (auto simp: create_pickup_def create_row_def rbind_Inr_iff bump_seq_def split: if_splits)
    ultimately show ?thesis using 2(2) by (intro change_creation [of s' s "?p org"]) (simp_all add: new_pickup_def)
  qed
qed

lemma item_change:
  assumes w: "same_signer w0 w" and ok: "record_item_transaction w actr i data s = Inr (x, s')"
  shows "office_change w0 s s'"
proof -
  obtain p item s1 where audit: "office_audit w (item_audit actr p item) s1 = Inr s'" and s1: "s1 = s\<lparr>of_items := of_items s @ [item]\<rparr>"
    using ok by (auto simp: record_item_transaction_def rbind_Inr_iff Let_def split: if_splits option.splits)
  have "\<not> checkpoint_request (item_audit actr p item)" by (rule pickup_entry_plain) (simp add: item_audit_def)
  moreover have "\<not> decision_input j (item_audit actr p item)" for j by (simp add: decision_input_def item_audit_def)
  ultimately have "aside w0 (of_log s) (of_log s')" using logs_office_audit [OF audit w] s1 by (auto simp: aside_def)
  then show ?thesis using office_audit_db [OF audit] s1 by (intro change_aside) simp_all
qed

section \<open>The dispatch as a whole\<close>

text \<open>
  What happens to the state of the dispatch: requests of any user on any earlier reading, the reads that escalate
  and the escalation script, machine events that ask for a pickup, the checkpoint command, and
  everything else of the program, which may change any table but the tasks and logs no decision on a
  task. All worlds belong to one deployment.
\<close>

inductive dispatch_step :: "audit_world \<Rightarrow> office \<Rightarrow> office \<Rightarrow> bool" for w0 where
  step_patch: "same_signer w0 w \<Longrightarrow> patch_pickup dt w before actr i body s = Inr (x, s') \<Longrightarrow> dispatch_step w0 s s'"
| step_post: "same_signer w0 w \<Longrightarrow> post_pickup w before actr inp s = Inr (y, s') \<Longrightarrow> dispatch_step w0 s s'"
| step_item: "same_signer w0 w \<Longrightarrow> post_pickup_item w actr i data s = Inr (z, s') \<Longrightarrow> dispatch_step w0 s s'"
| step_read: "same_signer w0 w \<Longrightarrow> dispatch_step w0 s (escalateOnAdminRead w actr ids s)"
| step_escalate: "same_signer w0 w \<Longrightarrow> escalateOverduePickups w org ids limit now s = (es, e, s') \<Longrightarrow> dispatch_step w0 s s'"
| step_machine: "same_signer w0 w \<Longrightarrow> maybeCreateAutoPickup (world.truncate w) machine (of_db s) = Inr d \<Longrightarrow> dispatch_step w0 s (set_db d s)"
| step_other: "of_pickups s' = of_pickups s \<Longrightarrow> aside w0 (of_log s) (of_log s') \<Longrightarrow> dispatch_step w0 s s'"

abbreviation dispatch_run :: "audit_world \<Rightarrow> office \<Rightarrow> office \<Rightarrow> bool" where
  "dispatch_run w0 \<equiv> (dispatch_step w0)\<^sup>*\<^sup>*"

lemma latest_by_mem: "latest_by key rows = Some r \<Longrightarrow> r \<in> set rows"
proof -
  assume "latest_by key rows = Some r"
  then have "sort_key key rows \<noteq> []" "r = last (sort_key key rows)" by (auto simp: latest_by_def split: list.splits)
  then show "r \<in> set rows" using last_in_set [of "sort_key key rows"] by simp
qed

lemma auto_change:
  assumes keys: "pickup_keys s" and ok: "maybeCreateAutoPickup w machine (of_db s) = Inr d"
  shows "office_change w0 s (set_db d s)"
proof (cases "list_ex (\<lambda>p. pck_machineId p = Some (mac_id machine) \<and> pck_status p \<in> set PICKUP_OPEN) (of_pickups s)")
  case True
  then have "d = of_db s" using ok by (simp add: maybeCreateAutoPickup_def)
  then show ?thesis by (intro change_aside) (simp_all add: aside_def)
next
  case False
  then obtain p where p: "pickups d = of_pickups s @ [p]" "\<not> list_ex (pickup_clash p) (of_pickups s)" "pck_version p = 0"
    "pck_status p = PK_REQUESTED" "pck_closedReason p = None" "pck_replacesPickupId p = auto_replaces (mac_id machine) (of_db s)"
    using ok by (auto simp: maybeCreateAutoPickup_def create_row_def rbind_Inr_iff bump_seq_def split: if_splits)
  have "\<exists>q. find_by pck_id i (of_pickups s) = Some q \<and> pck_status q \<in> set PICKUP_REPLACEABLE" if replaces: "pck_replacesPickupId p = Some i" for i
  proof -
    obtain q where q: "latest_by (\<lambda>p. (pck_createdAt p, pck_id p)) (filter (\<lambda>p. pck_machineId p = Some (mac_id machine)) (of_pickups s)) = Some q"
      "pck_status q \<in> set PICKUP_REPLACEABLE" "pck_id q = i"
      using replaces p(6) by (auto simp: auto_replaces_def split: option.splits if_splits)
    have "q \<in> set (of_pickups s)" using latest_by_mem [OF q(1)] by simp
    then have "find_by pck_id i (of_pickups s) = Some q" using find_by_uniqI keys q(3) by (force simp: pickup_keys_def)
    then show ?thesis using q(2) by blast
  qed
  then show ?thesis using p by (intro change_creation [of "set_db d s" s p]) (simp_all add: aside_def)
qed

lemma step_changes:
  assumes "dispatch_step w0 s s'" "pickup_keys s"
  shows "office_changes w0 s s'"
  using assms
proof cases
  case (step_patch w dt before actr i body x)
  then show ?thesis using patch_change [OF assms(2)] by (cases x) blast
next
  case (step_post w before actr inp y)
  then show ?thesis using post_change [OF assms(2)] by blast
next
  case (step_item w actr i data z)
  then have "office_transaction (record_item_transaction w actr i data) s = Inr (z, s')"
    by (auto simp: post_pickup_item_def rbind_Inr_iff)
  then have "office_change w0 s s'" by (rule transaction_change [OF _ assms(2)]) (rule item_change [OF step_item(1)])
  then show ?thesis by blast
next
  case (step_read w actr ids)
  obtain es e t where each: "escalateOverduePickups w (if act_role actr = ADMIN then act_organizationId actr else None) ids (Some 20) None s = (es, e, t)"
    by (metis prod_cases3)
  have "s' = s \<or> s' = t" using step_read(1) each by (auto simp: escalateOnAdminRead_def split: prod.splits)
  moreover have "office_changes w0 s t"
    using escalate_each_changes [OF step_read(2) assms(2)] each by (auto simp: escalateOverduePickups_def Let_def)
  ultimately show ?thesis by auto
next
  case (step_escalate w org ids limit now es e)
  then show ?thesis using escalate_each_changes [OF step_escalate(1) assms(2)] by (auto simp: escalateOverduePickups_def Let_def)
next
  case (step_machine w machine d)
  then show ?thesis using auto_change [OF assms(2)] by blast
next
  case step_other
  then show ?thesis by (blast intro: change_aside)
qed

lemma run_changes:
  assumes "pickup_keys s"
  shows "dispatch_run w0 s s' \<Longrightarrow> office_changes w0 s s'"
proof (induction rule: rtranclp_induct)
  case (step t u)
  then show ?case using step_changes [of w0 t u] changes_keys [OF _ assms] by (meson rtranclp_trans)
qed simp

end
