(* ===== verification/Pickup_Inv.thy ===== *)
theory Pickup_Inv
  imports Pickup_Steps
begin

text \<open>
  Over any run of \<open>dispatch_step\<close>: how a task may progress, the invariant of tasks, replacements and the log, what
  a decision reads and leaves, escalations, and the steps of a collector's client.
\<close>

section \<open>Progress of a task\<close>

definition edges :: "(pickup_status \<times> pickup_status) set" where
  "edges = {(a, b). pickup_edge a b}"

text \<open>
  How a task may look later: the same task, as many decisions later as its version grew; without a
  decision only an escalation of an overdue assignment may have been noted, once.
\<close>

definition progress :: "pickup \<Rightarrow> pickup \<Rightarrow> bool" where
  "progress p q \<longleftrightarrow> same_task p q \<and> (\<exists>n. pck_version q = pck_version p + int n \<and> (pck_status p, pck_status q) \<in> edges ^^ n
     \<and> (n = 0 \<longrightarrow> q = p \<or> (pck_status p = PK_ASSIGNED \<and> pck_lastEscalatedAt p = None \<and> (\<exists>t. q = p\<lparr>pck_lastEscalatedAt := Some t\<rparr>))))"

lemma same_task_refl: "same_task p p" and same_task_trans: "same_task p q \<Longrightarrow> same_task q r \<Longrightarrow> same_task p r"
  by (simp_all add: same_task_def)

lemma progress_refl: "progress p p"
  unfolding progress_def using same_task_refl by (intro conjI exI [of _ 0]) auto

lemma decides_progress: "decides p q \<Longrightarrow> progress p q"
  unfolding progress_def decides_def edges_def by (intro conjI exI [of _ 1]) auto

lemma escalation_progress:
  assumes "overdue now p"
  shows "progress p (p\<lparr>pck_lastEscalatedAt := Some now\<rparr>)"
proof -
  have "same_task p (p\<lparr>pck_lastEscalatedAt := Some now\<rparr>)" by (simp add: same_task_def)
  moreover have "pck_status p = PK_ASSIGNED" "pck_lastEscalatedAt p = None" using assms by (simp_all add: overdue_def)
  ultimately show ?thesis unfolding progress_def by (intro conjI exI [of _ 0] impI disjI2 exI [of _ now]) simp_all
qed

lemma progress_trans:
  assumes "progress p q" "progress q r"
  shows "progress p r"
proof -
  obtain n where n: "same_task p q" "pck_version q = pck_version p + int n" "(pck_status p, pck_status q) \<in> edges ^^ n"
    "n = 0 \<longrightarrow> q = p \<or> (pck_status p = PK_ASSIGNED \<and> pck_lastEscalatedAt p = None \<and> (\<exists>t. q = p\<lparr>pck_lastEscalatedAt := Some t\<rparr>))"
    using assms(1) by (auto simp: progress_def)
  obtain m where m: "same_task q r" "pck_version r = pck_version q + int m" "(pck_status q, pck_status r) \<in> edges ^^ m"
    "m = 0 \<longrightarrow> r = q \<or> (pck_status q = PK_ASSIGNED \<and> pck_lastEscalatedAt q = None \<and> (\<exists>t. r = q\<lparr>pck_lastEscalatedAt := Some t\<rparr>))"
    using assms(2) by (auto simp: progress_def)
  have "(pck_status p, pck_status r) \<in> edges ^^ (n + m)" using n(3) m(3) by (auto simp: relpow_add)
  moreover have "n + m = 0 \<longrightarrow> r = p \<or> (pck_status p = PK_ASSIGNED \<and> pck_lastEscalatedAt p = None \<and> (\<exists>t. r = p\<lparr>pck_lastEscalatedAt := Some t\<rparr>))"
    using n(4) m(4) by auto
  ultimately show ?thesis
    using n(2) m(2) same_task_trans [OF n(1) m(1)] unfolding progress_def by (intro conjI exI [of _ "n + m"]) auto
qed

lemma progress_terminal:
  assumes "progress p q" "pck_status p \<in> set PICKUP_TERMINAL"
  shows "q = p"
proof -
  obtain n where n: "(pck_status p, pck_status q) \<in> edges ^^ n" "n = 0 \<longrightarrow> q = p \<or> pck_status p = PK_ASSIGNED"
    using assms(1) by (auto simp: progress_def)
  have "n = 0"
  proof (cases n)
    case (Suc k)
    then obtain b where "(pck_status p, b) \<in> edges" using n(1) relpow_Suc_D2 by metis
    then show ?thesis using terminal_no_edge [OF assms(2)] by (simp add: edges_def)
  qed simp
  then show ?thesis using n(2) assms(2) by (auto simp: PICKUP_TERMINAL_def)
qed

lemma progress_escalated:
  "progress p q \<Longrightarrow> pck_lastEscalatedAt p \<noteq> None \<Longrightarrow> pck_version q = pck_version p \<Longrightarrow> q = p"
  by (auto simp: progress_def)

lemma progress_version: "progress p q \<Longrightarrow> pck_version p \<le> pck_version q"
  by (auto simp: progress_def)

lemma change_progress:
  assumes "office_change w s s'" "find_by pck_id i (of_pickups s) = Some p"
  shows "\<exists>q. find_by pck_id i (of_pickups s') = Some q \<and> progress p q"
  using assms
proof (induction rule: office_change.induct)
  case (change_decision j s p' q s' inp)
  have "pck_id q = j" using find_by_SomeD [OF change_decision(1)] change_decision(2) by (simp add: decides_def same_task_def)
  then show ?case using find_after [OF change_decision(1), of q i] change_decision progress_refl decides_progress by (cases "i = j") auto
next
  case (change_escalation j s p' now s')
  have "pck_id (p'\<lparr>pck_lastEscalatedAt := Some now\<rparr>) = j" using find_by_SomeD [OF change_escalation(1)] by simp
  then show ?case using find_after [OF change_escalation(1), of "p'\<lparr>pck_lastEscalatedAt := Some now\<rparr>" i] change_escalation progress_refl escalation_progress
    by (cases "i = j") auto
next
  case (change_creation s' s p')
  then show ?case using progress_refl by (auto simp: find_by_append)
next
  case (change_aside s' s)
  then show ?case using progress_refl by auto
qed

lemma changes_progress:
  "office_changes w s s' \<Longrightarrow> find_by pck_id i (of_pickups s) = Some p \<Longrightarrow> \<exists>q. find_by pck_id i (of_pickups s') = Some q \<and> progress p q"
proof (induction rule: rtranclp_induct)
  case (step t u)
  then obtain q where "find_by pck_id i (of_pickups t) = Some q" "progress p q" by blast
  then show ?case using change_progress [OF step(2)] progress_trans by blast
qed (use progress_refl in blast)

lemma run_progress:
  assumes "pickup_keys s" "dispatch_run w s s'" "find_by pck_id i (of_pickups s) = Some p"
  obtains q where "find_by pck_id i (of_pickups s') = Some q" "progress p q"
  using changes_progress [OF run_changes [OF assms(1,2)] assms(3)] by blast

section \<open>What holds of all tasks\<close>

text \<open>
  Ids and replacement links are unique, a task that was replaced is closed, a cancelled or failed task has
  its reason, and the version of a task counts the decisions about it in the log.
\<close>

definition dispatch_inv :: "office \<Rightarrow> bool" where
  "dispatch_inv s \<longleftrightarrow> pickup_keys s
     \<and> (\<forall>p \<in> set (of_pickups s). pck_status p \<in> set PICKUP_REPLACEABLE \<longrightarrow> valid_reason (pck_closedReason p))
     \<and> (\<forall>p \<in> set (of_pickups s). \<forall>i. pck_replacesPickupId p = Some i \<longrightarrow>
          (\<exists>q. find_by pck_id i (of_pickups s) = Some q \<and> pck_status q \<in> set PICKUP_REPLACEABLE))
     \<and> (\<forall>p \<in> set (of_pickups s). \<forall>q \<in> set (of_pickups s). pck_replacesPickupId p \<noteq> None \<and> pck_replacesPickupId p = pck_replacesPickupId q \<longrightarrow> p = q)
     \<and> (\<forall>i. decisions i (of_log s) = (case find_by pck_id i (of_pickups s) of None \<Rightarrow> 0 | Some p \<Rightarrow> pck_version p))"

lemma dispatch_invI:
  assumes "pickup_keys s" "\<And>p. p \<in> set (of_pickups s) \<Longrightarrow> pck_status p \<in> set PICKUP_REPLACEABLE \<Longrightarrow> valid_reason (pck_closedReason p)"
    "\<And>p i. p \<in> set (of_pickups s) \<Longrightarrow> pck_replacesPickupId p = Some i
      \<Longrightarrow> \<exists>q. find_by pck_id i (of_pickups s) = Some q \<and> pck_status q \<in> set PICKUP_REPLACEABLE"
    "\<And>p q i. p \<in> set (of_pickups s) \<Longrightarrow> q \<in> set (of_pickups s) \<Longrightarrow> pck_replacesPickupId p = Some i \<Longrightarrow> pck_replacesPickupId q = Some i \<Longrightarrow> p = q"
    "\<And>i. decisions i (of_log s) = (case find_by pck_id i (of_pickups s) of None \<Rightarrow> 0 | Some p \<Rightarrow> pck_version p)"
  shows "dispatch_inv s"
  unfolding dispatch_inv_def using assms by (metis (no_types, lifting) not_None_eq)

lemma dispatch_invD:
  assumes "dispatch_inv s"
  shows "pickup_keys s" "p \<in> set (of_pickups s) \<Longrightarrow> pck_status p \<in> set PICKUP_REPLACEABLE \<Longrightarrow> valid_reason (pck_closedReason p)"
    "p \<in> set (of_pickups s) \<Longrightarrow> pck_replacesPickupId p = Some i \<Longrightarrow> \<exists>q. find_by pck_id i (of_pickups s) = Some q \<and> pck_status q \<in> set PICKUP_REPLACEABLE"
    "p \<in> set (of_pickups s) \<Longrightarrow> q \<in> set (of_pickups s) \<Longrightarrow> pck_replacesPickupId p = Some i \<Longrightarrow> pck_replacesPickupId q = Some i \<Longrightarrow> p = q"
    "decisions i (of_log s) = (case find_by pck_id i (of_pickups s) of None \<Rightarrow> 0 | Some p \<Rightarrow> pck_version p)"
  using assms unfolding dispatch_inv_def by (blast, blast, blast, simp, blast)

text \<open>A change of one row that is progress.\<close>

lemma inv_row_change:
  assumes inv: "dispatch_inv s" and p: "find_by pck_id i (of_pickups s) = Some p" and pq: "progress p q"
    and rows: "of_pickups s' = upd_by pck_id i (\<lambda>_. q) (of_pickups s)"
    and reason: "pck_status q \<in> set PICKUP_REPLACEABLE \<Longrightarrow> valid_reason (pck_closedReason q)" and keys: "pickup_keys s'"
    and log: "\<And>j. decisions j (of_log s') = decisions j (of_log s) + (if j = i then pck_version q - pck_version p else 0)"
  shows "dispatch_inv s'"
proof -
  have id: "pck_id p = i" "pck_id q = i" "pck_replacesPickupId q = pck_replacesPickupId p"
    using find_by_SomeD [OF p] pq by (auto simp: progress_def same_task_def)
  have find: "find_by pck_id j (of_pickups s') = (if j = i then Some q else find_by pck_id j (of_pickups s))" for j
    using find_after [OF p id(2)] rows by simp
  have mem: "r = q \<or> (r \<in> set (of_pickups s) \<and> pck_id r \<noteq> i)" if "r \<in> set (of_pickups s')" for r
    using that rows by (auto simp: upd_by_def)
  have pin: "p \<in> set (of_pickups s)" using find_by_SomeD [OF p] by simp
  show ?thesis
  proof (rule dispatch_invI [OF keys])
    fix r assume "r \<in> set (of_pickups s')" "pck_status r \<in> set PICKUP_REPLACEABLE"
    then show "valid_reason (pck_closedReason r)" using mem reason dispatch_invD(2) [OF inv] by blast
  next
    fix r j assume r: "r \<in> set (of_pickups s')" "pck_replacesPickupId r = Some j"
    then obtain t where t: "find_by pck_id j (of_pickups s) = Some t" "pck_status t \<in> set PICKUP_REPLACEABLE"
      using mem [OF r(1)] dispatch_invD(3) [OF inv, of r j] dispatch_invD(3) [OF inv pin, of j] id(3) by auto
    then show "\<exists>t. find_by pck_id j (of_pickups s') = Some t \<and> pck_status t \<in> set PICKUP_REPLACEABLE"
      using progress_terminal [OF pq] p by (auto simp: find PICKUP_REPLACEABLE_def PICKUP_TERMINAL_def)
  next
    fix r t j assume rt: "r \<in> set (of_pickups s')" "t \<in> set (of_pickups s')" "pck_replacesPickupId r = Some j" "pck_replacesPickupId t = Some j"
    have same: "a = b" if "a \<in> set (of_pickups s)" "b \<in> set (of_pickups s)" "pck_replacesPickupId a = Some j" "pck_replacesPickupId b = Some j" for a b
      using dispatch_invD(4) [OF inv] that by blast
    have other: "pck_replacesPickupId a \<noteq> Some j \<or> pck_replacesPickupId p \<noteq> Some j" if "a \<in> set (of_pickups s)" "pck_id a \<noteq> i" for a
      using same [OF that(1) pin] that(2) id(1) by blast
    show "r = t" using mem [OF rt(1)] mem [OF rt(2)]
    proof (elim disjE conjE)
      assume "r = q" "t \<in> set (of_pickups s)" "pck_id t \<noteq> i"
      then show ?thesis using other [of t] rt id(3) by simp
    next
      assume "r \<in> set (of_pickups s)" "pck_id r \<noteq> i" "t = q"
      then show ?thesis using other [of r] rt id(3) by simp
    next
      assume "r \<in> set (of_pickups s)" "t \<in> set (of_pickups s)"
      then show ?thesis using same rt by blast
    qed simp
  next
    fix j show "decisions j (of_log s') = (case find_by pck_id j (of_pickups s') of None \<Rightarrow> 0 | Some p \<Rightarrow> pck_version p)"
      using dispatch_invD(5) [OF inv, of j] p by (simp add: log find)
  qed
qed

lemma inv_creation:
  assumes inv: "dispatch_inv s" and rows: "of_pickups s' = of_pickups s @ [p]" and v: "pck_version p = 0" "pck_status p = PK_REQUESTED"
    and fresh: "\<not> list_ex (pickup_clash p) (of_pickups s)" and keys: "pickup_keys s'"
    and replaces: "\<forall>i. pck_replacesPickupId p = Some i \<longrightarrow> (\<exists>q. find_by pck_id i (of_pickups s) = Some q \<and> pck_status q \<in> set PICKUP_REPLACEABLE)"
    and log: "\<And>j. decisions j (of_log s') = decisions j (of_log s)"
  shows "dispatch_inv s'"
proof (rule dispatch_invI [OF keys])
  have new: "find_by pck_id (pck_id p) (of_pickups s) = None"
    using fresh by (auto simp: find_by_None_iff list_ex_iff pickup_clash_def image_iff)
  show "decisions j (of_log s') = (case find_by pck_id j (of_pickups s') of None \<Rightarrow> 0 | Some p \<Rightarrow> pck_version p)" for j
    using dispatch_invD(5) [OF inv, of j] new v by (auto simp: log rows find_by_append split: option.splits)  have link: "pck_replacesPickupId r \<noteq> Some i \<or> pck_replacesPickupId p \<noteq> Some i" if "r \<in> set (of_pickups s)" for r i
    using fresh that by (auto simp: list_ex_iff pickup_clash_def)
  fix r assume r: "r \<in> set (of_pickups s')"
  then have old: "r = p \<or> r \<in> set (of_pickups s)" using rows by auto
  show "valid_reason (pck_closedReason r)" if "pck_status r \<in> set PICKUP_REPLACEABLE"
    using old that v dispatch_invD(2) [OF inv, of r] by (auto simp: PICKUP_REPLACEABLE_def)
  show "\<exists>q. find_by pck_id i (of_pickups s') = Some q \<and> pck_status q \<in> set PICKUP_REPLACEABLE" if "pck_replacesPickupId r = Some i" for i
    using old that replaces dispatch_invD(3) [OF inv, of r i] by (auto simp: rows find_by_append)
  show "r = t" if "t \<in> set (of_pickups s')" "pck_replacesPickupId r = Some i" "pck_replacesPickupId t = Some i" for t i
  proof -
    have "t = p \<or> t \<in> set (of_pickups s)" using that(1) rows by auto
    then show ?thesis using old link [of r i] link [of t i] dispatch_invD(4) [OF inv, of r t i] that by auto
  qed
qed

lemma change_inv: "office_change w s s' \<Longrightarrow> dispatch_inv s \<Longrightarrow> dispatch_inv s'"
proof (induction rule: office_change.induct)
  case (change_decision i s p q s' inp)
  have keys: "pickup_keys s'"
    using change_keys [OF office_change.change_decision [OF change_decision(1-5)]] dispatch_invD(1) [OF change_decision(6)] by blast
  have only: "decision_input j inp \<longleftrightarrow> j = i" for j using change_decision(5) by (auto simp: decision_input_def)
  show ?case
    using inv_row_change [OF change_decision(6,1) decides_progress [OF change_decision(2)] change_decision(3) _ keys]
      logs_decisions [OF change_decision(4)] change_decision(2) only by (simp add: decides_def)
next
  case (change_escalation i s p now s')
  have keys: "pickup_keys s'"
    using change_keys [OF office_change.change_escalation [OF change_escalation(1-4)]] dispatch_invD(1) [OF change_escalation(5)] by blast
  show ?case
    using inv_row_change [OF change_escalation(5,1) escalation_progress [OF change_escalation(2)] change_escalation(3) _ keys]
      aside_decisions [OF change_escalation(4)] change_escalation(2) by (simp add: overdue_def PICKUP_REPLACEABLE_def)
next
  case (change_creation s' s p)
  have keys: "pickup_keys s'"
    using change_keys [OF office_change.change_creation [OF change_creation(1-7)]] dispatch_invD(1) [OF change_creation(8)] by blast
  show ?case
    by (rule inv_creation [OF change_creation(8,1-3,5) keys change_creation(6) aside_decisions [OF change_creation(7)]])
next
  case (change_aside s' s)
  from change_aside(3) show ?case
    unfolding dispatch_inv_def pickup_keys_def change_aside(1) aside_decisions [OF change_aside(2)] .
qed

lemma changes_inv: "office_changes w s s' \<Longrightarrow> dispatch_inv s \<Longrightarrow> dispatch_inv s'"
  by (induction rule: rtranclp_induct) (auto intro: change_inv)

text \<open>A deployment starts without tasks, on an archive of the log.\<close>

definition new_office :: "office \<Rightarrow> bool" where
  "new_office s \<longleftrightarrow> of_pickups s = [] \<and> legacy_log (of_log s) \<and> (\<forall>i. decisions i (of_log s) = 0)"

interpretation dispatch: invariant_system new_office "dispatch_step w" dispatch_inv for w
proof
  show "new_office s \<Longrightarrow> dispatch_inv s" for s by (simp add: new_office_def dispatch_inv_def pickup_keys_def uniq_def)
  show "dispatch_inv s \<Longrightarrow> dispatch_step w s s' \<Longrightarrow> dispatch_inv s'" for s s'
    using changes_inv step_changes dispatch_invD(1) by blast
qed

section \<open>The log of a run\<close>

lemma logs_writes: "writes_log w archived t \<Longrightarrow> logs w inp t t' \<Longrightarrow> writes_log w archived t'"
  by (auto simp: logs_def intro: writes_entry)

lemma aside_writes: "writes_log w archived t \<Longrightarrow> aside w t t' \<Longrightarrow> writes_log w archived t'"
  unfolding aside_def using logs_writes writes_checkpoint by blast

lemma change_writes: "office_change w s s' \<Longrightarrow> writes_log w archived (of_log s) \<Longrightarrow> writes_log w archived (of_log s')"
  by (induction rule: office_change.induct) (blast intro: logs_writes aside_writes)+

lemma changes_writes: "office_changes w s s' \<Longrightarrow> writes_log w archived (of_log s) \<Longrightarrow> writes_log w archived (of_log s')"
  by (induction rule: rtranclp_induct) (auto intro: change_writes)

lemma run_log:
  assumes secret: "getAuditSecret w = Inr secret" and new: "new_office s" and run: "dispatch_run w s s'" and n: "0 < n"
  shows "\<exists>v. verifyAuditChain w n (of_log s') = Some (Inr v) \<and> cv_broken v = None"
proof -
  have old: "legacy_log (of_log s)" and keys: "pickup_keys s" using new by (simp_all add: new_office_def pickup_keys_def uniq_def)
  obtain a where set: "archive_settled w secret (of_log s) a" using snapshot_ok [OF secret old] secret old by (auto simp: archive_settled_def)
  have "writes_log w (of_log s) (of_log s')" by (rule changes_writes [OF run_changes [OF keys run] writes_start])
  then have t: "written w (of_log s) a (of_log s')" by (rule writes_written [OF set])
  then show ?thesis using verdict_of_written [OF set t] verify_one_pass [OF written_keys [OF set t] n, of w] by auto
qed

section \<open>Versions\<close>

lemma committed_keys: "pickup_keys s \<Longrightarrow> pickup_keys (set_db (committed (of_db s)) s)"
  by (simp add: pickup_keys_def)

lemma committed_machines [simp]: "machines (committed d) = machines d"
  by (simp add: committed_def)

text \<open>What a decision that succeeded read and left.\<close>

lemma patch_row:
  assumes keys: "pickup_keys s" and ok: "patch_pickup dt w before actr i body s = Inr ((q, ns), s')"
  obtains p where "find_by pck_id i (of_pickups s) = Some p" "find_by pck_id i (of_pickups s') = Some q" "pck_version q = pck_version p + 1"
    "\<And>v. pa_expectedVersion body = Some v \<Longrightarrow> parseExpectedVersion (Some v) = Inr (pck_version p)"
proof (cases "pa_action body = Act_assign")
  case True
  then obtain inp where inp: "assignPickup dt w before actr i inp s = Inr ((q, ns), s')" "as_expectedVersion inp = pa_expectedVersion body"
    using ok by (auto simp: patch_pickup_def rbind_Inr_iff split: if_splits option.splits)
  obtain n deadline p where n: "parseExpectedVersion (as_expectedVersion inp) = Inr n"
    and tx: "office_transaction (assign_transaction w actr i (as_collectorId inp) n deadline) s = Inr ((q, p), s')"
    by (rule assignPickup_ok [OF inp(1)])
  obtain s1 where s1: "assign_transaction w actr i (as_collectorId inp) n deadline (set_db (committed (of_db s)) s) = Inr ((q, p), s1)"
    "s' = set_db (committed (of_db s1)) s1" by (rule office_transaction_ok [OF tx])
  note f = assign_transaction_ok [OF committed_keys [OF keys] s1(1)]
  have p: "find_by pck_id i (of_pickups s) = Some p" using f(1) by simp
  obtain t :: partner where q: "q = dispatch_to w (as_collectorId inp) (par_id t) deadline p" using f(4) by blast
  have "find_by pck_id i (of_pickups s') = Some q"
    using find_after_same [OF p, of q] find_by_SomeD [OF p] f(5) q s1(2) by (simp add: dispatch_to_def)
  moreover have "pck_version q = pck_version p + 1" by (simp add: q dispatch_to_def)
  moreover have "parseExpectedVersion (Some v) = Inr (pck_version p)" if "pa_expectedVersion body = Some v" for v
    using that n inp(2) f(2) by simp
  ultimately show thesis by (rule that [OF p])
next
  case False
  define inp where "inp = \<lparr>tr_action = pa_action body, tr_expectedVersion = pa_expectedVersion body, tr_reason = pa_reason body, tr_notes = pa_notes body\<rparr>"
  then have inp: "transitionPickup w before actr i inp s = Inr ((q, ns), s')"
    using ok False by (auto simp: patch_pickup_def rbind_Inr_iff)
  obtain ev reason mid p where ev: "expected_version actr inp = Inr ev"
    and tx: "office_transaction (transition_transaction w actr i inp mid ev reason) s = Inr ((q, p), s')" by (rule transitionPickup_ok [OF inp])
  obtain s1 where s1: "transition_transaction w actr i inp mid ev reason (set_db (committed (of_db s)) s) = Inr ((q, p), s1)"
    "s' = set_db (committed (of_db s1)) s1" by (rule office_transaction_ok [OF tx])
  obtain to s2 s3 where f: "find_by pck_id i (of_pickups s) = Some p" "ev = None \<or> ev = Some (pck_version p)" "q = moved_to to (tr_notes inp) reason p"
    "of_pickups s2 = upd_by pck_id i (\<lambda>_. q) (of_pickups s)" "free_machine (tr_action inp) p s2 = Inr s3"
    "office_audit w (transition_audit actr (tr_action inp) p q (ev \<noteq> None) reason) s3 = Inr s1"
    by (rule transition_transaction_ok [OF committed_keys [OF keys] s1(1)]) simp
  have "of_pickups s' = upd_by pck_id i (\<lambda>_. q) (of_pickups s)"
    using s1(2) office_audit_db [OF f(6)] free_machine_ok(1) [OF f(5)] f(4) by simp
  then have "find_by pck_id i (of_pickups s') = Some q"
    using find_after_same [OF f(1), of q] find_by_SomeD [OF f(1)] f(3) by (simp add: moved_to_def)
  moreover have "parseExpectedVersion (Some v) = Inr (pck_version p)" if "pa_expectedVersion body = Some v" for v
    using that ev f(2) by (auto simp: inp_def expected_version_def rbind_Inr_iff)
  ultimately show thesis using that [OF f(1)] f(3) by (simp add: moved_to_def)
qed

section \<open>Escalations\<close>

definition escalated_at :: "ident \<Rightarrow> int \<Rightarrow> office \<Rightarrow> bool" where
  "escalated_at i v s \<longleftrightarrow> (\<exists>q. find_by pck_id i (of_pickups s) = Some q \<and> (v < pck_version q \<or> v = pck_version q \<and> pck_lastEscalatedAt q \<noteq> None))"

lemma escalated_change: "office_change w s s' \<Longrightarrow> escalated_at i v s \<Longrightarrow> escalated_at i v s'"
proof -
  assume ch: "office_change w s s'" and "escalated_at i v s"
  then obtain p where p: "find_by pck_id i (of_pickups s) = Some p" "v < pck_version p \<or> v = pck_version p \<and> pck_lastEscalatedAt p \<noteq> None"
    by (auto simp: escalated_at_def)
  obtain q where q: "find_by pck_id i (of_pickups s') = Some q" "progress p q" using change_progress [OF ch p(1)] by blast
  show ?thesis
  proof (cases "v < pck_version q")
    case False
    then have "pck_version q = pck_version p" "pck_lastEscalatedAt p \<noteq> None" "v = pck_version p" using progress_version [OF q(2)] p(2) by auto
    then show ?thesis using progress_escalated [OF q(2)] q(1) by (auto simp: escalated_at_def)
  qed (use q(1) in \<open>simp add: escalated_at_def\<close>)
qed

lemma escalated_changes: "office_changes w s s' \<Longrightarrow> escalated_at i v s \<Longrightarrow> escalated_at i v s'"
  by (induction rule: rtranclp_induct) (auto intro: escalated_change)

lemma claim_escalated:
  assumes keys: "pickup_keys s" and ok: "office_transaction (claim_escalation w now c) s = Inr (True, s')"
  shows "\<not> escalated_at (pck_id c) (pck_version c) s" "escalated_at (pck_id c) (pck_version c) s'"
proof -
  let ?s = "set_db (committed (of_db s)) s"
  let ?f = "\<lambda>p. p\<lparr>pck_lastEscalatedAt := Some now\<rparr>"
  let ?cond = "\<lambda>p. pck_id p = pck_id c \<and> pck_version p = pck_version c \<and> overdue now p"
  obtain s1 where s1: "claim_escalation w now c ?s = Inr (True, s1)" "s' = set_db (committed (of_db s1)) s1"
    by (rule office_transaction_ok [OF ok])
  obtain s2 where upd: "update_pickups ?cond ?f ?s = Inr (1, s2)" and audit: "office_audit w (escalation_audit w c) s2 = Inr s1"
    using s1(1) by (auto simp: claim_escalation_def rbind_Inr_iff split: if_splits)
  have "filter ?cond (of_pickups s) \<noteq> []" using upd by (auto simp: update_pickups_def split: if_splits)
  then obtain p where p: "p \<in> set (of_pickups s)" "?cond p" by (auto simp: filter_empty_conv)
  then have found: "find_by pck_id (pck_id c) (of_pickups s) = Some p"
    using find_by_uniqI [of pck_id "of_pickups s" p] keys by (simp add: pickup_keys_def)
  have "of_pickups s2 = upd_by pck_id (pck_id c) (\<lambda>_. ?f p) (of_pickups s)"
    using update_pickups_one(1) [OF committed_keys [OF keys] _ _ upd, of "pck_id c" p] found p(2) by simp
  then have "find_by pck_id (pck_id c) (of_pickups s') = Some (?f p)"
    using find_after_same [OF found, of "?f p"] p(2) s1(2) office_audit_db [OF audit] by simp
  then show "escalated_at (pck_id c) (pck_version c) s'" using p(2) by (auto simp: escalated_at_def)
  show "\<not> escalated_at (pck_id c) (pck_version c) s" using found p(2) by (auto simp: escalated_at_def overdue_def)
qed

lemma each_escalated:
  assumes w: "same_signer w0 w"
  shows "pickup_keys s \<Longrightarrow> escalate_each w now cs s = (es, e, s') \<Longrightarrow> (x, ns) \<in> set es
    \<Longrightarrow> \<not> escalated_at (es_pickupId x) (es_version x) s \<and> escalated_at (es_pickupId x) (es_version x) s'"
proof (induction cs arbitrary: s es)
  case (Cons c cs)
  show ?case
  proof (cases "office_transaction (claim_escalation w now c) s")
    case (Inr r)
    obtain b s1 where r: "r = (b, s1)" by force
    have step: "office_change w0 s s1" by (rule transaction_change [OF Inr [unfolded r] Cons.prems(1)]) (rule claim_change [OF _ w])
    note keys1 = change_keys [OF step Cons.prems(1)]
    obtain rest where each: "escalate_each w now cs s1 = (rest, e, s')" and
      mem: "(x, ns) \<in> set rest \<or> b \<and> es_pickupId x = pck_id c \<and> es_version x = pck_version c"
      using Cons.prems(2,3) Inr r by (auto simp: Let_def split: prod.splits if_splits)
    from mem show ?thesis
    proof
      assume "(x, ns) \<in> set rest"
      from Cons.IH [OF keys1 each this] show ?thesis using escalated_change [OF step] by blast
    next
      assume x: "b \<and> es_pickupId x = pck_id c \<and> es_version x = pck_version c"
      then have "office_transaction (claim_escalation w now c) s = Inr (True, s1)" using Inr r by simp
      from claim_escalated [OF Cons.prems(1) this] escalated_changes [OF escalate_each_changes [OF w keys1 each]]
      show ?thesis using x by auto
    qed
  qed (use Cons.prems in simp)
qed simp

section \<open>Finishing a task\<close>

text \<open>A log the id generator can still extend.\<close>

definition fresh_log :: "audit_world \<Rightarrow> audit_log \<Rightarrow> bool" where
  "fresh_log w t \<longleftrightarrow> inj (w_newId w) \<and> (\<forall>r \<in> set t. \<exists>k < length t. au_id r = w_newId w k)"

lemma position_le_head:
  assumes "r \<in> set t" "au_chainSequence r = Some n"
  shows "n \<le> (case chain_head t of None \<Rightarrow> 0 | Some h \<Rightarrow> position h)"
proof -
  have r: "r \<in> set (v2_rows None t)" "position r = n" using assms by (auto simp: v2_rows_def after_cursor_def position_def)
  then have ne: "v2_rows None t \<noteq> []" by auto
  then have head: "chain_head t = Some (last (v2_rows None t))" by (simp add: chain_head_def split: list.splits)
  have "sorted (map position (v2_rows None t))" by (simp add: v2_rows_def)
  moreover obtain k where "k < length (v2_rows None t)" "v2_rows None t ! k = r" using r(1) by (auto simp: in_set_conv_nth)
  ultimately have "position r \<le> position (last (v2_rows None t))"
    using sorted_nth_mono [of "map position (v2_rows None t)" k "length (v2_rows None t) - 1"] ne by (simp add: last_conv_nth)
  then show ?thesis using head r(2) by simp
qed

lemma audit_succeeds:
  assumes secret: "getAuditSecret w = Inr secret" and fresh: "fresh_log w (of_log s)"
  shows "\<exists>s'. office_audit w inp s = Inr s' \<and> fresh_log w (of_log s')"
proof -
  let ?t = "of_log s"
  let ?n = "(case chain_head ?t of None \<Rightarrow> 0 | Some h \<Rightarrow> position h) + 1"
  let ?previous = "Option.bind (chain_head ?t) au_checksum"
  define row where "row = buildAuditRow w inp (w_now w)"
  define r where "r = row\<lparr>au_id := w_newId w (length ?t), au_chainSequence := Some ?n, au_previousHash := ?previous,
    au_checksum := Some (w_hmac w secret (link_text ?previous ?n (canonicalAuditPayload w row)))\<rparr>"
  have "au_id r \<noteq> au_id q" if "q \<in> set ?t" for q
  proof -
    have "\<exists>k < length ?t. au_id q = w_newId w k" using fresh that by (simp add: fresh_log_def)
    then obtain k where "k < length ?t" "au_id q = w_newId w k" by blast
    then show ?thesis using fresh by (auto simp: fresh_log_def inj_def r_def)
  qed
  moreover have "au_chainSequence q \<noteq> Some ?n" if "q \<in> set ?t" for q using position_le_head [OF that] by fastforce
  moreover have "au_chainSequence r = Some ?n" by (simp add: r_def)
  ultimately have new: "\<not> list_ex (audit_clash r) ?t" unfolding list_ex_iff audit_clash_def by metis
  have "appendAuditEntry w inp None ?t = (if list_ex (audit_clash r) ?t then Inl (PrismaError ''P2002'')
      else Inr ((au_id r, ?n, nullish (au_checksum r) []), ?t @ [r]))"
    unfolding appendAuditEntry_def Let_def checksumV2_def secret rbind_simps by (simp add: r_def row_def)
  then have "office_audit w inp s = Inr (s\<lparr>of_log := ?t @ [r]\<rparr>)" using new by (simp add: office_audit_def logAuditInTransaction_def)
  moreover have "fresh_log w (?t @ [r])" using fresh by (auto simp: fresh_log_def less_Suc_eq r_def)
  ultimately show ?thesis by auto
qed

text \<open>The collector's client: it reads the task and sends the next step with the version it read.\<close>

definition client_step :: "audit_world \<Rightarrow> actor \<Rightarrow> ident \<Rightarrow> pickup_action \<Rightarrow> office \<Rightarrow> office result" where
  "client_step w actr i a s =
     rbind (readImmutable i s) (\<lambda>p.
     rbind (patch_pickup (\<lambda>_. False) w s actr i \<lparr>pa_action = a, pa_collectorUserId = None,
         pa_expectedVersion = Some (JNum (of_int (pck_version p)) (show_int (pck_version p))), pa_expectedStartAt = None, pa_reason = None, pa_notes = None\<rparr> s)
       (\<lambda>(_, s'). Inr s'))"

fun client_steps :: "audit_world \<Rightarrow> actor \<Rightarrow> ident \<Rightarrow> pickup_action list \<Rightarrow> office \<Rightarrow> office result" where
  "client_steps w actr i [] s = Inr s"
| "client_steps w actr i (a # as) s = rbind (client_step w actr i a s) (client_steps w actr i as)"

text \<open>A task its collector can work on, with room for a number of further versions.\<close>

definition workable :: "audit_world \<Rightarrow> actor \<Rightarrow> ident \<Rightarrow> pickup_status \<Rightarrow> int \<Rightarrow> office \<Rightarrow> bool" where
  "workable w actr i st room s \<longleftrightarrow> act_role actr = PENGEPUL \<and> pickup_keys s \<and> fresh_log w (of_log s)
     \<and> (\<exists>p. find_by pck_id i (of_pickups s) = Some p \<and> pck_status p = st \<and> pck_assignedCollectorId p = Some (act_id actr)
        \<and> lockedPartnership (act_id actr) (pck_organizationId p) s \<noteq> None
        \<and> 0 \<le> pck_version p \<and> pck_version p + room \<le> 2147483647 \<and> int4 (pck_priority p)
        \<and> (\<forall>m. pck_machineId p = Some m \<longrightarrow> find_by mac_id m (machines (of_db s)) \<noteq> None))"

lemma update_pickups_succeeds:
  assumes keys: "pickup_keys s" and p: "find_by pck_id i (of_pickups s) = Some p" and cond: "\<And>r. cond r \<Longrightarrow> pck_id r = i" "cond p" and ok: "pickup_ok (f p)"
  shows "update_pickups cond f s = Inr (1, set_db ((of_db s)\<lparr>pickups := upd_by pck_id i (\<lambda>_. f p) (of_pickups s)\<rparr>) s)"
proof -
  have only: "r = p" if "r \<in> set (of_pickups s)" "cond r" for r
    using find_by_uniqI [of pck_id "of_pickups s" r] keys that cond(1) p by (simp add: pickup_keys_def)
  then have "\<not> list_ex (\<lambda>r. cond r \<and> \<not> pickup_ok (f r)) (of_pickups s)" using ok by (auto simp: list_ex_iff)
  then obtain n s' where run: "update_pickups cond f s = Inr (n, s')" by (auto simp: update_pickups_def)
  from update_pickups_one [OF keys p cond(1) run] cond(2) run show ?thesis by auto
qed

lemma free_machine_succeeds: "\<exists>s'. free_machine a p s = Inr s'"
proof (cases "pck_machineId p")
  case (Some m)
  then show ?thesis
    by (cases "find_by mac_id m (machines (of_db s))") (simp_all add: free_machine_def update_machine_def update_row_def)
qed (simp add: free_machine_def)

definition forward :: "pickup_action \<Rightarrow> bool" where
  "forward a \<longleftrightarrow> a \<in> {Act_start, Act_arrive, Act_collect, Act_complete}"

lemma forward_rule:
  assumes "forward a"
  shows "RULES a = field_rule [hd (rule_from (RULES a))] (rule_to (RULES a))" "\<not> closing a" "a \<noteq> Act_assign"
  using assms by (auto simp: forward_def field_rule_def closing_def)

lemma transition_runs:
  assumes secret: "getAuditSecret w = Inr secret" and a: "forward (tr_action inp)" and inp: "tr_notes inp = None" and room: "1 \<le> room"
    and work: "workable w actr i (hd (rule_from (RULES (tr_action inp)))) room s" and p: "find_by pck_id i (of_pickups s) = Some p"
  shows "\<exists>s'. transition_transaction w actr i inp (pck_machineId p) (Some (pck_version p)) None s
      = Inr ((moved_to (rule_to (RULES (tr_action inp))) None None p, p), s') \<and> fresh_log w (of_log s') \<and> of_partners s' = of_partners s"
proof -
  let ?a = "tr_action inp" and ?q = "moved_to (rule_to (RULES (tr_action inp))) None None p"
  from work p have st: "pck_status p = hd (rule_from (RULES ?a))" and role: "act_role actr = PENGEPUL" "pck_assignedCollectorId p = Some (act_id actr)"
    and partner: "lockedPartnership (act_id actr) (pck_organizationId p) s \<noteq> None" and ok: "pickup_ok ?q"
    and machine: "\<forall>m. pck_machineId p = Some m \<longrightarrow> find_by mac_id m (machines (of_db s)) \<noteq> None" and keys: "pickup_keys s" and log: "fresh_log w (of_log s)"
    using room by (auto simp: workable_def pickup_ok_def moved_to_def int4_def)
  obtain s0 where s0: "(case pck_machineId p of Some m \<Rightarrow> if ?a = Act_complete then lock_office_machine m s else Inr s | None \<Rightarrow> Inr s) = Inr s0"
    and same: "of_pickups s0 = of_pickups s" "of_partners s0 = of_partners s" "of_log s0 = of_log s"
  proof (cases "pck_machineId p")
    case (Some m)
    then show ?thesis using machine that [of "if ?a = Act_complete then set_db (acquire (LMachine m) (of_db s)) s else s"]
      by (cases "?a = Act_complete") (simp_all add: lock_office_machine_def lockMachine_def acquire_def)
  qed (use that [of s] in simp)
  have res: "resolvePickupTransition ?a (context_of actr p) = Inr (rule_to (RULES ?a))"
    unfolding resolve_ok by (subst (1 2 3 4) forward_rule(1) [OF a]) (simp add: context_of_def role st field_rule_def)
  have upd: "update_pickups (\<lambda>r. pck_id r = i \<and> pck_version r = pck_version p \<and> pck_status r = pck_status p
      \<and> pck_assignedCollectorId r = pck_assignedCollectorId p) (moved_to (rule_to (RULES ?a)) (tr_notes inp) None) s0
      = Inr (1, set_db ((of_db s0)\<lparr>pickups := upd_by pck_id i (\<lambda>_. ?q) (of_pickups s0)\<rparr>) s0)" (is "_ = Inr (1, ?s1)")
    unfolding inp using keys p find_by_SomeD [OF p] ok by (intro update_pickups_succeeds) (simp_all add: same pickup_keys_def)
  obtain s2 where s2: "free_machine ?a p ?s1 = Inr s2" using free_machine_succeeds by blast
  have pick2: "of_pickups s2 = upd_by pck_id i (\<lambda>_. ?q) (of_pickups s)" and log2: "of_log s2 = of_log s"
    using free_machine_ok(1) [OF s2] free_machine_log [OF s2] by (simp_all add: same)
  have find2: "find_by pck_id i (of_pickups s2) = Some ?q"
    unfolding pick2 using p find_by_SomeD [OF p] by (intro find_after_same) (simp_all add: moved_to_def)
  obtain s3 where s3: "office_audit w (transition_audit actr ?a p ?q True None) s2 = Inr s3" "fresh_log w (of_log s3)"
    using audit_succeeds [OF secret, of s2] log log2 by auto
  have part3: "of_partners s3 = of_partners s"
    using s3(1) free_machine_ok(2) [OF s2] same(2) by (auto simp: office_audit_def rbind_Inr_iff) (metis set_db_sel(3))
  have lock: "lockedPartnership c g s0 = lockedPartnership c g s" for c g by (simp add: lockedPartnership_def same)
  have ctx: "resolvePickupTransition ?a \<lparr>ctx_status = pck_status p, ctx_role = PENGEPUL, ctx_isAssignedCollector = True, ctx_isOrgAdmin = False\<rparr>
      = Inr (rule_to (RULES ?a))" using res by (simp add: context_of_def role)
  obtain y where y: "lockedPartnership (act_id actr) (pck_organizationId p) s = Some y" using partner by blast
  have "transition_transaction w actr i inp (pck_machineId p) (Some (pck_version p)) None s = Inr ((?q, p), s3)"
    unfolding transition_transaction_def Let_def s0 rbind_simps
    using p y ctx upd s2 find2 s3(1) lock by (simp add: lockPickupRequest_def find_or_throw_def same role)
  then show ?thesis using s3(2) part3 by blast
qed

lemma client_step_runs:
  assumes secret: "getAuditSecret w = Inr secret" and a: "forward a" and room: "1 \<le> room" and work: "workable w actr i (hd (rule_from (RULES a))) room s"
  shows "\<exists>s'. client_step w actr i a s = Inr s' \<and> workable w actr i (rule_to (RULES a)) (room - 1) s'
    \<and> (a = Act_complete \<longrightarrow> (\<forall>p m. find_by pck_id i (of_pickups s) = Some p \<longrightarrow> pck_machineId p = Some m
        \<longrightarrow> machines (of_db s') = upd_by mac_id m reset_machine (machines (of_db s))))"
proof -
  let ?to = "rule_to (RULES a)"
  obtain p where p: "find_by pck_id i (of_pickups s) = Some p" "pck_assignedCollectorId p = Some (act_id actr)" "0 \<le> pck_version p"
      "pck_version p + room \<le> 2147483647" and role: "act_role actr = PENGEPUL" and keys: "pickup_keys s"
    using work by (auto simp: workable_def)
  let ?q = "moved_to ?to None None p"
  let ?v = "JNum (of_int (pck_version p)) (show_int (pck_version p))"
  define inp where "inp = \<lparr>tr_action = a, tr_expectedVersion = Some ?v, tr_reason = None, tr_notes = None\<rparr>"
  let ?s = "set_db (committed (of_db s)) s"
  have work0: "workable w actr i (hd (rule_from (RULES (tr_action inp)))) room ?s"
    using work by (simp add: workable_def inp_def pickup_keys_def lockedPartnership_def committed_def)
  have p0: "find_by pck_id i (of_pickups ?s) = Some p" using p(1) by simp
  have a': "forward (tr_action inp)" "tr_notes inp = None" using a by (simp_all add: inp_def)
  obtain s1 where s1: "transition_transaction w actr i inp (pck_machineId p) (Some (pck_version p)) None ?s = Inr ((?q, p), s1)"
    "fresh_log w (of_log s1)" "of_partners s1 = of_partners s"
    using transition_runs [OF secret a'(1,2) room work0 p0] by (auto simp: inp_def)
  let ?s' = "set_db (committed (of_db s1)) s1"
  have tx: "office_transaction (transition_transaction w actr i inp (pck_machineId p) (Some (pck_version p)) None) s = Inr ((?q, p), ?s')"
    using s1(1) by (simp add: office_transaction_def)
  have version: "parseExpectedVersion (Some ?v) = Inr (pck_version p)"
    using p(3,4) room by (simp add: parseExpectedVersion_def)
  have roles: "rule_roles (RULES a) = [PENGEPUL, SUPERADMIN]" by (subst forward_rule(1) [OF a]) (simp add: field_rule_def)
  have parts: "assertActionRole actr a = Inr ()" "expected_version actr inp = Inr (Some (pck_version p))" "closing_reason inp = Inr None"
    using role roles version forward_rule(2) [OF a]
    by (simp_all add: inp_def expected_version_def closing_reason_def assertActionRole_def pickupActionRoles_def)
  have act: "tr_action inp = a" by (simp add: inp_def)
  have "transitionPickup w s actr i inp s = Inr ((?q, transition_notices a ?q p ?s'), ?s')"
    unfolding transitionPickup_def act parts rbind_simps readImmutable_def p(1) option.case tx prod.case using p(2) role by simp
  then have "patch_pickup (\<lambda>_. False) w s actr i \<lparr>pa_action = a, pa_collectorUserId = None, pa_expectedVersion = Some ?v,
      pa_expectedStartAt = None, pa_reason = None, pa_notes = None\<rparr> s = Inr ((?q, transition_notices a ?q p ?s'), ?s')"
    using forward_rule(3) [OF a] by (simp add: patch_pickup_def require_role_def role inp_def)
  then have run: "client_step w actr i a s = Inr ?s'"
    unfolding client_step_def readImmutable_def p(1) option.case rbind_simps by simp
  obtain to s2 s3 where f: "of_pickups s2 = upd_by pck_id i (\<lambda>_. ?q) (of_pickups s)" "machines (of_db s2) = machines (of_db ?s)"
    "free_machine a p s2 = Inr s3" "office_audit w (transition_audit actr a p ?q True None) s3 = Inr s1"
    by (rule transition_transaction_ok [OF committed_keys [OF keys] s1(1)]) (simp add: inp_def)
  have db1: "of_db s1 = of_db s3" using office_audit_db [OF f(4)] .
  have rows: "of_pickups ?s' = upd_by pck_id i (\<lambda>_. ?q) (of_pickups s)" using f(1) free_machine_ok(1) [OF f(3)] db1 by simp
  have find: "find_by pck_id i (of_pickups ?s') = Some ?q"
    unfolding rows using p(1) find_by_SomeD [OF p(1)] by (intro find_after_same) (simp_all add: moved_to_def)
  have machines: "machines (of_db s1) = (if a = Act_complete then (case pck_machineId p of None \<Rightarrow> machines (of_db s) | Some m \<Rightarrow> upd_by mac_id m reset_machine (machines (of_db s)))
      else machines (of_db s))"
    using f(2,3) free_machine_ok(3) [OF f(3)] db1 by (auto simp: free_machine_def committed_def split: option.splits)
  have "workable w actr i ?to (room - 1) ?s'"
  proof -
    have "find_by mac_id m (machines (of_db ?s')) \<noteq> None" if "find_by mac_id m (machines (of_db s)) \<noteq> None" for m
      using that by (auto simp: machines find_by_upd_by reset_machine_def split: option.splits)
    moreover have "pickup_keys ?s'"
      using keys find_by_SomeD [OF p(1)] unfolding pickup_keys_def rows
      by (auto simp: uniq_def upd_by_def comp_def moved_to_def if_distrib cong: if_cong)
    moreover have "lockedPartnership c g ?s' = lockedPartnership c g s" for c g using s1(3) by (simp add: lockedPartnership_def)
    ultimately show ?thesis using work p find s1(2) by (auto simp: workable_def moved_to_def)
  qed
  then show ?thesis using run machines p(1) by auto
qed

end
