(* ===== verification/Pickup_Props.thy ===== *)
theory Pickup_Props
  imports Pickup_Inv
begin

text \<open>
  What the dispatch of pickups promises, over any run of \<open>dispatch_step\<close>: tasks follow the life cycle and closed
  tasks never change; of the decisions carrying one version at most one succeeds; a version is escalated
  at most once; every decision is in the audit log, which verifies; only the assigned collector with a
  live partnership does field work; and such a collector can finish the task.
\<close>

section \<open>Who decides\<close>

text \<open>An active partnership of a collector with an organization.\<close>

definition active_partner :: "ident \<Rightarrow> ident \<Rightarrow> office \<Rightarrow> bool" where
  "active_partner c organizationId s \<longleftrightarrow>
     (\<exists>t \<in> set (of_partners s). par_collectorUserId t = c \<and> par_organizationId t = organizationId \<and> par_status t = PS_ACTIVE)"

lemma locked_active: "lockedPartnership c g s \<noteq> None \<Longrightarrow> active_partner c g s"
proof -
  assume "lockedPartnership c g s \<noteq> None"
  then obtain t ts where "filter (\<lambda>p. par_organizationId p = g \<and> par_collectorUserId p = c) (of_partners s) = t # ts" "par_status t = PS_ACTIVE"
    by (auto simp: lockedPartnership_def split: list.splits if_splits)
  then have "t \<in> set (filter (\<lambda>p. par_organizationId p = g \<and> par_collectorUserId p = c) (of_partners s))" by simp
  with \<open>par_status t = PS_ACTIVE\<close> show ?thesis by (auto simp: active_partner_def)
qed

lemma before_organization:
  assumes "pickup_keys before" "dispatch_run w before s" "readImmutable i before = Inr ref" "find_by pck_id i (of_pickups s) = Some p"
  shows "pck_organizationId p = pck_organizationId ref"
proof -
  have "find_by pck_id i (of_pickups before) = Some ref" using assms(3) by (simp add: readImmutable_def split: option.splits)
  then obtain q where "find_by pck_id i (of_pickups s) = Some q" "progress ref q" by (rule run_progress [OF assms(1,2)])
  then show ?thesis using assms(4) by (simp add: progress_def same_task_def)
qed

lemma lockedPartnership_committed: "lockedPartnership c g (set_db d s) = lockedPartnership c g s"
  and role_of_committed: "role_of c (set_db d s) = role_of c s"
  by (simp_all add: lockedPartnership_def role_of_def)

lemma assign_authority:
  assumes keys: "pickup_keys s" and past: "pickup_keys before" "dispatch_run w0 before s"
    and ok: "assignPickup dt w before actr i inp s = Inr ((q, ns), s')"
  obtains p c where "find_by pck_id i (of_pickups s) = Some p" "act_role actr = SUPERADMIN \<or> act_role actr = ADMIN \<and> act_organizationId actr = Some (pck_organizationId p)"
    "pck_assignedCollectorId q = Some c" "user_active c s" "role_of c s = Some PENGEPUL" "lockedPartnership c (pck_organizationId p) s \<noteq> None"
proof -
  obtain n deadline p ref where ref: "readImmutable i before = Inr ref" "assertDispatcher actr (pck_organizationId ref) = Inr ()"
    and tx: "office_transaction (assign_transaction w actr i (as_collectorId inp) n deadline) s = Inr ((q, p), s')"
    by (rule assignPickup_ok [OF ok]) blast
  obtain s1 where s1: "assign_transaction w actr i (as_collectorId inp) n deadline (set_db (committed (of_db s)) s) = Inr ((q, p), s1)"
    by (rule office_transaction_ok [OF tx])
  note f = assign_transaction_ok [OF committed_keys [OF keys] s1]
  have p: "find_by pck_id i (of_pickups s) = Some p" using f(1) by simp
  have users: "users (committed d) = users d" for d by (simp add: committed_def)
  obtain u and t :: partner where u: "find_by usr_id (as_collectorId inp) (users (of_db s)) = Some u" "usr_status u = US_ACTIVE"
    "role_of (as_collectorId inp) s = Some PENGEPUL" "lockedPartnership (as_collectorId inp) (pck_organizationId p) s = Some t"
    "q = dispatch_to w (as_collectorId inp) (par_id t) deadline p"
    using f(4) by (auto simp: users lockedPartnership_committed role_of_committed)
  show thesis
    using ref(2) before_organization [OF past ref(1) p] u
    by (intro that [OF p, of "as_collectorId inp"]) (auto simp: assertDispatcher_def dispatch_to_def user_active_def split: if_splits)
qed

lemma transition_authority:
  assumes keys: "pickup_keys s" and ok: "transitionPickup w before actr i inp s = Inr ((q, ns), s')"
  obtains p where "find_by pck_id i (of_pickups s) = Some p" "act_role actr \<in> set (pickupActionRoles (tr_action inp))"
    "act_role actr = PENGEPUL \<Longrightarrow> pck_assignedCollectorId p = Some (act_id actr) \<and> lockedPartnership (act_id actr) (pck_organizationId p) s \<noteq> None"
    "act_role actr = ADMIN \<Longrightarrow> act_organizationId actr = Some (pck_organizationId p)"
proof -
  obtain ev reason mid p where tx: "office_transaction (transition_transaction w actr i inp mid ev reason) s = Inr ((q, p), s')"
    by (rule transitionPickup_ok [OF ok])
  obtain s1 where s1: "transition_transaction w actr i inp mid ev reason (set_db (committed (of_db s)) s) = Inr ((q, p), s1)"
    by (rule office_transaction_ok [OF tx])
  obtain to where f: "find_by pck_id i (of_pickups s) = Some p" "resolvePickupTransition (tr_action inp) (context_of actr p) = Inr to"
    "act_role actr = PENGEPUL \<Longrightarrow> lockedPartnership (act_id actr) (pck_organizationId p) s \<noteq> None"
    by (rule transition_transaction_ok [OF committed_keys [OF keys] s1]) (simp add: lockedPartnership_committed)
  have actor: "rule_actor (RULES a) = By_collector \<or> rule_actor (RULES a) = By_admin" "rule_actor (RULES a) = By_admin \<longleftrightarrow> PENGEPUL \<notin> set (rule_roles (RULES a))"
    "ADMIN \<in> set (rule_roles (RULES a)) \<longleftrightarrow> rule_actor (RULES a) = By_admin" for a
    by (cases a; simp add: field_rule_def admin_rule_def)+
  show thesis
    using f(2,3) actor [of "tr_action inp"]
    by (intro that [OF f(1)]) (auto simp: resolve_ok context_of_def pickupActionRoles_def)
qed

lemma patch_version:
  assumes "pickup_keys s" "patch_pickup dt w before actr i body s = Inr ((q, ns), s')" "pa_expectedVersion body = Some v"
  shows "\<exists>p. find_by pck_id i (of_pickups s) = Some p \<and> find_by pck_id i (of_pickups s') = Some q \<and> pck_version q = pck_version p + 1
    \<and> parseExpectedVersion (Some v) = Inr (pck_version p)"
  by (rule patch_row [OF assms(1,2)]) (use assms(3) in auto)

section \<open>Finishing a task\<close>

lemma client_step_change: "pickup_keys s \<Longrightarrow> client_step w actr i a s = Inr s' \<Longrightarrow> office_change w s s'"
  using patch_change [of s w w] by (fastforce simp: client_step_def rbind_Inr_iff same_signer_def)

lemma client_steps_finish:
  assumes secret: "getAuditSecret w = Inr secret" and work: "workable w actr i PK_ASSIGNED 4 s" and p: "find_by pck_id i (of_pickups s) = Some p"
  shows "\<exists>s' q. client_steps w actr i [Act_start, Act_arrive, Act_collect, Act_complete] s = Inr s' \<and> find_by pck_id i (of_pickups s') = Some q
    \<and> pck_status q = PK_COMPLETED \<and> (\<forall>m. pck_machineId p = Some m \<longrightarrow>
        (\<exists>mac. find_by mac_id m (machines (of_db s')) = Some mac \<and> mac_fillLevelPercent mac = 0 \<and> mac_status mac \<noteq> MS_FULL))"
proof -
  note go = client_step_runs [OF secret, of _ _ actr i]
  have fwd: "forward Act_start" "forward Act_arrive" "forward Act_collect" "forward Act_complete" by (simp_all add: forward_def)
  obtain s1 where s1: "client_step w actr i Act_start s = Inr s1" "workable w actr i PK_ON_THE_WAY 3 s1"
    using go [of Act_start 4 s] work by (auto simp: fwd field_rule_def)
  obtain s2 where s2: "client_step w actr i Act_arrive s1 = Inr s2" "workable w actr i PK_ARRIVED 2 s2"
    using go [of Act_arrive 3 s1] s1(2) by (auto simp: fwd field_rule_def)
  obtain s3 where s3: "client_step w actr i Act_collect s2 = Inr s3" "workable w actr i PK_COLLECTED 1 s3"
    using go [of Act_collect 2 s2] s2(2) by (auto simp: fwd field_rule_def)
  obtain s4 where s4: "client_step w actr i Act_complete s3 = Inr s4" "workable w actr i PK_COMPLETED 0 s4"
    and freed: "\<forall>q m. find_by pck_id i (of_pickups s3) = Some q \<longrightarrow> pck_machineId q = Some m
        \<longrightarrow> machines (of_db s4) = upd_by mac_id m reset_machine (machines (of_db s3))"
    using go [of Act_complete 1 s3] s3(2) by (auto simp: fwd field_rule_def)
  have keys: "pickup_keys s" "pickup_keys s1" "pickup_keys s2" using work s1(2) s2(2) by (simp_all add: workable_def)
  have "office_changes w s s3"
    using client_step_change [OF keys(1) s1(1)] client_step_change [OF keys(2) s2(1)] client_step_change [OF keys(3) s3(1)]
    by (meson r_into_rtranclp rtranclp.rtrancl_into_rtrancl)
  then obtain q3 where q3: "find_by pck_id i (of_pickups s3) = Some q3" "progress p q3" using changes_progress p by blast
  have "\<exists>mac. find_by mac_id m (machines (of_db s4)) = Some mac \<and> mac_fillLevelPercent mac = 0 \<and> mac_status mac \<noteq> MS_FULL"
    if m: "pck_machineId p = Some m" for m
  proof -
    have m3: "pck_machineId q3 = Some m" using q3(2) m by (simp add: progress_def same_task_def)
    then obtain mac where mac: "find_by mac_id m (machines (of_db s3)) = Some mac" using s3(2) q3(1) by (auto simp: workable_def)
    have "machines (of_db s4) = upd_by mac_id m reset_machine (machines (of_db s3))" using freed q3(1) m3 by blast
    then have "find_by mac_id m (machines (of_db s4)) = Some (reset_machine mac)" using mac by (simp add: find_by_upd_by reset_machine_def)
    then show ?thesis by (simp add: reset_machine_def)
  qed
  moreover obtain q where "find_by pck_id i (of_pickups s4) = Some q" "pck_status q = PK_COMPLETED" using s4(2) by (auto simp: workable_def)
  ultimately show ?thesis using s1(1) s2(1) s3(1) s4(1) by (intro exI [of _ s4] exI [of _ q]) simp
qed

section \<open>Concrete offices\<close>

definition sample_task :: pickup where
  "sample_task = \<lparr>pck_id = ''p1'', pck_machineId = Some ''m1'', pck_organizationId = ''o1'', pck_requestedById = Some ''a1'',
     pck_assignedCollectorId = Some ''u1'', pck_collectorPartnerId = Some ''k1'', pck_status = PK_ASSIGNED, pck_priority = 1, pck_reason = PR_FULL,
     pck_notes = None, pck_version = 1, pck_assignedAt = Some 5, pck_expectedStartAt = Some 50, pck_lastEscalatedAt = None,
     pck_closedReason = None, pck_replacesPickupId = None, pck_createdAt = 1\<rparr>"

definition sample_office :: office where
  "sample_office = \<lparr>of_db = sample_db\<lparr>pickups := [sample_task]\<rparr>,
     of_staff = [\<lparr>stf_userId = ''u1'', stf_role = PENGEPUL, stf_organizationId = None\<rparr>, \<lparr>stf_userId = ''a1'', stf_role = ADMIN, stf_organizationId = Some ''o1''\<rparr>],
     of_partners = [\<lparr>par_id = ''k1'', par_organizationId = ''o1'', par_collectorUserId = ''u1'', par_status = PS_ACTIVE\<rparr>],
     of_items = [], of_log = []\<rparr>"

definition sample_collector :: actor where
  "sample_collector = \<lparr>act_id = ''u1'', act_role = PENGEPUL, act_organizationId = None\<rparr>"

definition start_body :: patch_input where
  "start_body = \<lparr>pa_action = Act_start, pa_collectorUserId = None, pa_expectedVersion = Some (JNum (of_int 1) (show_int 1)),
     pa_expectedStartAt = None, pa_reason = None, pa_notes = None\<rparr>"

lemma sample_keys: "pickup_keys sample_office"
  by (simp add: pickup_keys_def sample_office_def uniq_def)

lemma sample_newId: "inj (w_newId audit_sample)"
  by (rule injI) (simp add: audit_sample_def sample_world_def world.defs)

lemma sample_find: "find_by pck_id ''p1'' (of_pickups sample_office) = Some sample_task"
  by (simp add: sample_office_def sample_task_def)

lemma sample_workable: "workable audit_sample sample_collector ''p1'' PK_ASSIGNED 4 sample_office"
  using sample_keys sample_newId sample_find
  by (simp add: workable_def fresh_log_def sample_collector_def)
    (simp add: sample_office_def sample_task_def lockedPartnership_def sample_db_def sample_machine_def int4_def)

lemma sample_start: "\<exists>q ns s'. patch_pickup (\<lambda>_. False) audit_sample sample_office sample_collector ''p1'' start_body sample_office = Inr ((q, ns), s')"
proof -
  have "hd (rule_from (RULES Act_start)) = PK_ASSIGNED" by (simp add: field_rule_def)
  then obtain s' where "client_step audit_sample sample_collector ''p1'' Act_start sample_office = Inr s'"
    using client_step_runs [OF audit_sample_secret, of Act_start 4 sample_collector "''p1''" sample_office] sample_workable
    by (auto simp: forward_def)
  then show ?thesis
    using sample_find by (auto simp: client_step_def readImmutable_def rbind_Inr_iff sample_task_def start_body_def)
qed

lemma sample_start_step:
  assumes "patch_pickup (\<lambda>_. False) audit_sample sample_office sample_collector ''p1'' start_body sample_office = Inr (x, s')"
  shows "dispatch_run audit_sample sample_office s'"
  using step_patch [OF _ assms, of audit_sample] by (auto simp: same_signer_def)

text \<open>An office without tasks, and a request for its machine.\<close>

definition empty_office :: office where
  "empty_office = set_db sample_db sample_office"

definition sample_dispatcher :: actor where
  "sample_dispatcher = \<lparr>act_id = ''a1'', act_role = ADMIN, act_organizationId = Some ''o1''\<rparr>"

definition machine_request :: create_input where
  "machine_request = \<lparr>ci_machineId = Some ''m1'', ci_organizationId = None, ci_reason = PR_MANUAL, ci_priority = None, ci_notes = None, ci_replacesPickupId = None\<rparr>"

lemma empty_office_new: "new_office empty_office"
  by (simp add: new_office_def empty_office_def sample_office_def sample_db_def empty_db_def legacy_log_def decisions_def)

lemma machine_request_created:
  assumes "organizations (of_db s) = organizations sample_db" "machines (of_db s) = machines sample_db"
    and "\<not> list_ex (pickup_clash (new_pickup audit_sample s sample_dispatcher (Some ''m1'') ''o1'' PR_MANUAL 0 None None)) (of_pickups s)"
  shows "\<exists>p s'. post_pickup audit_sample empty_office sample_dispatcher machine_request s = Inr ((p, False), s')
    \<and> of_pickups s' = of_pickups s @ [p] \<and> pck_machineId p = Some ''m1'' \<and> pck_status p = PK_REQUESTED \<and> pck_id p = newId (world.truncate audit_sample) (of_db s)
    \<and> organizations (of_db s') = organizations (of_db s) \<and> machines (of_db s') = machines (of_db s) \<and> seq (of_db s') = Suc (seq (of_db s))"
proof -
  let ?p = "new_pickup audit_sample s sample_dispatcher (Some ''m1'') ''o1'' PR_MANUAL 0 None None"
  have org: "request_organization sample_dispatcher machine_request empty_office = Inr ''o1''"
    by (simp add: request_organization_def sample_dispatcher_def machine_request_def empty_office_def given_def assertOrgScope_def)
      (simp add: sample_db_def sample_machine_def assertOrgScope_def)
  have "pickup_refs ?p s" using assms(1,2) by (simp add: pickup_refs_def new_pickup_def) (simp add: sample_db_def sample_machine_def)
  moreover have "pickup_ok ?p" by (simp add: pickup_ok_def new_pickup_def int4_def)
  ultimately have "create_pickup ?p s = Inr (set_db (bump_seq ((of_db s)\<lparr>pickups := of_pickups s @ [?p]\<rparr>)) s)"
    using assms(3) by (simp add: create_pickup_def create_row_def)
  moreover have "of_pickups empty_office = []" by (simp add: empty_office_def sample_db_def empty_db_def)
  ultimately have "post_pickup audit_sample empty_office sample_dispatcher machine_request s = Inr ((?p, False),
      (set_db (bump_seq ((of_db s)\<lparr>pickups := of_pickups s @ [?p]\<rparr>)) s)\<lparr>of_log := logAudit audit_sample (create_audit sample_dispatcher ?p (Some ''m1'')) (of_log s)\<rparr>)"
    unfolding post_pickup_def org
    by (simp add: require_role_def sample_dispatcher_def machine_request_def given_def set_db_def Let_def)
  then show ?thesis by (auto simp: new_pickup_def bump_seq_def)
qed

lemma sample_created:
  "\<exists>p s'. post_pickup audit_sample empty_office sample_dispatcher machine_request empty_office = Inr ((p, False), s')
    \<and> of_pickups s' = [p] \<and> pck_machineId p = Some ''m1'' \<and> pck_status p = PK_REQUESTED \<and> pck_id p = newId (world.truncate audit_sample) sample_db
    \<and> organizations (of_db s') = organizations sample_db \<and> machines (of_db s') = machines sample_db \<and> seq (of_db s') = Suc (seq sample_db)"
proof -
  have "of_pickups empty_office = []" "of_db empty_office = sample_db" by (simp_all add: empty_office_def sample_db_def empty_db_def)
  then show ?thesis using machine_request_created [of empty_office] by simp
qed

text \<open>
  The request reads the machine's open tasks before it creates its own, without a lock or a transaction: of two
  requests that read the same state, both create a task for the machine.
\<close>

lemma two_requests_open_two_tasks:
  "\<exists>p s1 q s2. post_pickup audit_sample empty_office sample_dispatcher machine_request empty_office = Inr ((p, False), s1)
    \<and> post_pickup audit_sample empty_office sample_dispatcher machine_request s1 = Inr ((q, False), s2)
    \<and> length (filter (open_pickup ''m1'') (of_pickups s2)) = 2"
proof -
  obtain p s1 where p: "post_pickup audit_sample empty_office sample_dispatcher machine_request empty_office = Inr ((p, False), s1)"
    "of_pickups s1 = [p]" "pck_machineId p = Some ''m1''" "pck_status p = PK_REQUESTED" "pck_id p = newId (world.truncate audit_sample) sample_db"
    "organizations (of_db s1) = organizations sample_db" "machines (of_db s1) = machines sample_db" "seq (of_db s1) = Suc (seq sample_db)"
    using sample_created by blast
  have "\<not> list_ex (pickup_clash (new_pickup audit_sample s1 sample_dispatcher (Some ''m1'') ''o1'' PR_MANUAL 0 None None)) (of_pickups s1)"
    by (simp add: p(2,5,8) pickup_clash_def new_pickup_def newId_def) (simp add: world.defs audit_sample_def sample_world_def)
  from machine_request_created [OF p(6,7) this] p show ?thesis
    by (fastforce simp: open_pickup_def PICKUP_OPEN_def)
qed

section \<open>The properties\<close>

text \<open>
  C13: tasks follow the life cycle. Whatever happens, in any order and on any earlier readings (requests of
  collectors and admins, escalations, replacements, machine events), a task keeps its id, machine,
  organization, requester, priority, reason, link and time; its version grows by one with each
  edge of the life cycle it takes, and by nothing else; and a completed, cancelled or failed task never changes
  again.
\<close>

theorem tasks_follow_the_life_cycle:
  assumes "pickup_keys s" "dispatch_run w s s'" "find_by pck_id i (of_pickups s) = Some p"
  shows "\<exists>q n. find_by pck_id i (of_pickups s') = Some q \<and> same_task p q \<and> pck_version q = pck_version p + int n
    \<and> (pck_status p, pck_status q) \<in> {(a, b). pickup_edge a b} ^^ n \<and> (pck_status p \<in> set PICKUP_TERMINAL \<longrightarrow> q = p)"
proof -
  obtain q where q: "find_by pck_id i (of_pickups s') = Some q" "progress p q" by (rule run_progress [OF assms])
  then obtain n where "same_task p q" "pck_version q = pck_version p + int n" "(pck_status p, pck_status q) \<in> edges ^^ n"
    by (auto simp: progress_def)
  then show ?thesis using q progress_terminal [OF q(2)] unfolding edges_def by blast
qed

theorem tasks_follow_the_life_cycle_witness:
  "\<exists>s' q n. find_by pck_id ''p1'' (of_pickups s') = Some q \<and> s' \<noteq> sample_office \<and> pck_version q = 1 + int n
    \<and> (PK_ASSIGNED, pck_status q) \<in> {(a, b). pickup_edge a b} ^^ n"
proof -
  obtain q ns s' where run: "patch_pickup (\<lambda>_. False) audit_sample sample_office sample_collector ''p1'' start_body sample_office = Inr ((q, ns), s')"
    using sample_start by blast
  obtain p where p: "find_by pck_id ''p1'' (of_pickups sample_office) = Some p" "find_by pck_id ''p1'' (of_pickups s') = Some q" "pck_version q = pck_version p + 1"
    by (rule patch_row [OF sample_keys run])
  then have "s' \<noteq> sample_office" by auto
  then show ?thesis using tasks_follow_the_life_cycle [OF sample_keys sample_start_step [OF run] sample_find]
    by (auto simp: sample_task_def)
qed

text \<open>
  C12: of the decisions that carry one version of a task, at most one succeeds. After a request with an
  expected version succeeded, a request of anyone, for any action, with the same expected version is refused in
  every later state.
\<close>

theorem one_decision_per_version:
  assumes "pickup_keys s" "same_signer w w1" "patch_pickup dt w1 before actr i body s = Inr ((q, ns), s1)" "pa_expectedVersion body = Some v"
    and "dispatch_run w s1 s2" "pa_expectedVersion body' = Some v"
  shows "patch_pickup dt' w2 before' actr' i body' s2 \<noteq> Inr x"
proof
  assume again: "patch_pickup dt' w2 before' actr' i body' s2 = Inr x"
  obtain p :: pickup where p: "find_by pck_id i (of_pickups s1) = Some q" "pck_version q = pck_version p + 1" and parse: "parseExpectedVersion (Some v) = Inr (pck_version p)"
    using patch_version [OF assms(1,3,4)] by blast
  have keys1: "pickup_keys s1" by (rule change_keys [OF patch_change [OF assms(1-3)] assms(1)])
  have keys2: "pickup_keys s2" by (rule changes_keys [OF run_changes [OF keys1 assms(5)] keys1])
  obtain q' where q': "find_by pck_id i (of_pickups s2) = Some q'" "progress q q'" by (rule run_progress [OF keys1 assms(5) p(1)])
  obtain r ns' s3 where x: "x = ((r, ns'), s3)" by (metis surj_pair)
  obtain p' where "find_by pck_id i (of_pickups s2) = Some p'" "parseExpectedVersion (Some v) = Inr (pck_version p')"
    using patch_version [OF keys2 again [unfolded x] assms(6)] by blast
  then show False using p q' progress_version [OF q'(2)] parse by simp
qed

theorem one_decision_per_version_witness:
  "\<exists>q ns s1. patch_pickup (\<lambda>_. False) audit_sample sample_office sample_collector ''p1'' start_body sample_office = Inr ((q, ns), s1)
    \<and> (\<forall>x. patch_pickup (\<lambda>_. False) audit_sample sample_office sample_collector ''p1'' start_body s1 \<noteq> Inr x)"
proof -
  obtain q ns s1 where run: "patch_pickup (\<lambda>_. False) audit_sample sample_office sample_collector ''p1'' start_body sample_office = Inr ((q, ns), s1)"
    using sample_start by blast
  have "patch_pickup (\<lambda>_. False) audit_sample sample_office sample_collector ''p1'' start_body s1 \<noteq> Inr x" for x
    by (rule one_decision_per_version [OF sample_keys _ run, of audit_sample "JNum (of_int 1) (show_int 1)"])
      (simp_all add: same_signer_def start_body_def)
  then show ?thesis using run by blast
qed

text \<open>
  C17: a version of a task is escalated at most once. If one run of the escalation reports a task and version, no run
  after it, from whatever request or script, at whatever time, reports the same pair again.
\<close>

theorem escalated_once_per_version:
  assumes "pickup_keys s" "same_signer w w1" "escalateOverduePickups w1 org ids limit now s = (es, e, s1)" "(x, ns) \<in> set es"
    and "dispatch_run w s1 s2" "same_signer w w2" "escalateOverduePickups w2 org' ids' limit' now' s2 = (es', e', s3)" "(x', ns') \<in> set es'"
  shows "(es_pickupId x', es_version x') \<noteq> (es_pickupId x, es_version x)"
proof -
  obtain t cs where each: "escalate_each w1 t cs s = (es, e, s1)" using assms(3) by (auto simp: escalateOverduePickups_def Let_def)
  obtain t' cs' where each': "escalate_each w2 t' cs' s2 = (es', e', s3)" using assms(7) by (auto simp: escalateOverduePickups_def Let_def)
  have keys1: "pickup_keys s1" by (rule changes_keys [OF escalate_each_changes [OF assms(2,1) each] assms(1)])
  have run: "office_changes w s1 s2" by (rule run_changes [OF keys1 assms(5)])
  have "escalated_at (es_pickupId x) (es_version x) s2"
    using escalated_changes [OF run] each_escalated [OF assms(2,1) each assms(4)] by blast
  then show ?thesis using each_escalated [OF assms(6) changes_keys [OF run keys1] each' assms(8)] by auto
qed

theorem escalated_once_per_version_witness:
  "\<exists>es e s1. escalateOverduePickups audit_sample None None None (Some 100) sample_office = (es, e, s1) \<and> es \<noteq> []
    \<and> (\<forall>x ns x' ns' es' e' s2. (x, ns) \<in> set es \<and> escalateOverduePickups audit_sample None None None (Some 200) s1 = (es', e', s2) \<and> (x', ns') \<in> set es'
        \<longrightarrow> (es_pickupId x', es_version x') \<noteq> (es_pickupId x, es_version x))"
proof -
  have cs: "escalation_candidates 100 None None 50 sample_office = [sample_task]"
    by (simp add: escalation_candidates_def sample_office_def overdue_def given_def) (simp add: sample_task_def)
  let ?s = "set_db (committed (of_db sample_office)) sample_office"
  have upd: "update_pickups (\<lambda>p. pck_id p = pck_id sample_task \<and> pck_version p = pck_version sample_task \<and> overdue 100 p) (\<lambda>p. p\<lparr>pck_lastEscalatedAt := Some 100\<rparr>) ?s
      = Inr (1, set_db ((of_db ?s)\<lparr>pickups := upd_by pck_id ''p1'' (\<lambda>_. sample_task\<lparr>pck_lastEscalatedAt := Some 100\<rparr>) (of_pickups ?s)\<rparr>) ?s)"
    using sample_find by (intro update_pickups_succeeds committed_keys [OF sample_keys])
      (simp_all add: sample_task_def overdue_def pickup_ok_def int4_def)
  have "fresh_log audit_sample (of_log (set_db d ?s))" for d using sample_newId by (simp add: fresh_log_def sample_office_def)
  then obtain s0 where "office_audit audit_sample (escalation_audit audit_sample sample_task)
      (set_db ((of_db ?s)\<lparr>pickups := upd_by pck_id ''p1'' (\<lambda>_. sample_task\<lparr>pck_lastEscalatedAt := Some 100\<rparr>) (of_pickups ?s)\<rparr>) ?s) = Inr s0"
    using audit_succeeds [OF audit_sample_secret] by blast
  then have "claim_escalation audit_sample 100 sample_task ?s = Inr (True, s0)"
    unfolding claim_escalation_def upd by simp
  then obtain es e s1 where run: "escalateOverduePickups audit_sample None None None (Some 100) sample_office = (es, e, s1)" "es \<noteq> []"
    by (simp add: escalateOverduePickups_def cs office_transaction_def Let_def)
  have same: "same_signer audit_sample audit_sample" by (simp add: same_signer_def)
  have "(es_pickupId x', es_version x') \<noteq> (es_pickupId x, es_version x)"
    if "(x, ns) \<in> set es" "escalateOverduePickups audit_sample None None None (Some 200) s1 = (es', e', s2)" "(x', ns') \<in> set es'" for x ns x' ns' es' e' s2
    by (rule escalated_once_per_version [OF sample_keys same run(1) that(1) rtranclp.rtrancl_refl same that(2,3)])
  then show ?thesis using run by blast
qed

text \<open>
  C14: every decision is in the audit log. From a deployment without tasks, on an archive without such entries, after
  any run the version of every task is the number of log rows that record a decision about it, no row
  records a decision about a task that does not exist, and the log verifies.
\<close>

theorem every_decision_is_audited:
  assumes "getAuditSecret w = Inr secret" "new_office s" "dispatch_run w s s'" "0 < n"
  shows "(\<forall>i. int (length (filter (decision_of i) (of_log s'))) = (case find_by pck_id i (of_pickups s') of None \<Rightarrow> 0 | Some p \<Rightarrow> pck_version p))
    \<and> (\<exists>v. verifyAuditChain w n (of_log s') = Some (Inr v) \<and> cv_broken v = None)"
  using dispatch_invD(5) [OF dispatch.reachable_inv [OF assms(2,3)]] run_log [OF assms] unfolding decisions_def by blast

theorem every_decision_is_audited_witness:
  "\<exists>p s'. dispatch_run audit_sample empty_office s' \<and> of_pickups s' = [p]
    \<and> int (length (filter (decision_of (pck_id p)) (of_log s'))) = pck_version p
    \<and> (\<exists>v. verifyAuditChain audit_sample 3 (of_log s') = Some (Inr v) \<and> cv_broken v = None)"
proof -
  obtain p s' where p: "post_pickup audit_sample empty_office sample_dispatcher machine_request empty_office = Inr ((p, False), s')" "of_pickups s' = [p]"
    using sample_created by blast
  have run: "dispatch_run audit_sample empty_office s'" using step_post [OF _ p(1), of audit_sample] by (auto simp: same_signer_def)
  have "(0 :: nat) < 3" by simp
  from every_decision_is_audited [OF audit_sample_secret empty_office_new run this] p(2) run show ?thesis
    by (intro exI [of _ p] exI [of _ s']) simp
qed

text \<open>
  C18: closed tasks and their replacements. In every state a deployment reaches, a cancelled or failed task has a
  reason of 3 to 500 characters, only such tasks are replaced, and no task has two replacements.
\<close>

theorem closed_tasks_are_replaced_once:
  assumes "new_office s" "dispatch_run w s s'" "p \<in> set (of_pickups s')"
  shows "(pck_status p \<in> set PICKUP_REPLACEABLE \<longrightarrow> (\<exists>r. pck_closedReason p = Some r \<and> 3 \<le> length r \<and> length r \<le> 500))
    \<and> (\<forall>i. pck_replacesPickupId p = Some i \<longrightarrow>
        (\<exists>q. find_by pck_id i (of_pickups s') = Some q \<and> pck_status q \<in> set PICKUP_REPLACEABLE)
        \<and> (\<forall>q \<in> set (of_pickups s'). pck_replacesPickupId q = Some i \<longrightarrow> q = p))"
  using dispatch_invD(2-4) [OF dispatch.reachable_inv [OF assms(1,2)]] assms(3) by (fastforce simp: valid_reason_def split: option.splits)

theorem closed_tasks_are_replaced_once_witness:
  "\<exists>p s'. dispatch_run audit_sample empty_office s' \<and> of_pickups s' = [p]
    \<and> (pck_status p \<in> set PICKUP_REPLACEABLE \<longrightarrow> (\<exists>r. pck_closedReason p = Some r \<and> 3 \<le> length r \<and> length r \<le> 500))"
proof -
  obtain p s' where p: "post_pickup audit_sample empty_office sample_dispatcher machine_request empty_office = Inr ((p, False), s')" "of_pickups s' = [p]"
    using sample_created by blast
  have run: "dispatch_run audit_sample empty_office s'" using step_post [OF _ p(1), of audit_sample] by (auto simp: same_signer_def)
  have "p \<in> set (of_pickups s')" using p(2) by simp
  from closed_tasks_are_replaced_once [OF empty_office_new run this] p(2) run show ?thesis by blast
qed

text \<open>
  C15: who decides. A decision that succeeds was made by a superadmin, by an admin of the task's
  organization (who assigns or cancels), or by the collector the task is assigned to at that moment, with a partnership
  active at that moment (who starts, arrives, collects, completes or fails); and the collector of an
  assignment is an active collector with an active partnership. This holds whatever earlier state the
  checks outside the transaction have read.
\<close>

theorem decisions_have_authority:
  assumes "pickup_keys before" "dispatch_run w0 before s" "pickup_keys s" "patch_pickup dt w before actr i body s = Inr ((q, ns), s')"
  shows "\<exists>p. find_by pck_id i (of_pickups s) = Some p
    \<and> (act_role actr = SUPERADMIN
       \<or> act_role actr = ADMIN \<and> act_organizationId actr = Some (pck_organizationId p) \<and> pa_action body \<in> {Act_assign, Act_cancel}
       \<or> act_role actr = PENGEPUL \<and> pck_assignedCollectorId p = Some (act_id actr) \<and> active_partner (act_id actr) (pck_organizationId p) s
          \<and> pa_action body \<notin> {Act_assign, Act_cancel})
    \<and> (pa_action body = Act_assign \<longrightarrow> (\<exists>c. pck_assignedCollectorId q = Some c \<and> user_active c s \<and> role_of c s = Some PENGEPUL
          \<and> active_partner c (pck_organizationId p) s))"
proof (cases "pa_action body = Act_assign")
  case True
  then obtain inp where inp: "assignPickup dt w before actr i inp s = Inr ((q, ns), s')"
    using assms(4) by (auto simp: patch_pickup_def rbind_Inr_iff split: if_splits option.splits)
  show ?thesis by (rule assign_authority [OF assms(3,1,2) inp]) (use True locked_active in blast)
next
  case False
  define inp where "inp = \<lparr>tr_action = pa_action body, tr_expectedVersion = pa_expectedVersion body, tr_reason = pa_reason body, tr_notes = pa_notes body\<rparr>"
  then have inp: "transitionPickup w before actr i inp s = Inr ((q, ns), s')" and a: "tr_action inp = pa_action body"
    using assms(4) False by (auto simp: patch_pickup_def rbind_Inr_iff)
  have "USER \<notin> set (pickupActionRoles act)" "ADMIN \<in> set (pickupActionRoles act) \<longleftrightarrow> act \<in> {Act_assign, Act_cancel}"
    "PENGEPUL \<in> set (pickupActionRoles act) \<longleftrightarrow> act \<notin> {Act_assign, Act_cancel}" for act
    by (cases act; simp add: pickupActionRoles_def field_rule_def admin_rule_def)+
  note roles = this [of "pa_action body"]
  show ?thesis
  proof (rule transition_authority [OF assms(3) inp])
    fix p assume p: "find_by pck_id i (of_pickups s) = Some p" "act_role actr \<in> set (pickupActionRoles (tr_action inp))"
      "act_role actr = PENGEPUL \<Longrightarrow> pck_assignedCollectorId p = Some (act_id actr) \<and> lockedPartnership (act_id actr) (pck_organizationId p) s \<noteq> None"
      "act_role actr = ADMIN \<Longrightarrow> act_organizationId actr = Some (pck_organizationId p)"
    then show ?thesis using roles a False locked_active by (cases "act_role actr") simp_all
  qed
qed

theorem decisions_have_authority_witness:
  "\<exists>q ns s'. patch_pickup (\<lambda>_. False) audit_sample sample_office sample_collector ''p1'' start_body sample_office = Inr ((q, ns), s')
    \<and> pck_assignedCollectorId sample_task = Some (act_id sample_collector) \<and> active_partner ''u1'' ''o1'' sample_office"
proof -
  obtain q ns s' where run: "patch_pickup (\<lambda>_. False) audit_sample sample_office sample_collector ''p1'' start_body sample_office = Inr ((q, ns), s')"
    using sample_start by blast
  from decisions_have_authority [OF sample_keys rtranclp.rtrancl_refl sample_keys run] run sample_find show ?thesis
    by (auto simp: sample_collector_def sample_task_def)
qed

text \<open>
  C16: an assigned task can be finished. If a task is assigned to a collector with an active partnership, the
  machine exists, the version has room for four more decisions and the log can be extended, then the four
  requests of the collector's client (start, arrive, collect, complete, each with the version just read)
  all succeed one after the other, the task is completed and the machine is empty and no longer full.
\<close>

theorem assigned_task_can_be_finished:
  assumes "getAuditSecret w = Inr secret" "act_role actr = PENGEPUL" "pickup_keys s" "find_by pck_id i (of_pickups s) = Some p"
    and "pck_status p = PK_ASSIGNED" "pck_assignedCollectorId p = Some (act_id actr)" "lockedPartnership (act_id actr) (pck_organizationId p) s \<noteq> None"
    and "0 \<le> pck_version p" "pck_version p + 4 \<le> 2147483647" "int4 (pck_priority p)"
    and "\<forall>m. pck_machineId p = Some m \<longrightarrow> find_by mac_id m (machines (of_db s)) \<noteq> None"
    and "inj (w_newId w)" "\<forall>r \<in> set (of_log s). \<exists>k < length (of_log s). au_id r = w_newId w k"
  shows "\<exists>s' q. client_steps w actr i [Act_start, Act_arrive, Act_collect, Act_complete] s = Inr s' \<and> find_by pck_id i (of_pickups s') = Some q
    \<and> pck_status q = PK_COMPLETED \<and> (\<forall>m. pck_machineId p = Some m \<longrightarrow>
        (\<exists>mac. find_by mac_id m (machines (of_db s')) = Some mac \<and> mac_fillLevelPercent mac = 0 \<and> mac_status mac \<noteq> MS_FULL))"
  by (rule client_steps_finish [OF assms(1) _ assms(4)]) (use assms in \<open>auto simp: workable_def fresh_log_def\<close>)

theorem assigned_task_can_be_finished_witness:
  "\<exists>s' q. client_steps audit_sample sample_collector ''p1'' [Act_start, Act_arrive, Act_collect, Act_complete] sample_office = Inr s'
    \<and> find_by pck_id ''p1'' (of_pickups s') = Some q \<and> pck_status q = PK_COMPLETED
    \<and> (\<exists>mac. find_by mac_id ''m1'' (machines (of_db s')) = Some mac \<and> mac_fillLevelPercent mac = 0 \<and> mac_status mac \<noteq> MS_FULL)"
proof -
  have "pck_machineId sample_task = Some ''m1''" by (simp add: sample_task_def)
  moreover have "\<exists>s' q. client_steps audit_sample sample_collector ''p1'' [Act_start, Act_arrive, Act_collect, Act_complete] sample_office = Inr s'
    \<and> find_by pck_id ''p1'' (of_pickups s') = Some q \<and> pck_status q = PK_COMPLETED \<and> (\<forall>m. pck_machineId sample_task = Some m \<longrightarrow>
        (\<exists>mac. find_by mac_id m (machines (of_db s')) = Some mac \<and> mac_fillLevelPercent mac = 0 \<and> mac_status mac \<noteq> MS_FULL))"
    by (rule assigned_task_can_be_finished [OF audit_sample_secret])
      (use sample_workable sample_find in \<open>auto simp: workable_def fresh_log_def\<close>)
  ultimately show ?thesis by auto
qed

end
