(* ===== verification/Spec2Isabelle.thy ===== *)
theory Spec2Isabelle
  imports Composition Trip Pickup_Props
begin

text \<open>
  \<^bold>\<open>Verification of the reward core, the audit log and the pickup dispatch of ReLoop.\<close>

  ReLoop pays people for waste they deposit in machines or bring back from trips. An organization puts
  cash into a funding account; a deposit session is admitted against it; a machine reports what happens as
  events; an accepted item earns money; a reviewer decides what a machine could not; the recipient asks for
  a payout. The development follows that path through \<^verbatim>\<open>src/lib\<close>, from the database rows to the batch
  endpoint of the machines, and shows that money is neither lost nor made on the way. Beside it stand the audit
  log, a chain of HMACs over every recorded action, and the dispatch of the collectors who empty
  the machines, whose every decision is such an action.

  \<^bold>\<open>How the program is modelled.\<close> The database is one record \<open>db\<close> (theory \<open>Schema\<close>) with a list of rows per table of
  \<^verbatim>\<open>src/prisma/schema.prisma\<close>, one record type per table and one datatype per enum. An operation is a function from
  the state to \<open>err + 'a \<times> db\<close>: an error aborts its transaction, so a failed operation has no state. Errors are
  values of \<open>err\<close> (\<open>Prelude\<close>) with the status and the text the code throws. \<open>create_row\<close>, \<open>update_row\<close>,
  \<open>find_by\<close> and \<open>upd_by\<close> are the Prisma calls, with unique indexes, the range of 32-bit columns and missing
  rows as errors. A \<open>world\<close> carries what a transaction reads from outside: the clock, the id generator, the
  environment, date parsing, encryption and SHA-256; nothing is assumed about them. Times are milliseconds. Row
  locks are recorded in the state in the order they are taken; the interleaving of transactions is
  the one the locks allow, so each transaction runs as a whole on the state it locked, and sequences of
  transactions are step relations closed under \<open>rtranclp\<close>. Prices are computed with IEEE doubles: \<open>Doubles\<close> defines
  the rounding of every product and quotient, and the bounds below hold for the rounded values. Loops over lists are
  structural recursion; the two loops that read the log in batches until a short batch comes are
  \<open>partial_function (option)\<close> and are shown to end. No fuel is used.

  \<^bold>\<open>Theories and what they model.\<close>

  \<^item> \<open>Prelude\<close>, \<open>Schema\<close>, \<open>Samples\<close>: results, tables (locale \<open>row_store\<close>, interpreted on the tables), invariants of
    step relations (locale \<open>invariant_system\<close>), retries, the data model, and small states for the witnesses.
  \<^item> \<open>Locks\<close>: \<^verbatim>\<open>db-locks.ts\<close> and the global lock order, with the absence of a wait cycle for orderly transactions.
  \<^item> \<open>Ledger\<close>: \<^verbatim>\<open>ledger.ts\<close>, balances, earn entries, reserves and their settlement.
  \<^item> \<open>Cutover\<close>: \<^verbatim>\<open>reward-legacy-cutover.ts\<close>.
  \<^item> \<open>Funding\<close>, \<open>Guards\<close>: \<^verbatim>\<open>reward-funding.ts\<close>, the reservations, commits, settlements, releases, cash entries and
    payout attribution (\<open>Funding\<close>), and exposures, closing, the guards of program changes and the
    report (\<open>Guards\<close>). \<open>Funding_Books\<close>, \<open>Funding_Steps\<close>, \<open>Funding_Payout\<close> prove that every operation keeps the
    books; \<open>Funding_Props\<close> and \<open>Guards_Props\<close> hold the properties; \<open>Frames\<close> says what funding leaves alone.
  \<^item> \<open>Credit\<close>, \<open>Credit_Props\<close>: \<^verbatim>\<open>reward-credit.ts\<close>, the one writer of reward effects and its reconciliation cases.
  \<^item> \<open>Json\<close>, \<open>Wallet\<close>, \<open>Wallet_Inv\<close>, \<open>Wallet_Props\<close>: \<^verbatim>\<open>wallet-service.ts\<close>, \<^verbatim>\<open>payout-destination.ts\<close>, \<^verbatim>\<open>reward-cases.ts\<close>,
    payout requests with their idempotency keys and their life cycle.
  \<^item> \<open>Doubles\<close>, \<open>Policy\<close>, \<open>Policy_Props\<close>: \<^verbatim>\<open>reward-policy.ts\<close>, \<^verbatim>\<open>reward.ts\<close>, \<^verbatim>\<open>session-policy.ts\<close>, what a deposit earns, the
    choice of a rate, and the price list fixed at admission.
  \<^item> \<open>Trip\<close>: the pure part of \<^verbatim>\<open>trip.ts\<close> and \<^verbatim>\<open>tourism.ts\<close>.
  \<^item> \<open>Deposits\<close>, \<open>Deposits_Props\<close>: \<^verbatim>\<open>deposit-session-service.ts\<close>, \<^verbatim>\<open>deposit-session-deadline.ts\<close>, \<^verbatim>\<open>machine-state.ts\<close>,
    \<^verbatim>\<open>campaign.ts\<close>, \<^verbatim>\<open>qr.ts\<close>: admission, resumption, the timeout policy, the owner's end, the machine's poll and lease.
  \<^item> \<open>Payload\<close>, \<open>Events\<close>, \<open>Ingest\<close>: \<^verbatim>\<open>machine-events/*.ts\<close> and the batch of \<^verbatim>\<open>src/app/api/machine-events/route.ts\<close>, from the
    JSON a machine sends to the answers it gets. \<open>Events_Props\<close> carries a preorder of safe changes through
    every handler (locale \<open>safe_runs\<close>, interpreted on \<open>event_safe\<close>); \<open>Machine_Props\<close> holds the properties.
  \<^item> \<open>Review\<close>, \<open>Review_Props\<close>: \<^verbatim>\<open>deposit-review.ts\<close>, \<^verbatim>\<open>deposit-review-contract.ts\<close>, the decision on a held item.
  \<^item> \<open>Audit_Log\<close>: \<^verbatim>\<open>audit.ts\<close>: redaction, the canonical text of a row, appends, the verifier and the reader of the archive in
    batches, the checkpoint command. \<open>Audit_Pages\<close> is the paging (locale \<open>paged_table\<close>, interpreted on the chain and on
    the archive); \<open>Audit_Props\<close> holds the properties.
  \<^item> \<open>Pickup\<close>: \<^verbatim>\<open>pickup.ts\<close>, \<^verbatim>\<open>pickup-dispatch.ts\<close> and the endpoints under \<^verbatim>\<open>src/app/api/pickups\<close>, on a state \<open>office\<close> of the
    database, the users' roles, the partnerships, the material records and the audit log. What an endpoint
    reads outside its transaction it reads in an earlier state, an argument of its own. \<open>Pickup_Steps\<close> shows every
    operation to be one of four changes, \<open>Pickup_Inv\<close> what they keep (locale \<open>invariant_system\<close>), \<open>Pickup_Props\<close> the properties.
  \<^item> \<open>Composition\<close>: all the services of the money path as steps of one relation on one database (locale \<open>invariant_system\<close> again), each
    step at its own time, with one invariant.

  \<^bold>\<open>What is shown.\<close>

  \<^item> Together: any interleaving of scans, machine events, reviews, payouts and cash entries keeps one active
    session per machine, the funding books balanced, and every wallet solvent and every payout backed.
  \<^item> Funding: the books balance in every reachable state; an enforced admission never promises more than
    the confirmed cash and the budget; commits, settlements, payouts and releases move exactly the stated amounts,
    once; a change of terms never raises what open sources can earn; the report equals the books.
  \<^item> Wallet: no sequence of operations overdraws a balance; a payout request takes its amount once; the
    payout transitions refine an abstract life cycle; a reward effect is applied once or refused into a case.
  \<^item> Sessions: one active session per machine; an admission holds the ceiling of its price list; the
    timeout policy closes exactly the overdue sessions, after every lease ran out; no item is stranded.
  \<^item> Machine events: any sequence of events keeps sessions, books and wallets in order; an item past the
    acceptance point is fixed; the acceptance point pays exactly the decision; an event is applied once; a batch keeps
    the order of a session and acknowledges only what is recorded; a fraud hold never overdraws; the
    close watermark keeps what reviews may still draw.
  \<^item> Review: a decision settles the item to the decided amount, is taken once, and approves only what
    passed the acceptance point or the fenced legacy exception.
  \<^item> Audit: every log the deployment writes verifies, whatever the batch size; two verifying logs with the same last
    checksum record the same events, or show an HMAC collision; the archive is checkpointed once.
  \<^item> Pickups: a version of a task takes at most one decision and one escalation; tasks follow the life cycle and stay
    closed; every decision has its authority at that moment and its row in a log that verifies; closed
    tasks have a reason and at most one replacement; an assigned task can be finished.
  \<^item> Policy: what an item earns by mode, weight, material and anomaly; prices stay under the caps of the price
    list, in double arithmetic; the list reads back and is determined by its canonical text.

  \<^bold>\<open>Not modelled.\<close> Rendering, HTTP plumbing and authentication (\<^verbatim>\<open>src/app\<close> but for the batch loop and the pickup
  endpoints, \<^verbatim>\<open>src/components\<close>), the mobile, kiosk and machine clients, mail, push and realtime messages, log lines and
  test hooks, which change no modelled table. Within the modelled files: the audit rows of the money path (they are
  appends as \<open>Audit_Log\<close> models them, of the kind \<open>step_other\<close> of the dispatch), the retry loop of a contended
  wallet transaction and its unique-violation backstop, the reconciliation text of a stale hold, the machine name in
  summaries, the \<^verbatim>\<open>source\<close> column of an item, the stored payload of an event, the row lock of a pickup (its
  transaction runs as a whole) and the bodies of notifications. A JSON object sent where a
  query expects a scalar is refused in the model; Prisma would first evaluate it as a filter. Still open are the erasure
  jobs, the trip endpoints and the reconciliation scripts.
\<close>

end
